(* ===== verification/GF_Prelude.thy ===== *)
theory GF_Prelude
  imports Complex_Main "HOL-Library.Char_ord" "HOL-Library.List_Lexorder" "HOL-Library.AList"
begin

text \<open>
  Shared vocabulary of the development. It models the Python values the scripts pass around
  (JSON values and dicts, truthiness, \<open>str\<close> methods), the relational statements the state
  journal issues (\<open>SELECT\<close>, \<open>UPDATE\<close>, \<open>INSERT\<close> over tables kept as row lists), and the
  error-or-value results of the code that can raise. The generic lemmas declared here are
  what the component theories rewrite with.
\<close>

named_theorems sql_simps \<open>rewriting of the table statements\<close>
named_theorems row_defs \<open>definitions unfolded when a handler is executed symbolically\<close>

section \<open>Python values\<close>

text \<open>
  A value decoded from JSON. Integers are unbounded as in Python; a float is the real number
  it denotes (rounding and the non-finite floats are not modelled). An object keeps its
  key/value pairs; the first pair with a key is the one \<open>get\<close> sees.
\<close>

datatype json =
    JNull
  | JBool bool
  | JInt int
  | JFloat real
  | JStr string
  | JList "json list"
  | JObj "(string \<times> json) list"

type_synonym dict = "(string \<times> json) list"

text \<open>\<open>d.get(k)\<close>: the value, or \<open>None\<close> when the key is missing.\<close>

definition jget :: "dict \<Rightarrow> string \<Rightarrow> json" where
  "jget d k = (case map_of d k of None \<Rightarrow> JNull | Some v \<Rightarrow> v)"

definition has_key :: "dict \<Rightarrow> string \<Rightarrow> bool" where
  "has_key d k \<longleftrightarrow> map_of d k \<noteq> None"

text \<open>\<open>d[k] = v\<close> and \<open>d.pop(k, None)\<close>.\<close>

definition jput :: "string \<Rightarrow> json \<Rightarrow> dict \<Rightarrow> dict" where
  "jput k v d = AList.update k v d"

definition jdel :: "string \<Rightarrow> dict \<Rightarrow> dict" where
  "jdel k d = AList.delete k d"

lemma jget_put [simp]: "jget (jput k v d) k' = (if k' = k then v else jget d k')"
  by (simp add: jget_def jput_def update_conv')

lemma has_key_put [simp]: "has_key (jput k v d) k' \<longleftrightarrow> k' = k \<or> has_key d k'"
  by (auto simp: has_key_def jput_def update_conv')

lemma jget_del [simp]: "jget (jdel k d) k' = (if k' = k then JNull else jget d k')"
  by (simp add: jget_def jdel_def delete_conv')

lemma has_key_del [simp]: "has_key (jdel k d) k' \<longleftrightarrow> k' \<noteq> k \<and> has_key d k'"
  by (auto simp: has_key_def jdel_def delete_conv')

text \<open>Python truthiness of a decoded value.\<close>

fun truthy :: "json \<Rightarrow> bool" where
  "truthy JNull = False"
| "truthy (JBool b) = b"
| "truthy (JInt i) = (i \<noteq> 0)"
| "truthy (JFloat r) = (r \<noteq> 0)"
| "truthy (JStr s) = (s \<noteq> [])"
| "truthy (JList xs) = (xs \<noteq> [])"
| "truthy (JObj d) = (d \<noteq> [])"

text \<open>\<open>a or b\<close> on values.\<close>

definition py_or :: "json \<Rightarrow> json \<Rightarrow> json" where
  "py_or a b = (if truthy a then a else b)"

definition is_str :: "json \<Rightarrow> bool" where
  "is_str v = (case v of JStr _ \<Rightarrow> True | _ \<Rightarrow> False)"

definition is_obj :: "json \<Rightarrow> bool" where
  "is_obj v = (case v of JObj _ \<Rightarrow> True | _ \<Rightarrow> False)"

section \<open>Strings\<close>

definition startswith :: "string \<Rightarrow> string \<Rightarrow> bool" where
  "startswith s p \<longleftrightarrow> take (length p) s = p"

text \<open>The ASCII whitespace that \<open>str.strip\<close> removes.\<close>

definition py_space :: "char \<Rightarrow> bool" where
  "py_space c \<longleftrightarrow> (let n = of_char c :: nat in n = 32 \<or> (9 \<le> n \<and> n \<le> 13) \<or> (28 \<le> n \<and> n \<le> 31))"

definition lstrip :: "string \<Rightarrow> string" where
  "lstrip s = dropWhile py_space s"

definition rstrip :: "string \<Rightarrow> string" where
  "rstrip s = rev (dropWhile py_space (rev s))"

definition strip :: "string \<Rightarrow> string" where
  "strip s = rstrip (lstrip s)"

definition ascii_digit :: "char \<Rightarrow> bool" where
  "ascii_digit c \<longleftrightarrow> 48 \<le> (of_char c :: nat) \<and> (of_char c :: nat) \<le> 57"

definition ascii_letter :: "char \<Rightarrow> bool" where
  "ascii_letter c \<longleftrightarrow> (CHR ''a'' \<le> c \<and> c \<le> CHR ''z'') \<or> (CHR ''A'' \<le> c \<and> c \<le> CHR ''Z'')"

definition lower_hex :: "char \<Rightarrow> bool" where
  "lower_hex c \<longleftrightarrow> ascii_digit c \<or> (CHR ''a'' \<le> c \<and> c \<le> CHR ''f'')"

lemma startswith_refl [simp]: "startswith s s"
  by (simp add: startswith_def)

lemma startswith_append [simp]: "startswith (p @ s) p"
  by (simp add: startswith_def)

lemma strip_Nil [simp]: "strip [] = []"
  by (simp add: strip_def rstrip_def lstrip_def)

lemma set_dropWhile_sub: "set (dropWhile P xs) \<subseteq> set xs"
  by (induction xs) auto

lemma set_strip: "set (strip s) \<subseteq> set s"
proof -
  have "set (rstrip t) \<subseteq> set t" for t
    using set_dropWhile_sub [of py_space "rev t"] by (simp add: rstrip_def)
  moreover have "set (lstrip t) \<subseteq> set t" for t
    by (simp add: lstrip_def set_dropWhile_sub)
  ultimately show ?thesis
    unfolding strip_def by blast
qed

section \<open>Tables as row lists\<close>

text \<open>
  A table is the list of its rows in rowid order. \<open>UPDATE ... WHERE p\<close> rewrites the matching
  rows and reports how many matched; \<open>SELECT ... WHERE p\<close> followed by \<open>fetchone()\<close> is the
  first matching row, or \<open>None\<close>.
\<close>

definition sql_update :: "('r \<Rightarrow> bool) \<Rightarrow> ('r \<Rightarrow> 'r) \<Rightarrow> 'r list \<Rightarrow> 'r list" where
  "sql_update p f rs = map (\<lambda>r. if p r then f r else r) rs"

definition sql_rowcount :: "('r \<Rightarrow> bool) \<Rightarrow> 'r list \<Rightarrow> nat" where
  "sql_rowcount p rs = length (filter p rs)"

definition sql_fetchone :: "('r \<Rightarrow> bool) \<Rightarrow> 'r list \<Rightarrow> 'r option" where
  "sql_fetchone p rs = find p rs"

definition sql_exists :: "('r \<Rightarrow> bool) \<Rightarrow> 'r list \<Rightarrow> bool" where
  "sql_exists p rs \<longleftrightarrow> list_ex p rs"

text \<open>\<open>SELECT COALESCE(MAX(f), d) FROM ... WHERE p\<close>.\<close>

definition sql_max :: "('r \<Rightarrow> bool) \<Rightarrow> ('r \<Rightarrow> nat) \<Rightarrow> nat \<Rightarrow> 'r list \<Rightarrow> nat" where
  "sql_max p f d rs = (case filter p rs of [] \<Rightarrow> d | r # rest \<Rightarrow> foldr (\<lambda>x m. max (f x) m) rest (f r))"

lemma set_sql_update: "set (sql_update p f rs) = (\<lambda>r. if p r then f r else r) ` set rs"
  by (simp add: sql_update_def)

lemma length_sql_update [simp, sql_simps]: "length (sql_update p f rs) = length rs"
  by (simp add: sql_update_def)

lemma sql_update_Nil [simp, sql_simps]: "sql_update p f [] = []"
  by (simp add: sql_update_def)

lemma sql_update_none: "(\<And>r. r \<in> set rs \<Longrightarrow> \<not> p r) \<Longrightarrow> sql_update p f rs = rs"
  by (induction rs) (auto simp: sql_update_def)

lemma map_sql_update_same:
  "(\<And>r. r \<in> set rs \<Longrightarrow> p r \<Longrightarrow> g (f r) = g r) \<Longrightarrow> map g (sql_update p f rs) = map g rs"
  by (auto simp: sql_update_def)

lemma sql_fetchone_SomeD: "sql_fetchone p rs = Some r \<Longrightarrow> r \<in> set rs \<and> p r"
  by (auto simp: sql_fetchone_def find_Some_iff)

lemma sql_fetchone_None_iff: "sql_fetchone p rs = None \<longleftrightarrow> (\<forall>r \<in> set rs. \<not> p r)"
  by (auto simp: sql_fetchone_def find_None_iff)

lemma sql_fetchone_unique:
  assumes "r \<in> set rs" "p r" "\<And>x. x \<in> set rs \<Longrightarrow> p x \<Longrightarrow> x = r"
  shows "sql_fetchone p rs = Some r"
proof (cases "sql_fetchone p rs")
  case None
  with assms(1,2) show ?thesis by (auto simp: sql_fetchone_None_iff)
next
  case (Some x)
  with assms(3) show ?thesis by (auto dest: sql_fetchone_SomeD)
qed

lemma sql_exists_iff [sql_simps]: "sql_exists p rs \<longleftrightarrow> (\<exists>r \<in> set rs. p r)"
  by (simp add: sql_exists_def list_ex_iff)

lemma sql_rowcount_pos: "r \<in> set rs \<Longrightarrow> p r \<Longrightarrow> sql_rowcount p rs \<noteq> 0"
  by (auto simp: sql_rowcount_def filter_empty_conv)

lemma sql_rowcount_0_iff: "sql_rowcount p rs = 0 \<longleftrightarrow> (\<forall>r \<in> set rs. \<not> p r)"
  by (auto simp: sql_rowcount_def filter_empty_conv)

lemma foldr_max_ge: "r \<in> set rs \<Longrightarrow> (f r :: nat) \<le> foldr (\<lambda>x m. max (f x) m) rs b"
  by (induction rs) auto

lemma foldr_max_base: "(b :: nat) \<le> foldr (\<lambda>x m. max (f x) m) rs b"
  by (induction rs) auto

lemma sql_max_ge: "r \<in> set rs \<Longrightarrow> p r \<Longrightarrow> f r \<le> sql_max p f d rs"
proof -
  assume a: "r \<in> set rs" "p r"
  then have r: "r \<in> set (filter p rs)" by simp
  show ?thesis
  proof (cases "filter p rs")
    case Nil
    with r show ?thesis by (metis empty_iff empty_set)
  next
    case (Cons x xs)
    with r have "r = x \<or> r \<in> set xs" by auto
    then show ?thesis
      by (auto simp: sql_max_def Cons foldr_max_base intro: foldr_max_ge)
  qed
qed

text \<open>Keyed tables: at most one row matches a predicate that pins the key.\<close>

lemma rowcount_le_1:
  assumes "distinct (map k rs)" "\<And>r. p r \<Longrightarrow> k r = c"
  shows "sql_rowcount p rs \<le> 1"
  using assms(1)
proof (induction rs)
  case Nil
  then show ?case by (simp add: sql_rowcount_def)
next
  case (Cons r rs)
  show ?case
  proof (cases "p r")
    case True
    have "\<forall>x \<in> set rs. \<not> p x"
    proof
      fix x assume x: "x \<in> set rs"
      show "\<not> p x"
      proof
        assume "p x"
        with assms(2) True have "k x = k r" by simp
        with x Cons.prems show False by (auto simp: rev_image_eqI)
      qed
    qed
    then have "filter p rs = []" by (simp add: filter_empty_conv)
    with True show ?thesis by (simp add: sql_rowcount_def)
  next
    case False
    with Cons show ?thesis by (simp add: sql_rowcount_def)
  qed
qed

lemma keyed_eq: "distinct (map k rs) \<Longrightarrow> x \<in> set rs \<Longrightarrow> y \<in> set rs \<Longrightarrow> k x = k y \<Longrightarrow> x = y"
  by (metis distinct_map inj_onD)

section \<open>Bounded tokens\<close>

text \<open>
  \<open>_IDENTITY_TOKEN_RE\<close>, \<open>_STATE_TOKEN_RE\<close> and the canonical text of a UUID, as full matches.
\<close>

definition identity_char :: "char \<Rightarrow> bool" where
  "identity_char c \<longleftrightarrow> ascii_letter c \<or> ascii_digit c \<or> c \<in> set ''._:@+-''"

definition state_char :: "char \<Rightarrow> bool" where
  "state_char c \<longleftrightarrow> ascii_letter c \<or> ascii_digit c \<or> c \<in> set ''_.-''"

fun identity_token :: "string \<Rightarrow> bool" where
  "identity_token [] = False"
| "identity_token (c # cs) = ((ascii_letter c \<or> ascii_digit c) \<and> list_all identity_char cs \<and> length cs \<le> 254)"

fun state_token :: "string \<Rightarrow> bool" where
  "state_token [] = False"
| "state_token (c # cs) = (ascii_letter c \<and> list_all state_char cs \<and> length cs \<le> 63)"

definition canonical_uuid :: "string \<Rightarrow> bool" where
  "canonical_uuid s \<longleftrightarrow> length s = 36 \<and>
     list_all (\<lambda>(i, c). if i \<in> {8, 13, 18, 23} then c = CHR ''-'' else lower_hex c)
       (zip [0..<36] s)"

lemma identity_token_nonempty: "identity_token s \<Longrightarrow> s \<noteq> []"
  by auto

text \<open>The wildcard recipient is not an identity token, so no controller label is ever it.\<close>

lemma star_not_identity_token: "\<not> identity_token ''*''"
  by (simp add: ascii_letter_def ascii_digit_def less_eq_char_def)

end
