(* ===== verification/GF_Time.thy ===== *)
theory GF_Time
  imports GF_Prelude
begin

text \<open>
  The part of Python's standard library the scripts use for timestamps and numbers:
  \<open>datetime.fromisoformat\<close> on the grammar documented for Python 3.10
  (\<open>YYYY-MM-DD[*HH[:MM[:SS[.fff[fff]]]][+HH:MM[:SS[.ffffff]]]]\<close>), \<open>isoformat\<close> for UTC instants,
  and \<open>float\<close> on decimal literals. An instant is the number of microseconds since the start of
  year 1, the proleptic Gregorian calendar \<open>datetime\<close> itself uses.
\<close>

section \<open>Calendar\<close>

definition leap_year :: "int \<Rightarrow> bool" where
  "leap_year y \<longleftrightarrow> y mod 4 = 0 \<and> (y mod 100 \<noteq> 0 \<or> y mod 400 = 0)"

definition days_before_year :: "int \<Rightarrow> int" where
  "days_before_year y = (y - 1) * 365 + (y - 1) div 4 - (y - 1) div 100 + (y - 1) div 400"

definition month_lengths :: "int \<Rightarrow> int list" where
  "month_lengths y = [31, if leap_year y then 29 else 28, 31, 30, 31, 30, 31, 31, 30, 31, 30, 31]"

definition days_in_month :: "int \<Rightarrow> nat \<Rightarrow> int" where
  "days_in_month y m = month_lengths y ! (m - 1)"

definition days_before_month :: "int \<Rightarrow> nat \<Rightarrow> int" where
  "days_before_month y m = sum_list (take (m - 1) (month_lengths y))"

definition ymd2ord :: "int \<Rightarrow> nat \<Rightarrow> int \<Rightarrow> int" where
  "ymd2ord y m d = days_before_year y + days_before_month y m + d"

definition valid_date :: "int \<Rightarrow> nat \<Rightarrow> int \<Rightarrow> bool" where
  "valid_date y m d \<longleftrightarrow> 1 \<le> y \<and> y \<le> 9999 \<and> 1 \<le> m \<and> m \<le> 12 \<and> 1 \<le> d \<and> d \<le> days_in_month y m"

text \<open>
  A parsed timestamp: the wall-clock instant and the offset from UTC, both in microseconds.
  Without an offset the value is naive.
\<close>

record datetime =
  dt_local :: int
  dt_offset :: "int option"

definition us_per_s :: int where "us_per_s = 1000000"
definition us_per_day :: int where "us_per_day = 86400 * us_per_s"

section \<open>Reading\<close>

fun digits_value :: "string \<Rightarrow> int \<Rightarrow> int option" where
  "digits_value [] acc = Some acc"
| "digits_value (c # cs) acc =
     (if ascii_digit c then digits_value cs (10 * acc + (int (of_char c) - 48)) else None)"

definition fixed_digits :: "nat \<Rightarrow> string \<Rightarrow> (int \<times> string) option" where
  "fixed_digits n s = (if length s < n then None
     else case digits_value (take n s) 0 of None \<Rightarrow> None | Some v \<Rightarrow> Some (v, drop n s))"

definition expect :: "char \<Rightarrow> string \<Rightarrow> string option" where
  "expect c s = (case s of [] \<Rightarrow> None | x # xs \<Rightarrow> if x = c then Some xs else None)"

text \<open>\<open>_parse_isoformat_date\<close>.\<close>

definition parse_date :: "string \<Rightarrow> (int \<times> string) option" where
  "parse_date s =
     (case fixed_digits 4 s of None \<Rightarrow> None | Some (y, s1) \<Rightarrow>
      (case expect CHR ''-'' s1 of None \<Rightarrow> None | Some s2 \<Rightarrow>
       (case fixed_digits 2 s2 of None \<Rightarrow> None | Some (m, s3) \<Rightarrow>
        (case expect CHR ''-'' s3 of None \<Rightarrow> None | Some s4 \<Rightarrow>
         (case fixed_digits 2 s4 of None \<Rightarrow> None | Some (d, s5) \<Rightarrow>
           if valid_date y (nat m) d then Some (ymd2ord y (nat m) d, s5) else None)))))"

text \<open>\<open>_parse_hh_mm_ss_ff\<close>: hours, then optional minutes, seconds and fraction, to microseconds.\<close>

definition parse_fraction :: "string \<Rightarrow> int option" where
  "parse_fraction s = (case s of
      [] \<Rightarrow> Some 0
    | c # cs \<Rightarrow>
        if c \<noteq> CHR ''.'' then None
        else if length cs = 6 then digits_value cs 0
        else if length cs = 3 then map_option (\<lambda>v. v * 1000) (digits_value cs 0)
        else None)"

definition clock_us :: "int \<Rightarrow> int \<Rightarrow> int \<Rightarrow> int \<Rightarrow> int option" where
  "clock_us h m s us =
     (if h < 24 \<and> m < 60 \<and> s < 60 then Some (((h * 60 + m) * 60 + s) * us_per_s + us) else None)"

definition parse_hms :: "string \<Rightarrow> int option" where
  "parse_hms t =
     (case fixed_digits 2 t of None \<Rightarrow> None | Some (h, t1) \<Rightarrow>
      if t1 = [] then clock_us h 0 0 0 else
      (case expect CHR '':'' t1 of None \<Rightarrow> None | Some t2 \<Rightarrow>
       (case fixed_digits 2 t2 of None \<Rightarrow> None | Some (m, t3) \<Rightarrow>
        if t3 = [] then clock_us h m 0 0 else
        (case expect CHR '':'' t3 of None \<Rightarrow> None | Some t4 \<Rightarrow>
         (case fixed_digits 2 t4 of None \<Rightarrow> None | Some (s, t5) \<Rightarrow>
          (case parse_fraction t5 of None \<Rightarrow> None | Some us \<Rightarrow> clock_us h m s us))))))"

text \<open>\<open>_parse_isoformat_time\<close>: the clock up to the first sign, then the offset.\<close>

definition split_tz :: "string \<Rightarrow> string \<times> string" where
  "split_tz t =
     (let sign = (if CHR ''-'' \<in> set t then CHR ''-'' else CHR ''+'')
      in (takeWhile (\<lambda>c. c \<noteq> sign) t, dropWhile (\<lambda>c. c \<noteq> sign) t))"

definition parse_offset :: "string \<Rightarrow> int option option" where
  "parse_offset z = (case z of
      [] \<Rightarrow> Some None
    | c # cs \<Rightarrow>
        if length cs \<in> {5, 8, 15} then
          (case parse_hms cs of None \<Rightarrow> None
           | Some us \<Rightarrow> Some (Some (if c = CHR ''-'' then - us else us)))
        else None)"

definition parse_time :: "string \<Rightarrow> (int \<times> int option) option" where
  "parse_time t =
     (case parse_hms (fst (split_tz t)) of None \<Rightarrow> None
      | Some us \<Rightarrow> (case parse_offset (snd (split_tz t)) of None \<Rightarrow> None | Some z \<Rightarrow> Some (us, z)))"

definition fromisoformat :: "string \<Rightarrow> datetime option" where
  "fromisoformat s =
     (case parse_date (take 10 s) of None \<Rightarrow> None
      | Some (ordinal, _) \<Rightarrow>
          if drop 11 s = [] then Some \<lparr>dt_local = ordinal * us_per_day, dt_offset = None\<rparr>
          else (case parse_time (drop 11 s) of None \<Rightarrow> None
                | Some (us, z) \<Rightarrow> Some \<lparr>dt_local = ordinal * us_per_day + us, dt_offset = z\<rparr>))"

text \<open>
  The instant of a timestamp when naive values are taken as UTC
  (\<open>parsed.replace(tzinfo=timezone.utc)\<close>).
\<close>

definition utc_instant :: "datetime \<Rightarrow> int" where
  "utc_instant d = dt_local d - (case dt_offset d of None \<Rightarrow> 0 | Some z \<Rightarrow> z)"

text \<open>\<open>s.replace("Z", "+00:00")\<close>, which every reader applies first.\<close>

definition replace_Z :: "string \<Rightarrow> string" where
  "replace_Z s = concat (map (\<lambda>c. if c = CHR ''Z'' then ''+00:00'' else [c]) s)"

section \<open>Writing\<close>

text \<open>\<open>_ord2ymd\<close>, cycle by cycle; the month is found by scanning the lengths.\<close>

fun month_scan :: "int list \<Rightarrow> nat \<Rightarrow> int \<Rightarrow> nat \<times> int" where
  "month_scan [] m n = (m, n)"
| "month_scan (l # ls) m n = (if n < l then (m, n) else month_scan ls (Suc m) (n - l))"

definition ord2ymd :: "int \<Rightarrow> int \<times> nat \<times> int" where
  "ord2ymd ordinal =
     (let n0 = ordinal - 1;
          n400 = n0 div 146097; n1 = n0 mod 146097;
          n100 = n1 div 36524; n2 = n1 mod 36524;
          n4 = n2 div 1461; n3 = n2 mod 1461;
          n1y = n3 div 365; n = n3 mod 365;
          y = n400 * 400 + 1 + n100 * 100 + n4 * 4 + n1y
      in if n1y = 4 \<or> n100 = 4 then (y - 1, 12, 31)
         else let (m, r) = month_scan (month_lengths y) 1 n in (y, m, r + 1))"

fun pad_digits :: "nat \<Rightarrow> nat \<Rightarrow> string" where
  "pad_digits 0 v = []"
| "pad_digits (Suc n) v = pad_digits n (v div 10) @ [char_of (48 + v mod 10 :: nat)]"

definition iso_date :: "int \<Rightarrow> string" where
  "iso_date ordinal = (case ord2ymd ordinal of (y, m, d) \<Rightarrow>
     pad_digits 4 (nat y) @ ''-'' @ pad_digits 2 m @ ''-'' @ pad_digits 2 (nat d))"

definition iso_clock :: "int \<Rightarrow> string" where
  "iso_clock secs = pad_digits 2 (nat (secs div 3600)) @ '':'' @ pad_digits 2 (nat (secs div 60 mod 60))
     @ '':'' @ pad_digits 2 (nat (secs mod 60))"

text \<open>\<open>isoformat(timespec="seconds")\<close> and \<open>timespec="microseconds"\<close> of a UTC instant.\<close>

definition iso_seconds :: "int \<Rightarrow> string" where
  "iso_seconds us = iso_date (us div us_per_day) @ ''T'' @ iso_clock (us mod us_per_day div us_per_s) @ ''+00:00''"

definition iso_micros :: "int \<Rightarrow> string" where
  "iso_micros us = iso_date (us div us_per_day) @ ''T'' @ iso_clock (us mod us_per_day div us_per_s)
     @ ''.'' @ pad_digits 6 (nat (us mod us_per_s)) @ ''+00:00''"

section \<open>Decimal literals\<close>

text \<open>
  \<open>float(text)\<close> for an optionally signed decimal literal with optional fraction and exponent.
  \<open>None\<close> is the \<open>ValueError\<close>. Digit-group underscores and the literals \<open>inf\<close>/\<open>nan\<close> are outside the
  model.
\<close>

definition split_sign :: "string \<Rightarrow> real \<times> string" where
  "split_sign s = (case s of [] \<Rightarrow> (1, [])
     | c # cs \<Rightarrow> if c = CHR ''-'' then (- 1, cs) else if c = CHR ''+'' then (1, cs) else (1, s))"

definition parse_exponent :: "string \<Rightarrow> real option" where
  "parse_exponent s = (case s of
      [] \<Rightarrow> Some 1
    | c # cs \<Rightarrow>
        if c = CHR ''e'' \<or> c = CHR ''E'' then
          (let (sg, ds) = split_sign cs in
           if ds = [] then None
           else map_option (\<lambda>v. if sg < 0 then 1 / 10 ^ nat v else 10 ^ nat v) (digits_value ds 0))
        else None)"

definition py_float :: "string \<Rightarrow> real option" where
  "py_float text =
     (let (sg, s) = split_sign (strip text);
          whole = takeWhile ascii_digit s; r1 = dropWhile ascii_digit s;
          dot = (r1 \<noteq> [] \<and> hd r1 = CHR ''.'');
          frac = (if dot then takeWhile ascii_digit (tl r1) else []);
          r2 = (if dot then dropWhile ascii_digit (tl r1) else r1)
      in if whole = [] \<and> frac = [] then None
         else case (digits_value whole 0, digits_value frac 0, parse_exponent r2) of
             (Some w, Some f, Some e) \<Rightarrow> Some (sg * (of_int w + of_int f / 10 ^ length frac) * e)
           | _ \<Rightarrow> None)"

section \<open>The two directions agree\<close>

lemma digits_value_snoc:
  "digits_value (cs @ [c]) acc =
     (case digits_value cs acc of None \<Rightarrow> None
      | Some v \<Rightarrow> if ascii_digit c then Some (10 * v + (int (of_char c) - 48)) else None)"
  by (induction cs arbitrary: acc) (auto split: option.splits)

lemma pad_digit_code: "(of_char (char_of (48 + v mod 10 :: nat) :: char) :: nat) = 48 + v mod 10"
proof -
  have "v mod 10 < 10" by simp
  then have "48 + v mod 10 < 256" by linarith
  then show ?thesis by simp
qed

lemma ascii_digit_pad: "ascii_digit (char_of (48 + v mod 10 :: nat))"
proof -
  have "v mod 10 < 10" by simp
  then show ?thesis unfolding ascii_digit_def pad_digit_code by linarith
qed

lemma length_pad_digits [simp]: "length (pad_digits n v) = n"
  by (induction n arbitrary: v) auto

lemma digits_value_pad: "digits_value (pad_digits n v) 0 = Some (int (v mod 10 ^ n))"
proof (induction n arbitrary: v)
  case 0
  then show ?case by simp
next
  case (Suc n)
  have c: "int (of_char (char_of (48 + v mod 10 :: nat) :: char)) = 48 + int (v mod 10)"
    using pad_digit_code [of v] by simp
  have "v mod (10 ^ Suc n) = 10 * (v div 10 mod 10 ^ n) + v mod 10"
    by (simp add: mod_mult2_eq mult.commute)
  with Suc c show ?case
    by (simp add: digits_value_snoc ascii_digit_pad)
qed

lemma fixed_digits_pad:
  "v < 10 ^ n \<Longrightarrow> fixed_digits n (pad_digits n v @ rest) = Some (int v, rest)"
  by (simp add: fixed_digits_def digits_value_pad)

end
