(* ===== verification/GF_States.thy ===== *)
theory GF_States
  imports GF_Time
begin

text \<open>
  The dispatch state vocabulary of \<open>scripts/goalflight_dispatch_states.py\<close>: which state strings
  are terminal, running, waiting for a person or provider limits; how raw spellings are
  normalised; and the retry decision for a limit record. A state argument is an arbitrary
  decoded value, as in the source, so every guard on its type is a branch here. \<open>Inl\<close> is the
  exception the code lets escape.
\<close>

datatype py_error = TypeError | ValueError | OverflowError

text \<open>\<open>x in frozenset\<close> and \<open>dict.get(x)\<close> hash \<open>x\<close>; lists and dicts raise.\<close>

definition hashable :: "json \<Rightarrow> bool" where
  "hashable v = (case v of JList _ \<Rightarrow> False | JObj _ \<Rightarrow> False | _ \<Rightarrow> True)"

definition str_in :: "json \<Rightarrow> string set \<Rightarrow> bool" where
  "str_in v S = (case v of JStr s \<Rightarrow> s \<in> S | _ \<Rightarrow> False)"

section \<open>The state sets\<close>

definition QUOTA_EXHAUSTED_STATE :: string where "QUOTA_EXHAUSTED_STATE = ''quota_exhausted''"
definition TRANSIENT_THROTTLE_STATE :: string where "TRANSIENT_THROTTLE_STATE = ''transient_throttle''"
definition LIMIT_UNKNOWN_STATE :: string where "LIMIT_UNKNOWN_STATE = ''limit_unknown''"
definition LEGACY_RATE_LIMITED_STATE :: string where "LEGACY_RATE_LIMITED_STATE = ''rate_limited''"

definition LIMIT_STATE_FOR_KIND :: "(string \<times> string) list" where
  "LIMIT_STATE_FOR_KIND =
     [(''exhausted'', QUOTA_EXHAUSTED_STATE), (''transient'', TRANSIENT_THROTTLE_STATE),
      (''unknown'', LIMIT_UNKNOWN_STATE)]"

definition LIMIT_KIND_FOR_STATE :: "(string \<times> string) list" where
  "LIMIT_KIND_FOR_STATE =
     [(QUOTA_EXHAUSTED_STATE, ''exhausted''), (TRANSIENT_THROTTLE_STATE, ''transient''),
      (LIMIT_UNKNOWN_STATE, ''unknown''), (LEGACY_RATE_LIMITED_STATE, ''unknown'')]"

definition LIMIT_TERMINAL_STATES :: "string set" where
  "LIMIT_TERMINAL_STATES = set (map fst LIMIT_KIND_FOR_STATE)"

definition SUCCESS_TERMINAL_RECORD_STATES :: "string set" where
  "SUCCESS_TERMINAL_RECORD_STATES = {''complete'', ''released''}"

definition FAILURE_TERMINAL_RECORD_STATES :: "string set" where
  "FAILURE_TERMINAL_RECORD_STATES =
     {''error'', ''failed'', ''blocked'', ''blocked_adapter_gate'', ''blocked_auth'',
      ''blocked_capacity'', ''blocked_completion_authority'', ''blocked_os_sandbox'',
      ''blocked_session_limit'', ''blocked_task_breadcrumb'', ''blocked_windows_dispatch'',
      ''inconclusive_timeout'', ''inconclusive_no_final'', ''worker_dead'', ''killed'',
      ''tool_timeout'', ''stalled'', ''remote_turn_silence'', ''failed_worktree'',
      ''controller_dead'', ''orphaned'', ''superseded'', ''withdrawn''} \<union> LIMIT_TERMINAL_STATES"

definition WEDGED_TERMINAL_RECORD_STATES :: "string set" where
  "WEDGED_TERMINAL_RECORD_STATES = {''idle_timeout'', ''wedged'', ''liveness_indeterminate''}"

definition TERMINAL_FAILURE_STATES :: "string set" where
  "TERMINAL_FAILURE_STATES = FAILURE_TERMINAL_RECORD_STATES \<union> WEDGED_TERMINAL_RECORD_STATES"

definition TERMINAL_STATES :: "string set" where
  "TERMINAL_STATES = SUCCESS_TERMINAL_RECORD_STATES \<union> TERMINAL_FAILURE_STATES"

definition SALVAGE_NEEDED_STATES :: "string set" where
  "SALVAGE_NEEDED_STATES = {''salvage_needed'', ''cleanup_needed''}"

definition ATTENTION_STATES :: "string set" where
  "ATTENTION_STATES = {''running_user_confirm'', ''awaiting_user_confirm'', ''awaiting_permission''}"

definition RUNNING_STATES :: "string set" where
  "RUNNING_STATES = {''queued'', ''starting'', ''running'', ''running_quiet'', ''waiting''}"

definition WORKER_STALLED_CANDIDATE_STATE :: string where
  "WORKER_STALLED_CANDIDATE_STATE = ''worker_stalled_candidate''"

definition DISPATCH_STATE_ALIASES :: "(string \<times> string) list" where
  "DISPATCH_STATE_ALIASES =
     [(''queued'', ''waiting''), (''waiting_capacity'', ''waiting''), (''handshaking'', ''starting''),
      (''idle_timeout'', ''inconclusive_timeout''), (''watcher_stopped'', ''running_quiet''),
      (LEGACY_RATE_LIMITED_STATE, LIMIT_UNKNOWN_STATE)]"

definition TERMINAL_ERROR_STATES :: "string set" where
  "TERMINAL_ERROR_STATES =
     {''error'', ''failed'', ''wedged'', ''tool_timeout'', ''stalled'', ''remote_turn_silence'',
      ''failed_worktree''}"

definition STATE_SEQ_RANKS :: "(string \<times> nat) list" where
  "STATE_SEQ_RANKS = [(''waiting'', 10), (''starting'', 20), (''running'', 30), (''running_quiet'', 40)]"

lemmas limit_defs = QUOTA_EXHAUSTED_STATE_def TRANSIENT_THROTTLE_STATE_def LIMIT_UNKNOWN_STATE_def
  LEGACY_RATE_LIMITED_STATE_def LIMIT_STATE_FOR_KIND_def LIMIT_KIND_FOR_STATE_def

lemmas state_set_defs = limit_defs LIMIT_TERMINAL_STATES_def SUCCESS_TERMINAL_RECORD_STATES_def
  FAILURE_TERMINAL_RECORD_STATES_def WEDGED_TERMINAL_RECORD_STATES_def TERMINAL_FAILURE_STATES_def
  TERMINAL_STATES_def SALVAGE_NEEDED_STATES_def ATTENTION_STATES_def RUNNING_STATES_def
  DISPATCH_STATE_ALIASES_def TERMINAL_ERROR_STATES_def STATE_SEQ_RANKS_def
  WORKER_STALLED_CANDIDATE_STATE_def

section \<open>Classification\<close>

definition normalize_dispatch_state :: "json \<Rightarrow> string option" where
  "normalize_dispatch_state state = (case state of
      JStr s \<Rightarrow>
        if s = [] then None
        else if startswith s ''blocked'' then Some ''blocked''
        else Some (case map_of DISPATCH_STATE_ALIASES s of None \<Rightarrow> s | Some a \<Rightarrow> a)
    | _ \<Rightarrow> None)"

definition is_attention_state :: "json \<Rightarrow> bool" where
  "is_attention_state state = (case state of
      JStr s \<Rightarrow> s \<in> ATTENTION_STATES
        \<or> (case map_of DISPATCH_STATE_ALIASES s of None \<Rightarrow> False | Some a \<Rightarrow> a \<in> ATTENTION_STATES)
    | _ \<Rightarrow> False)"

definition is_terminal_state :: "json \<Rightarrow> bool" where
  "is_terminal_state state =
     (if str_in state TERMINAL_STATES \<or> str_in state SALVAGE_NEEDED_STATES then True
      else case normalize_dispatch_state state of None \<Rightarrow> False
           | Some n \<Rightarrow> n \<noteq> [] \<and> (n \<in> TERMINAL_STATES \<or> n \<in> SALVAGE_NEEDED_STATES))"

definition is_running_state :: "json \<Rightarrow> bool" where
  "is_running_state state =
     (case normalize_dispatch_state state of None \<Rightarrow> False | Some n \<Rightarrow> n \<noteq> [] \<and> n \<in> RUNNING_STATES)"

definition is_limit_state :: "json \<Rightarrow> bool" where
  "is_limit_state state = str_in state LIMIT_TERMINAL_STATES"

text \<open>\<open>str(kind or "")\<close> of a value that is not a string is never one of the three kinds.\<close>

definition limit_state_for_kind :: "json \<Rightarrow> string" where
  "limit_state_for_kind kind = (case kind of
      JStr s \<Rightarrow> (case map_of LIMIT_STATE_FOR_KIND s of None \<Rightarrow> LIMIT_UNKNOWN_STATE | Some t \<Rightarrow> t)
    | _ \<Rightarrow> LIMIT_UNKNOWN_STATE)"

definition limit_kind_for_state :: "json \<Rightarrow> string option" where
  "limit_kind_for_state state =
     (case state of JStr s \<Rightarrow> map_of LIMIT_KIND_FOR_STATE s | _ \<Rightarrow> None)"

text \<open>
  The four places evidence about a limit may sit: the record itself and its \<open>reason\<close>, \<open>error\<close>
  and \<open>outcome\<close> objects.
\<close>

definition evidence_sources :: "dict \<Rightarrow> json list" where
  "evidence_sources d = [JObj d, jget d ''reason'', jget d ''error'', jget d ''outcome'']"

fun first_limit_kind :: "json list \<Rightarrow> py_error + string option" where
  "first_limit_kind [] = Inr None"
| "first_limit_kind (JObj s # rest) =
     (let kind = jget s ''limit_kind'' in
      if \<not> hashable kind then Inl TypeError
      else if str_in kind (set (map fst LIMIT_STATE_FOR_KIND))
        then (case kind of JStr k \<Rightarrow> Inr (Some k) | _ \<Rightarrow> Inr None)
      else first_limit_kind rest)"
| "first_limit_kind (_ # rest) = first_limit_kind rest"

fun first_state_kind :: "dict \<Rightarrow> string list \<Rightarrow> string option" where
  "first_state_kind d [] = None"
| "first_state_kind d (key # keys) =
     (case limit_kind_for_state (jget d key) of
        Some k \<Rightarrow> if k \<noteq> [] then Some k else first_state_kind d keys
      | None \<Rightarrow> first_state_kind d keys)"

definition limit_kind_for_record :: "json \<Rightarrow> py_error + string option" where
  "limit_kind_for_record record = (case record of
      JObj d \<Rightarrow>
        if list_ex (\<lambda>key. jget d key = JStr LEGACY_RATE_LIMITED_STATE)
             [''state'', ''terminal_state'', ''classification'']
        then Inr (Some ''unknown'')
        else (case first_limit_kind (evidence_sources d) of
            Inl e \<Rightarrow> Inl e
          | Inr (Some k) \<Rightarrow> Inr (Some k)
          | Inr None \<Rightarrow> Inr (first_state_kind d [''state'', ''terminal_state'', ''classification'']))
    | _ \<Rightarrow> Inr None)"

section \<open>The retry decision\<close>

definition unix_epoch_us :: int where
  "unix_epoch_us = ymd2ord 1970 1 1 * us_per_day"

text \<open>\<open>_timestamp\<close>: seconds since the Unix epoch, or \<open>None\<close>.\<close>

definition iso_timestamp :: "string \<Rightarrow> real option" where
  "iso_timestamp value =
     (let text = strip value;
          text' = (if text \<noteq> [] \<and> last text \<in> {CHR ''Z'', CHR ''z''}
                   then butlast text @ ''+00:00'' else text)
      in if text = [] then None
         else map_option (\<lambda>d. of_int (utc_instant d - unix_epoch_us) / 1000000) (fromisoformat text'))"

definition timestamp :: "json \<Rightarrow> real option" where
  "timestamp value = (case value of
      JInt i \<Rightarrow> Some (of_int i)
    | JFloat r \<Rightarrow> Some r
    | JStr s \<Rightarrow> if s = [] then None else iso_timestamp s
    | _ \<Rightarrow> None)"

fun evidence_value :: "json list \<Rightarrow> string \<Rightarrow> json" where
  "evidence_value [] key = JNull"
| "evidence_value (JObj s # rest) key =
     (if jget s key \<noteq> JNull \<and> jget s key \<noteq> JStr [] then jget s key else evidence_value rest key)"
| "evidence_value (_ # rest) key = evidence_value rest key"

definition retry_after_seconds :: "json \<Rightarrow> real option" where
  "retry_after_seconds v = (case v of
      JInt i \<Rightarrow> Some (max 0 (of_int i))
    | JFloat r \<Rightarrow> Some (max 0 r)
    | JStr s \<Rightarrow> map_option (max 0) (py_float (strip s))
    | _ \<Rightarrow> None)"

fun first_timestamp :: "dict \<Rightarrow> string list \<Rightarrow> real option" where
  "first_timestamp d [] = None"
| "first_timestamp d (key # keys) =
     (case timestamp (jget d key) of Some t \<Rightarrow> Some t | None \<Rightarrow> first_timestamp d keys)"

text \<open>
  \<open>datetime.fromtimestamp(ts, tz=utc).isoformat()\<close>: microseconds rounded half to even, written
  without a fraction when they are zero; outside years 1 to 9999 it raises.
\<close>

definition round_half_even :: "real \<Rightarrow> int" where
  "round_half_even x =
     (let f = \<lfloor>x\<rfloor>; r = x - of_int f
      in if r < 1 / 2 then f else if r > 1 / 2 then f + 1 else if even f then f else f + 1)"

definition fromtimestamp_iso :: "real \<Rightarrow> py_error + string" where
  "fromtimestamp_iso ts =
     (let us = unix_epoch_us + round_half_even (ts * 1000000); day = us div us_per_day
      in if day < 1 \<or> 3652059 < day then Inl ValueError
         else Inr (if us mod us_per_s = 0 then iso_seconds us else iso_micros us))"

record retry_policy =
  rp_kind :: string
  rp_eligible :: "bool option"
  rp_not_before :: json
  rp_mode :: string

definition retry_policy_for_record :: "json \<Rightarrow> real \<Rightarrow> py_error + retry_policy option" where
  "retry_policy_for_record record now =
     (case limit_kind_for_record record of
        Inl e \<Rightarrow> Inl e
      | Inr None \<Rightarrow> Inr None
      | Inr (Some kind) \<Rightarrow>
        (case record of JObj d \<Rightarrow>
          let reset_value = evidence_value (evidence_sources d) ''reset_at'';
              reset_ts = timestamp reset_value;
              retry_after = retry_after_seconds (evidence_value (evidence_sources d) ''retry_after'');
              observed_ts = first_timestamp d [''ended_at'', ''updated_at'', ''observed_at'', ''started_at'']
          in if kind = ''exhausted'' then
               Inr (Some (case reset_ts of
                   None \<Rightarrow> \<lparr>rp_kind = kind, rp_eligible = Some False, rp_not_before = JNull,
                            rp_mode = ''hold_reset_unknown''\<rparr>
                 | Some reset \<Rightarrow> \<lparr>rp_kind = kind, rp_eligible = Some (reset \<le> now),
                            rp_not_before = (if now < reset then reset_value else JNull),
                            rp_mode = ''retry_after_reset''\<rparr>))
             else if kind = ''transient'' then
               (case (retry_after, observed_ts) of
                   (Some delay, None) \<Rightarrow>
                     if 0 < delay then
                       Inr (Some \<lparr>rp_kind = kind, rp_eligible = None, rp_not_before = JNull,
                                  rp_mode = ''hold_retry_anchor_unknown''\<rparr>)
                     else Inr (Some \<lparr>rp_kind = kind, rp_eligible = Some True, rp_not_before = JNull,
                                  rp_mode = ''retry_soon''\<rparr>)
                 | (Some delay, Some observed) \<Rightarrow>
                     if observed + delay \<le> now then
                       Inr (Some \<lparr>rp_kind = kind, rp_eligible = Some True, rp_not_before = JNull,
                                  rp_mode = ''retry_soon''\<rparr>)
                     else (case fromtimestamp_iso (observed + delay) of
                         Inl e \<Rightarrow> Inl e
                       | Inr text \<Rightarrow> Inr (Some \<lparr>rp_kind = kind, rp_eligible = Some False,
                                  rp_not_before = JStr text, rp_mode = ''retry_soon''\<rparr>))
                 | (None, _) \<Rightarrow> Inr (Some \<lparr>rp_kind = kind, rp_eligible = Some True,
                                  rp_not_before = JNull, rp_mode = ''retry_soon''\<rparr>))
             else
               (let cooldown = evidence_value (evidence_sources d) ''not_retryable_before''
                in Inr (Some \<lparr>rp_kind = ''unknown'', rp_eligible = None,
                     rp_not_before = (if cooldown = JNull \<or> cooldown = JStr [] then reset_value else cooldown),
                     rp_mode = ''legacy_cooldown''\<rparr>))
        | _ \<Rightarrow> Inr None))"

section \<open>Ordering and terminal authority\<close>

definition state_seq_rank :: "json \<Rightarrow> nat" where
  "state_seq_rank state = (case state of
      JStr s \<Rightarrow>
        if s = ''watcher_stopped'' then 45
        else if s = ''controller_dead'' then 90
        else if s \<in> TERMINAL_STATES then 90
        else (case normalize_dispatch_state state of
            None \<Rightarrow> 0
          | Some n \<Rightarrow> if n \<in> TERMINAL_STATES then 90
                      else (case map_of STATE_SEQ_RANKS n of None \<Rightarrow> 50 | Some r \<Rightarrow> r))
    | _ \<Rightarrow> 0)"

text \<open>
  \<open>terminal_state_for\<close>. The first test hashes the state, so a list or dict raises before any
  other branch.
\<close>

definition terminal_state_for :: "json \<Rightarrow> json \<Rightarrow> py_error + string" where
  "terminal_state_for state reason =
     (if \<not> hashable state then Inl TypeError
      else case state of
        JStr s \<Rightarrow> Inr
          (if s \<in> SUCCESS_TERMINAL_RECORD_STATES then ''complete''
           else if s = ''worker_dead'' then ''worker_dead''
           else if is_limit_state state then s
           else if s = ''liveness_indeterminate'' then ''liveness_indeterminate''
           else if s = ''idle_timeout'' \<or> s = ''inconclusive_timeout'' then ''idle_timeout''
           else if s = ''watcher_stopped'' then ''watcher_stopped''
           else if s = ''controller_dead'' \<or> (s = ''orphaned'' \<and> reason = JStr ''controller_dead'')
             then ''controller_dead''
           else if startswith s ''blocked'' then ''blocked''
           else if s \<in> TERMINAL_ERROR_STATES then ''error''
           else if s \<in> FAILURE_TERMINAL_RECORD_STATES then s
           else ''unknown'')
      | _ \<Rightarrow> Inr ''unknown'')"

text \<open>A throttled record used by the witnesses: observed at 100, retry after 30 seconds.\<close>

definition sample_limit_record :: dict where
  "sample_limit_record = [(''state'', JStr ''transient_throttle''), (''retry_after'', JInt 30), (''ended_at'', JInt 100)]"

section \<open>Properties\<close>

lemma alias_table:
  "list_all (\<lambda>(s, a). map_of DISPATCH_STATE_ALIASES a = None \<and> \<not> startswith a ''blocked''
      \<and> a \<noteq> [] \<and> (a \<in> RUNNING_STATES \<longrightarrow> s \<notin> TERMINAL_STATES \<and> s \<notin> SALVAGE_NEEDED_STATES))
     DISPATCH_STATE_ALIASES"
  by (simp add: state_set_defs startswith_def)

lemma running_table:
  "\<forall>n \<in> RUNNING_STATES. n \<notin> TERMINAL_STATES \<and> n \<notin> SALVAGE_NEEDED_STATES \<and> \<not> startswith n ''blocked''"
  by (simp add: state_set_defs startswith_def)

lemma wedged_known: "\<forall>s \<in> WEDGED_TERMINAL_RECORD_STATES. s \<in> TERMINAL_ERROR_STATES \<or> s = ''idle_timeout'' \<or> s = ''liveness_indeterminate''"
  by (simp add: state_set_defs startswith_def)

lemma alias_facts:
  assumes "map_of DISPATCH_STATE_ALIASES s = Some a"
  shows "map_of DISPATCH_STATE_ALIASES a = None" "\<not> startswith a ''blocked''" "a \<noteq> []"
    "a \<in> RUNNING_STATES \<Longrightarrow> s \<notin> TERMINAL_STATES \<and> s \<notin> SALVAGE_NEEDED_STATES"
  using alias_table map_of_SomeD [OF assms] by (auto simp: list_all_iff)

lemma running_rank_table:
  "list_all (\<lambda>n. (case map_of STATE_SEQ_RANKS n of None \<Rightarrow> n = ''queued'' | Some r \<Rightarrow> r \<le> 40))
     [''queued'', ''starting'', ''running'', ''running_quiet'', ''waiting'']"
  by (simp add: state_set_defs startswith_def)

lemma queued_alias: "normalize_dispatch_state (JStr s) = Some n \<Longrightarrow> n \<noteq> ''queued''"
proof -
  have "list_all (\<lambda>(s, a). a \<noteq> ''queued'') DISPATCH_STATE_ALIASES" by (simp add: state_set_defs startswith_def)
  moreover have "map_of DISPATCH_STATE_ALIASES ''queued'' = Some ''waiting''" by (simp add: state_set_defs startswith_def)
  moreover have "\<not> startswith ''queued'' ''blocked''" by (simp add: state_set_defs startswith_def)
  moreover assume "normalize_dispatch_state (JStr s) = Some n"
  ultimately show ?thesis
    by (auto simp: normalize_dispatch_state_def list_all_iff split: if_splits option.splits
        dest: map_of_SomeD)
qed

lemma verdict_table:
  "list_all (\<lambda>t. t \<in> TERMINAL_STATES) [''complete'', ''worker_dead'', ''liveness_indeterminate'',
     ''idle_timeout'', ''controller_dead'', ''blocked'', ''error'']"
  "''watcher_stopped'' \<notin> TERMINAL_STATES"
  by (simp_all add: state_set_defs)

lemma if_inI: "(c \<Longrightarrow> a \<in> A) \<Longrightarrow> (\<not> c \<Longrightarrow> b \<in> A) \<Longrightarrow> (if c then a else b) \<in> A"
  by simp

lemma running_rank_le:
  assumes "is_running_state v"
  shows "state_seq_rank v \<le> 45"
proof -
  from assms(1) obtain s n where v: "v = JStr s" "normalize_dispatch_state (JStr s) = Some n" "n \<in> RUNNING_STATES"
    by (auto simp: is_running_state_def normalize_dispatch_state_def split: option.splits json.splits if_splits)
  have nt: "\<not> is_terminal_state v" 
    using running_table assms(1) by (auto simp: is_running_state_def is_terminal_state_def str_in_def
      normalize_dispatch_state_def dest: alias_facts(4) split: json.splits if_splits option.splits)
  then have "s \<notin> TERMINAL_STATES" "n \<notin> TERMINAL_STATES"
    using v running_table by (auto simp: is_terminal_state_def str_in_def split: if_splits option.splits)
  moreover have "n \<noteq> ''queued''" using queued_alias v(2) by blast
  moreover have "map_of STATE_SEQ_RANKS n \<noteq> None \<and> the (map_of STATE_SEQ_RANKS n) \<le> 40"
    using running_rank_table v(3) \<open>n \<noteq> ''queued''\<close> unfolding RUNNING_STATES_def
    by (auto simp: list_all_iff split: option.splits)
  moreover have "s \<noteq> ''controller_dead''"
    using \<open>s \<notin> TERMINAL_STATES\<close> verdict_table(1) by (auto simp: list_all_iff)
  ultimately show ?thesis using v by (auto simp: state_seq_rank_def)
qed

lemma salvage_table:
  "\<forall>n \<in> SALVAGE_NEEDED_STATES. n \<noteq> ''watcher_stopped'' \<and> n \<noteq> [] \<and> \<not> startswith n ''blocked''
     \<and> map_of DISPATCH_STATE_ALIASES n = None \<and> map_of STATE_SEQ_RANKS n = None"
  "list_all (\<lambda>(n, a). a \<notin> SALVAGE_NEEDED_STATES) DISPATCH_STATE_ALIASES"
  "normalize_dispatch_state (JStr ''watcher_stopped'') = Some ''running_quiet''"
  "''running_quiet'' \<notin> TERMINAL_STATES" "''running_quiet'' \<notin> SALVAGE_NEEDED_STATES"
  by (simp_all add: state_set_defs startswith_def normalize_dispatch_state_def)

lemma terminal_rank_ge:
  assumes "is_terminal_state w"
  shows "50 \<le> state_seq_rank w"
proof -
  from assms obtain s where w: "w = JStr s"
    by (auto simp: is_terminal_state_def str_in_def normalize_dispatch_state_def
        split: json.splits if_splits option.splits)
  have ws: "s \<noteq> ''watcher_stopped''"
    using assms salvage_table verdict_table(2) by (auto simp: w is_terminal_state_def str_in_def)
  consider "s \<in> TERMINAL_STATES" | "s \<in> SALVAGE_NEEDED_STATES" "s \<notin> TERMINAL_STATES"
    | n where "s \<notin> TERMINAL_STATES" "normalize_dispatch_state (JStr s) = Some n"
        "n \<in> TERMINAL_STATES \<or> n \<in> SALVAGE_NEEDED_STATES"
    using assms by (auto simp: w is_terminal_state_def str_in_def split: if_splits option.splits)
  then show ?thesis
  proof cases
    case 1
    with ws show ?thesis by (simp add: w state_seq_rank_def)
  next
    case 2
    then have "normalize_dispatch_state (JStr s) = Some s" "map_of STATE_SEQ_RANKS s = None"
      using salvage_table(1) by (auto simp: normalize_dispatch_state_def)
    with 2 ws show ?thesis by (simp add: w state_seq_rank_def)
  next
    case 3
    have "n \<in> SALVAGE_NEEDED_STATES \<Longrightarrow> map_of STATE_SEQ_RANKS n = None"
      using salvage_table(1) by blast
    with 3 ws show ?thesis by (auto simp: w state_seq_rank_def)
  qed
qed

text \<open>
  The sequence rank orders a running state strictly before every terminal one, so a late
  running report never outranks the terminal state already recorded.
\<close>

lemma running_rank_below_terminal:
  assumes "is_running_state v" "is_terminal_state w"
  shows "state_seq_rank v < state_seq_rank w"
  using running_rank_le [OF assms(1)] terminal_rank_ge [OF assms(2)] by simp

lemma running_rank_below_terminal_witness:
  "state_seq_rank (JStr ''running_quiet'') < state_seq_rank (JStr ''salvage_needed'')"
  using running_rank_below_terminal [of "JStr ''running_quiet''" "JStr ''salvage_needed''"]
  by (simp add: is_running_state_def normalize_dispatch_state_def startswith_def
      DISPATCH_STATE_ALIASES_def RUNNING_STATES_def limit_defs is_terminal_state_def str_in_def
      SALVAGE_NEEDED_STATES_def)

text \<open>
  Every terminal state has a terminal verdict: \<open>terminal_state_for\<close> neither raises nor falls
  through to \<open>unknown\<close> on a state the vocabulary calls terminal.
\<close>

lemma terminal_state_for_terminal:
  assumes "s \<in> TERMINAL_STATES"
  shows "\<exists>t \<in> TERMINAL_STATES. terminal_state_for (JStr s) reason = Inr t"
proof -
  have s: "s \<in> SUCCESS_TERMINAL_RECORD_STATES \<or> s \<in> FAILURE_TERMINAL_RECORD_STATES
      \<or> s \<in> TERMINAL_ERROR_STATES \<or> s = ''idle_timeout'' \<or> s = ''liveness_indeterminate''"
    using assms wedged_known unfolding TERMINAL_STATES_def TERMINAL_FAILURE_STATES_def by blast
  have w: "s \<noteq> ''watcher_stopped''" using assms verdict_table(2) by metis
  note t = verdict_table(1) [unfolded list.pred_inject]
  show ?thesis
    unfolding terminal_state_for_def hashable_def json.case
    apply (simp split del: if_split)
    apply (intro if_inI)
    apply (rule assms | (simp only: t simp_thms; fail) | (erule notE [OF w]))+
    using s apply (simp; fail)
    done
qed

lemma terminal_state_for_terminal_witness:
  "\<exists>t \<in> TERMINAL_STATES. terminal_state_for (JStr ''wedged'') JNull = Inr t"
  using terminal_state_for_terminal [of "''wedged''" JNull] by (simp add: state_set_defs)

lemma alias_target: "normalize_dispatch_state v = Some n \<Longrightarrow> n \<noteq> []"
  by (auto simp: normalize_dispatch_state_def dest: alias_facts(3) split: json.splits if_splits option.splits)

text \<open>
  Normalising a state a second time changes nothing: every alias maps to a spelling that
  is canonical, so the value a reader normalised can be stored and normalised again.
\<close>

lemma normalize_idem:
  "normalize_dispatch_state v = Some n \<Longrightarrow> normalize_dispatch_state (JStr n) = Some n"
  by (auto simp: normalize_dispatch_state_def startswith_def[where s="''blocked''"] alias_facts
      split: json.splits if_splits option.splits)

lemma normalize_idem_witness:
  "normalize_dispatch_state (JStr ''waiting'') = Some ''waiting''"
  using normalize_idem [of "JStr ''waiting_capacity''" "''waiting''"]
  by (simp add: normalize_dispatch_state_def startswith_def DISPATCH_STATE_ALIASES_def)

text \<open>
  No state is running and terminal at once, whatever alias or \<open>blocked_\<close> variant it is
  written as: a reader never sees a finished dispatch as running.
\<close>

lemma running_not_terminal: "is_running_state v \<Longrightarrow> \<not> is_terminal_state v"
  using running_table
  by (auto simp: is_running_state_def is_terminal_state_def str_in_def normalize_dispatch_state_def
      dest: alias_facts(4) split: json.splits if_splits option.splits)

lemma running_not_terminal_witness: "\<not> is_terminal_state (JStr ''watcher_stopped'')"
  using running_not_terminal [of "JStr ''watcher_stopped''"]
  by (simp add: is_running_state_def normalize_dispatch_state_def startswith_def
      DISPATCH_STATE_ALIASES_def RUNNING_STATES_def)

lemma retry_policy_cases:
  assumes "retry_policy_for_record (JObj d) now = Inr (Some p)"
  obtains (exhausted) "limit_kind_for_record (JObj d) = Inr (Some ''exhausted'')" "rp_kind p = ''exhausted''"
      "rp_eligible p = Some (case timestamp (evidence_value (evidence_sources d) ''reset_at'') of
         None \<Rightarrow> False | Some t \<Rightarrow> t \<le> now)"
  | (transient) "limit_kind_for_record (JObj d) = Inr (Some ''transient'')" "rp_kind p = ''transient''"
      "rp_eligible p = (case (retry_after_seconds (evidence_value (evidence_sources d) ''retry_after''),
           first_timestamp d [''ended_at'', ''updated_at'', ''observed_at'', ''started_at'']) of
         (None, _) \<Rightarrow> Some True
       | (Some delay, None) \<Rightarrow> (if 0 < delay then None else Some True)
       | (Some delay, Some seen) \<Rightarrow> Some (seen + delay \<le> now))"
  | (legacy) "rp_kind p = ''unknown''" "rp_eligible p = None"
proof -
  obtain kind where k: "limit_kind_for_record (JObj d) = Inr (Some kind)"
    using assms by (auto simp: retry_policy_for_record_def split: sum.splits option.splits)
  show thesis
  proof (cases "kind = ''exhausted''")
    case True
    show thesis
      by (rule exhausted; insert assms k True)
        (auto simp: retry_policy_for_record_def Let_def split: option.splits)
  next
    case False
    note ne = this
    show thesis
    proof (cases "kind = ''transient''")
      case True
      show thesis
        by (rule transient; insert assms k True)
          (auto simp: retry_policy_for_record_def Let_def split: option.splits sum.splits if_splits)
    next
      case False
      show thesis
        by (rule legacy; insert assms k ne False)
          (auto simp: retry_policy_for_record_def Let_def split: option.splits)
    qed
  qed
qed

lemma sample_limit_eval:
  "retry_policy_for_record (JObj sample_limit_record) 130 =
    Inr (Some \<lparr>rp_kind = ''transient'', rp_eligible = Some True, rp_not_before = JNull, rp_mode = ''retry_soon''\<rparr>)"
  by (simp add: retry_policy_for_record_def sample_limit_record_def limit_kind_for_record_def limit_defs
      evidence_sources_def jget_def hashable_def str_in_def limit_kind_for_state_def retry_after_seconds_def timestamp_def)

text \<open>
  A retry is declared eligible only once the provider's deadline is behind: the reset time of
  an exhausted quota has passed, or a throttled record's positive delay has run from a known
  observation time.
\<close>

lemma retry_never_before_deadline:
  assumes "retry_policy_for_record (JObj d) now = Inr (Some p)" "rp_eligible p = Some True"
  shows "(rp_kind p = ''exhausted''
          \<and> (\<exists>t. timestamp (evidence_value (evidence_sources d) ''reset_at'') = Some t \<and> t \<le> now))
       \<or> (rp_kind p = ''transient''
          \<and> (\<forall>delay. retry_after_seconds (evidence_value (evidence_sources d) ''retry_after'') = Some delay
              \<and> 0 < delay \<longrightarrow>
              (\<exists>seen. first_timestamp d [''ended_at'', ''updated_at'', ''observed_at'', ''started_at''] = Some seen
                 \<and> seen + delay \<le> now)))"
  using assms(1)
proof (cases rule: retry_policy_cases)
  case exhausted
  with assms(2) show ?thesis by (auto split: option.splits)
next
  case transient
  show ?thesis
    using transient(2,3) assms(2) by (auto split: option.splits if_splits)
next
  case legacy
  with assms(2) show ?thesis by simp
qed

lemma retry_never_before_deadline_witness:
  "\<exists>seen. first_timestamp sample_limit_record
      [''ended_at'', ''updated_at'', ''observed_at'', ''started_at''] = Some seen \<and> seen + 30 \<le> (130 :: real)"
  using retry_never_before_deadline [OF sample_limit_eval]
  by (simp add: retry_after_seconds_def evidence_sources_def sample_limit_record_def jget_def)

text \<open>Eligibility persists: a record that may be retried now may be retried at any later time.\<close>

lemma retry_eligibility_persists:
  assumes "retry_policy_for_record (JObj d) now = Inr (Some p)" "rp_eligible p = Some True" "now \<le> later"
  shows "\<exists>q. retry_policy_for_record (JObj d) later = Inr (Some q) \<and> rp_eligible q = Some True"
  using assms(1)
proof (cases rule: retry_policy_cases)
  case exhausted
  with assms(2,3) show ?thesis by (auto simp: retry_policy_for_record_def Let_def split: option.splits)
next
  case transient
  with assms(2,3) show ?thesis
    by (auto simp: retry_policy_for_record_def Let_def split: option.splits if_splits)
next
  case legacy
  with assms(2) show ?thesis by simp
qed

lemma retry_eligibility_persists_witness:
  "\<exists>q. retry_policy_for_record (JObj sample_limit_record) 500 = Inr (Some q) \<and> rp_eligible q = Some True"
  using retry_eligibility_persists [OF sample_limit_eval, of 500] by simp

end
