(* ===== verification/GF_Txn.thy ===== *)
theory GF_Txn
  imports GF_Prelude
begin

text \<open>
  The bounded transaction of the state journal (\<open>_domain_write\<close>, \<open>_retry_delay\<close> and
  \<open>_assert_epoch_fence\<close> of \<open>scripts/goalflight_journal.py\<close>). A handler is a function from the
  database to an exception or a value with the new database. Everything the operating system and
  SQLite decide during one attempt (the file lock, the connection, injected faults, the clock and
  what other writers committed before \<open>BEGIN IMMEDIATE\<close>) is the environment of that attempt.
\<close>

section \<open>Exceptions and results\<close>

datatype operational_fault = OpBusy | OpInterrupted | OpCorrupt | OpOther

datatype database_fault = IntegrityViolation | DbCorrupt | DbOther

datatype txn_exn =
    CASMismatch string
  | TimedOut
  | SqlOperational operational_fault
  | SqlDatabase database_fault
  | JournalIntegrityError
  | JournalUpgradeRequired
  | JournalBusy
  | JournalDisappeared
  | JournalIOError
  | JournalFailed
  | PyValueError
  | PyTypeError
  | PyKeyError
  | PyLookupError
  | OtherError

datatype write_disposition = COMMITTED | RETRYABLE | CAS_LOST

datatype write_reason =
    LockTimeout
  | ConnectionBusy
  | BudgetExceeded
  | VmInterrupted
  | BusyTimeout
  | PredicateLost string

record 'a write_result =
  wr_disposition :: write_disposition
  wr_value :: "'a option"
  wr_attempts :: nat
  wr_reason :: "write_reason option"

type_synonym ('a, 'db) txn = "'db \<Rightarrow> txn_exn + 'a \<times> 'db"

section \<open>The epoch fence\<close>

record client_epochs =
  ce_schema :: int
  ce_protocol :: int
  ce_registry :: int
  ce_reader :: int
  ce_writer :: int

record journal_epochs =
  je_schema :: int
  je_protocol :: int
  je_registry :: int
  je_minimum_reader :: int
  je_minimum_writer :: int

record epoch_columns =
  ec_schema :: json
  ec_protocol :: json
  ec_registry :: json
  ec_minimum_reader :: json
  ec_minimum_writer :: json

definition JOURNAL_IDENTITY_VALUE :: string where
  "JOURNAL_IDENTITY_VALUE = ''goalflight.state-journal.v1''"

definition assert_identity :: "string option \<Rightarrow> txn_exn + unit" where
  "assert_identity row =
     (if row = Some JOURNAL_IDENTITY_VALUE then Inr () else Inl JournalIntegrityError)"

definition epoch_row :: "string option \<Rightarrow> epoch_columns option \<Rightarrow> txn_exn + epoch_columns" where
  "epoch_row identity row = (case assert_identity identity of
      Inl e \<Rightarrow> Inl e
    | Inr _ \<Rightarrow> (case row of None \<Rightarrow> Inl JournalIntegrityError | Some cols \<Rightarrow> Inr cols))"

text \<open>A column whose storage class is not an integer is an integrity failure.\<close>

definition stored_epochs :: "epoch_columns \<Rightarrow> txn_exn + journal_epochs" where
  "stored_epochs cols = (case (ec_schema cols, ec_protocol cols, ec_registry cols,
        ec_minimum_reader cols, ec_minimum_writer cols) of
      (JInt s, JInt p, JInt g, JInt r, JInt w) \<Rightarrow>
        Inr \<lparr>je_schema = s, je_protocol = p, je_registry = g, je_minimum_reader = r, je_minimum_writer = w\<rparr>
    | _ \<Rightarrow> Inl JournalIntegrityError)"

definition assert_epoch_fence ::
  "client_epochs \<Rightarrow> bool \<Rightarrow> string option \<Rightarrow> epoch_columns option \<Rightarrow> txn_exn + journal_epochs" where
  "assert_epoch_fence client for_write identity row = (case epoch_row identity row of
      Inl e \<Rightarrow> Inl e
    | Inr cols \<Rightarrow> (case stored_epochs cols of
        Inl e \<Rightarrow> Inl e
      | Inr stored \<Rightarrow>
        let minimum = (if for_write then je_minimum_writer stored else je_minimum_reader stored);
            capability = (if for_write then ce_writer client else ce_reader client)
        in if ce_schema client \<noteq> je_schema stored \<or> ce_protocol client \<noteq> je_protocol stored
              \<or> ce_registry client \<noteq> je_registry stored \<or> capability < minimum
           then Inl JournalUpgradeRequired else Inr stored))"

section \<open>One attempt\<close>

record txn_config =
  tc_client :: client_epochs
  tc_retry_budget :: real
  tc_transaction_budget :: real
  tc_jitter_min :: real
  tc_jitter_max :: real

datatype connect_outcome = Connected | ConnectBusy | ConnectRaises txn_exn

record 'db write_env =
  we_lock :: bool
  we_connect :: connect_outcome
  we_started :: real
  we_begin :: "txn_exn option"
  we_before :: "'db \<Rightarrow> 'db"
  we_identity :: "string option"
  we_epochs :: "epoch_columns option"
  we_fault :: "txn_exn option"
  we_finished :: real
  we_commit :: "txn_exn option"
  we_corruption :: txn_exn
  we_retry_now :: real
  we_uniform :: real
  we_after_sleep :: real

text \<open>
  \<open>_retry_delay(started)\<close>: the readings of the monotonic clock before and after the sleep and the
  jitter drawn are part of the environment.
\<close>

definition retry_sleep :: "txn_config \<Rightarrow> 'db write_env \<Rightarrow> real \<Rightarrow> real" where
  "retry_sleep cfg e started =
     min (we_uniform e) (started + tc_retry_budget cfg - we_retry_now e)"

definition retry_delay :: "txn_config \<Rightarrow> 'db write_env \<Rightarrow> real \<Rightarrow> bool" where
  "retry_delay cfg e started =
     (let deadline = started + tc_retry_budget cfg
      in if deadline - we_retry_now e \<le> 0 then False else we_after_sleep e < deadline)"

text \<open>
  The body of the \<open>try\<close>: deadline check, \<open>BEGIN IMMEDIATE\<close>, epoch fence, the handler, a second
  deadline check, \<open>COMMIT\<close>. A statement fault preempts the handler's own outcome.
\<close>

definition run_txn ::
  "txn_config \<Rightarrow> 'db write_env \<Rightarrow> real \<Rightarrow> ('a, 'db) txn \<Rightarrow> 'db \<Rightarrow> txn_exn + 'a \<times> 'db" where
  "run_txn cfg e started action db =
     (let deadline = min (started + tc_retry_budget cfg) (we_started e + tc_transaction_budget cfg)
      in if deadline \<le> we_started e then Inl TimedOut
         else case we_begin e of Some x \<Rightarrow> Inl x | None \<Rightarrow>
           (case assert_epoch_fence (tc_client cfg) True (we_identity e) (we_epochs e) of
              Inl x \<Rightarrow> Inl x
            | Inr _ \<Rightarrow>
              (case we_fault e of Some x \<Rightarrow> Inl x | None \<Rightarrow>
                (case action db of
                   Inl x \<Rightarrow> Inl x
                 | Inr (v, db') \<Rightarrow>
                     if deadline \<le> we_finished e then Inl TimedOut
                     else case we_commit e of Some x \<Rightarrow> Inl x | None \<Rightarrow> Inr (v, db')))))"

abbreviation retryable :: "nat \<Rightarrow> write_reason \<Rightarrow> 'a write_result" where
  "retryable n r \<equiv> \<lparr>wr_disposition = RETRYABLE, wr_value = None, wr_attempts = n, wr_reason = Some r\<rparr>"

text \<open>What the \<open>except\<close> clauses make of one attempt: an answer, or \<open>None\<close> to go round again.\<close>

definition settle ::
  "txn_config \<Rightarrow> 'db write_env \<Rightarrow> real \<Rightarrow> nat \<Rightarrow> txn_exn \<Rightarrow> (txn_exn + 'a write_result) option" where
  "settle cfg e started n x = (case x of
      CASMismatch m \<Rightarrow> Some (Inr \<lparr>wr_disposition = CAS_LOST, wr_value = None, wr_attempts = n,
          wr_reason = Some (PredicateLost (if m = [] then ''compare-and-swap predicate lost'' else m))\<rparr>)
    | TimedOut \<Rightarrow> Some (Inr (retryable n BudgetExceeded))
    | SqlOperational f \<Rightarrow> (case f of
          OpCorrupt \<Rightarrow> Some (Inl (we_corruption e))
        | OpInterrupted \<Rightarrow> Some (Inr (retryable n VmInterrupted))
        | OpOther \<Rightarrow> Some (Inl x)
        | OpBusy \<Rightarrow> if retry_delay cfg e started then None else Some (Inr (retryable n BusyTimeout)))
    | SqlDatabase f \<Rightarrow> (if f = DbCorrupt then Some (Inl (we_corruption e)) else Some (Inl x))
    | _ \<Rightarrow> Some (Inl x))"

section \<open>The loop\<close>

text \<open>
  One call of \<open>_domain_write\<close>. \<open>env k\<close> is the environment of attempt \<open>k\<close>. The fuel bounds the
  number of attempts; \<open>None\<close> means it ran out. Whatever is not committed is rolled back, so the
  database returned is the one \<open>BEGIN IMMEDIATE\<close> saw.
\<close>

fun domain_write_loop ::
  "nat \<Rightarrow> txn_config \<Rightarrow> (nat \<Rightarrow> 'db write_env) \<Rightarrow> real \<Rightarrow> ('a, 'db) txn \<Rightarrow> nat \<Rightarrow> 'db
     \<Rightarrow> ((txn_exn + 'a write_result) \<times> 'db) option" where
  "domain_write_loop 0 cfg env started action n db = None"
| "domain_write_loop (Suc fuel) cfg env started action n db =
     (let k = Suc n; e = env k
      in if \<not> we_lock e then Some (Inr (retryable k LockTimeout), db)
         else case we_connect e of
           ConnectBusy \<Rightarrow> Some (Inr (retryable k ConnectionBusy), db)
         | ConnectRaises x \<Rightarrow> Some (Inl x, db)
         | Connected \<Rightarrow>
           (let seen = we_before e db
            in case run_txn cfg e started action seen of
              Inr (v, db') \<Rightarrow> Some (Inr \<lparr>wr_disposition = COMMITTED, wr_value = Some v,
                                 wr_attempts = k, wr_reason = None\<rparr>, db')
            | Inl x \<Rightarrow> (case settle cfg e started k x of
                Some answer \<Rightarrow> Some (answer, seen)
              | None \<Rightarrow> domain_write_loop fuel cfg env started action k seen)))"

definition retry_fuel :: "txn_config \<Rightarrow> nat" where
  "retry_fuel cfg = nat \<lceil>tc_retry_budget cfg / tc_jitter_min cfg\<rceil> + 2"

definition domain_write ::
  "txn_config \<Rightarrow> (nat \<Rightarrow> 'db write_env) \<Rightarrow> real \<Rightarrow> ('a, 'db) txn \<Rightarrow> 'db
     \<Rightarrow> ((txn_exn + 'a write_result) \<times> 'db) option" where
  "domain_write cfg env started action db =
     domain_write_loop (retry_fuel cfg) cfg env started action 0 db"

text \<open>A handler behind its argument checks: a failed check raises before any transaction.\<close>

definition checked_write ::
  "txn_config \<Rightarrow> (nat \<Rightarrow> 'db write_env) \<Rightarrow> real \<Rightarrow> txn_exn + unit \<Rightarrow> ('a, 'db) txn \<Rightarrow> 'db
     \<Rightarrow> ((txn_exn + 'a write_result) \<times> 'db) option" where
  "checked_write cfg env started checks action db = (case checks of
      Inl x \<Rightarrow> Some (Inl x, db)
    | Inr _ \<Rightarrow> domain_write cfg env started action db)"

section \<open>Argument checks\<close>

definition need_identity_token :: "string \<Rightarrow> txn_exn + string" where
  "need_identity_token v = (if identity_token v then Inr v else Inl PyValueError)"

definition need_state_token :: "string \<Rightarrow> txn_exn + string" where
  "need_state_token v = (if state_token v then Inr v else Inl PyValueError)"

definition need_canonical_uuid :: "string \<Rightarrow> txn_exn + string" where
  "need_canonical_uuid v = (if canonical_uuid v then Inr v else Inl PyValueError)"

text \<open>\<open>all_checks\<close> is the sequence of checks at the head of an operation: the first failure raises.\<close>

fun all_checks :: "(txn_exn + string) list \<Rightarrow> txn_exn + unit" where
  "all_checks [] = Inr ()"
| "all_checks (Inl x # cs) = Inl x"
| "all_checks (Inr _ # cs) = all_checks cs"

definition demand :: "bool \<Rightarrow> txn_exn + string" where
  "demand b = (if b then Inr [] else Inl PyValueError)"

lemma all_checks_Inr [simp]: "all_checks cs = Inr () \<longleftrightarrow> (\<forall>c \<in> set cs. \<exists>s. c = Inr s)"
proof (induction cs)
  case (Cons c cs)
  then show ?case by (cases c) auto
qed simp

section \<open>A clock that advances\<close>

text \<open>
  The documented behaviour of \<open>time.monotonic\<close>, \<open>time.sleep\<close> and \<open>random.uniform\<close>: readings never
  go back, a sleep takes at least the time asked for, the jitter lies within its bounds.
\<close>

definition clock_ok :: "txn_config \<Rightarrow> real \<Rightarrow> (nat \<Rightarrow> 'db write_env) \<Rightarrow> bool" where
  "clock_ok cfg started env \<longleftrightarrow>
     started \<le> we_retry_now (env 1)
     \<and> (\<forall>k. we_after_sleep (env k) \<le> we_retry_now (env (Suc k)))
     \<and> (\<forall>k. we_retry_now (env k) + retry_sleep cfg (env k) started \<le> we_after_sleep (env k))
     \<and> (\<forall>k. tc_jitter_min cfg \<le> we_uniform (env k))"

section \<open>Transactions that keep a property\<close>

text \<open>
  What a handler owes the loop: on success the new database satisfies the invariant and is
  related to the old one. \<open>polite\<close> asks the same of the other writers.
\<close>

definition keeps :: "('db \<Rightarrow> bool) \<Rightarrow> ('db \<Rightarrow> 'db \<Rightarrow> bool) \<Rightarrow> ('a, 'db) txn \<Rightarrow> bool" where
  "keeps good rel action \<longleftrightarrow>
     (\<forall>db v db'. good db \<longrightarrow> action db = Inr (v, db') \<longrightarrow> good db' \<and> rel db db')"

definition polite :: "('db \<Rightarrow> bool) \<Rightarrow> ('db \<Rightarrow> 'db \<Rightarrow> bool) \<Rightarrow> (nat \<Rightarrow> 'db write_env) \<Rightarrow> bool" where
  "polite good rel env \<longleftrightarrow>
     (\<forall>k db. good db \<longrightarrow> good (we_before (env k) db) \<and> rel db (we_before (env k) db))"

lemma keepsI [intro?]:
  "(\<And>db v db'. good db \<Longrightarrow> action db = Inr (v, db') \<Longrightarrow> good db' \<and> rel db db') \<Longrightarrow> keeps good rel action"
  by (simp add: keeps_def)

lemma keepsD: "keeps good rel action \<Longrightarrow> good db \<Longrightarrow> action db = Inr (v, db') \<Longrightarrow> good db' \<and> rel db db'"
  by (simp add: keeps_def)

lemma run_txn_Inr: "run_txn cfg e started action db = Inr (v, db') \<Longrightarrow> action db = Inr (v, db')"
  by (auto simp: run_txn_def Let_def split: if_splits option.splits sum.splits)

text \<open>
  When the relation is a preorder, the loop gives for a whole call what the handler gives for one
  transaction, however often it retries and whatever other polite writers do in between.
\<close>

locale txn_contract =
  fixes good :: "'db \<Rightarrow> bool"
    and rel :: "'db \<Rightarrow> 'db \<Rightarrow> bool"
  assumes rel_refl: "rel db db"
    and rel_trans: "rel a b \<Longrightarrow> rel b c \<Longrightarrow> rel a c"
begin

lemma loop_keeps:
  fixes action :: "('a, 'db) txn"
  assumes "keeps good rel action" "polite good rel env" "good db"
    and "domain_write_loop fuel cfg env started action n db = Some (r, db')"
  shows "good db' \<and> rel db db'"
  using assms(3,4)
proof (induction fuel arbitrary: n db)
  case 0
  then show ?case by simp
next
  case (Suc fuel)
  let ?e = "env (Suc n)" and ?seen = "we_before (env (Suc n)) db"
  have seen: "good ?seen" "rel db ?seen"
    using assms(2) Suc.prems(1) by (auto simp: polite_def)
  show ?case
  proof (cases "we_lock ?e \<and> we_connect ?e = Connected")
    case False
    with Suc.prems show ?thesis
      by (auto simp: Let_def rel_refl split: if_splits connect_outcome.splits)
  next
    case True
    show ?thesis
    proof (cases "run_txn cfg ?e started action ?seen")
      case (Inr p)
      then obtain v db2 where p: "run_txn cfg ?e started action ?seen = Inr (v, db2)"
        by (cases p) auto
      with Suc.prems True have "db' = db2" by (simp add: Let_def)
      with assms(1) seen run_txn_Inr [OF p] show ?thesis
        unfolding keeps_def by (meson rel_trans)
    next
      case (Inl x)
      show ?thesis
      proof (cases "settle cfg ?e started (Suc n) x :: (txn_exn + 'a write_result) option")
        case None
        with Inl True Suc.prems have
          "domain_write_loop fuel cfg env started action (Suc n) ?seen = Some (r, db')"
          by (simp add: Let_def)
        from Suc.IH [OF seen(1) this] seen(2) show ?thesis
          by (meson rel_trans)
      next
        case (Some a)
        with Inl True Suc.prems have "db' = ?seen" by (simp add: Let_def)
        with seen show ?thesis by simp
      qed
    qed
  qed
qed

lemma checked_write_keeps:
  assumes "keeps good rel action" "polite good rel env" "good db"
    and "checked_write cfg env started checks action db = Some (r, db')"
  shows "good db' \<and> rel db db'"
  using assms loop_keeps [OF assms(1-3)]
  by (auto simp: checked_write_def domain_write_def rel_refl split: sum.splits)

end

section \<open>Properties\<close>

text \<open>The database the call sees after \<open>n\<close> attempts of its own: only other writers changed it.\<close>

fun seen_at :: "(nat \<Rightarrow> 'db write_env) \<Rightarrow> nat \<Rightarrow> 'db \<Rightarrow> 'db" where
  "seen_at env 0 db = db"
| "seen_at env (Suc n) db = we_before (env (Suc n)) (seen_at env n db)"

text \<open>
  An example environment: the first \<open>BEGIN IMMEDIATE\<close> finds the database busy, the second attempt
  goes through. Attempt \<open>k\<close> starts at second \<open>k\<close> of the clock.
\<close>

definition sample_epochs :: epoch_columns where
  "sample_epochs = \<lparr>ec_schema = JInt 6, ec_protocol = JInt 6, ec_registry = JInt 6,
     ec_minimum_reader = JInt 6, ec_minimum_writer = JInt 6\<rparr>"

definition sample_config :: txn_config where
  "sample_config = \<lparr>tc_client = \<lparr>ce_schema = 6, ce_protocol = 6, ce_registry = 6, ce_reader = 6, ce_writer = 6\<rparr>,
     tc_retry_budget = 5, tc_transaction_budget = 1, tc_jitter_min = 1, tc_jitter_max = 1\<rparr>"

definition sample_env :: "nat \<Rightarrow> 'db write_env" where
  "sample_env k = \<lparr>we_lock = True, we_connect = Connected, we_started = real k,
     we_begin = (if k = 1 then Some (SqlOperational OpBusy) else None), we_before = (\<lambda>d. d),
     we_identity = Some JOURNAL_IDENTITY_VALUE, we_epochs = Some sample_epochs, we_fault = None,
     we_finished = real k, we_commit = None, we_corruption = JournalIntegrityError,
     we_retry_now = real k, we_uniform = 1, we_after_sleep = real k + 1\<rparr>"

lemma sample_fence: "assert_epoch_fence (tc_client sample_config) True (Some JOURNAL_IDENTITY_VALUE) (Some sample_epochs)
    = Inr \<lparr>je_schema = 6, je_protocol = 6, je_registry = 6, je_minimum_reader = 6, je_minimum_writer = 6\<rparr>"
  by (simp add: assert_epoch_fence_def epoch_row_def assert_identity_def stored_epochs_def
      sample_config_def sample_epochs_def)

lemma sample_clock: "clock_ok sample_config 0 sample_env"
  by (auto simp: clock_ok_def sample_config_def sample_env_def retry_sleep_def)

lemma sample_first: "run_txn sample_config (sample_env 1) 0 action db = Inl (SqlOperational OpBusy)"
  by (simp add: run_txn_def sample_env_def sample_config_def)

lemma sample_second: "run_txn sample_config (sample_env (Suc (Suc 0))) 0 action db = action db"
  using sample_fence
  by (auto simp: run_txn_def sample_env_def Let_def split: sum.splits)
    (auto simp: sample_config_def)

lemma sample_write:
  assumes "action db = Inr (v, db')"
  shows "domain_write sample_config sample_env 0 action db =
     Some (Inr \<lparr>wr_disposition = COMMITTED, wr_value = Some v, wr_attempts = 2, wr_reason = None\<rparr>, db')"
proof -
  obtain m where f: "retry_fuel sample_config = Suc (Suc m)"
    by (simp add: retry_fuel_def sample_config_def)
  have e: "we_lock (sample_env k)" "we_connect (sample_env k) = Connected" "we_before (sample_env k) db = db" for k
    by (simp_all add: sample_env_def)
  have r: "retry_delay sample_config (sample_env 1) 0"
    by (simp add: retry_delay_def sample_config_def sample_env_def)
  show ?thesis
    using assms sample_second [of action db] sample_first [of action db] r
    by (simp add: domain_write_def f e settle_def Let_def)
qed

lemma loop_atomic:
  assumes "domain_write_loop fuel cfg env started action n (seen_at env n db) = Some (r, db')"
  shows "(\<exists>v w. r = Inr w \<and> wr_disposition w = COMMITTED \<and> wr_value w = Some v
            \<and> action (seen_at env (wr_attempts w) db) = Inr (v, db'))
       \<or> ((\<forall>w. r = Inr w \<longrightarrow> wr_disposition w \<noteq> COMMITTED) \<and> (\<exists>k. db' = seen_at env k db))"
  using assms
proof (induction fuel arbitrary: n)
  case (Suc fuel)
  let ?e = "env (Suc n)"
  have r: "run_txn cfg ?e started action d = Inr (v, d') \<Longrightarrow> action d = Inr (v, d')" for d v d'
    by (auto simp: run_txn_def Let_def split: if_splits option.splits sum.splits)
  have s: "settle cfg ?e started (Suc n) x = Some (Inr w) \<Longrightarrow> wr_disposition w \<noteq> COMMITTED"
    for x and w :: "'a write_result"
    by (auto simp: settle_def split: txn_exn.splits operational_fault.splits if_splits)
  have seen: "we_before ?e (seen_at env n db) = seen_at env (Suc n) db" by simp
  have here: "\<exists>k. seen_at env n db = seen_at env k db" "\<exists>k. seen_at env (Suc n) db = seen_at env k db"
    by blast+
  show ?case
  proof (cases "we_lock ?e \<and> we_connect ?e = Connected")
    case False
    with Suc.prems show ?thesis
      by (auto simp: Let_def split: if_splits connect_outcome.splits)
  next
    case True
    with Suc.prems Suc.IH [of "Suc n"] r s here show ?thesis
      by (auto simp: Let_def seen simp del: seen_at.simps split: sum.splits option.splits)
  qed
qed simp



lemma retry_advances:
  assumes "clock_ok cfg started env" "retry_delay cfg (env k) started"
  shows "we_retry_now (env k) + tc_jitter_min cfg \<le> we_after_sleep (env k)"
    "we_after_sleep (env k) < started + tc_retry_budget cfg"
proof -
  have a: "we_retry_now (env k) + retry_sleep cfg (env k) started \<le> we_after_sleep (env k)"
    "tc_jitter_min cfg \<le> we_uniform (env k)"
    using assms(1) by (simp_all add: clock_ok_def)
  show b: "we_after_sleep (env k) < started + tc_retry_budget cfg"
    using assms(2) by (simp add: retry_delay_def Let_def split: if_splits)
  from a b show "we_retry_now (env k) + tc_jitter_min cfg \<le> we_after_sleep (env k)"
    by (simp add: retry_sleep_def min_def split: if_splits)
qed

lemma settle_NoneD: "settle cfg e started n x = None \<Longrightarrow> retry_delay cfg e started"
  by (auto simp: settle_def split: txn_exn.splits operational_fault.splits if_splits)

lemma loop_returns:
  fixes action :: "('a, 'db) txn"
  assumes "clock_ok cfg started env" "0 < tc_jitter_min cfg"
    and "started + real n * tc_jitter_min cfg \<le> we_retry_now (env (Suc n))"
    and "tc_retry_budget cfg \<le> (real n + real fuel) * tc_jitter_min cfg"
  shows "domain_write_loop (Suc fuel) cfg env started action n db \<noteq> None"
  using assms(3,4)
proof (induction fuel arbitrary: n db)
  case 0
  have "\<not> retry_delay cfg (env (Suc n)) started"
    using retry_advances [OF assms(1), of "Suc n"] 0 assms(2) by auto
  then show ?case
    by (auto simp: Let_def split: connect_outcome.splits sum.splits option.splits dest: settle_NoneD)
next
  case (Suc fuel)
  have "domain_write_loop (Suc fuel) cfg env started action (Suc n) d \<noteq> None"
    if "(settle cfg (env (Suc n)) started (Suc n) x :: (txn_exn + 'a write_result) option) = None" for d x
  proof (rule Suc.IH)
    note r = retry_advances [OF assms(1) settle_NoneD [OF that]]
    have "we_after_sleep (env (Suc n)) \<le> we_retry_now (env (Suc (Suc n)))"
      using assms(1) by (simp add: clock_ok_def)
    with r(1) Suc.prems(1) show "started + real (Suc n) * tc_jitter_min cfg \<le> we_retry_now (env (Suc (Suc n)))"
      by (simp add: algebra_simps)
    show "tc_retry_budget cfg \<le> (real (Suc n) + real fuel) * tc_jitter_min cfg"
      using Suc.prems(2) by (simp add: algebra_simps)
  qed
  then show ?case
    by (subst domain_write_loop.simps)
      (auto simp: Let_def simp del: domain_write_loop.simps split: connect_outcome.splits sum.splits option.splits)
qed

text \<open>
  A call returns: with a clock that advances and a positive minimum jitter, the retry budget
  bounds the attempts by budget over jitter plus two, so \<open>_domain_write\<close> always answers.
\<close>

lemma domain_write_returns:
  fixes action :: "('a, 'db) txn"
  assumes "clock_ok cfg started env" "0 < tc_jitter_min cfg"
  shows "\<exists>r db'. domain_write cfg env started action db = Some (r, db')"
proof -
  have "tc_retry_budget cfg / tc_jitter_min cfg \<le> real (nat \<lceil>tc_retry_budget cfg / tc_jitter_min cfg\<rceil>)"
    by linarith
  then have "tc_retry_budget cfg \<le> (real 0 + real (Suc (nat \<lceil>tc_retry_budget cfg / tc_jitter_min cfg\<rceil>))) * tc_jitter_min cfg"
    using assms(2) by (simp add: divide_le_eq algebra_simps)
  from loop_returns [OF assms _ this, of action db] assms(1)
  show ?thesis
    by (auto simp: clock_ok_def domain_write_def retry_fuel_def simp del: domain_write_loop.simps)
qed

lemma domain_write_returns_witness:
  "\<exists>r db'. domain_write sample_config sample_env 0 (\<lambda>d :: nat. Inr (d + 1, d * 2) :: txn_exn + nat \<times> nat) 7
     = Some (r, db')"
  using domain_write_returns [OF sample_clock] by (simp add: sample_config_def)

end
