(* ===== verification/GF_Journal.thy ===== *)
theory GF_Journal
  imports GF_Txn GF_Time
begin

text \<open>
  The schema of the state journal (\<open>_install_p2_schema\<close>, \<open>_install_p3_schema\<close> and
  \<open>_install_p4_schema\<close> of \<open>scripts/goalflight_journal.py\<close>): one record per table, the tables as
  row lists in rowid order, and for every insert or key update the constraints SQLite enforces,
  whose violation is the \<open>IntegrityError\<close> of the statement. Timestamps are the ISO strings the
  code stores; columns holding JSON text hold the value the text denotes.
\<close>

section \<open>Rows\<close>

datatype lifecycle = PREPARED | STARTING | RUNNING | TERMINAL | ABANDONED

record dispatch_attempt =
  at_attempt :: string
  at_dispatch :: string
  at_root :: string
  at_state :: lifecycle
  at_epoch :: nat
  at_token :: string
  at_worker :: "dict option"
  at_prepared_at :: string
  at_updated_at :: string
  at_deadline :: "string option"
  at_transition :: "string option"
  at_terminal_state :: "string option"
  at_outcome :: "dict option"
  at_terminal_at :: "string option"
  at_owner_label :: "string option"
  at_owner_digest :: "string option"
  at_account :: "string option"
  at_engine :: "string option"

record dispatch_transition =
  tr_attempt :: string
  tr_transition :: string
  tr_from :: lifecycle
  tr_to :: lifecycle
  tr_terminal_state :: string
  tr_observation :: dict
  tr_created_at :: string

record outbox_row =
  ob_attempt :: string
  ob_transition :: string
  ob_origin :: string
  ob_event :: string
  ob_recipient :: string
  ob_type :: string
  ob_payload :: dict
  ob_created_at :: string
  ob_projected_at :: "string option"
  ob_attempts :: nat
  ob_error :: "string option"
  ob_retry_at :: "string option"
  ob_quarantined_at :: "string option"

datatype lease_state = ACTIVE | SUPERSEDED | EXPIRED | RETIRED

record controller_lease =
  ls_root :: string
  ls_label :: string
  ls_generation :: nat
  ls_nonce :: string
  ls_principal :: dict
  ls_pid :: "int option"
  ls_start_token :: "string option"
  ls_state :: lease_state
  ls_claimed_at :: string
  ls_renewed_at :: string
  ls_deadline_at :: string
  ls_ended_at :: "string option"
  ls_ended_reason :: "string option"

record controller_cursor =
  cc_root :: string
  cc_label :: string
  cc_generation :: nat
  cc_version :: nat
  cc_backlog :: bool
  cc_updated_at :: string
  cc_advanced_at :: "string option"
  cc_advanced_by :: "string option"

record stream_cursor =
  sc_root :: string
  sc_label :: string
  sc_stream :: string
  sc_position :: nat
  sc_updated_at :: string

record stream_rewind =
  rw_root :: string
  rw_label :: string
  rw_stream :: string
  rw_version :: nat

datatype coverage_state = ARMED | EXITED

record listener_coverage =
  cv_id :: string
  cv_root :: string
  cv_label :: string
  cv_generation :: nat
  cv_nonce :: string
  cv_pid :: int
  cv_start_token :: string
  cv_parent_pid :: int
  cv_armed_at :: string
  cv_state :: coverage_state
  cv_exited_at :: "string option"
  cv_exit_reason :: "string option"

record delivery_event =
  de_root :: string
  de_recipient :: string
  de_origin :: string
  de_uuid :: string
  de_stream :: string
  de_seq :: nat
  de_carrier :: string
  de_type :: string
  de_waking :: bool
  de_created_at :: string
  de_projected_at :: "string option"
  de_withdrawn_at :: "string option"

record wake_row =
  wk_root :: string
  wk_recipient :: string
  wk_origin :: string
  wk_uuid :: string
  wk_stream :: string
  wk_seq :: nat
  wk_type :: string
  wk_created_at :: string
  wk_enqueued_at :: string
  wk_delivered_at :: "string option"
  wk_abandoned_at :: "string option"
  wk_abandon_reason :: "string option"
  wk_attempts :: nat
  wk_error :: "string option"
  wk_retry_at :: "string option"

datatype item_state = OPEN | RESOLVED

record attention_item =
  ai_id :: string
  ai_root :: string
  ai_type :: string
  ai_state :: item_state
  ai_label :: string
  ai_generation :: nat
  ai_trigger :: string
  ai_reason :: string
  ai_payload :: dict
  ai_created_at :: string
  ai_resolved_at :: "string option"

record system_attention_item =
  sy_id :: string
  sy_root :: string
  sy_type :: string
  sy_state :: item_state
  sy_reason :: string
  sy_payload :: dict
  sy_created_at :: string
  sy_resolved_at :: "string option"

record journal =
  attempts :: "dispatch_attempt list"
  transitions :: "dispatch_transition list"
  outbox :: "outbox_row list"
  leases :: "controller_lease list"
  cursors :: "controller_cursor list"
  stream_cursors :: "stream_cursor list"
  rewinds :: "stream_rewind list"
  coverage :: "listener_coverage list"
  events :: "delivery_event list"
  wakes :: "wake_row list"
  attention :: "attention_item list"
  system_attention :: "system_attention_item list"

definition empty_journal :: journal where
  "empty_journal = \<lparr>attempts = [], transitions = [], outbox = [], leases = [], cursors = [],
     stream_cursors = [], rewinds = [], coverage = [], events = [], wakes = [], attention = [],
     system_attention = []\<rparr>"

type_synonym 'a jtxn = "('a, journal) txn"

section \<open>Constraint checks\<close>

text \<open>
  The keys declared \<open>PRIMARY KEY\<close> or \<open>UNIQUE\<close>. A nullable unique column constrains the rows in
  which it is not null; a partial index the rows its condition selects.
\<close>

definition tr_key :: "dispatch_transition \<Rightarrow> string \<times> string" where
  "tr_key t = (tr_attempt t, tr_transition t)"

definition ob_key :: "outbox_row \<Rightarrow> string \<times> string" where
  "ob_key b = (ob_attempt b, ob_transition b)"

definition ob_event_key :: "outbox_row \<Rightarrow> string \<times> string \<times> string" where
  "ob_event_key b = (ob_origin b, ob_event b, ob_recipient b)"

definition ls_key :: "controller_lease \<Rightarrow> string \<times> string \<times> nat" where
  "ls_key l = (ls_root l, ls_label l, ls_generation l)"

definition ls_nonce_key :: "controller_lease \<Rightarrow> string \<times> string \<times> string" where
  "ls_nonce_key l = (ls_root l, ls_label l, ls_nonce l)"

definition ls_place :: "controller_lease \<Rightarrow> string \<times> string" where
  "ls_place l = (ls_root l, ls_label l)"

definition cc_key :: "controller_cursor \<Rightarrow> string \<times> string" where
  "cc_key c = (cc_root c, cc_label c)"

definition sc_key :: "stream_cursor \<Rightarrow> string \<times> string \<times> string" where
  "sc_key c = (sc_root c, sc_label c, sc_stream c)"

definition rw_key :: "stream_rewind \<Rightarrow> string \<times> string \<times> string" where
  "rw_key c = (rw_root c, rw_label c, rw_stream c)"

definition cv_place :: "listener_coverage \<Rightarrow> string \<times> string \<times> nat" where
  "cv_place c = (cv_root c, cv_label c, cv_generation c)"

definition de_key :: "delivery_event \<Rightarrow> string \<times> string \<times> string \<times> string" where
  "de_key e = (de_root e, de_recipient e, de_origin e, de_uuid e)"

definition de_slot :: "delivery_event \<Rightarrow> string \<times> string \<times> string \<times> nat" where
  "de_slot e = (de_root e, de_recipient e, de_stream e, de_seq e)"

definition de_live :: "delivery_event \<Rightarrow> bool" where
  "de_live e \<longleftrightarrow> de_withdrawn_at e = None"

definition wk_key :: "wake_row \<Rightarrow> string \<times> string \<times> string \<times> string" where
  "wk_key w = (wk_root w, wk_recipient w, wk_origin w, wk_uuid w)"

definition ai_place :: "attention_item \<Rightarrow> string \<times> string \<times> nat \<times> string" where
  "ai_place a = (ai_root a, ai_label a, ai_generation a, ai_type a)"

definition violation :: "txn_exn + 'a" where
  "violation = Inl (SqlDatabase IntegrityViolation)"

text \<open>A keyed insert: rejected when a stored row has the key.\<close>

definition clash :: "('r \<Rightarrow> 'k) \<Rightarrow> 'r \<Rightarrow> 'r list \<Rightarrow> bool" where
  "clash key r rs \<longleftrightarrow> key r \<in> key ` set rs"

lemma clash_append: "\<not> clash key r rs \<Longrightarrow> distinct (map key rs) \<Longrightarrow> distinct (map key (rs @ [r]))"
  by (simp add: clash_def)

definition insert_attempt :: "dispatch_attempt \<Rightarrow> journal \<Rightarrow> txn_exn + journal" where
  "insert_attempt r db =
     (if clash at_attempt r (attempts db) \<or> clash at_dispatch r (attempts db) then violation
      else Inr (db\<lparr>attempts := attempts db @ [r]\<rparr>))"

definition insert_transition :: "dispatch_transition \<Rightarrow> journal \<Rightarrow> txn_exn + journal" where
  "insert_transition r db =
     (if clash tr_key r (transitions db) \<or> clash tr_transition r (transitions db)
         \<or> \<not> sql_exists (\<lambda>a. at_attempt a = tr_attempt r) (attempts db) then violation
      else Inr (db\<lparr>transitions := transitions db @ [r]\<rparr>))"

definition insert_outbox :: "outbox_row \<Rightarrow> journal \<Rightarrow> txn_exn + journal" where
  "insert_outbox r db =
     (if clash ob_key r (outbox db) \<or> clash ob_event_key r (outbox db)
         \<or> \<not> sql_exists (\<lambda>t. tr_key t = ob_key r) (transitions db) then violation
      else Inr (db\<lparr>outbox := outbox db @ [r]\<rparr>))"

definition insert_lease :: "controller_lease \<Rightarrow> journal \<Rightarrow> txn_exn + journal" where
  "insert_lease r db =
     (if clash ls_key r (leases db) \<or> clash ls_nonce_key r (leases db)
         \<or> (ls_state r = ACTIVE
            \<and> sql_exists (\<lambda>l. ls_place l = ls_place r \<and> ls_state l = ACTIVE) (leases db)) then violation
      else Inr (db\<lparr>leases := leases db @ [r]\<rparr>))"

definition insert_coverage :: "listener_coverage \<Rightarrow> journal \<Rightarrow> txn_exn + journal" where
  "insert_coverage r db =
     (if clash cv_id r (coverage db)
         \<or> (cv_state r = ARMED
            \<and> sql_exists (\<lambda>c. cv_place c = cv_place r \<and> cv_state c = ARMED) (coverage db))
         \<or> \<not> sql_exists (\<lambda>l. ls_key l = cv_place r) (leases db) then violation
      else Inr (db\<lparr>coverage := coverage db @ [r]\<rparr>))"

definition insert_event :: "delivery_event \<Rightarrow> journal \<Rightarrow> txn_exn + journal" where
  "insert_event r db =
     (if clash de_key r (events db)
         \<or> (de_live r \<and> sql_exists (\<lambda>e. de_slot e = de_slot r \<and> de_live e) (events db)) then violation
      else Inr (db\<lparr>events := events db @ [r]\<rparr>))"

text \<open>\<open>INSERT OR IGNORE\<close>: a row any constraint rejects is skipped.\<close>

definition insert_event_or_ignore :: "delivery_event \<Rightarrow> journal \<Rightarrow> journal" where
  "insert_event_or_ignore r db = (case insert_event r db of Inl _ \<Rightarrow> db | Inr db' \<Rightarrow> db')"

lemmas insert_defs = insert_attempt_def insert_transition_def insert_outbox_def insert_lease_def
  insert_coverage_def insert_event_def violation_def

text \<open>\<open>UPDATE\<close> on a keyed column: rejected when the rewritten table repeats a key.\<close>

definition update_keyed ::
  "('r \<Rightarrow> 'k option) \<Rightarrow> ('r \<Rightarrow> bool) \<Rightarrow> ('r \<Rightarrow> 'r) \<Rightarrow> 'r list \<Rightarrow> txn_exn + 'r list" where
  "update_keyed key p f rs =
     (let rs' = sql_update p f rs
      in if distinct (List.map_filter key rs') then Inr rs' else violation)"

section \<open>Canonical JSON text\<close>

text \<open>
  Values are stored through \<open>json.dumps(..., sort_keys=True)\<close> and read back with \<open>json.loads\<close>, so
  what is read has its keys in ascending order at every level.
\<close>

primrec canon :: "json \<Rightarrow> json" where
  "canon JNull = JNull"
| "canon (JBool b) = JBool b"
| "canon (JInt i) = JInt i"
| "canon (JFloat r) = JFloat r"
| "canon (JStr s) = JStr s"
| "canon (JList xs) = JList (map canon xs)"
| "canon (JObj d) = JObj (sort_key fst (map (map_prod id canon) d))"

definition canon_dict :: "dict \<Rightarrow> dict" where
  "canon_dict d = sort_key fst (map (map_prod id canon) d)"

end
