(* ===== verification/GF_Delivery.thy ===== *)
theory GF_Delivery
  imports GF_Journal "HOL-Library.Product_Lexorder"
begin

text \<open>
  Delivery of events to controllers (\<open>record_delivery_event\<close>, \<open>mark_delivery_projected\<close>,
  \<open>withdraw_delivery_event\<close>, the cursor reads and \<open>advance_cursor\<close>, \<open>set_cursor\<close>,
  \<open>_write_cursor_positions\<close>, \<open>_rehome_retired_delivery_events\<close> of
  \<open>scripts/goalflight_journal.py\<close>). An event sits in a numbered slot of a stream and is addressed
  to a controller label or to the wildcard \<open>*\<close>; a controller's cursor is one position per stream.
\<close>

section \<open>What a controller can see\<close>

definition position_of :: "string \<Rightarrow> string \<Rightarrow> string \<Rightarrow> journal \<Rightarrow> nat" where
  "position_of project label stream db =
     (case sql_fetchone (\<lambda>c. sc_root c = project \<and> sc_label c = label \<and> sc_stream c = stream)
        (stream_cursors db) of None \<Rightarrow> 0 | Some c \<Rightarrow> sc_position c)"

definition addressed :: "string \<Rightarrow> string \<Rightarrow> delivery_event \<Rightarrow> bool" where
  "addressed project label e \<longleftrightarrow> de_root e = project \<and> (de_recipient e = label \<or> de_recipient e = ''*'')"

text \<open>A live row past the cursor, and one the carrier has made readable too.\<close>

definition outstanding :: "string \<Rightarrow> string \<Rightarrow> journal \<Rightarrow> delivery_event \<Rightarrow> bool" where
  "outstanding project label db e \<longleftrightarrow> addressed project label e \<and> de_withdrawn_at e = None
     \<and> position_of project label (de_stream e) db < de_seq e"

definition pending :: "string \<Rightarrow> string \<Rightarrow> journal \<Rightarrow> delivery_event \<Rightarrow> bool" where
  "pending project label db e \<longleftrightarrow> outstanding project label db e \<and> de_projected_at e \<noteq> None"

definition label_has_unread_delivery :: "string \<Rightarrow> string \<Rightarrow> journal \<Rightarrow> bool" where
  "label_has_unread_delivery project label db = sql_exists (pending project label db) (events db)"

definition care_work_exists :: "string \<Rightarrow> string \<Rightarrow> journal \<Rightarrow> bool" where
  "care_work_exists project label db \<longleftrightarrow>
     sql_exists (\<lambda>a. at_root a = project \<and> at_state a \<in> {PREPARED, STARTING, RUNNING}) (attempts db)
   \<or> sql_exists (\<lambda>e. pending project label db e \<and> de_waking e \<and> de_type e \<noteq> ''controller_attention'')
       (events db)"

section \<open>Snapshot invalidation\<close>

definition invalidation_labels :: "string \<Rightarrow> string \<Rightarrow> string option \<Rightarrow> journal \<Rightarrow> string list" where
  "invalidation_labels project recipient exclude db =
     (if recipient = ''*'' then
        map cc_label (filter (\<lambda>c. cc_root c = project \<and> exclude \<noteq> Some (cc_label c)) (cursors db))
      else if exclude = Some recipient then []
      else if sql_exists (\<lambda>c. cc_root c = project \<and> cc_label c = recipient) (cursors db) then [recipient]
      else [])"

definition invalidate_label :: "string \<Rightarrow> string \<Rightarrow> string \<Rightarrow> journal \<Rightarrow> journal" where
  "invalidate_label project updated_at label db = db\<lparr>cursors :=
     sql_update (\<lambda>c. cc_root c = project \<and> cc_label c = label)
       (\<lambda>c. c\<lparr>cc_version := Suc (cc_version c), cc_updated_at := updated_at,
              cc_backlog := label_has_unread_delivery project label db\<rparr>) (cursors db)\<rparr>"

definition invalidate_snapshots :: "string \<Rightarrow> string \<Rightarrow> string \<Rightarrow> string option \<Rightarrow> journal \<Rightarrow> journal" where
  "invalidate_snapshots project recipient updated_at exclude db =
     fold (invalidate_label project updated_at) (invalidation_labels project recipient exclude db) db"

section \<open>Recording and projecting\<close>

record event_args =
  ea_recipient :: string
  ea_origin :: string
  ea_uuid :: string
  ea_stream :: string
  ea_seq :: int
  ea_carrier :: string
  ea_type :: string
  ea_class :: string
  ea_created_at :: string
  ea_replaces :: "(string \<times> string \<times> string) list"
  ea_fallback :: bool

definition need_recipient :: "string \<Rightarrow> txn_exn + string" where
  "need_recipient r = (if r = ''*'' then Inr r else need_identity_token r)"

text \<open>\<open>_parse_utc\<close>: an offset that leaves the calendar raises out of \<open>astimezone\<close>.\<close>

definition parse_utc :: "string \<Rightarrow> txn_exn + int option" where
  "parse_utc value = (case fromisoformat (replace_Z value) of
      None \<Rightarrow> Inr None
    | Some d \<Rightarrow> (let us = utc_instant d; day = us div us_per_day
        in if day < 1 \<or> 3652059 < day then Inl OtherError else Inr (Some us)))"

definition need_timestamp :: "string \<Rightarrow> txn_exn + string" where
  "need_timestamp s = (case parse_utc s of
      Inl x \<Rightarrow> Inl x | Inr None \<Rightarrow> Inl PyValueError | Inr (Some _) \<Rightarrow> Inr s)"

definition replacement_checks :: "event_args \<Rightarrow> (txn_exn + string) list" where
  "replacement_checks e = concat (map (\<lambda>(r, o', u).
     [need_recipient r, need_identity_token o', need_canonical_uuid u,
      demand ((r, o', u) \<noteq> (ea_recipient e, ea_origin e, ea_uuid e))]) (ea_replaces e))"

definition record_checks :: "event_args \<Rightarrow> txn_exn + unit" where
  "record_checks e = all_checks
     ([need_recipient (ea_recipient e), need_identity_token (ea_origin e), need_canonical_uuid (ea_uuid e),
       need_identity_token (ea_stream e), need_identity_token (ea_type e), demand (1 \<le> ea_seq e),
       demand (ea_class e = ''waking'' \<or> ea_class e = ''quiet''), need_timestamp (ea_created_at e)]
      @ replacement_checks e)"

definition has_active_lease :: "string \<Rightarrow> string \<Rightarrow> journal \<Rightarrow> bool" where
  "has_active_lease project label db =
     sql_exists (\<lambda>l. ls_root l = project \<and> ls_label l = label \<and> ls_state l = ACTIVE) (leases db)"

definition effective_recipient :: "string \<Rightarrow> event_args \<Rightarrow> journal \<Rightarrow> string" where
  "effective_recipient project e db =
     (if ea_fallback e \<and> ea_recipient e \<noteq> ''*'' \<and> \<not> has_active_lease project (ea_recipient e) db
      then ''*'' else ea_recipient e)"

definition new_event :: "string \<Rightarrow> string \<Rightarrow> event_args \<Rightarrow> delivery_event" where
  "new_event project recipient e = \<lparr>de_root = project, de_recipient = recipient, de_origin = ea_origin e,
     de_uuid = ea_uuid e, de_stream = ea_stream e, de_seq = nat (ea_seq e), de_carrier = ea_carrier e,
     de_type = ea_type e, de_waking = (ea_class e = ''waking''), de_created_at = ea_created_at e,
     de_projected_at = None, de_withdrawn_at = None\<rparr>"

text \<open>The five columns compared with an existing row of the same identity.\<close>

definition same_content :: "event_args \<Rightarrow> delivery_event \<Rightarrow> bool" where
  "same_content e r \<longleftrightarrow> de_stream r = ea_stream e \<and> de_seq r = nat (ea_seq e) \<and> de_carrier r = ea_carrier e
     \<and> de_type r = ea_type e \<and> de_waking r = (ea_class e = ''waking'')"

text \<open>The keys in order of first appearance, each once.\<close>

definition dedupe :: "'a list \<Rightarrow> 'a list" where
  "dedupe xs = rev (remdups (rev xs))"

definition withdraw_replaced :: "string \<Rightarrow> string \<Rightarrow> string \<times> string \<times> string \<Rightarrow> journal \<Rightarrow> journal" where
  "withdraw_replaced project now key db = (case key of (r, o', u) \<Rightarrow> db\<lparr>events :=
     sql_update (\<lambda>e. de_root e = project \<and> (r = ''*'' \<or> de_recipient e = r) \<and> de_origin e = o' \<and> de_uuid e = u)
       (\<lambda>e. e\<lparr>de_withdrawn_at := Some (case de_withdrawn_at e of None \<Rightarrow> now | Some t \<Rightarrow> t)\<rparr>) (events db)\<rparr>)"

text \<open>
  The value is the stored row; for a new row the code's dict leaves out the two columns that are
  still null.
\<close>

definition record_delivery_action :: "string \<Rightarrow> event_args \<Rightarrow> string \<Rightarrow> string \<Rightarrow> delivery_event jtxn" where
  "record_delivery_action project e withdrawn_at now db =
     (let recipient = effective_recipient project e db;
          existing = sql_fetchone (\<lambda>r. de_root r = project \<and> de_recipient r = recipient
                       \<and> de_origin r = ea_origin e \<and> de_uuid r = ea_uuid e) (events db)
      in case existing of
           Some r \<Rightarrow>
             if \<not> same_content e r then Inl JournalIntegrityError
             else Inr (r, fold (withdraw_replaced project withdrawn_at) (dedupe (ea_replaces e)) db)
         | None \<Rightarrow>
             (let db1 = fold (withdraw_replaced project withdrawn_at) (dedupe (ea_replaces e)) db;
                  row = new_event project recipient e
              in case insert_event row db1 of
                   Inl x \<Rightarrow> Inl x
                 | Inr db2 \<Rightarrow> Inr (row, invalidate_snapshots project recipient now None db2)))"

definition record_delivery_event where
  "record_delivery_event cfg env started project e withdrawn_at now db =
     checked_write cfg env started (record_checks e) (record_delivery_action project e withdrawn_at now) db"

text \<open>\<open>should_enqueue_delivery\<close> of \<open>goalflight_wake_webhook.py\<close>.\<close>

definition MONITOR_LOCAL_EVENT_TYPES :: "string set" where
  "MONITOR_LOCAL_EVENT_TYPES = {''heartbeat'', ''coverage'', ''next'', ''frontier'', ''keepalive''}"

definition should_enqueue_delivery :: "delivery_event \<Rightarrow> bool" where
  "should_enqueue_delivery e \<longleftrightarrow> de_waking e
     \<and> strip (de_type e) \<notin> MONITOR_LOCAL_EVENT_TYPES \<and> strip (de_type e) \<noteq> []"

definition enqueue_wake :: "string \<Rightarrow> delivery_event \<Rightarrow> journal \<Rightarrow> journal" where
  "enqueue_wake now e db =
     (let w = \<lparr>wk_root = de_root e, wk_recipient = de_recipient e, wk_origin = de_origin e,
               wk_uuid = de_uuid e, wk_stream = de_stream e, wk_seq = (if de_seq e = 0 then 1 else de_seq e),
               wk_type = de_type e, wk_created_at = (if de_created_at e = [] then now else de_created_at e),
               wk_enqueued_at = now, wk_delivered_at = None, wk_abandoned_at = None,
               wk_abandon_reason = None, wk_attempts = 0, wk_error = None, wk_retry_at = None\<rparr>
      in if clash wk_key w (wakes db) then db else db\<lparr>wakes := wakes db @ [w]\<rparr>)"

record projection =
  pj_row :: delivery_event
  pj_cursors :: "controller_cursor list"
  pj_new :: bool

definition active_cursors :: "string \<Rightarrow> string \<Rightarrow> journal \<Rightarrow> controller_cursor list" where
  "active_cursors project recipient db = sort_key cc_label
     (filter (\<lambda>c. cc_root c = project \<and> (recipient = ''*'' \<or> cc_label c = recipient)
        \<and> sql_exists (\<lambda>l. ls_root l = cc_root c \<and> ls_label l = cc_label c
             \<and> ls_generation l = cc_generation c \<and> ls_state l = ACTIVE) (leases db)) (cursors db))"

definition projection_row :: "string \<Rightarrow> string \<Rightarrow> string \<Rightarrow> string \<Rightarrow> journal \<Rightarrow> delivery_event option" where
  "projection_row project recipient origin uuid db =
     (case sql_fetchone (\<lambda>e. de_root e = project \<and> de_recipient e = recipient \<and> de_origin e = origin
             \<and> de_uuid e = uuid) (events db) of
        Some e \<Rightarrow> Some e
      | None \<Rightarrow>
          if recipient = ''*'' then None
          else sql_fetchone (\<lambda>e. de_root e = project \<and> de_recipient e = ''*'' \<and> de_origin e = origin
             \<and> de_uuid e = uuid \<and> de_withdrawn_at e = None) (events db))"

text \<open>
  \<open>enqueue\<close> is whether a wake webhook is configured; \<open>now2\<close> the clock of the outbox row.
\<close>

definition mark_projected_action ::
  "string \<Rightarrow> bool \<Rightarrow> string \<Rightarrow> string \<Rightarrow> string \<Rightarrow> string \<Rightarrow> string \<Rightarrow> projection jtxn" where
  "mark_projected_action project enqueue recipient origin uuid now now2 db =
     (case projection_row project recipient origin uuid db of
        None \<Rightarrow> Inl (CASMismatch ''delivery projection lost: assignment row is absent'')
      | Some row \<Rightarrow>
          (let target = (if de_recipient row = recipient then recipient else ''*'');
               stamp = (case de_projected_at row of None \<Rightarrow> now | Some t \<Rightarrow> if t = [] then now else t);
               hit = (\<lambda>e. de_root e = project \<and> de_recipient e = target \<and> de_origin e = origin
                        \<and> de_uuid e = uuid \<and> de_projected_at e = None);
               fresh = (sql_rowcount hit (events db) = 1);
               db1 = db\<lparr>events := sql_update hit (\<lambda>e. e\<lparr>de_projected_at := Some stamp\<rparr>) (events db)\<rparr>;
               db2 = (if fresh then invalidate_snapshots project target stamp None db1 else db1);
               result = row\<lparr>de_projected_at := Some stamp\<rparr>;
               db3 = (if fresh \<and> enqueue \<and> should_enqueue_delivery result then enqueue_wake now2 result db2 else db2)
           in Inr (\<lparr>pj_row = result, pj_cursors = active_cursors project target db2, pj_new = fresh\<rparr>, db3)))"

definition event_key_checks :: "string \<Rightarrow> string \<Rightarrow> string \<Rightarrow> txn_exn + unit" where
  "event_key_checks recipient origin uuid = all_checks
     [need_recipient recipient, need_identity_token origin, need_canonical_uuid uuid]"

definition mark_delivery_projected where
  "mark_delivery_projected cfg env started project enqueue recipient origin uuid now now2 db =
     checked_write cfg env started (event_key_checks recipient origin uuid)
       (mark_projected_action project enqueue recipient origin uuid now now2) db"

definition withdraw_action :: "string \<Rightarrow> string \<Rightarrow> string \<Rightarrow> string \<Rightarrow> string \<Rightarrow> delivery_event option jtxn" where
  "withdraw_action project recipient origin uuid now db =
     (case sql_fetchone (\<lambda>e. de_root e = project \<and> de_recipient e = recipient \<and> de_origin e = origin
             \<and> de_uuid e = uuid) (events db) of
        None \<Rightarrow> Inr (None, db)
      | Some row \<Rightarrow>
          (let stamp = (case de_withdrawn_at row of None \<Rightarrow> now | Some t \<Rightarrow> if t = [] then now else t);
               hit = (\<lambda>e. de_root e = project \<and> de_recipient e = recipient \<and> de_origin e = origin
                        \<and> de_uuid e = uuid \<and> de_withdrawn_at e = None);
               db1 = db\<lparr>events := sql_update hit (\<lambda>e. e\<lparr>de_withdrawn_at := Some stamp\<rparr>) (events db)\<rparr>
           in Inr (Some (row\<lparr>de_withdrawn_at := Some stamp\<rparr>),
                   if sql_rowcount hit (events db) \<noteq> 0 then invalidate_snapshots project recipient stamp None db1
                   else db1)))"

definition withdraw_delivery_event where
  "withdraw_delivery_event cfg env started project recipient origin uuid now db =
     checked_write cfg env started (event_key_checks recipient origin uuid)
       (withdraw_action project recipient origin uuid now) db"

section \<open>Reading at the cursor\<close>

text \<open>Rowids: rows are never deleted, so a row's rowid is its place in the table, from 1.\<close>

definition with_rowid :: "'r list \<Rightarrow> (nat \<times> 'r) list" where
  "with_rowid rs = zip [1..<Suc (length rs)] rs"

fun show_nat :: "nat \<Rightarrow> string" where
  "show_nat n = (if n < 10 then [char_of (48 + n)] else show_nat (n div 10) @ [char_of (48 + n mod 10)])"

declare show_nat.simps [simp del]

text \<open>The rows \<open>_cursor_stream_snapshot\<close> hashes, in rowid order.\<close>

definition snapshot_rows :: "string \<Rightarrow> string \<Rightarrow> string \<Rightarrow> nat \<Rightarrow> bool \<Rightarrow> journal \<Rightarrow> (nat \<times> delivery_event) list" where
  "snapshot_rows project label stream position waking_only db =
     filter (\<lambda>(i, e). outstanding project label db e \<and> de_stream e = stream \<and> de_seq e \<le> position
        \<and> (waking_only \<longrightarrow> de_waking e)) (with_rowid (events db))"

definition snapshot_field :: "nat \<times> delivery_event \<Rightarrow> string" where
  "snapshot_field r = show_nat (fst r) @ '':'' @ (if de_projected_at (snd r) \<noteq> None then ''1'' else ''0'')"

fun join_bar :: "string list \<Rightarrow> string" where
  "join_bar [] = []"
| "join_bar [f] = f"
| "join_bar (f # fs) = f @ ''|'' @ join_bar fs"

definition stream_material :: "string \<Rightarrow> string \<Rightarrow> string \<Rightarrow> nat \<Rightarrow> bool \<Rightarrow> journal \<Rightarrow> string" where
  "stream_material project label stream position waking_only db =
     join_bar (map snapshot_field (snapshot_rows project label stream position waking_only db))"

definition stream_snapshot ::
  "(string \<Rightarrow> string) \<Rightarrow> string \<Rightarrow> string \<Rightarrow> string \<Rightarrow> nat \<Rightarrow> bool \<Rightarrow> journal \<Rightarrow> string \<times> bool" where
  "stream_snapshot sha project label stream position waking_only db =
     (sha (stream_material project label stream position waking_only db),
      list_ex (\<lambda>(i, e). de_projected_at e = None) (snapshot_rows project label stream position waking_only db))"

definition pending_rows ::
  "string \<Rightarrow> string \<Rightarrow> bool \<Rightarrow> string list option \<Rightarrow> nat \<Rightarrow> journal \<Rightarrow> delivery_event list" where
  "pending_rows project label waking_only streams limit db =
     take limit (sort_key (\<lambda>e. (de_stream e, de_seq e))
       (filter (\<lambda>e. pending project label db e \<and> (waking_only \<longrightarrow> de_waking e)
          \<and> (case streams of None \<Rightarrow> True | Some ss \<Rightarrow> ss = [] \<or> de_stream e \<in> set ss)) (events db)))"

definition pending_delivery_events ::
  "string \<Rightarrow> string \<Rightarrow> bool \<Rightarrow> string list \<Rightarrow> nat \<Rightarrow> journal \<Rightarrow> delivery_event list" where
  "pending_delivery_events project label waking_only streams limit db =
     take limit (filter (\<lambda>e. pending project label db e \<and> (waking_only \<longrightarrow> de_waking e)
          \<and> (streams = [] \<or> de_stream e \<in> set streams)) (events db))"

type_synonym positions = "(string \<times> nat) list"

definition pos_get :: "positions \<Rightarrow> string \<Rightarrow> nat" where
  "pos_get ps s = (case map_of ps s of None \<Rightarrow> 0 | Some p \<Rightarrow> p)"

definition max_positions :: "delivery_event list \<Rightarrow> positions" where
  "max_positions rows =
     fold (\<lambda>e ps. AList.update (de_stream e) (max (pos_get ps (de_stream e)) (de_seq e)) ps) rows []"

record cursor_peek =
  pk_label :: string
  pk_generation :: nat
  pk_version :: nat
  pk_snapshots :: "(string \<times> string) list"
  pk_items :: "delivery_event list"

definition active_row :: "string \<Rightarrow> string \<Rightarrow> journal \<Rightarrow> controller_lease option" where
  "active_row project label db =
     sql_fetchone (\<lambda>l. ls_root l = project \<and> ls_label l = label \<and> ls_state l = ACTIVE) (leases db)"

definition cursor_row :: "string \<Rightarrow> string \<Rightarrow> journal \<Rightarrow> controller_cursor option" where
  "cursor_row project label db =
     sql_fetchone (\<lambda>c. cc_root c = project \<and> cc_label c = label) (cursors db)"

definition cursor_peek_action ::
  "(string \<Rightarrow> string) \<Rightarrow> string \<Rightarrow> string \<Rightarrow> string option \<Rightarrow> bool \<Rightarrow> nat \<Rightarrow> bool \<Rightarrow> journal
     \<Rightarrow> txn_exn + cursor_peek" where
  "cursor_peek_action sha project label nonce waking_only limit whole_streams db =
     (case active_row project label db of
        None \<Rightarrow> Inl (CASMismatch ''listener lease generation or nonce is no longer active'')
      | Some lease \<Rightarrow>
          if nonce \<noteq> None \<and> nonce \<noteq> Some (ls_nonce lease) then
            Inl (CASMismatch ''listener lease generation or nonce is no longer active'')
          else (case cursor_row project label db of
              None \<Rightarrow> Inl JournalIntegrityError
            | Some c \<Rightarrow>
                if cc_generation c \<noteq> ls_generation lease then Inl JournalIntegrityError
                else
                  (let first = pending_rows project label waking_only None limit db;
                       rows = (if whole_streams \<and> first \<noteq> []
                          then pending_rows project label waking_only (Some (dedupe (map de_stream first))) 10000 db
                          else first);
                       ps = max_positions rows
                   in Inr \<lparr>pk_label = label, pk_generation = cc_generation c, pk_version = cc_version c,
                        pk_snapshots = map (\<lambda>(s, p). (s, fst (stream_snapshot sha project label s p waking_only db))) ps,
                        pk_items = rows\<rparr>)))"

section \<open>Moving the cursor\<close>

text \<open>
  \<open>UPDATE delivery_events SET recipient_label\<close>: both the primary key and the live slots must stay
  unique.
\<close>

definition readdress :: "(delivery_event \<Rightarrow> bool) \<Rightarrow> string \<Rightarrow> journal \<Rightarrow> txn_exn + journal" where
  "readdress p label db =
     (let rows = sql_update p (\<lambda>e. e\<lparr>de_recipient := label\<rparr>) (events db)
      in if distinct (map de_key rows) \<and> distinct (map de_slot (filter de_live rows))
         then Inr (db\<lparr>events := rows\<rparr>) else violation)"

definition withdraw_rows :: "(delivery_event \<Rightarrow> bool) \<Rightarrow> string \<Rightarrow> journal \<Rightarrow> journal" where
  "withdraw_rows p now db =
     db\<lparr>events := sql_update p (\<lambda>e. e\<lparr>de_withdrawn_at := Some now\<rparr>) (events db)\<rparr>"

text \<open>The wildcard rows a consumption passes over, and the exact rows that duplicate one.\<close>

definition passed_wildcard :: "string \<Rightarrow> string \<Rightarrow> nat \<Rightarrow> nat \<Rightarrow> delivery_event \<Rightarrow> bool" where
  "passed_wildcard project stream current position e \<longleftrightarrow> de_root e = project \<and> de_recipient e = ''*''
     \<and> de_stream e = stream \<and> current < de_seq e \<and> de_seq e \<le> position
     \<and> de_projected_at e \<noteq> None \<and> de_withdrawn_at e = None"

definition exact_twin :: "string \<Rightarrow> delivery_event \<Rightarrow> delivery_event \<Rightarrow> bool" where
  "exact_twin label w e \<longleftrightarrow> de_root e = de_root w \<and> de_recipient e = label
     \<and> ((de_origin e = de_origin w \<and> de_uuid e = de_uuid w)
        \<or> (de_stream e = de_stream w \<and> de_seq e = de_seq w \<and> de_withdrawn_at e = None))"

definition adopt_stream ::
  "string \<Rightarrow> string \<Rightarrow> string \<Rightarrow> positions \<Rightarrow> string \<times> nat \<Rightarrow> nat \<times> journal \<Rightarrow> txn_exn + nat \<times> journal" where
  "adopt_stream project label now current sp nd = (case (sp, nd) of ((stream, position), (n, db)) \<Rightarrow>
     (let past = passed_wildcard project stream (pos_get current stream) position;
          dup = (\<lambda>w. past w \<and> sql_exists (exact_twin label w) (events db));
          db1 = withdraw_rows dup now db
      in case readdress past label db1 of
           Inl x \<Rightarrow> Inl x
         | Inr db2 \<Rightarrow> Inr (n + sql_rowcount dup (events db) + sql_rowcount past (events db1), db2)))"

fun adopt_streams ::
  "string \<Rightarrow> string \<Rightarrow> string \<Rightarrow> positions \<Rightarrow> positions \<Rightarrow> nat \<times> journal \<Rightarrow> txn_exn + nat \<times> journal" where
  "adopt_streams project label now current [] nd = Inr nd"
| "adopt_streams project label now current (sp # sps) nd =
     (case adopt_stream project label now current sp nd of
        Inl x \<Rightarrow> Inl x | Inr nd' \<Rightarrow> adopt_streams project label now current sps nd')"

definition bump_rewind :: "string \<Rightarrow> string \<Rightarrow> string \<Rightarrow> journal \<Rightarrow> journal" where
  "bump_rewind project label stream db =
     (let key = (\<lambda>r. rw_root r = project \<and> rw_label r = label \<and> rw_stream r = stream)
      in if sql_exists key (rewinds db)
         then db\<lparr>rewinds := sql_update key (\<lambda>r. r\<lparr>rw_version := Suc (rw_version r)\<rparr>) (rewinds db)\<rparr>
         else db\<lparr>rewinds := rewinds db @ [\<lparr>rw_root = project, rw_label = label, rw_stream = stream, rw_version = 1\<rparr>]\<rparr>)"

definition upsert_position :: "string \<Rightarrow> string \<Rightarrow> string \<Rightarrow> string \<Rightarrow> nat \<Rightarrow> journal \<Rightarrow> journal" where
  "upsert_position project label now stream position db =
     (let key = (\<lambda>c. sc_root c = project \<and> sc_label c = label \<and> sc_stream c = stream)
      in if sql_exists key (stream_cursors db)
         then db\<lparr>stream_cursors :=
           sql_update key (\<lambda>c. c\<lparr>sc_position := position, sc_updated_at := now\<rparr>) (stream_cursors db)\<rparr>
         else db\<lparr>stream_cursors := stream_cursors db @
           [\<lparr>sc_root = project, sc_label = label, sc_stream = stream, sc_position = position, sc_updated_at = now\<rparr>]\<rparr>)"

definition write_position :: "string \<Rightarrow> string \<Rightarrow> string \<Rightarrow> positions \<Rightarrow> string \<times> nat \<Rightarrow> journal \<Rightarrow> journal" where
  "write_position project label now current sp db =
     upsert_position project label now (fst sp) (snd sp)
       (if snd sp < pos_get current (fst sp) then bump_rewind project label (fst sp) db else db)"

record cursor_write =
  cw_label :: string
  cw_generation :: nat
  cw_previous :: nat
  cw_version :: nat
  cw_advances :: positions

definition write_cursor_positions ::
  "string \<Rightarrow> string \<Rightarrow> nat \<Rightarrow> nat \<Rightarrow> positions \<Rightarrow> positions \<Rightarrow> string \<Rightarrow> string \<Rightarrow> cursor_write jtxn" where
  "write_cursor_positions project label generation version advances current actor now db =
     (case adopt_streams project label now current advances (0, db) of
        Inl x \<Rightarrow> Inl x
      | Inr (adopted, db1) \<Rightarrow>
          (let db2 = (if adopted \<noteq> 0 then invalidate_snapshots project ''*'' now (Some label) db1 else db1);
               db3 = fold (write_position project label now current) advances db2;
               hit = (\<lambda>c. cc_root c = project \<and> cc_label c = label \<and> cc_generation c = generation);
               db4 = db3\<lparr>cursors := sql_update hit (\<lambda>c. c\<lparr>cc_version := Suc (cc_version c), cc_updated_at := now,
                       cc_backlog := label_has_unread_delivery project label db3,
                       cc_advanced_at := Some now, cc_advanced_by := Some actor\<rparr>) (cursors db3)\<rparr>
           in if sql_rowcount hit (cursors db3) \<noteq> 1 then
                Inl (CASMismatch ''cursor CAS lost: registry generation changed'')
              else (case cursor_row project label db4 of
                  None \<Rightarrow> Inl JournalIntegrityError
                | Some c \<Rightarrow>
                    if (case cc_advanced_by c of None \<Rightarrow> True | Some s \<Rightarrow> strip s = []) then Inl JournalIntegrityError
                    else Inr (\<lparr>cw_label = label, cw_generation = generation, cw_previous = version,
                       cw_version = Suc version, cw_advances = advances\<rparr>, db4))))"

text \<open>The checks of one requested position; \<open>Inr\<close> is the current position of the stream.\<close>

definition check_advance ::
  "(string \<Rightarrow> string) \<Rightarrow> string \<Rightarrow> string \<Rightarrow> (string \<times> string) list \<Rightarrow> journal \<Rightarrow> string \<times> nat \<Rightarrow> txn_exn + nat" where
  "check_advance sha project label snapshots db sp =
     (let stream = fst sp; position = snd sp; current = position_of project label stream db
      in if sql_exists (\<lambda>c. sc_root c = project \<and> sc_label c = label \<and> sc_stream c = stream) (stream_cursors db)
            \<and> position \<le> current then
           Inl (CASMismatch ''cursor CAS lost: position is already advanced'')
         else if \<not> sql_exists (\<lambda>e. addressed project label e \<and> de_stream e = stream \<and> de_seq e = position
                  \<and> de_projected_at e \<noteq> None \<and> de_withdrawn_at e = None) (events db) then
           Inl (CASMismatch ''cursor CAS lost: server has no pending position'')
         else (case stream_snapshot sha project label stream position False db of (snapshot, unprojected) \<Rightarrow>
           if unprojected \<or> map_of snapshots stream \<noteq> Some snapshot then
             Inl (CASMismatch ''cursor CAS lost: unseen position exists at or below'')
           else Inr current))"

fun check_advances ::
  "(string \<Rightarrow> string) \<Rightarrow> string \<Rightarrow> string \<Rightarrow> (string \<times> string) list \<Rightarrow> journal \<Rightarrow> positions \<Rightarrow> positions
     \<Rightarrow> txn_exn + positions" where
  "check_advances sha project label snapshots db [] current = Inr current"
| "check_advances sha project label snapshots db (sp # sps) current =
     (case check_advance sha project label snapshots db sp of
        Inl x \<Rightarrow> Inl x
      | Inr p \<Rightarrow> check_advances sha project label snapshots db sps (AList.update (fst sp) p current))"

record advance_args =
  av_label :: string
  av_nonce :: "string option"
  av_version :: int
  av_snapshots :: "(string \<times> string) list"
  av_advances :: "(string \<times> int) list"
  av_actor :: string
  av_no_lease :: bool

definition hex64 :: "string \<Rightarrow> bool" where
  "hex64 s \<longleftrightarrow> length s = 64 \<and> list_all lower_hex s"

definition advance_checks :: "advance_args \<Rightarrow> txn_exn + unit" where
  "advance_checks a = all_checks
     ([need_identity_token (av_label a),
       (case av_nonce a of None \<Rightarrow> demand (av_no_lease a) | Some n \<Rightarrow> need_identity_token n),
       need_identity_token (av_actor a), demand (0 \<le> av_version a), demand (av_advances a \<noteq> [])]
      @ concat (map (\<lambda>(s, p). [need_identity_token s, demand (1 \<le> p)]) (av_advances a))
      @ concat (map (\<lambda>(s, h). [need_identity_token s, demand (hex64 h)]) (av_snapshots a))
      @ [demand (set (map fst (av_snapshots a)) = set (map fst (av_advances a)))])"

definition max_generation :: "string \<Rightarrow> string \<Rightarrow> journal \<Rightarrow> nat option" where
  "max_generation project label db =
     (case filter (\<lambda>l. ls_root l = project \<and> ls_label l = label) (leases db) of
        [] \<Rightarrow> None
      | ls \<Rightarrow> Some (sql_max (\<lambda>l. True) ls_generation 0 ls))"

definition new_cursor :: "string \<Rightarrow> string \<Rightarrow> nat \<Rightarrow> string \<Rightarrow> controller_cursor" where
  "new_cursor project label generation now = \<lparr>cc_root = project, cc_label = label, cc_generation = generation,
     cc_version = 0, cc_backlog = False, cc_updated_at = now, cc_advanced_at = None, cc_advanced_by = None\<rparr>"

text \<open>
  The authority of the caller: the generation and version of the cursor it may move, and the
  journal with the cursor row it may have had to create.
\<close>

definition advance_authority ::
  "string \<Rightarrow> advance_args \<Rightarrow> string \<Rightarrow> journal \<Rightarrow> txn_exn + nat \<times> nat \<times> journal" where
  "advance_authority project a now db =
     (let label = av_label a in
      if av_no_lease a then
        (if active_row project label db \<noteq> None then
           Inl (CASMismatch ''cursor CAS lost: an active lease exists for this label'')
         else case cursor_row project label db of
             None \<Rightarrow> (let generation = (case max_generation project label db of None \<Rightarrow> 1 | Some g \<Rightarrow> g)
                in Inr (generation, 0, db\<lparr>cursors := cursors db @ [new_cursor project label generation now]\<rparr>))
           | Some c \<Rightarrow> Inr (cc_generation c, cc_version c, db))
      else (case active_row project label db of
          None \<Rightarrow> Inl (CASMismatch ''cursor CAS lost: no active lease exists'')
        | Some lease \<Rightarrow>
            if av_nonce a \<noteq> Some (ls_nonce lease) then
              Inl (CASMismatch ''cursor CAS lost: lease generation changed'')
            else (case cursor_row project label db of
                None \<Rightarrow> Inl (CASMismatch ''cursor CAS lost: registry generation changed'')
              | Some c \<Rightarrow>
                  if cc_generation c \<noteq> ls_generation lease then
                    Inl (CASMismatch ''cursor CAS lost: registry generation changed'')
                  else Inr (ls_generation lease, cc_version c, db))))"

definition advance_cursor_action ::
  "(string \<Rightarrow> string) \<Rightarrow> string \<Rightarrow> advance_args \<Rightarrow> string \<Rightarrow> cursor_write jtxn" where
  "advance_cursor_action sha project a now db =
     (case advance_authority project a now db of
        Inl x \<Rightarrow> Inl x
      | Inr (generation, version, db1) \<Rightarrow>
          if int version < av_version a then
            Inl (CASMismatch ''cursor CAS lost: cursor version is from the future'')
          else
            (let advances = map (\<lambda>(s, p). (s, nat p)) (av_advances a)
             in case check_advances sha project (av_label a) (av_snapshots a) db1 advances [] of
                  Inl x \<Rightarrow> Inl x
                | Inr current \<Rightarrow>
                    write_cursor_positions project (av_label a) generation version advances current (av_actor a) now db1))"

definition advance_cursor where
  "advance_cursor sha cfg env started project a now db =
     checked_write cfg env started (advance_checks a) (advance_cursor_action sha project a now) db"

text \<open>
  \<open>set_cursor\<close>: the owner's own bookmark. Without positions every pending stream is drained to its
  last event.
\<close>

definition drain_targets :: "string \<Rightarrow> string \<Rightarrow> journal \<Rightarrow> positions" where
  "drain_targets project label db =
     sort_key fst (max_positions (filter (pending project label db) (events db)))"

definition current_positions :: "string \<Rightarrow> string \<Rightarrow> journal \<Rightarrow> positions" where
  "current_positions project label db =
     map (\<lambda>c. (sc_stream c, sc_position c))
       (filter (\<lambda>c. sc_root c = project \<and> sc_label c = label) (stream_cursors db))"

definition ensure_cursor :: "string \<Rightarrow> string \<Rightarrow> string \<Rightarrow> journal \<Rightarrow> journal" where
  "ensure_cursor project label now db =
     (if sql_exists (\<lambda>c. cc_root c = project \<and> cc_label c = label) (cursors db) then db
      else db\<lparr>cursors := cursors db @ [new_cursor project label
        (case max_generation project label db of None \<Rightarrow> 1 | Some g \<Rightarrow> g) now]\<rparr>)"

definition set_cursor_action ::
  "string \<Rightarrow> string \<Rightarrow> positions option \<Rightarrow> string \<Rightarrow> string \<Rightarrow> cursor_write jtxn" where
  "set_cursor_action project label positions actor now db =
     (let db1 = ensure_cursor project label now db
      in case cursor_row project label db1 of
           None \<Rightarrow> Inl PyTypeError
         | Some c \<Rightarrow>
             write_cursor_positions project label (cc_generation c) (cc_version c)
               (case positions of None \<Rightarrow> drain_targets project label db1 | Some ps \<Rightarrow> ps)
               (current_positions project label db1) actor now db1)"

definition set_cursor_checks :: "string \<Rightarrow> (string \<times> int) list option \<Rightarrow> string \<Rightarrow> txn_exn + unit" where
  "set_cursor_checks label positions actor = all_checks
     ([need_identity_token label, need_identity_token actor]
      @ (case positions of None \<Rightarrow> [] | Some ps \<Rightarrow>
           demand (ps \<noteq> []) # concat (map (\<lambda>(s, p). [need_identity_token s, demand (0 \<le> p)]) ps)))"

definition set_cursor where
  "set_cursor cfg env started project label positions actor now db =
     checked_write cfg env started (set_cursor_checks label positions actor)
       (set_cursor_action project label (map_option (map (\<lambda>(s, p). (s, nat p))) positions) actor now) db"

section \<open>Retiring a recipient\<close>

definition rehome_candidate :: "string \<Rightarrow> string \<Rightarrow> journal \<Rightarrow> delivery_event \<Rightarrow> bool" where
  "rehome_candidate project label db e \<longleftrightarrow> de_root e = project \<and> de_recipient e = label
     \<and> de_withdrawn_at e = None
     \<and> (de_projected_at e = None \<or> position_of project label (de_stream e) db < de_seq e)"

definition wildcard_twin :: "delivery_event \<Rightarrow> delivery_event \<Rightarrow> bool" where
  "wildcard_twin e w \<longleftrightarrow> de_root w = de_root e \<and> de_recipient w = ''*'' \<and> de_withdrawn_at w = None
     \<and> ((de_origin w = de_origin e \<and> de_uuid w = de_uuid e)
        \<or> (de_stream w = de_stream e \<and> de_seq w = de_seq e))"

definition rehome_retired :: "string \<Rightarrow> string \<Rightarrow> string \<Rightarrow> journal \<Rightarrow> txn_exn + nat \<times> journal" where
  "rehome_retired project label now db =
     (let dup = (\<lambda>e. rehome_candidate project label db e \<and> sql_exists (wildcard_twin e) (events db));
          db1 = withdraw_rows dup now db;
          rest = rehome_candidate project label db1
      in case readdress rest ''*'' db1 of
           Inl x \<Rightarrow> Inl x
         | Inr db2 \<Rightarrow> Inr (sql_rowcount dup (events db) + sql_rowcount rest (events db1), db2))"

end
