(* ===== verification/GF_Leases.thy ===== *)
theory GF_Leases
  imports GF_Delivery
begin

text \<open>
  Controller leases, listener coverage and attention items (\<open>claim_or_renew_lease\<close>,
  \<open>renew_active_lease\<close>, \<open>expire_stale_leases\<close>, \<open>release_lease\<close>, \<open>arm_listener\<close>,
  \<open>exit_listener\<close>, \<open>listener_exit_reason\<close>, \<open>record_system_attention\<close>,
  \<open>resolve_system_attention\<close> of \<open>scripts/goalflight_journal.py\<close>). A label is owned by the
  principal of its one active lease; every change of owner is a new generation. What the process
  table says of a lease holder is a parameter; fresh identifiers and clock readings are arguments.
\<close>

section \<open>Attention\<close>

definition ORPHANED_WORK :: string where "ORPHANED_WORK = ''orphaned_controller_work''"

definition open_attention :: "string \<Rightarrow> string \<Rightarrow> journal \<Rightarrow> attention_item list" where
  "open_attention project label db =
     rev (sort_key (\<lambda>a. (ai_generation a, ai_created_at a, ai_id a))
       (filter (\<lambda>a. ai_root a = project \<and> ai_label a = label \<and> ai_type a = ORPHANED_WORK \<and> ai_state a = OPEN)
          (attention db)))"

definition withdraw_attention_event :: "string \<Rightarrow> string \<Rightarrow> string \<Rightarrow> journal \<Rightarrow> journal" where
  "withdraw_attention_event project now item db =
     withdraw_rows (\<lambda>e. de_root e = project \<and> de_origin e = ''journal'' \<and> de_uuid e = item
        \<and> de_type e = ''controller_attention'' \<and> de_withdrawn_at e = None) now db"

definition resolve_item :: "string \<Rightarrow> string \<Rightarrow> attention_item \<Rightarrow> journal \<Rightarrow> journal" where
  "resolve_item project now stale db = withdraw_attention_event project now (ai_id stale)
     (db\<lparr>attention := sql_update (\<lambda>a. ai_id a = ai_id stale \<and> ai_state a = OPEN)
        (\<lambda>a. a\<lparr>ai_state := RESOLVED, ai_resolved_at := Some now\<rparr>) (attention db)\<rparr>)"

text \<open>Keeps the newest open item; the flag says whether there is one.\<close>

definition collapse_open_attention :: "string \<Rightarrow> string \<Rightarrow> string \<Rightarrow> journal \<Rightarrow> bool \<times> journal" where
  "collapse_open_attention project label now db =
     (case open_attention project label db of
        [] \<Rightarrow> (False, db)
      | survivor # rest \<Rightarrow> (True, fold (resolve_item project now) rest db))"

definition attention_payload :: "string \<Rightarrow> string \<Rightarrow> nat \<Rightarrow> string \<Rightarrow> string \<Rightarrow> dict" where
  "attention_payload item label generation trigger reason = canon_dict
     [(''item_id'', JStr item), (''type'', JStr ORPHANED_WORK), (''source_label'', JStr label),
      (''source_generation'', JInt (int generation)), (''trigger_side'', JStr trigger),
      (''reason'', JStr reason),
      (''text'', JStr (''controller lease '' @ label @ '' generation '' @ show_nat generation
         @ '' needs reassignment '' @ [CHR 0xB7] @ '' next: /goal-flight resume''))]"

definition next_attention_seq :: "string \<Rightarrow> string \<Rightarrow> journal \<Rightarrow> nat" where
  "next_attention_seq project recipient db =
     Suc (sql_max (\<lambda>e. de_root e = project \<and> de_recipient e = recipient \<and> de_stream e = ''attention'')
            de_seq 0 (events db))"

definition attention_event :: "string \<Rightarrow> string \<Rightarrow> string \<Rightarrow> nat \<Rightarrow> string \<Rightarrow> string \<Rightarrow> delivery_event" where
  "attention_event project recipient item seq carrier now = \<lparr>de_root = project, de_recipient = recipient,
     de_origin = ''journal'', de_uuid = item, de_stream = ''attention'', de_seq = seq, de_carrier = carrier,
     de_type = ''controller_attention'', de_waking = False, de_created_at = now,
     de_projected_at = Some now, de_withdrawn_at = None\<rparr>"

definition insert_attention :: "attention_item \<Rightarrow> journal \<Rightarrow> txn_exn + journal" where
  "insert_attention r db =
     (if clash ai_id r (attention db) \<or> clash ai_place r (attention db)
         \<or> \<not> sql_exists (\<lambda>l. ls_root l = ai_root r \<and> ls_label l = ai_label r \<and> ls_generation l = ai_generation r)
              (leases db) then violation
      else Inr (db\<lparr>attention := attention db @ [r]\<rparr>))"

text \<open>\<open>_materialize_attention\<close>; no caller uses its value.\<close>

definition materialize_attention ::
  "string \<Rightarrow> string \<Rightarrow> nat \<Rightarrow> string \<Rightarrow> string \<Rightarrow> string \<Rightarrow> string \<Rightarrow> journal \<Rightarrow> txn_exn + journal" where
  "materialize_attention project label generation trigger reason item now db =
     (if trigger \<noteq> ''listener'' \<and> trigger \<noteq> ''horizon'' then Inl PyValueError
      else if \<not> care_work_exists project label db then Inr db
      else case collapse_open_attention project label now db of (inherited, db1) \<Rightarrow>
        if inherited then Inr db1
        else if sql_exists (\<lambda>a. ai_root a = project \<and> ai_label a = label \<and> ai_generation a = generation
                  \<and> ai_type a = ORPHANED_WORK) (attention db1) then Inr db1
        else (case insert_attention
            \<lparr>ai_id = item, ai_root = project, ai_type = ORPHANED_WORK, ai_state = OPEN, ai_label = label,
             ai_generation = generation, ai_trigger = trigger, ai_reason = reason,
             ai_payload = attention_payload item label generation trigger reason,
             ai_created_at = now, ai_resolved_at = None\<rparr> db1 of
            Inl x \<Rightarrow> Inl x
          | Inr db2 \<Rightarrow>
              (case insert_event (attention_event project label item (next_attention_seq project label db2)
                  (''journal:goal-flight-resume:'' @ item) now) db2 of
                 Inl x \<Rightarrow> Inl x
               | Inr db3 \<Rightarrow> Inr (invalidate_snapshots project label now None db3))))"

section \<open>Ending a lease\<close>

definition end_lease :: "lease_state \<Rightarrow> string \<Rightarrow> string \<Rightarrow> controller_lease \<Rightarrow> controller_lease" where
  "end_lease s now reason l = l\<lparr>ls_state := s, ls_ended_at := Some now, ls_ended_reason := Some reason\<rparr>"

definition exit_coverage :: "string \<Rightarrow> string \<Rightarrow> nat \<Rightarrow> string \<Rightarrow> string \<Rightarrow> journal \<Rightarrow> journal" where
  "exit_coverage project label generation now reason db = db\<lparr>coverage :=
     sql_update (\<lambda>c. cv_root c = project \<and> cv_label c = label \<and> cv_generation c = generation \<and> cv_state c = ARMED)
       (\<lambda>c. c\<lparr>cv_state := EXITED, cv_exited_at := Some now, cv_exit_reason := Some reason\<rparr>) (coverage db)\<rparr>"

definition lease_row :: "string \<Rightarrow> string \<Rightarrow> nat \<Rightarrow> journal \<Rightarrow> controller_lease option" where
  "lease_row project label generation db =
     sql_fetchone (\<lambda>l. ls_root l = project \<and> ls_label l = label \<and> ls_generation l = generation) (leases db)"

text \<open>\<open>None\<close> in the result: the compare-and-swap on nonce and renewal time found another owner.\<close>

definition expire_active_lease ::
  "string \<Rightarrow> string \<Rightarrow> nat \<Rightarrow> string \<Rightarrow> string \<Rightarrow> string \<Rightarrow> string \<Rightarrow> string \<Rightarrow> journal
     \<Rightarrow> txn_exn + controller_lease option \<times> journal" where
  "expire_active_lease project label generation nonce expected_renewed_at ended_at item now db =
     (let hit = (\<lambda>l. ls_root l = project \<and> ls_label l = label \<and> ls_generation l = generation
                  \<and> ls_nonce l = nonce \<and> ls_renewed_at l = expected_renewed_at \<and> ls_state l = ACTIVE);
          db1 = db\<lparr>leases := sql_update hit (end_lease EXPIRED ended_at ''holder-dead'') (leases db)\<rparr>
      in if sql_rowcount hit (leases db) = 0 then Inr (None, db)
         else case materialize_attention project label generation ''horizon'' ''holder-dead'' item now
                (exit_coverage project label generation ended_at ''orphaned'' db1) of
             Inl x \<Rightarrow> Inl x
           | Inr db2 \<Rightarrow> Inr (lease_row project label generation db2, db2))"

text \<open>
  The sweep: leases whose holder the probe proves dead. \<open>alive\<close> is \<open>None\<close> when the probe fails or
  cannot tell.
\<close>

type_synonym dead_key = "string \<times> nat \<times> string \<times> string"

definition lease_records :: "string \<Rightarrow> bool \<Rightarrow> journal \<Rightarrow> controller_lease list" where
  "lease_records project include_ended db = sort_key (\<lambda>l. (ls_label l, ls_generation l))
     (filter (\<lambda>l. ls_root l = project \<and> (include_ended \<or> ls_state l = ACTIVE)) (leases db))"

definition proven_dead :: "string \<Rightarrow> (string \<Rightarrow> string \<Rightarrow> bool option) \<Rightarrow> journal \<Rightarrow> dead_key list" where
  "proven_dead project alive db = map (\<lambda>l. (ls_label l, ls_generation l, ls_nonce l, ls_renewed_at l))
     (filter (\<lambda>l. alive (ls_label l) (ls_nonce l) = Some False) (lease_records project False db))"

fun expire_all ::
  "string \<Rightarrow> string \<Rightarrow> (string \<Rightarrow> nat \<Rightarrow> string) \<Rightarrow> string \<Rightarrow> dead_key list \<Rightarrow> controller_lease list jtxn" where
  "expire_all project ended_at items now [] db = Inr ([], db)"
| "expire_all project ended_at items now ((label, generation, nonce, renewed_at) # rest) db =
     (case expire_active_lease project label generation nonce renewed_at ended_at (items label generation) now db of
        Inl x \<Rightarrow> Inl x
      | Inr (row, db1) \<Rightarrow>
          (case expire_all project ended_at items now rest db1 of
             Inl x \<Rightarrow> Inl x
           | Inr (rows, db2) \<Rightarrow> Inr ((case row of None \<Rightarrow> [] | Some r \<Rightarrow> [r]) @ rows, db2)))"

definition expire_stale_leases where
  "expire_stale_leases cfg env started project alive ended_at items now db =
     (let dead = proven_dead project alive db
      in if dead = [] then Some (Inr \<lparr>wr_disposition = COMMITTED, wr_value = Some [], wr_attempts = 0, wr_reason = None\<rparr>, db)
         else domain_write cfg env started (expire_all project ended_at items now dead) db)"

section \<open>Renewing\<close>

definition renew_active_action :: "string \<Rightarrow> string \<Rightarrow> string \<Rightarrow> nat \<Rightarrow> string \<Rightarrow> controller_lease jtxn" where
  "renew_active_action project label nonce generation deadline db =
     (let hit = (\<lambda>l. ls_root l = project \<and> ls_label l = label \<and> ls_nonce l = nonce
                  \<and> ls_generation l = generation \<and> ls_state l = ACTIVE);
          db1 = db\<lparr>leases := sql_update hit (\<lambda>l. l\<lparr>ls_deadline_at := deadline\<rparr>) (leases db)\<rparr>
      in if sql_rowcount hit (leases db) \<noteq> 1 then
           Inl (CASMismatch ''active lease generation or nonce changed'')
         else case lease_row project label generation db1 of
             None \<Rightarrow> Inl OtherError | Some l \<Rightarrow> Inr (l, db1))"

definition horizon_ok :: "real \<Rightarrow> bool" where
  "horizon_ok h \<longleftrightarrow> 0 < h \<and> h \<le> 604800"

definition renew_active_lease where
  "renew_active_lease cfg env started project label nonce generation horizon deadline db =
     checked_write cfg env started
       (all_checks [need_identity_token label, need_identity_token nonce, demand (horizon_ok horizon)])
       (renew_active_action project label nonce generation deadline) db"

section \<open>Claiming\<close>

record liveness_evidence =
  lv_generation :: nat
  lv_nonce :: string
  lv_alive :: "bool option"

text \<open>A JSON value as Python's \<open>int\<close>; \<open>True\<close> is 1. Start tokens are text.\<close>

definition int_value :: "json \<Rightarrow> int option" where
  "int_value v = (case v of JInt i \<Rightarrow> Some i | JBool b \<Rightarrow> Some (if b then 1 else 0) | _ \<Rightarrow> None)"

definition text_value :: "json \<Rightarrow> string option" where
  "text_value v = (case v of JStr s \<Rightarrow> Some s | _ \<Rightarrow> None)"

definition principal_matches :: "controller_lease \<Rightarrow> dict \<Rightarrow> bool" where
  "principal_matches l owner =
     (if ls_pid l \<noteq> None \<or> ls_start_token l \<noteq> None then
        (case (ls_pid l, ls_start_token l) of
           (Some pid, Some token) \<Rightarrow> 0 < pid \<and> Some pid = int_value (jget owner ''pid'')
              \<and> token \<noteq> [] \<and> Some token = text_value (jget owner ''start_token'')
         | _ \<Rightarrow> False)
      else truthy (jget (ls_principal l) ''principal_id'')
         \<and> jget (ls_principal l) ''principal_id'' = jget owner ''principal_id'')"

definition claim_checks :: "string \<Rightarrow> dict \<Rightarrow> string option \<Rightarrow> real \<Rightarrow> txn_exn + unit" where
  "claim_checks label owner nonce horizon =
     (let pid = jget owner ''pid''; token = jget owner ''start_token'' in all_checks
       [need_identity_token label, demand (horizon_ok horizon),
        demand (pid = JNull \<or> (case int_value pid of None \<Rightarrow> False | Some i \<Rightarrow> 0 < i)),
        demand ((pid = JNull) = (token = JNull)),
        (case nonce of None \<Rightarrow> Inr [] | Some n \<Rightarrow> need_identity_token n)])"

text \<open>The clock readings and identifiers one claim draws.\<close>

record claim_draw =
  cd_now :: string
  cd_now_us :: int
  cd_deadline :: string
  cd_nonce :: string
  cd_item :: string

text \<open>\<open>_next_lease_renewed_at\<close>: strictly after the previous renewal.\<close>

definition next_lease_renewed_at :: "string \<Rightarrow> int \<Rightarrow> txn_exn + string" where
  "next_lease_renewed_at previous now_us = (case parse_utc previous of
      Inl x \<Rightarrow> Inl x
    | Inr None \<Rightarrow> Inr (iso_micros now_us)
    | Inr (Some p) \<Rightarrow> Inr (iso_micros (if now_us \<le> p then p + 1 else now_us)))"

definition renew_same_principal ::
  "string \<Rightarrow> string \<Rightarrow> dict \<Rightarrow> claim_draw \<Rightarrow> controller_lease \<Rightarrow> controller_lease jtxn" where
  "renew_same_principal project label owner d active db =
     (case next_lease_renewed_at (ls_renewed_at active) (cd_now_us d) of
        Inl x \<Rightarrow> Inl x
      | Inr renewed_at \<Rightarrow>
          (let db1 = db\<lparr>leases := sql_update
                 (\<lambda>l. ls_root l = project \<and> ls_label l = label \<and> ls_generation l = ls_generation active
                    \<and> ls_nonce l = ls_nonce active \<and> ls_state l = ACTIVE)
                 (\<lambda>l. l\<lparr>ls_renewed_at := renewed_at, ls_deadline_at := cd_deadline d,
                        ls_principal := canon_dict owner, ls_pid := int_value (jget owner ''pid''),
                        ls_start_token := text_value (jget owner ''start_token'')\<rparr>) (leases db)\<rparr>
           in case lease_row project label (ls_generation active) db1 of
                None \<Rightarrow> Inl OtherError | Some l \<Rightarrow> Inr (l, db1)))"

definition proven_dead_incumbent :: "liveness_evidence option \<Rightarrow> controller_lease \<Rightarrow> bool" where
  "proven_dead_incumbent evidence active = (case evidence of
      None \<Rightarrow> False
    | Some v \<Rightarrow> lv_alive v = Some False \<and> lv_generation v = ls_generation active \<and> lv_nonce v = ls_nonce active)"

text \<open>
  Making room for a different principal: \<open>Inr (Some n, db)\<close> when the generation with nonce \<open>n\<close>
  was ended, by proof of death or by explicit takeover.
\<close>

definition displace ::
  "string \<Rightarrow> string \<Rightarrow> bool \<Rightarrow> liveness_evidence option \<Rightarrow> claim_draw \<Rightarrow> controller_lease
     \<Rightarrow> journal \<Rightarrow> txn_exn + string \<times> journal" where
  "displace project label takeover evidence d active db =
     (if proven_dead_incumbent evidence active then
        (case expire_active_lease project label (ls_generation active) (ls_nonce active) (ls_renewed_at active)
            (cd_now d) (cd_item d) (cd_now d) db of
           Inl x \<Rightarrow> Inl x
         | Inr (None, _) \<Rightarrow> Inl OtherError
         | Inr (Some _, db1) \<Rightarrow> Inr (ls_nonce active, db1))
      else if \<not> takeover then Inl (CASMismatch ''label in use'')
      else Inr (ls_nonce active, exit_coverage project label (ls_generation active) (cd_now d) ''superseded''
        (db\<lparr>leases := sql_update
            (\<lambda>l. ls_root l = project \<and> ls_label l = label \<and> ls_generation l = ls_generation active \<and> ls_state l = ACTIVE)
            (end_lease SUPERSEDED (cd_now d) ''explicit-takeover'') (leases db)\<rparr>)))"

definition next_generation :: "string \<Rightarrow> string \<Rightarrow> journal \<Rightarrow> nat" where
  "next_generation project label db =
     Suc (sql_max (\<lambda>l. ls_root l = project \<and> ls_label l = label) ls_generation 0 (leases db))"

definition reset_cursor :: "string \<Rightarrow> string \<Rightarrow> nat \<Rightarrow> string \<Rightarrow> journal \<Rightarrow> journal" where
  "reset_cursor project label generation now db =
     (let key = (\<lambda>c. cc_root c = project \<and> cc_label c = label)
      in if sql_rowcount key (cursors db) = 0
         then db\<lparr>cursors := cursors db @ [new_cursor project label generation now]\<rparr>
         else db\<lparr>cursors := sql_update key (\<lambda>c. c\<lparr>cc_generation := generation, cc_version := Suc (cc_version c),
            cc_updated_at := now, cc_advanced_at := None, cc_advanced_by := None\<rparr>) (cursors db)\<rparr>)"

definition refresh_backlog :: "string \<Rightarrow> string \<Rightarrow> journal \<Rightarrow> journal" where
  "refresh_backlog project label db = db\<lparr>cursors :=
     sql_update (\<lambda>c. cc_root c = project \<and> cc_label c = label)
       (\<lambda>c. c\<lparr>cc_backlog := label_has_unread_delivery project label db\<rparr>) (cursors db)\<rparr>"

definition claim_new ::
  "string \<Rightarrow> string \<Rightarrow> dict \<Rightarrow> string option \<Rightarrow> claim_draw \<Rightarrow> string option \<Rightarrow> controller_lease jtxn" where
  "claim_new project label owner nonce d replaced db =
     (let generation = next_generation project label db;
          reuse = (replaced \<noteq> None \<and> nonce \<noteq> None \<and> nonce = replaced);
          allocated = (if reuse then cd_nonce d else case nonce of None \<Rightarrow> cd_nonce d | Some n \<Rightarrow> n);
          row = \<lparr>ls_root = project, ls_label = label, ls_generation = generation, ls_nonce = allocated,
                 ls_principal = canon_dict owner, ls_pid = int_value (jget owner ''pid''),
                 ls_start_token = text_value (jget owner ''start_token''), ls_state = ACTIVE,
                 ls_claimed_at = cd_now d, ls_renewed_at = cd_now d, ls_deadline_at = cd_deadline d,
                 ls_ended_at = None, ls_ended_reason = None\<rparr>
      in case insert_lease row db of
           Inl x \<Rightarrow> Inl x
         | Inr db1 \<Rightarrow>
             (let db2 = refresh_backlog project label (reset_cursor project label generation (cd_now d) db1)
              in case lease_row project label generation db2 of
                   None \<Rightarrow> Inl OtherError | Some l \<Rightarrow> Inr (l, db2)))"

definition claim_action ::
  "string \<Rightarrow> string \<Rightarrow> dict \<Rightarrow> string option \<Rightarrow> bool \<Rightarrow> liveness_evidence option \<Rightarrow> claim_draw
     \<Rightarrow> controller_lease jtxn" where
  "claim_action project label owner nonce takeover evidence d db =
     (let db0 = snd (collapse_open_attention project label (cd_now d) db)
      in case active_row project label db0 of
           None \<Rightarrow> claim_new project label owner nonce d None db0
         | Some active \<Rightarrow>
             if principal_matches active owner then renew_same_principal project label owner d active db0
             else (case displace project label takeover evidence d active db0 of
                 Inl x \<Rightarrow> Inl x
               | Inr (replaced, db1) \<Rightarrow> claim_new project label owner nonce d (Some replaced) db1))"

text \<open>
  The public claim: argument checks, the sweep, and the claim in a transaction of its own. A
  sweep that does not commit is reported with its own disposition.
\<close>

definition claim_or_renew_lease where
  "claim_or_renew_lease cfg env env2 started started2 project label owner nonce horizon takeover evidence
       alive ended_at items sweep_now d db =
     (case claim_checks label owner nonce horizon of
        Inl x \<Rightarrow> Some (Inl x, db)
      | Inr _ \<Rightarrow>
          (case expire_stale_leases cfg env started project alive ended_at items sweep_now db of
             None \<Rightarrow> None
           | Some (Inl x, db1) \<Rightarrow> Some (Inl x, db1)
           | Some (Inr w, db1) \<Rightarrow>
               if wr_disposition w \<noteq> COMMITTED then
                 Some (Inr \<lparr>wr_disposition = wr_disposition w, wr_value = None, wr_attempts = wr_attempts w,
                    wr_reason = wr_reason w\<rparr>, db1)
               else domain_write cfg env2 started2
                 (claim_action project label owner nonce takeover evidence d) db1))"

section \<open>Releasing\<close>

definition release_action :: "string \<Rightarrow> string \<Rightarrow> string \<Rightarrow> string \<Rightarrow> string \<Rightarrow> controller_lease jtxn" where
  "release_action project label nonce reason now db =
     (case sql_fetchone (\<lambda>l. ls_root l = project \<and> ls_label l = label \<and> ls_nonce l = nonce \<and> ls_state l = ACTIVE)
         (leases db) of
        None \<Rightarrow> Inl (CASMismatch ''lease release lost: active generation or nonce changed'')
      | Some row \<Rightarrow>
          (let db1 = db\<lparr>leases := sql_update
                 (\<lambda>l. ls_root l = project \<and> ls_label l = label \<and> ls_generation l = ls_generation row \<and> ls_state l = ACTIVE)
                 (end_lease RETIRED now reason) (leases db)\<rparr>
           in case rehome_retired project label now db1 of
                Inl x \<Rightarrow> Inl x
              | Inr (rehomed, db2) \<Rightarrow>
                  (let db3 = (if rehomed \<noteq> 0 then invalidate_snapshots project ''*'' now (Some label) db2 else db2)
                   in Inr (end_lease RETIRED now reason row,
                           exit_coverage project label (ls_generation row) now ''orphaned'' db3))))"

definition release_lease where
  "release_lease cfg env started project label nonce reason now db =
     checked_write cfg env started
       (all_checks [need_identity_token label, need_identity_token nonce, need_state_token reason])
       (release_action project label nonce reason now) db"

section \<open>Listeners\<close>

definition LISTENER_EXIT_REASONS :: "string set" where
  "LISTENER_EXIT_REASONS = {''event'', ''timeout'', ''superseded'', ''orphaned'', ''stale-lease'', ''corrupt'',
     ''upgrade-required'', ''journal-unavailable'', ''journal-io-failure'', ''watchdog-dead'', ''signal''}"

definition arm_listener_action ::
  "string \<Rightarrow> string \<Rightarrow> string \<Rightarrow> int \<Rightarrow> string \<Rightarrow> int \<Rightarrow> string \<Rightarrow> string \<Rightarrow> listener_coverage jtxn" where
  "arm_listener_action project label nonce pid start_token parent_pid new_id now db =
     (case active_row project label db of
        None \<Rightarrow> Inl (CASMismatch ''listener arm lost: lease generation or nonce changed'')
      | Some lease \<Rightarrow>
          if ls_nonce lease \<noteq> nonce then
            Inl (CASMismatch ''listener arm lost: lease generation or nonce changed'')
          else
            (let row = \<lparr>cv_id = new_id, cv_root = project, cv_label = label, cv_generation = ls_generation lease,
                   cv_nonce = nonce, cv_pid = pid, cv_start_token = start_token, cv_parent_pid = parent_pid,
                   cv_armed_at = now, cv_state = ARMED, cv_exited_at = None, cv_exit_reason = None\<rparr>
             in case insert_coverage row (exit_coverage project label (ls_generation lease) now ''superseded'' db) of
                  Inl x \<Rightarrow> Inl x
                | Inr db1 \<Rightarrow> Inr (row, db1)))"

definition arm_listener where
  "arm_listener cfg env started project label nonce pid start_token parent_pid new_id now db =
     checked_write cfg env started
       (all_checks [need_identity_token label, need_identity_token nonce, need_identity_token start_token,
          demand (0 < pid \<and> 0 < parent_pid)])
       (arm_listener_action project label nonce pid start_token parent_pid new_id now) db"

definition exit_row :: "string \<Rightarrow> string \<Rightarrow> listener_coverage \<Rightarrow> listener_coverage" where
  "exit_row now reason c = c\<lparr>cv_state := EXITED, cv_exited_at := Some now, cv_exit_reason := Some reason\<rparr>"

definition exit_listener_action ::
  "string \<Rightarrow> string \<Rightarrow> string \<Rightarrow> string \<Rightarrow> listener_coverage jtxn" where
  "exit_listener_action id' reason item now db =
     (case sql_fetchone (\<lambda>c. cv_id c = id') (coverage db) of
        None \<Rightarrow> Inl (CASMismatch ''listener exit lost: coverage row is absent'')
      | Some row \<Rightarrow>
          if cv_state row = EXITED then Inr (row, db)
          else
            (let db1 = db\<lparr>coverage := sql_update (\<lambda>c. cv_id c = id' \<and> cv_state c = ARMED)
                   (exit_row now reason) (coverage db)\<rparr>
             in case (if reason = ''orphaned'' \<or> reason = ''stale-lease'' then
                    materialize_attention (cv_root row) (cv_label row) (cv_generation row) ''listener'' reason item now db1
                  else Inr db1) of
                  Inl x \<Rightarrow> Inl x
                | Inr db2 \<Rightarrow> Inr (exit_row now reason row, db2)))"

definition exit_listener where
  "exit_listener cfg env started id' reason item now db =
     checked_write cfg env started
       (all_checks [need_canonical_uuid id', demand (reason \<in> LISTENER_EXIT_REASONS)])
       (exit_listener_action id' reason item now) db"

definition active_coverage :: "string \<Rightarrow> string \<Rightarrow> journal \<Rightarrow> listener_coverage option" where
  "active_coverage project label db =
     sql_fetchone (\<lambda>c. cv_root c = project \<and> cv_label c = label \<and> cv_state c = ARMED
       \<and> sql_exists (\<lambda>l. ls_root l = project \<and> ls_label l = label \<and> ls_generation l = cv_generation c
            \<and> ls_state l = ACTIVE) (leases db)) (coverage db)"

text \<open>
  The listener's check of itself. Its arguments are the rows as mappings, so a missing or
  malformed field is a branch.
\<close>

text \<open>\<open>str(v)\<close>; columns hold text or integers, the renderings of floats, lists and objects are left out.\<close>

definition py_str :: "json \<Rightarrow> string" where
  "py_str v = (case v of
      JStr s \<Rightarrow> s
    | JNull \<Rightarrow> ''None''
    | JBool b \<Rightarrow> if b then ''True'' else ''False''
    | JInt i \<Rightarrow> if i < 0 then ''-'' @ show_nat (nat (- i)) else show_nat (nat i)
    | _ \<Rightarrow> [])"

definition listener_exit_reason :: "dict option \<Rightarrow> dict option \<Rightarrow> int \<Rightarrow> bool \<Rightarrow> string option" where
  "listener_exit_reason cov lease current_parent_pid identity_matches =
     (case cov of
        None \<Rightarrow> Some ''corrupt''
      | Some c \<Rightarrow>
          if \<not> truthy (jget c ''coverage_id'') then Some ''corrupt''
          else if jget c ''state'' \<noteq> JStr ''ARMED'' then
            Some (py_str (py_or (jget c ''exit_reason'') (JStr ''superseded'')))
          else (case int_value (jget c ''parent_pid'') of
              None \<Rightarrow> Some ''corrupt''
            | Some parent \<Rightarrow>
                if parent \<le> 0 then Some ''corrupt''
                else if current_parent_pid \<noteq> parent then Some ''orphaned''
                else if \<not> identity_matches then Some ''corrupt''
                else (case lease of
                    None \<Rightarrow> Some ''orphaned''
                  | Some l \<Rightarrow>
                      if jget l ''state'' \<noteq> JStr ''ACTIVE'' then Some ''superseded''
                      else if jget l ''generation'' \<noteq> jget c ''lease_generation'' then Some ''superseded''
                      else None)))"

section \<open>System attention\<close>

text \<open>
  \<open>item\<close> is \<open>uuid5\<close> of the namespace and key: the same observation always has the same id.
\<close>

definition record_system_action ::
  "string \<Rightarrow> string \<Rightarrow> string \<Rightarrow> string \<Rightarrow> string \<Rightarrow> dict \<Rightarrow> string \<Rightarrow> (string \<times> bool) jtxn" where
  "record_system_action project item_type reason namespace item payload now db =
     (let row = \<lparr>sy_id = item, sy_root = project, sy_type = item_type, sy_state = OPEN, sy_reason = reason,
            sy_payload = payload, sy_created_at = now, sy_resolved_at = None\<rparr>;
          created = \<not> clash sy_id row (system_attention db);
          db1 = (if created then db\<lparr>system_attention := system_attention db @ [row]\<rparr> else db);
          event = attention_event project ''*'' item (next_attention_seq project ''*'' db1)
            (''journal:'' @ namespace @ '':'' @ item) now
      in case insert_event event db1 of
           Inl _ \<Rightarrow> Inr ((item, created), db1)
         | Inr db2 \<Rightarrow> Inr ((item, created), invalidate_snapshots project ''*'' now None db2))"

definition system_payload :: "dict \<Rightarrow> string \<Rightarrow> string \<Rightarrow> dict" where
  "system_payload payload item item_type =
     canon_dict (jput ''type'' (JStr item_type) (jput ''item_id'' (JStr item) payload))"

definition record_system_attention where
  "record_system_attention cfg env started project item_type reason namespace key uuid5 payload now db =
     checked_write cfg env started
       (all_checks [need_state_token item_type, need_identity_token reason, need_identity_token namespace,
          demand (key \<noteq> [] \<and> length key \<le> 512)])
       (record_system_action project item_type reason namespace (uuid5 namespace key)
          (system_payload payload (uuid5 namespace key) item_type) now) db"

definition resolves_system :: "string \<Rightarrow> string \<Rightarrow> string \<Rightarrow> string option \<Rightarrow> system_attention_item \<Rightarrow> bool" where
  "resolves_system project item_type dispatch keep_reason a \<longleftrightarrow> sy_root a = project \<and> sy_type a = item_type
     \<and> sy_state a = OPEN \<and> keep_reason \<noteq> Some (sy_reason a)
     \<and> py_str (py_or (jget (sy_payload a) ''dispatch_id'') (JStr [])) = dispatch"

definition resolve_system_item :: "string \<Rightarrow> string \<Rightarrow> system_attention_item \<Rightarrow> journal \<Rightarrow> journal" where
  "resolve_system_item project now item db = withdraw_attention_event project now (sy_id item)
     (db\<lparr>system_attention := sql_update (\<lambda>a. sy_id a = sy_id item \<and> sy_state a = OPEN)
        (\<lambda>a. a\<lparr>sy_state := RESOLVED, sy_resolved_at := Some now\<rparr>) (system_attention db)\<rparr>)"

definition resolve_system_action ::
  "string \<Rightarrow> string \<Rightarrow> string \<Rightarrow> string option \<Rightarrow> string \<Rightarrow> string list jtxn" where
  "resolve_system_action project item_type dispatch keep_reason now db =
     (let rows = filter (resolves_system project item_type dispatch keep_reason) (system_attention db)
      in Inr (map sy_id rows, fold (resolve_system_item project now) rows db))"

definition resolve_system_attention where
  "resolve_system_attention cfg env started project item_type dispatch keep_reason now db =
     checked_write cfg env started
       (all_checks [need_state_token item_type, demand (dispatch \<noteq> [] \<and> length dispatch \<le> 512),
          (case keep_reason of None \<Rightarrow> Inr [] | Some r \<Rightarrow> need_identity_token r)])
       (resolve_system_action project item_type dispatch keep_reason now) db"

end
