(* ===== verification/GF_Attempts.thy ===== *)
theory GF_Attempts
  imports GF_Journal
begin

text \<open>
  The attempt lifecycle of the state journal (\<open>prepare_attempt\<close>,
  \<open>rebind_prepared_attempt_account\<close>, \<open>start_attempt\<close>, \<open>mark_attempt_running\<close>,
  \<open>commit_terminal\<close>, \<open>commit_expired_attempt\<close>): a dispatch is prepared, claimed for launch once,
  marked running, and given one terminal transition together with its outbox event. Each
  \<open>_action\<close> is the closure the method passes to \<open>_domain_write\<close>; values the code draws while it
  runs (\<open>uuid4\<close>, \<open>utc_now\<close>, the host name) are arguments.
\<close>

section \<open>Values\<close>

record attempt_identity =
  id_attempt :: string
  id_dispatch :: string
  id_token :: string
  id_epoch :: nat
  id_state :: lifecycle

definition identity_of :: "dispatch_attempt \<Rightarrow> attempt_identity" where
  "identity_of a = \<lparr>id_attempt = at_attempt a, id_dispatch = at_dispatch a, id_token = at_token a,
     id_epoch = at_epoch a, id_state = at_state a\<rparr>"

record terminal_commit =
  tm_attempt :: string
  tm_transition :: string
  tm_dispatch :: string
  tm_state :: string
  tm_event :: string
  tm_type :: string
  tm_observation :: dict
  tm_at :: string
  tm_idempotent :: bool

definition ATTEMPT_LIVE_STATES :: "lifecycle set" where
  "ATTEMPT_LIVE_STATES = {PREPARED, STARTING, RUNNING}"

definition ATTEMPT_FINAL_STATES :: "lifecycle set" where
  "ATTEMPT_FINAL_STATES = {TERMINAL, ABANDONED}"

definition TERMINAL_EVENT_TYPES :: "string set" where
  "TERMINAL_EVENT_TYPES = {''result'', ''blocked'', ''user_need'', ''user_confirm''}"

fun lifecycle_name :: "lifecycle \<Rightarrow> string" where
  "lifecycle_name PREPARED = ''PREPARED''"
| "lifecycle_name STARTING = ''STARTING''"
| "lifecycle_name RUNNING = ''RUNNING''"
| "lifecycle_name TERMINAL = ''TERMINAL''"
| "lifecycle_name ABANDONED = ''ABANDONED''"

text \<open>\<open>str(column)\<close> of a nullable text column.\<close>

definition str_column :: "string option \<Rightarrow> string" where
  "str_column c = (case c of None \<Rightarrow> ''None'' | Some s \<Rightarrow> s)"

definition journal_terminal_at :: "string option \<Rightarrow> string" where
  "journal_terminal_at value = (case value of
      None \<Rightarrow> []
    | Some s \<Rightarrow> if strip s \<in> {[], ''None'', ''null''} then [] else s)"

text \<open>A value that is text with something other than whitespace in it.\<close>

definition filled :: "json \<Rightarrow> string option" where
  "filled v = (case v of JStr s \<Rightarrow> if strip s \<noteq> [] then Some s else None | _ \<Rightarrow> None)"

definition filled_opt :: "string option \<Rightarrow> string option" where
  "filled_opt v = (case v of None \<Rightarrow> None | Some s \<Rightarrow> if strip s \<noteq> [] then Some s else None)"

section \<open>The headline of a terminal event\<close>

definition OUTBOX_HEADLINE_MARKER_KINDS :: "string set" where
  "OUTBOX_HEADLINE_MARKER_KINDS =
     {''COMPLETE'', ''READY'', ''RESULT'', ''BLOCKED'', ''FAILED'', ''USER-NEED'', ''USER-CONFIRM''}"

definition ATTENTION_MARKERS :: "string set" where
  "ATTENTION_MARKERS = {''BLOCKED'', ''USER-NEED'', ''USER-CONFIRM'', ''FAILED''}"

fun headline_item :: "dict \<Rightarrow> string option" where
  "headline_item [] = None"
| "headline_item ((kind, text) # rest) =
     (if kind \<in> ATTENTION_MARKERS then headline_item rest
      else if kind \<in> OUTBOX_HEADLINE_MARKER_KINDS
        then (case filled text of Some s \<Rightarrow> Some (strip s) | None \<Rightarrow> headline_item rest)
      else headline_item rest)"

text \<open>\<open>kind in ATTENTION_MARKERS\<close> hashes the marker's kind, so a list or dict there raises.\<close>

fun headline_marker :: "dict \<Rightarrow> string list \<Rightarrow> txn_exn + string option" where
  "headline_marker observation [] = Inr None"
| "headline_marker observation (key # keys) =
     (case jget observation key of
        JObj marker \<Rightarrow>
          (let kind = jget marker ''kind''; text = jget marker ''text''
           in case kind of
             JList _ \<Rightarrow> Inl PyTypeError
           | JObj _ \<Rightarrow> Inl PyTypeError
           | _ \<Rightarrow>
             if \<exists>k \<in> ATTENTION_MARKERS. kind = JStr k then headline_marker observation keys
             else (case (if \<exists>k \<in> OUTBOX_HEADLINE_MARKER_KINDS. kind = JStr k then filled text else None) of
                 Some s \<Rightarrow> Inr (Some (strip s))
               | None \<Rightarrow> (case headline_item marker of
                     Some s \<Rightarrow> Inr (Some s)
                   | None \<Rightarrow> headline_marker observation keys)))
      | _ \<Rightarrow> headline_marker observation keys)"

definition outbox_headline_text :: "string \<Rightarrow> json \<Rightarrow> txn_exn + string" where
  "outbox_headline_text terminal_state observation =
     (let fallback = ''dispatch terminal: '' @ terminal_state
      in case observation of
        JObj d \<Rightarrow>
          (case filled (jget d ''headline'') of
             Some s \<Rightarrow> Inr (strip s)
           | None \<Rightarrow> (case headline_marker d [''last_marker'', ''terminal_marker''] of
               Inl e \<Rightarrow> Inl e
             | Inr (Some s) \<Rightarrow> Inr s
             | Inr None \<Rightarrow>
               (case jget d ''outcome'' of
                  JObj outcome \<Rightarrow> (case jget outcome ''error'' of
                      JObj error \<Rightarrow> (case filled (jget error ''text'') of
                          Some s \<Rightarrow> Inr (strip s) | None \<Rightarrow> Inr fallback)
                    | _ \<Rightarrow> Inr fallback)
                | _ \<Rightarrow> Inr fallback)))
      | _ \<Rightarrow> Inr fallback)"

section \<open>Preparing\<close>

record prepare_args =
  pa_dispatch :: string
  pa_attempt :: "string option"
  pa_token :: "string option"
  pa_start_deadline :: "string option"
  pa_defer :: bool
  pa_owner_label :: "string option"
  pa_owner_nonce :: "string option"
  pa_account :: "string option"
  pa_engine :: "string option"

text \<open>\<open>v or None\<close> of an optional string argument: an empty string counts as absent.\<close>

definition given :: "string option \<Rightarrow> string option" where
  "given v = (case v of None \<Rightarrow> None | Some s \<Rightarrow> if s = [] then None else Some s)"

definition check_given :: "(string \<Rightarrow> txn_exn + string) \<Rightarrow> string option \<Rightarrow> txn_exn + string" where
  "check_given check v = (case given v of None \<Rightarrow> Inr [] | Some s \<Rightarrow> check s)"

definition prepare_checks :: "prepare_args \<Rightarrow> txn_exn + unit" where
  "prepare_checks p = all_checks
     [need_identity_token (pa_dispatch p),
      demand (\<not> (pa_defer p \<and> pa_start_deadline p \<noteq> None)),
      check_given need_canonical_uuid (pa_attempt p),
      check_given need_identity_token (pa_token p),
      demand ((pa_owner_label p = None) = (pa_owner_nonce p = None)),
      demand (pa_owner_label p \<noteq> Some []),
      demand (pa_owner_nonce p \<noteq> Some [])]"

definition asserted_engine :: "prepare_args \<Rightarrow> string option" where
  "asserted_engine p = filled_opt (pa_engine p)"

definition asserted_account :: "prepare_args \<Rightarrow> string option" where
  "asserted_account p = (if asserted_engine p = None then None else filled_opt (pa_account p))"

text \<open>A non-null stored value that differs from an asserted one.\<close>

definition conflicts :: "string option \<Rightarrow> string option \<Rightarrow> bool" where
  "conflicts stored asserted \<longleftrightarrow> asserted \<noteq> None \<and> stored \<noteq> None \<and> stored \<noteq> asserted"

definition coalesce :: "'a option \<Rightarrow> 'a option \<Rightarrow> 'a option" where
  "coalesce a b = (case a of None \<Rightarrow> b | Some _ \<Rightarrow> a)"

definition prepare_attempt_action ::
  "string \<Rightarrow> (string \<Rightarrow> string) \<Rightarrow> prepare_args \<Rightarrow> string \<Rightarrow> string \<Rightarrow> string \<Rightarrow> string
     \<Rightarrow> attempt_identity jtxn" where
  "prepare_attempt_action project session_digest p new_attempt new_token now default_deadline db =
     (case sql_fetchone (\<lambda>a. at_dispatch a = pa_dispatch p) (attempts db) of
        Some a \<Rightarrow>
          if given (pa_attempt p) \<noteq> None \<and> given (pa_attempt p) \<noteq> Some (at_attempt a) then
            Inl (CASMismatch ''dispatch already belongs to a different attempt_id'')
          else if given (pa_token p) \<noteq> None \<and> given (pa_token p) \<noteq> Some (at_token a) then
            Inl (CASMismatch ''dispatch already belongs to a different launch_token'')
          else if pa_owner_label p \<noteq> None
             \<and> (at_owner_label a \<noteq> pa_owner_label p
                \<or> at_owner_digest a \<noteq> map_option session_digest (given (pa_owner_nonce p))) then
            Inl (CASMismatch ''dispatch already belongs to a different owner capability'')
          else if conflicts (at_account a) (asserted_account p) then
            Inl (CASMismatch ''dispatch already belongs to a different effective account'')
          else if conflicts (at_engine a) (asserted_engine p) then
            Inl (CASMismatch ''dispatch already belongs to a different engine'')
          else if at_state a = PREPARED
             \<and> ((at_account a = None \<and> asserted_account p \<noteq> None)
                \<or> (at_engine a = None \<and> asserted_engine p \<noteq> None)) then
            Inr (identity_of a, db\<lparr>attempts :=
              sql_update (\<lambda>r. at_attempt r = at_attempt a \<and> at_state r = PREPARED)
                (\<lambda>r. r\<lparr>at_account := coalesce (at_account r) (asserted_account p),
                       at_engine := coalesce (at_engine r) (asserted_engine p)\<rparr>) (attempts db)\<rparr>)
          else Inr (identity_of a, db)
      | None \<Rightarrow>
          (let attempt = (case given (pa_attempt p) of None \<Rightarrow> new_attempt | Some s \<Rightarrow> s);
               token = (case given (pa_token p) of None \<Rightarrow> new_token | Some s \<Rightarrow> s);
               deadline = (if pa_defer p then None
                           else Some (case given (pa_start_deadline p) of None \<Rightarrow> default_deadline | Some s \<Rightarrow> s));
               row = \<lparr>at_attempt = attempt, at_dispatch = pa_dispatch p, at_root = project,
                      at_state = PREPARED, at_epoch = 0, at_token = token, at_worker = None,
                      at_prepared_at = now, at_updated_at = now, at_deadline = deadline,
                      at_transition = None, at_terminal_state = None, at_outcome = None,
                      at_terminal_at = None, at_owner_label = pa_owner_label p,
                      at_owner_digest = map_option session_digest (given (pa_owner_nonce p)),
                      at_account = asserted_account p, at_engine = asserted_engine p\<rparr>
           in case insert_attempt row db of
                Inl x \<Rightarrow> Inl x
              | Inr db' \<Rightarrow> Inr (identity_of row, db')))"

text \<open>Retargeting the account of an attempt that has not been claimed yet.\<close>

definition rebind_attempt_action ::
  "string \<Rightarrow> string option \<Rightarrow> string \<Rightarrow> string option \<Rightarrow> attempt_identity jtxn" where
  "rebind_attempt_action dispatch expected_account account engine db =
     (case sql_fetchone (\<lambda>a. at_dispatch a = dispatch) (attempts db) of
        None \<Rightarrow> Inl (CASMismatch ''prepared dispatch attempt is missing'')
      | Some a \<Rightarrow>
          if at_state a \<noteq> PREPARED then
            Inl (CASMismatch ''prepared dispatch attempt already crossed the launch boundary'')
          else if at_account a \<noteq> expected_account then
            Inl (CASMismatch ''prepared dispatch account attribution changed'')
          else if conflicts (at_engine a) (filled_opt engine) then
            Inl (CASMismatch ''prepared dispatch engine changed'')
          else
            (let hit = (\<lambda>r. at_attempt r = at_attempt a \<and> at_state r = PREPARED
                          \<and> at_account r = expected_account)
             in if sql_rowcount hit (attempts db) \<noteq> 1 then
                  Inl (CASMismatch ''prepared dispatch account retarget lost'')
                else Inr (identity_of a, db\<lparr>attempts :=
                  sql_update hit (\<lambda>r. r\<lparr>at_account := Some (strip account),
                     at_engine := coalesce (at_engine r) (filled_opt engine)\<rparr>) (attempts db)\<rparr>)))"

definition rebind_checks :: "string \<Rightarrow> string \<Rightarrow> txn_exn + unit" where
  "rebind_checks dispatch account = all_checks
     [need_identity_token dispatch, demand (strip account \<noteq> [])]"

section \<open>Claiming and running\<close>

text \<open>\<open>SELECT ... WHERE attempt_id = ?\<close> after the update; the row is there.\<close>

definition reread_identity :: "string \<Rightarrow> journal \<Rightarrow> txn_exn + attempt_identity \<times> journal" where
  "reread_identity attempt db =
     (case sql_fetchone (\<lambda>a. at_attempt a = attempt) (attempts db) of
        None \<Rightarrow> Inl OtherError
      | Some a \<Rightarrow> Inr (identity_of a, db))"

definition start_attempt_action ::
  "string \<Rightarrow> string \<Rightarrow> nat \<Rightarrow> string \<Rightarrow> string \<Rightarrow> attempt_identity jtxn" where
  "start_attempt_action attempt token expected_epoch now deadline db =
     (let hit = (\<lambda>r. at_attempt r = attempt \<and> at_token r = token \<and> at_state r = PREPARED
                     \<and> at_epoch r = expected_epoch)
      in if sql_rowcount hit (attempts db) \<noteq> 1 then
           Inl (CASMismatch ''PREPARED -> STARTING lost: attempt, token, state, or launch_epoch changed'')
         else reread_identity attempt (db\<lparr>attempts :=
           sql_update hit (\<lambda>r. r\<lparr>at_state := STARTING, at_epoch := Suc (at_epoch r),
             at_updated_at := now, at_deadline := Some deadline\<rparr>) (attempts db)\<rparr>))"

definition start_checks :: "string \<Rightarrow> string \<Rightarrow> int \<Rightarrow> txn_exn + unit" where
  "start_checks attempt token expected_epoch = all_checks
     [need_canonical_uuid attempt, need_identity_token token, demand (0 \<le> expected_epoch)]"

definition mark_running_action ::
  "string \<Rightarrow> string \<Rightarrow> nat \<Rightarrow> dict \<Rightarrow> string \<Rightarrow> attempt_identity jtxn" where
  "mark_running_action attempt token epoch worker now db =
     (let hit = (\<lambda>r. at_attempt r = attempt \<and> at_token r = token \<and> at_state r = STARTING
                     \<and> at_epoch r = epoch)
      in if sql_rowcount hit (attempts db) \<noteq> 1 then
           Inl (CASMismatch ''STARTING -> RUNNING lost: attempt, token, state, or launch_epoch changed'')
         else reread_identity attempt (db\<lparr>attempts :=
           sql_update hit (\<lambda>r. r\<lparr>at_state := RUNNING, at_worker := Some (canon_dict worker),
             at_updated_at := now\<rparr>) (attempts db)\<rparr>))"

definition mark_running_checks :: "string \<Rightarrow> string \<Rightarrow> int \<Rightarrow> txn_exn + unit" where
  "mark_running_checks attempt token epoch = all_checks
     [need_canonical_uuid attempt, need_identity_token token, demand (1 \<le> epoch)]"

section \<open>The terminal commit\<close>

record terminal_args =
  ta_attempt :: string
  ta_terminal :: string
  ta_type :: string
  ta_observation :: dict
  ta_deadline :: "string option"
  ta_supersede :: bool

definition default_event_type :: "string \<Rightarrow> string" where
  "default_event_type terminal = (if terminal = ''complete'' then ''result'' else ''blocked'')"

text \<open>The arguments after \<open>event_type or (...)\<close> and \<open>observation or {}\<close> are resolved.\<close>

definition terminal_args_of ::
  "string \<Rightarrow> string \<Rightarrow> dict option \<Rightarrow> string option \<Rightarrow> string option \<Rightarrow> bool \<Rightarrow> terminal_args" where
  "terminal_args_of attempt terminal observation event_type deadline supersede =
     \<lparr>ta_attempt = attempt, ta_terminal = terminal,
      ta_type = (case given event_type of None \<Rightarrow> default_event_type terminal | Some t \<Rightarrow> t),
      ta_observation = (case observation of None \<Rightarrow> [] | Some d \<Rightarrow> d),
      ta_deadline = deadline, ta_supersede = supersede\<rparr>"

definition terminal_checks :: "terminal_args \<Rightarrow> txn_exn + unit" where
  "terminal_checks t = all_checks
     [need_canonical_uuid (ta_attempt t), need_state_token (ta_terminal t),
      demand (ta_type t \<in> TERMINAL_EVENT_TYPES)]"

definition superseding_final :: "terminal_args \<Rightarrow> dispatch_attempt \<Rightarrow> bool" where
  "superseding_final t a \<longleftrightarrow> at_state a \<in> ATTEMPT_FINAL_STATES \<and> ta_supersede t
     \<and> ta_terminal t \<in> {''superseded'', ''withdrawn''}
     \<and> str_column (at_terminal_state a) \<in> {''worker_dead'', ''stale_dead'', ''abandoned''}"

definition joined_outbox :: "dispatch_attempt \<Rightarrow> journal \<Rightarrow> outbox_row option" where
  "joined_outbox a db = (case at_transition a of
      None \<Rightarrow> None
    | Some tid \<Rightarrow> sql_fetchone (\<lambda>o'. ob_attempt o' = at_attempt a \<and> ob_transition o' = tid) (outbox db))"

text \<open>What a reader of a final attempt gets: the commit already made.\<close>

definition stored_commit :: "dispatch_attempt \<Rightarrow> journal \<Rightarrow> txn_exn + terminal_commit" where
  "stored_commit a db = (case (at_transition a, joined_outbox a db) of
      (Some tid, Some b) \<Rightarrow>
        if tid = [] \<or> ob_event b = [] then Inl JournalIntegrityError
        else (case at_outcome a of
            None \<Rightarrow> Inl PyValueError
          | Some obs \<Rightarrow> Inr \<lparr>tm_attempt = at_attempt a, tm_transition = tid,
              tm_dispatch = at_dispatch a, tm_state = str_column (at_terminal_state a),
              tm_event = ob_event b, tm_type = ob_type b, tm_observation = obs,
              tm_at = journal_terminal_at (at_terminal_at a), tm_idempotent = True\<rparr>)
    | _ \<Rightarrow> Inl JournalIntegrityError)"

definition terminal_refusal :: "terminal_args \<Rightarrow> dispatch_attempt \<Rightarrow> string option" where
  "terminal_refusal t a =
     (if superseding_final t a then None
      else if at_state a \<notin> ATTEMPT_LIVE_STATES then Some (''terminal commit lost: attempt state is '' @ lifecycle_name (at_state a))
      else case ta_deadline t of
        None \<Rightarrow> None
      | Some observed \<Rightarrow>
          if at_state a \<notin> {PREPARED, STARTING} then
            Some ''expired launch abandonment lost: worker already claimed or attempt changed''
          else (case at_deadline a of
              None \<Rightarrow> Some ''expired launch abandonment lost: start deadline is no longer expired''
            | Some d \<Rightarrow> if observed < d
                then Some ''expired launch abandonment lost: start deadline is no longer expired''
                else None))"

text \<open>The predicate of the \<open>UPDATE\<close>, in its two forms.\<close>

definition terminal_hit :: "terminal_args \<Rightarrow> dispatch_attempt \<Rightarrow> bool" where
  "terminal_hit t r \<longleftrightarrow> at_attempt r = ta_attempt t \<and> (case ta_deadline t of
      None \<Rightarrow> True
    | Some observed \<Rightarrow> at_state r \<in> {PREPARED, STARTING}
        \<and> (case at_deadline r of None \<Rightarrow> False | Some d \<Rightarrow> d \<le> observed))"

definition final_lifecycle :: "string \<Rightarrow> lifecycle" where
  "final_lifecycle terminal = (if terminal = ''abandoned'' then ABANDONED else TERMINAL)"

definition finish_row :: "terminal_args \<Rightarrow> string \<Rightarrow> string \<Rightarrow> dispatch_attempt \<Rightarrow> dispatch_attempt" where
  "finish_row t tid now r = r\<lparr>at_state := final_lifecycle (ta_terminal t), at_transition := Some tid,
     at_terminal_state := Some (ta_terminal t), at_outcome := Some (canon_dict (ta_observation t)),
     at_terminal_at := Some now, at_updated_at := now\<rparr>"

definition outbox_payload :: "terminal_args \<Rightarrow> dispatch_attempt \<Rightarrow> string \<Rightarrow> string \<Rightarrow> dict" where
  "outbox_payload t a tid text = canon_dict
     [(''attempt_id'', JStr (ta_attempt t)), (''transition_id'', JStr tid),
      (''dispatch_id'', JStr (at_dispatch a)), (''terminal_state'', JStr (ta_terminal t)),
      (''complete'', JBool (ta_type t = ''result'')), (''text'', JStr text),
      (''observation'', JObj (canon_dict (ta_observation t)))]"

text \<open>The transition row, the outbox event and the value of a new commit.\<close>

definition commit_transition :: "terminal_args \<Rightarrow> string \<Rightarrow> string \<Rightarrow> dispatch_attempt \<Rightarrow> dispatch_transition" where
  "commit_transition t tid now a = \<lparr>tr_attempt = ta_attempt t, tr_transition = tid, tr_from = at_state a,
     tr_to = final_lifecycle (ta_terminal t), tr_terminal_state = ta_terminal t,
     tr_observation = canon_dict (ta_observation t), tr_created_at = now\<rparr>"

definition commit_event :: "terminal_args \<Rightarrow> string \<Rightarrow> string \<Rightarrow> string \<Rightarrow> string \<Rightarrow> dispatch_attempt \<Rightarrow> string \<Rightarrow> outbox_row" where
  "commit_event t tid eid host now a line = \<lparr>ob_attempt = ta_attempt t, ob_transition = tid,
     ob_origin = host, ob_event = eid, ob_recipient = at_dispatch a, ob_type = ta_type t,
     ob_payload = outbox_payload t a tid line, ob_created_at = now, ob_projected_at = None,
     ob_attempts = 0, ob_error = None, ob_retry_at = None, ob_quarantined_at = None\<rparr>"

definition commit_value :: "terminal_args \<Rightarrow> string \<Rightarrow> string \<Rightarrow> string \<Rightarrow> dispatch_attempt \<Rightarrow> terminal_commit" where
  "commit_value t tid eid now a = \<lparr>tm_attempt = ta_attempt t, tm_transition = tid,
     tm_dispatch = at_dispatch a, tm_state = ta_terminal t, tm_event = eid, tm_type = ta_type t,
     tm_observation = canon_dict (ta_observation t), tm_at = now, tm_idempotent = False\<rparr>"

definition commit_new ::
  "terminal_args \<Rightarrow> string \<Rightarrow> string \<Rightarrow> string \<Rightarrow> string \<Rightarrow> dispatch_attempt \<Rightarrow> string
     \<Rightarrow> terminal_commit jtxn" where
  "commit_new t tid eid host now a line db =
     (if sql_rowcount (terminal_hit t) (attempts db) \<noteq> 1 then
        Inl (CASMismatch ''terminal commit lost to another classifier'')
      else case update_keyed at_transition (terminal_hit t) (finish_row t tid now) (attempts db) of
        Inl x \<Rightarrow> Inl x
      | Inr rows \<Rightarrow>
        (case insert_transition (commit_transition t tid now a) (db\<lparr>attempts := rows\<rparr>) of
          Inl x \<Rightarrow> Inl x
        | Inr db1 \<Rightarrow>
          (case insert_outbox (commit_event t tid eid host now a line) db1 of
            Inl x \<Rightarrow> Inl x
          | Inr db2 \<Rightarrow> Inr (commit_value t tid eid now a, db2))))"

definition commit_terminal_action ::
  "terminal_args \<Rightarrow> string \<Rightarrow> string \<Rightarrow> string \<Rightarrow> string \<Rightarrow> terminal_commit jtxn" where
  "commit_terminal_action t tid eid host now db =
     (case sql_fetchone (\<lambda>a. at_attempt a = ta_attempt t) (attempts db) of
        None \<Rightarrow> Inl (CASMismatch ''terminal commit lost: attempt does not exist'')
      | Some a \<Rightarrow>
          if at_state a \<in> ATTEMPT_FINAL_STATES \<and> \<not> superseding_final t a then
            (case stored_commit a db of Inl x \<Rightarrow> Inl x | Inr c \<Rightarrow> Inr (c, db))
          else (case terminal_refusal t a of
              Some m \<Rightarrow> Inl (CASMismatch m)
            | None \<Rightarrow> (case outbox_headline_text (ta_terminal t) (JObj (canon_dict (ta_observation t))) of
                Inl x \<Rightarrow> Inl x
              | Inr text \<Rightarrow> commit_new t tid eid host now a text db)))"

text \<open>\<open>commit_expired_attempt\<close> is \<open>commit_terminal\<close> guarded by the start deadline.\<close>

definition expired_args :: "string \<Rightarrow> string \<Rightarrow> string \<Rightarrow> dict option \<Rightarrow> terminal_args" where
  "expired_args attempt observed_at terminal observation =
     terminal_args_of attempt terminal observation (Some (default_event_type terminal)) (Some observed_at) False"

section \<open>The public operations\<close>

definition prepare_attempt where
  "prepare_attempt cfg env started project digest p new_attempt new_token now default_deadline db =
     checked_write cfg env started (prepare_checks p)
       (prepare_attempt_action project digest p new_attempt new_token now default_deadline) db"

definition rebind_prepared_attempt_account where
  "rebind_prepared_attempt_account cfg env started dispatch expected_account account engine db =
     checked_write cfg env started (rebind_checks dispatch account)
       (rebind_attempt_action dispatch expected_account account engine) db"

definition start_attempt where
  "start_attempt cfg env started attempt token expected_epoch now deadline db =
     checked_write cfg env started (start_checks attempt token expected_epoch)
       (start_attempt_action attempt token (nat expected_epoch) now deadline) db"

definition mark_attempt_running where
  "mark_attempt_running cfg env started attempt token epoch worker now db =
     checked_write cfg env started (mark_running_checks attempt token epoch)
       (mark_running_action attempt token (nat epoch) worker now) db"

definition commit_terminal where
  "commit_terminal cfg env started t tid eid host now db =
     checked_write cfg env started (terminal_checks t)
       (commit_terminal_action t tid eid host now) db"

definition commit_expired_attempt where
  "commit_expired_attempt cfg env started attempt observed_at terminal observation tid eid host now db =
     commit_terminal cfg env started (expired_args attempt observed_at terminal observation) tid eid host now db"

section \<open>The invariant\<close>

text \<open>The \<open>CHECK\<close> of a \<open>dispatch_attempts\<close> row, and what the handlers add to it.\<close>

definition attempt_ok :: "dispatch_attempt \<Rightarrow> bool" where
  "attempt_ok a \<longleftrightarrow>
     (if at_state a \<in> ATTEMPT_FINAL_STATES
      then at_transition a \<noteq> None \<and> at_transition a \<noteq> Some [] \<and> at_terminal_state a \<noteq> None
         \<and> at_outcome a \<noteq> None \<and> at_terminal_at a \<noteq> None
      else at_transition a = None \<and> at_terminal_state a = None \<and> at_outcome a = None
         \<and> at_terminal_at a = None)
     \<and> (at_state a = PREPARED \<longrightarrow> at_epoch a = 0)
     \<and> (at_state a \<in> {STARTING, RUNNING} \<longrightarrow> at_epoch a = 1)
     \<and> at_epoch a \<le> 1"

text \<open>A final attempt has its transition row and its outbox event.\<close>

definition recorded :: "journal \<Rightarrow> dispatch_attempt \<Rightarrow> bool" where
  "recorded db a \<longleftrightarrow> (case at_transition a of
      None \<Rightarrow> True
    | Some tid \<Rightarrow>
        (\<exists>t \<in> set (transitions db). tr_key t = (at_attempt a, tid)
            \<and> Some (tr_terminal_state t) = at_terminal_state a)
      \<and> (\<exists>b \<in> set (outbox db). ob_key b = (at_attempt a, tid) \<and> ob_event b \<noteq> []
            \<and> ob_recipient b = at_dispatch a))"

text \<open>The transitions that took an attempt out of a live state.\<close>

definition winners :: "journal \<Rightarrow> string \<Rightarrow> dispatch_transition list" where
  "winners db attempt =
     filter (\<lambda>t. tr_attempt t = attempt \<and> tr_from t \<in> ATTEMPT_LIVE_STATES) (transitions db)"

definition attempts_ok :: "journal \<Rightarrow> bool" where
  "attempts_ok db \<longleftrightarrow>
     distinct (map at_attempt (attempts db)) \<and> distinct (map at_dispatch (attempts db))
   \<and> distinct (List.map_filter at_transition (attempts db))
   \<and> distinct (map tr_key (transitions db)) \<and> distinct (map tr_transition (transitions db))
   \<and> distinct (map ob_key (outbox db)) \<and> distinct (map ob_event_key (outbox db))
   \<and> (\<forall>a \<in> set (attempts db). attempt_ok a \<and> recorded db a
        \<and> length (winners db (at_attempt a)) = (if at_state a \<in> ATTEMPT_FINAL_STATES then 1 else 0))
   \<and> (\<forall>t \<in> set (transitions db). tr_attempt t \<in> at_attempt ` set (attempts db))
   \<and> (\<forall>b \<in> set (outbox db). ob_key b \<in> tr_key ` set (transitions db))"

definition lifecycle_rank :: "lifecycle \<Rightarrow> nat" where
  "lifecycle_rank s = (case s of PREPARED \<Rightarrow> 0 | STARTING \<Rightarrow> 1 | RUNNING \<Rightarrow> 2 | TERMINAL \<Rightarrow> 3 | ABANDONED \<Rightarrow> 3)"

definition attempt_core :: "dispatch_attempt \<Rightarrow> string \<times> string \<times> string \<times> string \<times> string \<times> string option \<times> string option" where
  "attempt_core a = (at_attempt a, at_dispatch a, at_root a, at_token a, at_prepared_at a,
     at_owner_label a, at_owner_digest a)"

definition event_core :: "outbox_row \<Rightarrow> string \<times> string \<times> string \<times> string \<times> string \<times> string \<times> dict" where
  "event_core b = (ob_attempt b, ob_transition b, ob_origin b, ob_event b, ob_recipient b, ob_type b, ob_payload b)"

text \<open>
  How the attempt tables may grow: no attempt disappears, none changes its identity, its
  lifecycle and its launch epoch only go up; transitions and outbox events are only added.
\<close>

definition attempts_le :: "journal \<Rightarrow> journal \<Rightarrow> bool" where
  "attempts_le db db' \<longleftrightarrow>
     (\<forall>a \<in> set (attempts db). \<exists>a' \<in> set (attempts db'). attempt_core a' = attempt_core a
        \<and> lifecycle_rank (at_state a) \<le> lifecycle_rank (at_state a') \<and> at_epoch a \<le> at_epoch a')
   \<and> set (transitions db) \<subseteq> set (transitions db')
   \<and> event_core ` set (outbox db) \<subseteq> event_core ` set (outbox db')"

lemma attempts_le_refl: "attempts_le db db"
  by (auto simp: attempts_le_def)

lemma attempts_le_trans: "attempts_le a b \<Longrightarrow> attempts_le b c \<Longrightarrow> attempts_le a c"
proof -
  assume ab: "attempts_le a b" and bc: "attempts_le b c"
  show "attempts_le a c"
    unfolding attempts_le_def
  proof (intro conjI ballI)
    fix x assume "x \<in> set (attempts a)"
    with ab obtain y where y: "y \<in> set (attempts b)" "attempt_core y = attempt_core x"
      "lifecycle_rank (at_state x) \<le> lifecycle_rank (at_state y)" "at_epoch x \<le> at_epoch y"
      unfolding attempts_le_def by blast
    with bc obtain z where "z \<in> set (attempts c)" "attempt_core z = attempt_core y"
      "lifecycle_rank (at_state y) \<le> lifecycle_rank (at_state z)" "at_epoch y \<le> at_epoch z"
      unfolding attempts_le_def by blast
    with y show "\<exists>a'\<in>set (attempts c). attempt_core a' = attempt_core x \<and>
        lifecycle_rank (at_state x) \<le> lifecycle_rank (at_state a') \<and> at_epoch x \<le> at_epoch a'"
      by (intro bexI [of _ z]) auto
  next
    show "set (transitions a) \<subseteq> set (transitions c)"
      "event_core ` set (outbox a) \<subseteq> event_core ` set (outbox c)"
      by (rule subset_trans [of _ "set (transitions b)"] subset_trans [of _ "event_core ` set (outbox b)"];
          use ab bc in \<open>simp add: attempts_le_def\<close>)+
  qed
qed

interpretation att: txn_contract attempts_ok attempts_le
  by unfold_locales (auto intro: attempts_le_refl attempts_le_trans)

section \<open>Rows rewritten in place\<close>

lemma winners_cong [simp]: "winners (db\<lparr>attempts := x\<rparr>) a = winners db a"
  by (simp add: winners_def)

lemma map_filter_sql_update_same:
  "(\<And>r. r \<in> set rs \<Longrightarrow> p r \<Longrightarrow> k (f r) = k r) \<Longrightarrow>
     List.map_filter k (sql_update p f rs) = List.map_filter k rs"
  by (induction rs) (auto simp: sql_update_def List.map_filter_simps split: option.splits)

lemma attempts_ok_update:
  assumes ok: "attempts_ok db"
    and row: "\<And>r. r \<in> set (attempts db) \<Longrightarrow> p r \<Longrightarrow>
       at_attempt (f r) = at_attempt r \<and> at_dispatch (f r) = at_dispatch r
     \<and> at_transition (f r) = at_transition r \<and> at_terminal_state (f r) = at_terminal_state r
     \<and> (at_state (f r) \<in> ATTEMPT_FINAL_STATES) = (at_state r \<in> ATTEMPT_FINAL_STATES)
     \<and> attempt_ok (f r)"
  shows "attempts_ok (db\<lparr>attempts := sql_update p f (attempts db)\<rparr>)"
proof -
  let ?rs = "attempts db"
  have k: "map at_attempt (sql_update p f ?rs) = map at_attempt ?rs"
    "map at_dispatch (sql_update p f ?rs) = map at_dispatch ?rs"
    "List.map_filter at_transition (sql_update p f ?rs) = List.map_filter at_transition ?rs"
    using row by (auto intro!: map_sql_update_same map_filter_sql_update_same)
  have ks: "at_attempt ` set (sql_update p f ?rs) = at_attempt ` set ?rs"
    using arg_cong [OF k(1), of set] by simp
  have r: "recorded (db\<lparr>attempts := x\<rparr>) a = recorded db a" for x a
    by (auto simp: recorded_def split: option.split)
  have r2: "recorded db (f a) = recorded db a" if "a \<in> set ?rs" "p a" for a
    using row [OF that] by (auto simp: recorded_def split: option.split)
  show ?thesis
    using ok row unfolding attempts_ok_def
    by (simp add: k ks r) (auto simp: set_sql_update r2)
qed

lemma attempts_le_update:
  assumes "\<And>r. r \<in> set (attempts db) \<Longrightarrow> p r \<Longrightarrow>
      attempt_core (f r) = attempt_core r \<and> lifecycle_rank (at_state r) \<le> lifecycle_rank (at_state (f r))
      \<and> at_epoch r \<le> at_epoch (f r)"
  shows "attempts_le db (db\<lparr>attempts := sql_update p f (attempts db)\<rparr>)"
  using assms unfolding attempts_le_def by (auto simp: set_sql_update)

lemma attempts_ok_row: "attempts_ok db \<Longrightarrow> a \<in> set (attempts db) \<Longrightarrow> attempt_ok a"
  by (simp add: attempts_ok_def)

lemma attempt_by_id:
  "attempts_ok db \<Longrightarrow> a \<in> set (attempts db) \<Longrightarrow> b \<in> set (attempts db) \<Longrightarrow> at_attempt a = at_attempt b \<Longrightarrow> a = b"
  unfolding attempts_ok_def by (blast intro: keyed_eq [of at_attempt])

lemma reread_Inr: "reread_identity attempt db = Inr (v, db') \<Longrightarrow> db' = db"
  by (auto simp: reread_identity_def split: option.splits)

lemmas life_defs = ATTEMPT_FINAL_STATES_def ATTEMPT_LIVE_STATES_def lifecycle_rank_def

lemma not_final_iff: "s \<notin> ATTEMPT_FINAL_STATES \<longleftrightarrow> s \<in> ATTEMPT_LIVE_STATES"
  by (cases s) (simp_all add: life_defs)

lemma start_keeps: "keeps attempts_ok attempts_le (start_attempt_action attempt token epoch now deadline)"
proof
  fix db v db'
  assume ok: "attempts_ok db" and run: "start_attempt_action attempt token epoch now deadline db = Inr (v, db')"
  let ?p = "\<lambda>r. at_attempt r = attempt \<and> at_token r = token \<and> at_state r = PREPARED \<and> at_epoch r = epoch"
  let ?f = "\<lambda>r. r\<lparr>at_state := STARTING, at_epoch := Suc (at_epoch r), at_updated_at := now, at_deadline := Some deadline\<rparr>"
  from run have d: "db' = db\<lparr>attempts := sql_update ?p ?f (attempts db)\<rparr>"
    by (auto simp: start_attempt_action_def Let_def dest: reread_Inr split: if_splits)
  show "attempts_ok db' \<and> attempts_le db db'"
    unfolding d using attempts_ok_row [OF ok]
    by (auto intro!: attempts_ok_update [OF ok] attempts_le_update
        simp: attempt_ok_def life_defs attempt_core_def)
qed

lemma mark_running_keeps: "keeps attempts_ok attempts_le (mark_running_action attempt token epoch worker now)"
proof
  fix db v db'
  assume ok: "attempts_ok db" and run: "mark_running_action attempt token epoch worker now db = Inr (v, db')"
  let ?p = "\<lambda>r. at_attempt r = attempt \<and> at_token r = token \<and> at_state r = STARTING \<and> at_epoch r = epoch"
  let ?f = "\<lambda>r. r\<lparr>at_state := RUNNING, at_worker := Some (canon_dict worker), at_updated_at := now\<rparr>"
  from run have d: "db' = db\<lparr>attempts := sql_update ?p ?f (attempts db)\<rparr>"
    by (auto simp: mark_running_action_def Let_def dest: reread_Inr split: if_splits)
  show "attempts_ok db' \<and> attempts_le db db'"
    unfolding d using attempts_ok_row [OF ok]
    by (auto intro!: attempts_ok_update [OF ok] attempts_le_update
        simp: attempt_ok_def life_defs attempt_core_def)
qed

lemma attempts_le_same_rank:
  "(\<And>r. at_state (f r) = at_state r \<and> at_epoch (f r) = at_epoch r \<and> attempt_core (f r) = attempt_core r) \<Longrightarrow>
    attempts_le db (db\<lparr>attempts := sql_update p f (attempts db)\<rparr>)"
  by (rule attempts_le_update) simp

lemma rebind_keeps: "keeps attempts_ok attempts_le (rebind_attempt_action dispatch expected account engine)"
proof
  fix db v db'
  assume ok: "attempts_ok db" and run: "rebind_attempt_action dispatch expected account engine db = Inr (v, db')"
  from run obtain p where d: "db' = db\<lparr>attempts := sql_update p (\<lambda>r. r\<lparr>at_account := Some (strip account),
       at_engine := coalesce (at_engine r) (filled_opt engine)\<rparr>) (attempts db)\<rparr>"
    by (auto simp: rebind_attempt_action_def Let_def split: if_splits option.splits)
  show "attempts_ok db' \<and> attempts_le db db'"
    unfolding d using attempts_ok_row [OF ok]
    by (auto intro!: attempts_ok_update [OF ok] attempts_le_same_rank simp: attempt_ok_def attempt_core_def)
qed

lemma attempts_ok_insert:
  assumes ok: "attempts_ok db" and ins: "insert_attempt r db = Inr db'"
    and r: "attempt_ok r" "at_state r = PREPARED"
  shows "attempts_ok db' \<and> attempts_le db db'"
proof -
  have d: "db' = db\<lparr>attempts := attempts db @ [r]\<rparr>" and new: "at_attempt r \<notin> at_attempt ` set (attempts db)"
    "at_dispatch r \<notin> at_dispatch ` set (attempts db)"
    using ins by (auto simp: insert_defs clash_def split: if_splits)
  have n: "at_transition r = None" using r by (simp add: attempt_ok_def life_defs)
  have "winners db (at_attempt r) = []"
    using ok new(1) unfolding attempts_ok_def winners_def filter_empty_conv by metis
  moreover have "recorded (db\<lparr>attempts := x\<rparr>) a = recorded db a" for x a
    by (auto simp: recorded_def split: option.split)
  moreover have "recorded db r" by (simp add: recorded_def n)
  moreover have "List.map_filter at_transition (attempts db @ [r]) = List.map_filter at_transition (attempts db)"
    by (simp add: List.map_filter_def n)
  ultimately have "attempts_ok db'"
    using ok new r unfolding attempts_ok_def d
    by (simp add: life_defs ball_Un)
  then show ?thesis by (auto simp: d attempts_le_def)
qed

lemma prepare_keeps: "keeps attempts_ok attempts_le (prepare_attempt_action project digest p na nt now dd)"
proof
  fix db v db'
  assume ok: "attempts_ok db" and run: "prepare_attempt_action project digest p na nt now dd db = Inr (v, db')"
  show "attempts_ok db' \<and> attempts_le db db'"
  proof (cases "sql_fetchone (\<lambda>a. at_dispatch a = pa_dispatch p) (attempts db)")
    case None
    with run obtain r where "insert_attempt r db = Inr db'" "at_state r = PREPARED" "attempt_ok r"
      by (simp add: prepare_attempt_action_def Let_def split: sum.splits)
        (fastforce simp: attempt_ok_def life_defs)
    from attempts_ok_insert [OF ok this(1,3,2)] show ?thesis .
  next
    case (Some a)
    define f where "f = (\<lambda>r :: dispatch_attempt. r\<lparr>at_account := coalesce (at_account r) (asserted_account p),
           at_engine := coalesce (at_engine r) (asserted_engine p)\<rparr>)"
    define q where "q = (\<lambda>r :: dispatch_attempt. at_attempt r = at_attempt a \<and> at_state r = PREPARED)"
    from run Some have "db' = db \<or> db' = db\<lparr>attempts := sql_update q f (attempts db)\<rparr>"
      by (auto simp: prepare_attempt_action_def f_def q_def split: if_splits)
    then show ?thesis
    proof
      assume "db' = db"
      with ok show ?thesis by (simp add: attempts_le_refl)
    next
      assume d: "db' = db\<lparr>attempts := sql_update q f (attempts db)\<rparr>"
      show ?thesis
        unfolding d using attempts_ok_row [OF ok]
        by (auto intro!: attempts_ok_update [OF ok] attempts_le_same_rank simp: f_def attempt_ok_def attempt_core_def)
    qed
  qed
qed

section \<open>The terminal commit keeps the invariant\<close>

lemma recorded_mono:
  assumes "recorded db a" "set (transitions db) \<subseteq> set (transitions db')" "set (outbox db) \<subseteq> set (outbox db')"
  shows "recorded db' a"
proof (cases "at_transition a")
  case (Some tid)
  with assms(1) obtain t b where "t \<in> set (transitions db)" "tr_key t = (at_attempt a, tid)"
      "Some (tr_terminal_state t) = at_terminal_state a"
      "b \<in> set (outbox db)" "ob_key b = (at_attempt a, tid)" "ob_event b \<noteq> []" "ob_recipient b = at_dispatch a"
    by (auto simp: recorded_def)
  with assms(2,3) Some show ?thesis unfolding recorded_def by auto
qed (simp add: recorded_def)

lemma finish_row_simps [simp]:
  "at_attempt (finish_row t tid now r) = at_attempt r" "at_dispatch (finish_row t tid now r) = at_dispatch r"
  "at_state (finish_row t tid now r) = final_lifecycle (ta_terminal t)"
  "at_transition (finish_row t tid now r) = Some tid"
  "at_terminal_state (finish_row t tid now r) = Some (ta_terminal t)"
  "at_epoch (finish_row t tid now r) = at_epoch r" "at_token (finish_row t tid now r) = at_token r"
  "at_outcome (finish_row t tid now r) = Some (canon_dict (ta_observation t))"
  "at_terminal_at (finish_row t tid now r) = Some now"
  "attempt_core (finish_row t tid now r) = attempt_core r"
  by (simp_all add: finish_row_def attempt_core_def)

lemma final_lifecycle_final [simp]: "final_lifecycle s \<in> ATTEMPT_FINAL_STATES"
  by (simp add: final_lifecycle_def life_defs)

lemma final_lifecycle_rank [simp]: "lifecycle_rank (final_lifecycle s) = 3"
  by (simp add: final_lifecycle_def life_defs)

lemma rank_le_3: "lifecycle_rank s \<le> 3"
  by (cases s) (simp_all add: lifecycle_rank_def)

lemma commit_new_Inr:
  assumes "commit_new t tid eid host now a line db = Inr (c, db')"
  shows "c = commit_value t tid eid now a"
    "db' = db\<lparr>attempts := sql_update (terminal_hit t) (finish_row t tid now) (attempts db),
       transitions := transitions db @ [commit_transition t tid now a],
       outbox := outbox db @ [commit_event t tid eid host now a line]\<rparr>"
    "sql_rowcount (terminal_hit t) (attempts db) = 1"
    "distinct (List.map_filter at_transition (sql_update (terminal_hit t) (finish_row t tid now) (attempts db)))"
    "\<not> clash tr_key (commit_transition t tid now a) (transitions db)"
    "\<not> clash tr_transition (commit_transition t tid now a) (transitions db)"
    "\<not> clash ob_key (commit_event t tid eid host now a line) (outbox db)"
    "\<not> clash ob_event_key (commit_event t tid eid host now a line) (outbox db)"
  using assms
  by (auto simp: commit_new_def update_keyed_def insert_transition_def insert_outbox_def violation_def
      Let_def commit_transition_def commit_event_def commit_value_def split: if_splits)

text \<open>The commit either repeats the stored outcome, or takes the one row it hits to its final state.\<close>

lemma commit_cases:
  assumes ok: "attempts_ok db" and run: "commit_terminal_action t tid eid host now db = Inr (c, db')"
  obtains (repeat) a where "a \<in> set (attempts db)" "at_attempt a = ta_attempt t"
      "at_state a \<in> ATTEMPT_FINAL_STATES" "\<not> superseding_final t a" "stored_commit a db = Inr c" "db' = db"
  | (fresh) a line where "a \<in> set (attempts db)" "at_attempt a = ta_attempt t"
      "at_state a \<in> ATTEMPT_LIVE_STATES \<or> superseding_final t a" "terminal_refusal t a = None"
      "terminal_hit t a" "\<And>r. r \<in> set (attempts db) \<Longrightarrow> terminal_hit t r \<longleftrightarrow> r = a"
      "commit_new t tid eid host now a line db = Inr (c, db')"
proof -
  obtain a where a: "sql_fetchone (\<lambda>a. at_attempt a = ta_attempt t) (attempts db) = Some a"
    using run by (auto simp: commit_terminal_action_def split: option.splits)
  then have mem: "a \<in> set (attempts db)" "at_attempt a = ta_attempt t"
    by (auto dest: sql_fetchone_SomeD)
  show thesis
  proof (cases "at_state a \<in> ATTEMPT_FINAL_STATES \<and> \<not> superseding_final t a")
    case True
    with run a have "stored_commit a db = Inr c" "db' = db"
      by (simp_all add: commit_terminal_action_def split: sum.splits)
    with True show thesis
      by (intro repeat [OF mem]) simp_all
  next
    case False
    with run a obtain line where n: "commit_new t tid eid host now a line db = Inr (c, db')"
        "terminal_refusal t a = None"
      unfolding commit_terminal_action_def
      by (simp only: option.case if_False split: sum.splits option.splits) (simp | blast)+
    have "\<exists>r \<in> set (attempts db). terminal_hit t r"
      using commit_new_Inr(3) [OF n(1)] sql_rowcount_0_iff [of "terminal_hit t" "attempts db"] by force
    moreover have eq: "r = a" if "r \<in> set (attempts db)" "terminal_hit t r" for r
      using attempt_by_id [OF ok that(1) mem(1)] that(2) mem(2) by (simp add: terminal_hit_def)
    ultimately have hit: "terminal_hit t a" by blast
    show thesis
      by (rule fresh [OF mem _ n(2) hit _ n(1)]) (use False hit eq not_final_iff in blast)+
  qed
qed

lemma update_one:
  assumes "\<And>r. r \<in> set rs \<Longrightarrow> p r \<longleftrightarrow> r = a" "a \<in> set rs"
  shows "set (sql_update p f rs) = insert (f a) (set rs - {a})"
  using assms by (auto simp: set_sql_update)

lemma commit_keeps:
  assumes "tid \<noteq> []" "eid \<noteq> []"
  shows "keeps attempts_ok attempts_le (commit_terminal_action t tid eid host now)"
proof
  fix db c db'
  assume ok: "attempts_ok db" and run: "commit_terminal_action t tid eid host now db = Inr (c, db')"
  from ok run show "attempts_ok db' \<and> attempts_le db db'"
  proof (cases rule: commit_cases)
    case repeat
    with ok show ?thesis by (simp add: attempts_le_refl)
  next
    case (fresh a line)
    note n = commit_new_Inr [OF fresh(7)]
    let ?tr = "commit_transition t tid now a" and ?ob = "commit_event t tid eid host now a line"
    let ?rs = "sql_update (terminal_hit t) (finish_row t tid now) (attempts db)"
    have rows: "set ?rs = insert (finish_row t tid now a) (set (attempts db) - {a})"
      by (rule update_one [OF fresh(6) fresh(1)])
    have keys: "map at_attempt ?rs = map at_attempt (attempts db)" "map at_dispatch ?rs = map at_dispatch (attempts db)"
      by (auto intro!: map_sql_update_same)
    have ids: "at_attempt ` set ?rs = at_attempt ` set (attempts db)"
      using arg_cong [OF keys(1), of set] by simp
    have tr: "tr_key ?tr = (at_attempt a, tid)" "tr_attempt ?tr = at_attempt a" "tr_from ?tr = at_state a"
        "tr_terminal_state ?tr = ta_terminal t"
      using fresh(2) by (simp_all add: commit_transition_def tr_key_def)
    have ob: "ob_key ?ob = (at_attempt a, tid)" "ob_event ?ob = eid" "ob_recipient ?ob = at_dispatch a"
      using fresh(2) by (simp_all add: commit_event_def ob_key_def)
    have wins: "winners db' x = winners db x @ (if x = at_attempt a \<and> at_state a \<in> ATTEMPT_LIVE_STATES then [?tr] else [])" for x
      by (simp add: n(2) winners_def tr)
    have row: "attempt_ok r \<and> recorded db' r \<and> length (winners db' (at_attempt r)) = (if at_state r \<in> ATTEMPT_FINAL_STATES then 1 else 0)"
      if "r \<in> set ?rs" for r
    proof (cases "r = finish_row t tid now a")
      case True
      have "at_epoch a \<le> 1" using attempts_ok_row [OF ok fresh(1)] by (simp add: attempt_ok_def)
      then have "attempt_ok r"
        using assms by (simp add: True attempt_ok_def) (auto simp: life_defs final_lifecycle_def)
      moreover have "recorded db' r"
        using assms tr ob by (auto simp: True recorded_def n(2))
      moreover have "length (winners db' (at_attempt a)) = 1"
        using ok fresh(1) not_final_iff by (auto simp: wins attempts_ok_def)
      ultimately show ?thesis by (simp add: True)
    next
      case False
      with that rows have r: "r \<in> set (attempts db)" "r \<noteq> a" by auto
      then have "at_attempt r \<noteq> at_attempt a" using attempt_by_id [OF ok r(1) fresh(1)] by blast
      moreover have "recorded db' r"
        using ok r(1) by (auto simp: attempts_ok_def n(2) intro: recorded_mono [of db])
      ultimately show ?thesis using ok r(1) by (simp add: wins attempts_ok_def)
    qed
    have "attempts_ok db'"
      unfolding attempts_ok_def
    proof (intro conjI ballI)
      fix r assume "r \<in> set (attempts db')"
      then have r: "r \<in> set ?rs" by (simp add: n(2))
      show "attempt_ok r" "recorded db' r"
        "length (winners db' (at_attempt r)) = (if at_state r \<in> ATTEMPT_FINAL_STATES then 1 else 0)"
        using row [OF r] by simp_all
    next
      fix x assume "x \<in> set (transitions db')"
      then show "tr_attempt x \<in> at_attempt ` set (attempts db')"
        using ok fresh(1) tr(2) by (auto simp: n(2) ids attempts_ok_def)
    next
      fix b assume "b \<in> set (outbox db')"
      then show "ob_key b \<in> tr_key ` set (transitions db')"
        using ok tr(1) ob(1) by (auto simp: n(2) attempts_ok_def)
    qed (use ok n(4-8) in \<open>simp_all add: n(2) keys attempts_ok_def clash_def\<close>)
    moreover have "attempts_le db db'"
      using rows rank_le_3 by (auto simp: attempts_le_def n(2) set_sql_update)
    ultimately show ?thesis by simp
  qed
qed

end
