(* ===== verification/GF_Outbox.thy ===== *)
theory GF_Outbox
  imports GF_Leases GF_Attempts
begin

text \<open>
  The terminal outbox and the wake webhook outbox (\<open>pending_outbox\<close>, \<open>project_terminal_outbox\<close>,
  \<open>_complete_terminal_delivery\<close>, \<open>_reconcile_terminal_delivery_recipients\<close>,
  \<open>_record_outbox_projection_failure\<close>, \<open>due_wake_webhook_outbox\<close>,
  \<open>wake_webhook_is_listen_visible\<close> and the \<open>mark_wake_webhook_*\<close> calls of
  \<open>scripts/goalflight_journal.py\<close>). The carrier append (\<open>goalflight_messages.post_message\<close>) is a
  parameter; every journal call of a projection is a transaction of its own, with its own environment.
\<close>

section \<open>Selecting a batch\<close>

definition OUTBOX_MAX_PROJECTION_ATTEMPTS :: nat where "OUTBOX_MAX_PROJECTION_ATTEMPTS = 3"
definition OUTBOX_RETRY_BASE_S :: real where "OUTBOX_RETRY_BASE_S = 1"
definition WAKE_WEBHOOK_OUTBOX_RETRY_BASE_S :: real where "WAKE_WEBHOOK_OUTBOX_RETRY_BASE_S = 1"
definition WAKE_WEBHOOK_OUTBOX_RETRY_CAP_S :: real where "WAKE_WEBHOOK_OUTBOX_RETRY_CAP_S = 60"

definition outbox_pending :: "outbox_row \<Rightarrow> bool" where
  "outbox_pending b \<longleftrightarrow> ob_projected_at b = None \<and> ob_quarantined_at b = None"

definition fresh_outbox :: "nat \<Rightarrow> journal \<Rightarrow> outbox_row list" where
  "fresh_outbox limit db = take limit (sort_key (\<lambda>b. (ob_created_at b, ob_attempt b, ob_transition b))
     (filter (\<lambda>b. outbox_pending b \<and> ob_attempts b = 0) (outbox db)))"

definition retry_outbox :: "nat \<Rightarrow> string \<Rightarrow> journal \<Rightarrow> outbox_row list" where
  "retry_outbox limit now db = take limit
     (sort_key (\<lambda>b. (case ob_retry_at b of None \<Rightarrow> ob_created_at b | Some t \<Rightarrow> t, ob_created_at b, ob_attempt b, ob_transition b))
       (filter (\<lambda>b. outbox_pending b \<and> 0 < ob_attempts b
          \<and> (case ob_retry_at b of None \<Rightarrow> True | Some t \<Rightarrow> t \<le> now)) (outbox db)))"

text \<open>The alternating loop: at each index a fresh row, then a retry, stopping at the limit.\<close>

function merge_classes :: "nat \<Rightarrow> 'r list \<Rightarrow> 'r list \<Rightarrow> nat \<Rightarrow> 'r list \<Rightarrow> 'r list" where
  "merge_classes limit fresh retries index merged =
     (if index < max (length fresh) (length retries) then
        (let m1 = (if index < length fresh then merged @ [fresh ! index] else merged)
         in if limit \<le> length m1 then m1
            else (let m2 = (if index < length retries then m1 @ [retries ! index] else m1)
                  in if limit \<le> length m2 then m2
                     else merge_classes limit fresh retries (Suc index) m2))
      else merged)"
  by pat_completeness auto
termination
  by (relation "measure (\<lambda>(limit, fresh, retries, index, merged). max (length fresh) (length retries) - index)") auto

declare merge_classes.simps [simp del]

definition pending_outbox :: "nat \<Rightarrow> string \<Rightarrow> journal \<Rightarrow> outbox_row list" where
  "pending_outbox limit now db = merge_classes limit (fresh_outbox limit db) (retry_outbox limit now db) 0 []"

section \<open>Recording a failure\<close>

definition quarantine_payload :: "outbox_row \<Rightarrow> string \<Rightarrow> nat \<Rightarrow> string \<Rightarrow> dict" where
  "quarantine_payload row item n error = canon_dict
     [(''item_id'', JStr item), (''type'', JStr ''terminal_outbox_quarantined''),
      (''attempt_id'', JStr (ob_attempt row)), (''transition_id'', JStr (ob_transition row)),
      (''dispatch_id'', JStr (ob_recipient row)), (''projection_attempts'', JInt (int n)),
      (''projection_error'', JStr error),
      (''text'', JStr (''terminal outbox event for '' @ ob_recipient row @ '' quarantined after ''
         @ show_nat n @ '' projection failures: '' @ error))]"

text \<open>
  \<open>after s\<close> is the clock text \<open>s\<close> seconds from now; \<open>item\<close> the \<open>uuid5\<close> of the row's key. The value is
  the number of attempts, the retry time and whether the row is now quarantined.
\<close>

definition projection_failure_action ::
  "string \<Rightarrow> outbox_row \<Rightarrow> string \<Rightarrow> string \<Rightarrow> string \<Rightarrow> (real \<Rightarrow> string) \<Rightarrow> (nat \<times> string option \<times> bool) jtxn" where
  "projection_failure_action project row error item now after db =
     (let n = Suc (ob_attempts row); error_text = take 2000 error;
          quarantined = (OUTBOX_MAX_PROJECTION_ATTEMPTS \<le> n);
          retry_at = (if quarantined then None else Some (after (OUTBOX_RETRY_BASE_S * 2 ^ (n - 1))));
          hit = (\<lambda>b. ob_key b = ob_key row \<and> outbox_pending b);
          db1 = db\<lparr>outbox := sql_update hit (\<lambda>b. b\<lparr>ob_attempts := n, ob_error := Some error_text, ob_retry_at := retry_at,
                  ob_quarantined_at := (if quarantined then Some now else None)\<rparr>) (outbox db)\<rparr>
      in if sql_rowcount hit (outbox db) \<noteq> 1 then
           Inl (CASMismatch ''outbox projection failure lost to another projector'')
         else if \<not> quarantined then Inr ((n, retry_at, False), db1)
         else
           (case record_system_action project ''terminal_outbox_quarantined'' ''projection_retry_exhausted''
               ''outbox-quarantine'' item (quarantine_payload row item n error_text) now db1 of
              Inl x \<Rightarrow> Inl x | Inr (_, db2) \<Rightarrow> Inr ((n, None, True), db2)))"

section \<open>Completing the delivery of a terminal event\<close>

definition reconcile_action :: "string \<Rightarrow> string \<Rightarrow> string \<Rightarrow> string list \<Rightarrow> string \<Rightarrow> string list jtxn" where
  "reconcile_action project origin uuid requested now db =
     (let mine = (\<lambda>e. de_root e = project \<and> de_origin e = origin \<and> de_uuid e = uuid \<and> de_withdrawn_at e = None);
          live = map de_recipient (filter mine (events db));
          preserved = (if ''*'' \<in> set live \<and> list_ex (\<lambda>r. r \<notin> set live) requested then ''*'' # requested else requested);
          stale = sort (remdups (filter (\<lambda>r. r \<notin> set preserved) live))
      in Inr (stale, fold (\<lambda>r d. invalidate_snapshots project r now None
            (withdraw_rows (\<lambda>e. mine e \<and> de_recipient e = r) now d)) stale db))"

text \<open>What the carrier append answered.\<close>

record carrier =
  ca_dispatch :: string
  ca_seq :: int
  ca_path :: string
  ca_recorded :: bool

text \<open>The environments, clock texts and configuration of the journal calls of one projection pass.\<close>

record outbox_env =
  oe_config :: txn_config
  oe_env :: "nat \<Rightarrow> nat \<Rightarrow> journal write_env"
  oe_started :: "nat \<Rightarrow> real"
  oe_now :: "nat \<Rightarrow> string"
  oe_after :: "nat \<Rightarrow> real \<Rightarrow> string"
  oe_enqueue :: bool
  oe_item :: "outbox_row \<Rightarrow> string"
  oe_describe :: "txn_exn \<Rightarrow> string"

text \<open>A journal call that must commit: anything else raises.\<close>

definition must_commit ::
  "((txn_exn + 'a write_result) \<times> journal) option \<Rightarrow> ((txn_exn + 'a) \<times> journal) option" where
  "must_commit answer = (case answer of
      None \<Rightarrow> None
    | Some (Inl x, db) \<Rightarrow> Some (Inl x, db)
    | Some (Inr w, db) \<Rightarrow> Some (case wr_value w of
          Some v \<Rightarrow> if wr_disposition w = COMMITTED then Inr v
             else Inl (if wr_disposition w = RETRYABLE then JournalBusy else JournalFailed)
        | None \<Rightarrow> Inl (if wr_disposition w = RETRYABLE then JournalBusy else JournalFailed), db))"

definition attempt_owner :: "string \<Rightarrow> journal \<Rightarrow> string" where
  "attempt_owner attempt db = (case sql_fetchone (\<lambda>a. at_attempt a = attempt) (attempts db) of
      None \<Rightarrow> [] | Some a \<Rightarrow> (case at_owner_label a of None \<Rightarrow> [] | Some s \<Rightarrow> s))"

definition terminal_recipients :: "string \<Rightarrow> string \<Rightarrow> journal \<Rightarrow> (string \<times> bool) list" where
  "terminal_recipients project owner db =
     (if owner \<noteq> [] \<and> active_row project owner db \<noteq> None then [(owner, True)]
      else let labels = filter (\<lambda>l. l \<noteq> []) (map ls_label (lease_records project False db))
        in if labels = [] then [(''*'', False)] else map (\<lambda>l. (l, True)) labels)"

definition terminal_event :: "outbox_row \<Rightarrow> carrier \<Rightarrow> string \<times> bool \<Rightarrow> event_args" where
  "terminal_event row ca target = \<lparr>ea_recipient = fst target, ea_origin = ob_origin row, ea_uuid = ob_event row,
     ea_stream = (if ca_dispatch ca = [] then ob_recipient row else ca_dispatch ca), ea_seq = ca_seq ca,
     ea_carrier = ca_path ca, ea_type = ob_type row, ea_class = ''waking'', ea_created_at = ob_created_at row,
     ea_replaces = [], ea_fallback = snd target\<rparr>"

text \<open>One recipient: assignment, then projection. The value is the row projection made visible.\<close>

definition assign_recipient ::
  "outbox_env \<Rightarrow> string \<Rightarrow> outbox_row \<Rightarrow> carrier \<Rightarrow> nat \<Rightarrow> string \<times> bool \<Rightarrow> journal \<Rightarrow> ((txn_exn + string) \<times> journal) option" where
  "assign_recipient oe project row ca k target db =
     (case must_commit (record_delivery_event (oe_config oe) (oe_env oe k) (oe_started oe k) project
         (terminal_event row ca target) (oe_now oe k) (oe_now oe k) db) of
        None \<Rightarrow> None
      | Some (Inl x, db1) \<Rightarrow> Some (Inl x, db1)
      | Some (Inr r, db1) \<Rightarrow>
          (case must_commit (mark_delivery_projected (oe_config oe) (oe_env oe (Suc k)) (oe_started oe (Suc k)) project
              (oe_enqueue oe) (de_recipient r) (ob_origin row) (ob_event row) (oe_now oe (Suc k)) (oe_now oe (Suc k)) db1) of
             None \<Rightarrow> None
           | Some (Inl x, db2) \<Rightarrow> Some (Inl x, db2)
           | Some (Inr pj, db2) \<Rightarrow> Some (Inr (de_recipient (pj_row pj)), db2)))"

fun assign_recipients ::
  "outbox_env \<Rightarrow> string \<Rightarrow> outbox_row \<Rightarrow> carrier \<Rightarrow> nat \<Rightarrow> (string \<times> bool) list \<Rightarrow> journal
     \<Rightarrow> ((txn_exn + string list) \<times> journal) option" where
  "assign_recipients oe project row ca k [] db = Some (Inr [], db)"
| "assign_recipients oe project row ca k (t # ts) db =
     (case assign_recipient oe project row ca k t db of
        None \<Rightarrow> None
      | Some (Inl x, db1) \<Rightarrow> Some (Inl x, db1)
      | Some (Inr r, db1) \<Rightarrow>
          (case assign_recipients oe project row ca (Suc (Suc k)) ts db1 of
             None \<Rightarrow> None
           | Some (Inl x, db2) \<Rightarrow> Some (Inl x, db2)
           | Some (Inr rs, db2) \<Rightarrow> Some (Inr (r # rs), db2)))"

text \<open>The reconciliation needs a commit but no value: its disposition alone is looked at.\<close>

definition complete_terminal_delivery ::
  "outbox_env \<Rightarrow> string \<Rightarrow> outbox_row \<Rightarrow> carrier \<Rightarrow> nat \<Rightarrow> journal \<Rightarrow> ((txn_exn + unit) \<times> journal) option" where
  "complete_terminal_delivery oe project row ca k db =
     (let targets = terminal_recipients project (attempt_owner (ob_attempt row) db) db;
          k' = k + 2 * length targets
      in case assign_recipients oe project row ca k targets db of
           None \<Rightarrow> None
         | Some (Inl x, db1) \<Rightarrow> Some (Inl x, db1)
         | Some (Inr actual, db1) \<Rightarrow>
             (case must_commit (checked_write (oe_config oe) (oe_env oe k') (oe_started oe k')
                 (all_checks ([need_identity_token (ob_origin row), need_canonical_uuid (ob_event row)]
                    @ map need_recipient (remdups actual)))
                 (reconcile_action project (ob_origin row) (ob_event row) (remdups actual) (oe_now oe k')) db1) of
                None \<Rightarrow> None
              | Some (Inl x, db2) \<Rightarrow> Some (Inl x, db2)
              | Some (Inr _, db2) \<Rightarrow> Some (Inr (), db2)))"

section \<open>The projection pass\<close>

text \<open>
  A compiled \<open>RowOperation.update\<close> with a row cap and an expected count: the first \<open>cap\<close> matching rows
  are rewritten; another number of affected rows is a lost compare-and-swap.
\<close>

fun update_capped :: "nat \<Rightarrow> ('r \<Rightarrow> bool) \<Rightarrow> ('r \<Rightarrow> 'r) \<Rightarrow> 'r list \<Rightarrow> nat \<times> 'r list" where
  "update_capped cap p f [] = (0, [])"
| "update_capped cap p f (r # rs) =
     (if p r \<and> 0 < cap then (case update_capped (cap - 1) p f rs of (n, rs') \<Rightarrow> (Suc n, f r # rs'))
      else (case update_capped cap p f rs of (n, rs') \<Rightarrow> (n, r # rs')))"

definition mark_outbox_projected_action :: "outbox_row \<Rightarrow> string \<Rightarrow> nat jtxn" where
  "mark_outbox_projected_action row now db =
     (case update_capped 1 (\<lambda>b. ob_key b = ob_key row)
        (\<lambda>b. b\<lparr>ob_projected_at := Some now, ob_attempts := Suc (ob_attempts row), ob_error := None,
               ob_retry_at := None, ob_quarantined_at := None\<rparr>) (outbox db) of (n, rows) \<Rightarrow>
        if n \<noteq> 1 then Inl (CASMismatch ''update on terminal_outbox affected rows'')
        else Inr (n, db\<lparr>outbox := rows\<rparr>))"

text \<open>The exceptions the pass turns into a recorded failure; any other leaves the loop.\<close>

definition projection_caught :: "txn_exn \<Rightarrow> bool" where
  "projection_caught x = (case x of PyKeyError \<Rightarrow> False | PyLookupError \<Rightarrow> False | OtherError \<Rightarrow> False
     | CASMismatch _ \<Rightarrow> False | _ \<Rightarrow> True)"

record projected =
  pr_attempt :: string
  pr_transition :: string
  pr_event :: string
  pr_recorded :: bool
  pr_path :: string

text \<open>
  One row of the batch. \<open>post\<close> is the carrier append. The value is the projection that was marked,
  if it was; a failure to record the failure, or to mark, is not an error.
\<close>

definition project_row ::
  "outbox_env \<Rightarrow> string \<Rightarrow> (outbox_row \<Rightarrow> txn_exn + carrier) \<Rightarrow> nat \<Rightarrow> outbox_row \<Rightarrow> journal
     \<Rightarrow> ((txn_exn + projected option) \<times> journal) option" where
  "project_row oe project post k row db =
     (let attempt = (case post row of
            Inl x \<Rightarrow> Some (Inl x, db)
          | Inr ca \<Rightarrow> (case complete_terminal_delivery oe project row ca (k + 1) db of
                None \<Rightarrow> None
              | Some (Inl x, d) \<Rightarrow> Some (Inl x, d)
              | Some (Inr _, d) \<Rightarrow> Some (Inr ca, d)))
      in case attempt of
           None \<Rightarrow> None
         | Some (Inl x, db1) \<Rightarrow>
             if \<not> projection_caught x then Some (Inl x, db1)
             else (case domain_write (oe_config oe) (oe_env oe k) (oe_started oe k)
                 (projection_failure_action project row (oe_describe oe x) (oe_item oe row) (oe_now oe k) (oe_after oe k)) db1 of
                None \<Rightarrow> None
              | Some (Inl y, db2) \<Rightarrow> Some (Inl y, db2)
              | Some (Inr _, db2) \<Rightarrow> Some (Inr None, db2))
         | Some (Inr ca, db1) \<Rightarrow>
             (case domain_write (oe_config oe) (oe_env oe k) (oe_started oe k)
                 (mark_outbox_projected_action row (oe_now oe k)) db1 of
                None \<Rightarrow> None
              | Some (Inl y, db2) \<Rightarrow> Some (Inl y, db2)
              | Some (Inr w, db2) \<Rightarrow> Some (Inr (if wr_disposition w = COMMITTED
                   then Some \<lparr>pr_attempt = ob_attempt row, pr_transition = ob_transition row, pr_event = ob_event row,
                          pr_recorded = ca_recorded ca, pr_path = ca_path ca\<rparr>
                   else None), db2)))"

fun project_rows ::
  "outbox_env \<Rightarrow> string \<Rightarrow> (outbox_row \<Rightarrow> txn_exn + carrier) \<Rightarrow> nat \<Rightarrow> outbox_row list \<Rightarrow> journal
     \<Rightarrow> ((txn_exn + projected list) \<times> journal) option" where
  "project_rows oe project post k [] db = Some (Inr [], db)"
| "project_rows oe project post k (row # rows) db =
     (case project_row oe project post k row db of
        None \<Rightarrow> None
      | Some (Inl x, db1) \<Rightarrow> Some (Inl x, db1)
      | Some (Inr p, db1) \<Rightarrow>
          (case project_rows oe project post (k + 2 * length (leases db) + 5) rows db1 of
             None \<Rightarrow> None
           | Some (Inl x, db2) \<Rightarrow> Some (Inl x, db2)
           | Some (Inr ps, db2) \<Rightarrow> Some (Inr ((case p of None \<Rightarrow> [] | Some x \<Rightarrow> [x]) @ ps), db2)))"

definition project_terminal_outbox ::
  "outbox_env \<Rightarrow> string \<Rightarrow> (outbox_row \<Rightarrow> txn_exn + carrier) \<Rightarrow> nat \<Rightarrow> string \<Rightarrow> journal
     \<Rightarrow> ((txn_exn + projected list) \<times> journal) option" where
  "project_terminal_outbox oe project post limit now db =
     project_rows oe project post 0 (pending_outbox limit now db) db"

section \<open>The wake webhook outbox\<close>

definition wake_open :: "wake_row \<Rightarrow> bool" where
  "wake_open w \<longleftrightarrow> wk_delivered_at w = None \<and> wk_abandoned_at w = None"

definition due_wakes :: "nat \<Rightarrow> string \<Rightarrow> journal \<Rightarrow> wake_row list" where
  "due_wakes limit now db = take limit
     (sort_key (\<lambda>w. (case wk_retry_at w of None \<Rightarrow> wk_enqueued_at w | Some t \<Rightarrow> t, wk_enqueued_at w, wk_uuid w))
       (filter (\<lambda>w. wake_open w \<and> (case wk_retry_at w of None \<Rightarrow> True | Some t \<Rightarrow> t \<le> now)) (wakes db)))"

definition visible_for :: "string \<Rightarrow> wake_row \<Rightarrow> string \<Rightarrow> journal \<Rightarrow> bool" where
  "visible_for project w label db = sql_exists (\<lambda>e. pending project label db e \<and> de_waking e
     \<and> de_origin e = wk_origin w \<and> de_uuid e = wk_uuid w) (events db)"

definition wake_is_listen_visible :: "string \<Rightarrow> wake_row \<Rightarrow> journal \<Rightarrow> bool" where
  "wake_is_listen_visible project w db =
     (if wk_recipient w \<noteq> ''*'' then visible_for project w (wk_recipient w) db
      else let labels = filter (\<lambda>l. l \<noteq> []) (map ls_label (lease_records project False db))
        in if labels \<noteq> [] then list_ex (\<lambda>l. visible_for project w l db) labels
           else sql_exists (\<lambda>e. de_root e = project \<and> de_origin e = wk_origin w \<and> de_uuid e = wk_uuid w
              \<and> de_recipient e = ''*'' \<and> de_projected_at e \<noteq> None \<and> de_withdrawn_at e = None \<and> de_waking e) (events db))"

definition wake_hit :: "string \<Rightarrow> string \<Rightarrow> string \<Rightarrow> string \<Rightarrow> wake_row \<Rightarrow> bool" where
  "wake_hit project recipient origin uuid w \<longleftrightarrow> wk_root w = project \<and> wk_recipient w = recipient
     \<and> wk_origin w = origin \<and> wk_uuid w = uuid \<and> wake_open w"

definition wake_delivered_action :: "string \<Rightarrow> string \<Rightarrow> string \<Rightarrow> string \<Rightarrow> string \<Rightarrow> bool jtxn" where
  "wake_delivered_action project recipient origin uuid now db =
     (let hit = wake_hit project recipient origin uuid
      in Inr (sql_rowcount hit (wakes db) = 1, db\<lparr>wakes :=
           sql_update hit (\<lambda>w. w\<lparr>wk_delivered_at := Some now, wk_error := None, wk_retry_at := None\<rparr>) (wakes db)\<rparr>))"

definition wake_retry_delay :: "nat \<Rightarrow> real" where
  "wake_retry_delay n = min WAKE_WEBHOOK_OUTBOX_RETRY_CAP_S (WAKE_WEBHOOK_OUTBOX_RETRY_BASE_S * 2 ^ (n - 1))"

definition wake_retry_action ::
  "string \<Rightarrow> string \<Rightarrow> string \<Rightarrow> string \<Rightarrow> string \<Rightarrow> (real \<Rightarrow> string) \<Rightarrow> (nat \<times> string) option jtxn" where
  "wake_retry_action project recipient origin uuid error after db =
     (let hit = wake_hit project recipient origin uuid
      in case sql_fetchone hit (wakes db) of
           None \<Rightarrow> Inr (None, db)
         | Some row \<Rightarrow>
             (let n = Suc (wk_attempts row); retry_at = after (wake_retry_delay n)
              in if sql_rowcount hit (wakes db) \<noteq> 1 then Inl (CASMismatch ''wake webhook retry lost to another sender'')
                 else Inr (Some (n, retry_at), db\<lparr>wakes := sql_update hit
                   (\<lambda>w. w\<lparr>wk_attempts := n, wk_error := Some (take 2000 (if error = [] then ''POST failed'' else error)),
                          wk_retry_at := Some retry_at\<rparr>) (wakes db)\<rparr>)))"

definition wake_abandoned_action ::
  "string \<Rightarrow> string \<Rightarrow> string \<Rightarrow> string \<Rightarrow> string \<Rightarrow> string \<Rightarrow> bool jtxn" where
  "wake_abandoned_action project recipient origin uuid reason now db =
     (let hit = wake_hit project recipient origin uuid
      in Inr (sql_rowcount hit (wakes db) = 1, db\<lparr>wakes := sql_update hit
           (\<lambda>w. w\<lparr>wk_abandoned_at := Some now, wk_abandon_reason := Some (take 200 (if reason = [] then ''no-longer-visible'' else reason)),
                  wk_retry_at := None\<rparr>) (wakes db)\<rparr>))"

definition mark_wake_delivered where
  "mark_wake_delivered cfg env started project recipient origin uuid now db =
     checked_write cfg env started (event_key_checks recipient origin uuid)
       (wake_delivered_action project recipient origin uuid now) db"

definition mark_wake_retry where
  "mark_wake_retry cfg env started project recipient origin uuid error after db =
     checked_write cfg env started (event_key_checks recipient origin uuid)
       (wake_retry_action project recipient origin uuid error after) db"

definition mark_wake_abandoned where
  "mark_wake_abandoned cfg env started project recipient origin uuid reason now db =
     checked_write cfg env started (event_key_checks recipient origin uuid)
       (wake_abandoned_action project recipient origin uuid reason now) db"

end
