(* ===== verification/GF_Delivery_Lemmas.thy ===== *)
theory GF_Delivery_Lemmas
  imports GF_Delivery
begin

text \<open>
  What the delivery operations keep: the keys of the delivery tables (\<open>delivery_ok\<close>), the slots of
  the events, and the effect of \<open>_write_cursor_positions\<close> on a well-formed journal. Snapshots are
  shown to determine the rows they were taken from.
\<close>

section \<open>Frames\<close>

text \<open>Invalidation rewrites cursor versions and nothing else.\<close>

lemma invalidate_label_frame [simp]:
  "attempts (invalidate_label p t l db) = attempts db" "transitions (invalidate_label p t l db) = transitions db"
  "outbox (invalidate_label p t l db) = outbox db" "leases (invalidate_label p t l db) = leases db"
  "stream_cursors (invalidate_label p t l db) = stream_cursors db" "rewinds (invalidate_label p t l db) = rewinds db"
  "coverage (invalidate_label p t l db) = coverage db" "events (invalidate_label p t l db) = events db"
  "wakes (invalidate_label p t l db) = wakes db" "attention (invalidate_label p t l db) = attention db"
  "system_attention (invalidate_label p t l db) = system_attention db"
  by (simp_all add: invalidate_label_def)

lemma fold_frame: "(\<And>x d. g (f x d) = g d) \<Longrightarrow> g (fold f xs d) = g d"
  by (induction xs arbitrary: d) auto

lemma invalidate_frame [simp]:
  "attempts (invalidate_snapshots p r t x db) = attempts db" "transitions (invalidate_snapshots p r t x db) = transitions db"
  "outbox (invalidate_snapshots p r t x db) = outbox db" "leases (invalidate_snapshots p r t x db) = leases db"
  "stream_cursors (invalidate_snapshots p r t x db) = stream_cursors db"
  "rewinds (invalidate_snapshots p r t x db) = rewinds db"
  "coverage (invalidate_snapshots p r t x db) = coverage db" "events (invalidate_snapshots p r t x db) = events db"
  "wakes (invalidate_snapshots p r t x db) = wakes db" "attention (invalidate_snapshots p r t x db) = attention db"
  "system_attention (invalidate_snapshots p r t x db) = system_attention db"
  by (simp_all add: invalidate_snapshots_def fold_frame)

text \<open>The columns of a cursor row that say whose it is.\<close>

definition cc_owner :: "controller_cursor \<Rightarrow> (string \<times> string) \<times> nat" where
  "cc_owner c = (cc_key c, cc_generation c)"

lemma invalidate_owner [simp]: "map cc_owner (cursors (invalidate_snapshots p r t x db)) = map cc_owner (cursors db)"
proof -
  have "map cc_owner (cursors (invalidate_label p t l d)) = map cc_owner (cursors d)" for l d
    unfolding invalidate_label_def by (simp, intro map_sql_update_same) (simp add: cc_owner_def cc_key_def)
  then show ?thesis
    unfolding invalidate_snapshots_def by (rule fold_frame [of "\<lambda>d. map cc_owner (cursors d)"])
qed

lemma cc_key_owner: "map cc_key cs = map fst (map cc_owner cs)"
  by (simp add: cc_owner_def)

lemma position_of_cong:
  "stream_cursors db' = stream_cursors db \<Longrightarrow> position_of p l s db' = position_of p l s db"
  by (simp add: position_of_def)

section \<open>Well-formed delivery tables\<close>

definition delivery_ok :: "journal \<Rightarrow> bool" where
  "delivery_ok db \<longleftrightarrow> distinct (map de_key (events db)) \<and> distinct (map de_slot (filter de_live (events db)))
     \<and> distinct (map cc_key (cursors db)) \<and> distinct (map sc_key (stream_cursors db))
     \<and> distinct (map rw_key (rewinds db))"

lemma invalidate_cc_key [simp]: "map cc_key (cursors (invalidate_snapshots p r t x db)) = map cc_key (cursors db)"
  by (simp only: cc_key_owner invalidate_owner)

lemma delivery_ok_invalidate [simp]: "delivery_ok (invalidate_snapshots p r t x db) = delivery_ok db"
  by (simp add: delivery_ok_def)

lemma distinct_map_transfer:
  assumes "distinct (map k rs)" "\<And>x y. x \<in> set rs \<Longrightarrow> y \<in> set rs \<Longrightarrow> g x = g y \<Longrightarrow> k x = k y"
  shows "distinct (map g rs)"
  unfolding distinct_map
proof
  show "distinct rs" using assms(1) by (simp add: distinct_map)
  show "inj_on g (set rs)"
  proof (rule inj_onI)
    fix x y assume xy: "x \<in> set rs" "y \<in> set rs" "g x = g y"
    show "x = y" by (rule keyed_eq [OF assms(1) xy(1,2) assms(2) [OF xy]])
  qed
qed

lemma live_update:
  assumes "\<And>e. e \<in> set rs \<Longrightarrow> p e \<Longrightarrow> \<not> de_live (f e)"
  shows "filter de_live (sql_update p f rs) = filter (\<lambda>e. de_live e \<and> \<not> p e) rs"
  using assms by (induction rs) (auto simp: sql_update_def)

lemma distinct_map_filter_sub:
  "distinct (map k (filter P rs)) \<Longrightarrow> distinct (map k (filter (\<lambda>e. P e \<and> Q e) rs))"
  by (induction rs) (auto split: if_splits)

lemma withdraw_ok:
  assumes "delivery_ok db" "\<And>e. de_key (f e) = de_key e \<and> \<not> de_live (f e)"
  shows "delivery_ok (db\<lparr>events := sql_update p f (events db)\<rparr>)"
proof -
  have "map de_key (sql_update p f (events db)) = map de_key (events db)"
    by (rule map_sql_update_same) (simp add: assms(2))
  moreover have "filter de_live (sql_update p f (events db)) = filter (\<lambda>e. de_live e \<and> \<not> p e) (events db)"
    by (rule live_update) (simp add: assms(2))
  ultimately show ?thesis
    using assms(1) by (simp add: delivery_ok_def distinct_map_filter_sub)
qed

lemma withdraw_rows_ok: "delivery_ok db \<Longrightarrow> delivery_ok (withdraw_rows p now db)"
  unfolding withdraw_rows_def by (erule withdraw_ok) (simp add: de_key_def de_live_def)

lemma withdraw_replaced_ok: "delivery_ok db \<Longrightarrow> delivery_ok (withdraw_replaced project now key db)"
  unfolding withdraw_replaced_def by (cases key) (auto intro!: withdraw_ok simp: de_key_def de_live_def)

lemma fold_keeps: "(\<And>x d. P d \<Longrightarrow> P (f x d)) \<Longrightarrow> P d \<Longrightarrow> P (fold f xs d)"
  by (induction xs arbitrary: d) auto

lemma insert_event_ok: "delivery_ok db \<Longrightarrow> insert_event r db = Inr db' \<Longrightarrow> delivery_ok db'"
  by (auto simp: delivery_ok_def insert_event_def violation_def clash_def sql_exists_def list_ex_iff
      split: if_splits)

lemma readdress_ok: "delivery_ok db \<Longrightarrow> readdress p label db = Inr db' \<Longrightarrow> delivery_ok db'"
  by (auto simp: delivery_ok_def readdress_def violation_def Let_def split: if_splits)

lemma map_filter_sql_update:
  "(\<And>e. k (f e) = k e \<and> P (f e) = P e) \<Longrightarrow> map k (filter P (sql_update p f rs)) = map k (filter P rs)"
  by (induction rs) (auto simp: sql_update_def)

lemma project_ok:
  assumes ok: "delivery_ok db"
  shows "delivery_ok (db\<lparr>events := sql_update p (\<lambda>e. e\<lparr>de_projected_at := t\<rparr>) (events db)\<rparr>)"
proof -
  have "map de_key (sql_update p (\<lambda>e. e\<lparr>de_projected_at := t\<rparr>) (events db)) = map de_key (events db)"
    by (rule map_sql_update_same) (simp add: de_key_def)
  moreover have "map de_slot (filter de_live (sql_update p (\<lambda>e. e\<lparr>de_projected_at := t\<rparr>) (events db))) = map de_slot (filter de_live (events db))"
    by (rule map_filter_sql_update) (simp add: de_live_def de_slot_def)
  ultimately show ?thesis using ok by (simp add: delivery_ok_def)
qed

lemma record_ok: "delivery_ok db \<Longrightarrow> record_delivery_action p e w now db = Inr (r, db') \<Longrightarrow> delivery_ok db'"
  by (auto simp: record_delivery_action_def Let_def withdraw_replaced_ok fold_keeps
      split: option.splits if_splits sum.splits dest: insert_event_ok [rotated])

lemma enqueue_wake_frame [simp]:
  "events (enqueue_wake now e db) = events db" "cursors (enqueue_wake now e db) = cursors db"
  "stream_cursors (enqueue_wake now e db) = stream_cursors db" "rewinds (enqueue_wake now e db) = rewinds db"
  "attempts (enqueue_wake now e db) = attempts db" "transitions (enqueue_wake now e db) = transitions db"
  "outbox (enqueue_wake now e db) = outbox db" "leases (enqueue_wake now e db) = leases db"
  "coverage (enqueue_wake now e db) = coverage db"
  by (simp_all add: enqueue_wake_def Let_def)

lemma enqueue_wake_ok [simp]: "delivery_ok (enqueue_wake now e db) = delivery_ok db"
  by (simp add: delivery_ok_def)

lemma mark_projected_ok:
  "delivery_ok db \<Longrightarrow> mark_projected_action p enq r o' u now now2 db = Inr (v, db') \<Longrightarrow> delivery_ok db'"
  by (clarsimp simp: mark_projected_action_def Let_def project_ok split: option.splits)

lemma withdraw_action_ok:
  "delivery_ok db \<Longrightarrow> withdraw_action p r o' u now db = Inr (v, db') \<Longrightarrow> delivery_ok db'"
  by (auto simp: withdraw_action_def Let_def de_key_def de_live_def intro!: withdraw_ok split: option.splits if_splits)

section \<open>Adoption never collides\<close>

lemma adopt_stream_succeeds:
  assumes ok: "delivery_ok db" and label: "label \<noteq> ''*''"
  shows "\<exists>n' db'. adopt_stream project label now current sp (n, db) = Inr (n', db') \<and> delivery_ok db'"
proof -
  obtain stream position where sp: "sp = (stream, position)" by (cases sp)
  define past where "past = passed_wildcard project stream (pos_get current stream) position"
  define dup where "dup = (\<lambda>w. past w \<and> sql_exists (exact_twin label w) (events db))"
  define db1 where "db1 = withdraw_rows dup now db"
  have ok1: "delivery_ok db1" unfolding db1_def by (rule withdraw_rows_ok [OF ok])
  let ?ren = "\<lambda>e. e\<lparr>de_recipient := label\<rparr>"
  let ?F = "\<lambda>e. if past e then ?ren e else e"
  have rows: "sql_update past ?ren (events db1) = map ?F (events db1)"
    by (simp add: sql_update_def)
  have pastD: "de_root x = project \<and> de_recipient x = ''*'' \<and> de_live x" if "past x" for x
    using that by (simp add: past_def passed_wildcard_def de_live_def)
  \<comment> \<open>a row still to be renamed has no exact twin left\<close>
  have no_twin: False if w: "w \<in> set (events db1)" "past w" and e: "e \<in> set (events db1)" "exact_twin label w e" for w e
  proof -
    from w have nd: "w \<in> set (events db) \<and> \<not> dup w"
      by (auto simp: db1_def withdraw_rows_def set_sql_update dest: pastD simp: de_live_def)
    from e(1) obtain e0 where e0: "e0 \<in> set (events db)" "e = (if dup e0 then e0\<lparr>de_withdrawn_at := Some now\<rparr> else e0)"
      by (auto simp: db1_def withdraw_rows_def set_sql_update)
    have "exact_twin label w e0" using e(2) e0(2) by (auto simp: exact_twin_def split: if_splits)
    with e0(1) nd w(2) show False by (auto simp: dup_def sql_exists_iff)
  qed
  have keys: "distinct (map (de_key \<circ> ?F) (events db1))"
  proof (rule distinct_map_transfer [of de_key])
    show "distinct (map de_key (events db1))" using ok1 by (simp add: delivery_ok_def)
    fix x y assume xy: "x \<in> set (events db1)" "y \<in> set (events db1)" "(de_key \<circ> ?F) x = (de_key \<circ> ?F) y"
    show "de_key x = de_key y"
    proof (cases "past x = past y")
      case True
      with xy(3) show ?thesis by (auto simp: de_key_def dest!: pastD split: if_splits)
    next
      case False
      then show ?thesis
        using xy(3) no_twin [OF xy(1) _ xy(2)] no_twin [OF xy(2) _ xy(1)] pastD [of x] pastD [of y]
        by (auto simp: de_key_def exact_twin_def split: if_splits)
    qed
  qed
  have live: "filter de_live (map ?F (events db1)) = map ?F (filter de_live (events db1))"
    by (induction "events db1") (auto simp: filter_map comp_def de_live_def)
  have slots: "distinct (map (de_slot \<circ> ?F) (filter de_live (events db1)))"
  proof (rule distinct_map_transfer [of de_slot])
    show "distinct (map de_slot (filter de_live (events db1)))" using ok1 by (simp add: delivery_ok_def)
    fix x y assume xy: "x \<in> set (filter de_live (events db1))" "y \<in> set (filter de_live (events db1))"
      "(de_slot \<circ> ?F) x = (de_slot \<circ> ?F) y"
    then have m: "x \<in> set (events db1)" "y \<in> set (events db1)" "de_withdrawn_at x = None" "de_withdrawn_at y = None"
      by (auto simp: de_live_def)
    show "de_slot x = de_slot y"
    proof (cases "past x = past y")
      case True
      with xy(3) show ?thesis by (auto simp: de_slot_def dest!: pastD split: if_splits)
    next
      case False
      then show ?thesis
        using xy(3) m no_twin [OF m(1) _ m(2)] no_twin [OF m(2) _ m(1)] pastD [of x] pastD [of y]
        by (auto simp: de_slot_def exact_twin_def split: if_splits)
    qed
  qed
  have "readdress past label db1 = Inr (db1\<lparr>events := sql_update past ?ren (events db1)\<rparr>)"
    using keys slots by (simp add: readdress_def rows live)
  moreover from readdress_ok [OF ok1 this] have "delivery_ok (db1\<lparr>events := sql_update past ?ren (events db1)\<rparr>)" .
  ultimately show ?thesis
    by (simp add: sp adopt_stream_def Let_def flip: past_def) (simp add: dup_def db1_def)
qed

section \<open>The snapshot text determines the rows\<close>

lemma show_nat_value: "digits_value (show_nat n) 0 = Some (int n)"
proof (induction n rule: show_nat.induct)
  case (1 n)
  show ?case
  proof (cases "n < 10")
    case True
    then show ?thesis
      using pad_digit_code [of n] ascii_digit_pad [of n] by (simp add: show_nat.simps)
  next
    case False
    have "int n = 10 * int (n div 10) + int (n mod 10)" by presburger
    with 1 False show ?thesis
      using pad_digit_code [of n] ascii_digit_pad [of n]
      by (simp add: show_nat.simps [of n] digits_value_snoc)
  qed
qed

lemma show_nat_inj: "show_nat m = show_nat n \<longleftrightarrow> m = n"
proof
  assume eq: "show_nat m = show_nat n"
  have "Some (int m) = Some (int n)"
    unfolding show_nat_value [symmetric] eq ..
  then show "m = n" by simp
qed simp

lemma show_nat_digits: "c \<in> set (show_nat n) \<Longrightarrow> ascii_digit c"
proof (induction n rule: show_nat.induct)
  case (1 n)
  show ?case
  proof (cases "n < 10")
    case True
    with 1(2) ascii_digit_pad [of n] show ?thesis by (simp add: show_nat.simps [of n])
  next
    case False
    with 1(2) have "c \<in> set (show_nat (n div 10)) \<or> c = char_of (48 + n mod 10)"
      by (subst (asm) show_nat.simps) auto
    with 1(1) [OF False] ascii_digit_pad [of n] show ?thesis by blast
  qed
qed

lemma show_nat_nonempty [simp]: "show_nat n \<noteq> []"
  by (subst show_nat.simps) auto

lemma not_digit [simp]: "\<not> ascii_digit (CHR '':'')" "\<not> ascii_digit (CHR ''|'')"
  by (simp_all add: ascii_digit_def)

lemma snapshot_field_bar: "CHR ''|'' \<notin> set (snapshot_field r)"
  by (auto simp: snapshot_field_def dest: show_nat_digits)

lemma snapshot_field_nonempty [simp]: "snapshot_field r \<noteq> []"
  by (simp add: snapshot_field_def)

definition row_mark :: "nat \<times> delivery_event \<Rightarrow> nat \<times> bool" where
  "row_mark r = (fst r, de_projected_at (snd r) \<noteq> None)"

lemma append_sep_eq:
  assumes "xs @ c # ys = xs' @ c # ys'" "c \<notin> set xs" "c \<notin> set xs'"
  shows "xs = xs' \<and> ys = ys'"
  using assms
proof (induction xs arbitrary: xs')
  case Nil
  then show ?case by (cases xs') auto
next
  case (Cons x xs)
  then show ?case by (cases xs') auto
qed

lemma snapshot_field_inj: "snapshot_field r = snapshot_field s \<Longrightarrow> row_mark r = row_mark s"
proof -
  assume eq: "snapshot_field r = snapshot_field s"
  have c: "CHR '':'' \<notin> set (show_nat n)" for n using show_nat_digits not_digit(1) by blast
  have "show_nat (fst r) @ CHR '':'' # (if de_projected_at (snd r) \<noteq> None then ''1'' else ''0'')
      = show_nat (fst s) @ CHR '':'' # (if de_projected_at (snd s) \<noteq> None then ''1'' else ''0'')"
    using eq unfolding snapshot_field_def by (simp only: append_Cons append_Nil)
  from append_sep_eq [OF this c c]
  show ?thesis by (auto simp: row_mark_def show_nat_inj split: if_splits)
qed

lemma join_bar_Cons: "fs \<noteq> [] \<Longrightarrow> join_bar (f # fs) = f @ CHR ''|'' # join_bar fs"
  by (cases fs) auto

lemma join_bar_inj:
  assumes "join_bar fs = join_bar gs"
    and "\<forall>f \<in> set fs. f \<noteq> [] \<and> CHR ''|'' \<notin> set f" "\<forall>g \<in> set gs. g \<noteq> [] \<and> CHR ''|'' \<notin> set g"
  shows "fs = gs"
  using assms
proof (induction fs arbitrary: gs)
  case Nil
  then show ?case by (cases gs rule: join_bar.cases) auto
next
  case (Cons f fs)
  have "gs \<noteq> []"
    using Cons.prems(1,2) by (cases fs) auto
  then obtain g gs' where gs: "gs = g # gs'" by (cases gs) auto
  show ?case
  proof (cases "fs = []"; cases "gs' = []")
    assume a: "fs \<noteq> []" "gs' \<noteq> []"
    with Cons.prems gs have "f @ CHR ''|'' # join_bar fs = g @ CHR ''|'' # join_bar gs'"
      by (simp add: join_bar_Cons)
    from append_sep_eq [OF this] Cons.prems gs have "f = g" "join_bar fs = join_bar gs'" by auto
    with Cons gs show ?thesis by auto
  next
    assume a: "fs = []" "gs' \<noteq> []"
    with Cons.prems gs have "f = g @ CHR ''|'' # join_bar gs'" by (simp add: join_bar_Cons)
    with Cons.prems show ?thesis by auto
  next
    assume a: "fs \<noteq> []" "gs' = []"
    with Cons.prems gs have "g = f @ CHR ''|'' # join_bar fs" by (simp add: join_bar_Cons)
    with Cons.prems gs show ?thesis by auto
  next
    assume a: "fs = []" "gs' = []"
    with Cons.prems gs show ?thesis by simp
  qed
qed

lemma map_field_inj: "map snapshot_field xs = map snapshot_field ys \<Longrightarrow> map row_mark xs = map row_mark ys"
proof (induction xs arbitrary: ys)
  case (Cons x xs)
  then obtain y ys' where ys: "ys = y # ys'" "snapshot_field x = snapshot_field y"
      "map snapshot_field xs = map snapshot_field ys'"
    by (cases ys) simp_all
  from snapshot_field_inj [OF ys(2)] Cons.IH [OF ys(3)] show ?case by (simp add: ys(1))
qed simp

lemma material_inj:
  assumes "stream_material p l s q w db = stream_material p' l' s' q' w' db'"
  shows "map row_mark (snapshot_rows p l s q w db) = map row_mark (snapshot_rows p' l' s' q' w' db')"
  by (rule map_field_inj, rule join_bar_inj [OF assms [unfolded stream_material_def]])
    (auto simp: snapshot_field_bar)

section \<open>Fetching from updated tables\<close>

lemma fetch_update:
  "(\<And>r. p r \<Longrightarrow> q (f r) = q r) \<Longrightarrow>
     sql_fetchone q (sql_update p f rs) = map_option (\<lambda>r. if p r then f r else r) (sql_fetchone q rs)"
  by (induction rs) (auto simp: sql_fetchone_def sql_update_def)

lemma fetch_append:
  "sql_fetchone q (rs @ [r]) = (case sql_fetchone q rs of Some x \<Rightarrow> Some x | None \<Rightarrow> if q r then Some r else None)"
  by (induction rs) (auto simp: sql_fetchone_def)

lemma exists_fetch: "sql_exists q rs \<longleftrightarrow> sql_fetchone q rs \<noteq> None"
  by (auto simp: sql_exists_iff sql_fetchone_None_iff)

lemma position_of_upsert:
  "position_of p l s (upsert_position p l now s' pos db) = (if s = s' then pos else position_of p l s db)"
proof (cases "sql_exists (\<lambda>c. sc_root c = p \<and> sc_label c = l \<and> sc_stream c = s') (stream_cursors db)")
  case True
  then show ?thesis
    by (auto simp: position_of_def upsert_position_def Let_def fetch_update exists_fetch split: option.splits)
      (auto dest: sql_fetchone_SomeD)
next
  case False
  then show ?thesis
    by (auto simp: position_of_def upsert_position_def Let_def fetch_append exists_fetch split: option.splits)
qed

lemma bump_rewind_frame [simp]:
  "stream_cursors (bump_rewind p l s db) = stream_cursors db" "events (bump_rewind p l s db) = events db"
  "cursors (bump_rewind p l s db) = cursors db" "leases (bump_rewind p l s db) = leases db"
  "attempts (bump_rewind p l s db) = attempts db" "transitions (bump_rewind p l s db) = transitions db"
  "outbox (bump_rewind p l s db) = outbox db" "coverage (bump_rewind p l s db) = coverage db" "attention (bump_rewind p l s db) = attention db"
  by (simp_all add: bump_rewind_def Let_def)

lemma upsert_frame [simp]:
  "events (upsert_position p l now s pos db) = events db" "cursors (upsert_position p l now s pos db) = cursors db"
  "rewinds (upsert_position p l now s pos db) = rewinds db" "leases (upsert_position p l now s pos db) = leases db"
  "attempts (upsert_position p l now s pos db) = attempts db" "transitions (upsert_position p l now s pos db) = transitions db"
  "outbox (upsert_position p l now s pos db) = outbox db" "coverage (upsert_position p l now s pos db) = coverage db" "attention (upsert_position p l now s pos db) = attention db"
  by (simp_all add: upsert_position_def Let_def)

lemma position_of_bump [simp]: "position_of p l s (bump_rewind p' l' s' db) = position_of p l s db"
  by (simp add: position_of_def)

lemma write_position_frame [simp]:
  "events (write_position p l now cur sp db) = events db" "cursors (write_position p l now cur sp db) = cursors db"
  "leases (write_position p l now cur sp db) = leases db" "attempts (write_position p l now cur sp db) = attempts db"
  "transitions (write_position p l now cur sp db) = transitions db" "outbox (write_position p l now cur sp db) = outbox db"
  "coverage (write_position p l now cur sp db) = coverage db" "attention (write_position p l now cur sp db) = attention db"
  by (simp_all add: write_position_def)

lemma write_positions_frame [simp]:
  "events (fold (write_position p l now cur) sps db) = events db"
  "cursors (fold (write_position p l now cur) sps db) = cursors db"
  "leases (fold (write_position p l now cur) sps db) = leases db"
  "attempts (fold (write_position p l now cur) sps db) = attempts db"
  "transitions (fold (write_position p l now cur) sps db) = transitions db"
  "outbox (fold (write_position p l now cur) sps db) = outbox db"
  "coverage (fold (write_position p l now cur) sps db) = coverage db" "attention (fold (write_position p l now cur) sps db) = attention db"
  by (simp_all add: fold_frame)

lemma position_after_writes:
  assumes "distinct (map fst sps)"
  shows "position_of p l s (fold (write_position p l now cur) sps db) =
    (case map_of sps s of None \<Rightarrow> position_of p l s db | Some pos \<Rightarrow> pos)"
  using assms
proof (induction sps arbitrary: db)
  case (Cons sp sps)
  obtain a b where sp: "sp = (a, b)" by (cases sp)
  have one: "position_of p l x (write_position p l now cur (a, b) db) = (if x = a then b else position_of p l x db)" for x
    by (simp add: write_position_def position_of_upsert)
  have "map_of sps a = None"
    using Cons.prems by (simp add: map_of_eq_None_iff sp)
  with Cons show ?case
    by (auto simp: one sp split: option.splits)
qed simp

lemma sc_append: "distinct (map k rs) \<Longrightarrow> \<not> sql_exists q rs \<Longrightarrow> (\<And>r. k r = k x \<Longrightarrow> q r) \<Longrightarrow> distinct (map k (rs @ [x]))"
  by (auto simp: sql_exists_iff)

lemma write_position_ok: "delivery_ok db \<Longrightarrow> delivery_ok (write_position p l now cur sp db)"
proof -
  have b: "delivery_ok (bump_rewind p l s d)" if "delivery_ok d" for s d
  proof (cases "sql_exists (\<lambda>r. rw_root r = p \<and> rw_label r = l \<and> rw_stream r = s) (rewinds d)")
    case True
    have "map rw_key (sql_update (\<lambda>r. rw_root r = p \<and> rw_label r = l \<and> rw_stream r = s)
        (\<lambda>r. r\<lparr>rw_version := Suc (rw_version r)\<rparr>) (rewinds d)) = map rw_key (rewinds d)"
      by (rule map_sql_update_same) (simp add: rw_key_def)
    with True that show ?thesis by (simp add: bump_rewind_def delivery_ok_def)
  next
    case False
    with that show ?thesis
      by (simp add: bump_rewind_def delivery_ok_def) (auto simp: sql_exists_iff rw_key_def)
  qed
  have u: "delivery_ok (upsert_position p l now s pos d)" if "delivery_ok d" for s pos d
  proof (cases "sql_exists (\<lambda>r. sc_root r = p \<and> sc_label r = l \<and> sc_stream r = s) (stream_cursors d)")
    case True
    have "map sc_key (sql_update (\<lambda>r. sc_root r = p \<and> sc_label r = l \<and> sc_stream r = s)
        (\<lambda>r. r\<lparr>sc_position := pos, sc_updated_at := now\<rparr>) (stream_cursors d)) = map sc_key (stream_cursors d)"
      by (rule map_sql_update_same) (simp add: sc_key_def)
    with True that show ?thesis by (simp add: upsert_position_def delivery_ok_def)
  next
    case False
    with that show ?thesis
      by (simp add: upsert_position_def delivery_ok_def) (auto simp: sql_exists_iff sc_key_def)
  qed
  assume "delivery_ok db"
  then show ?thesis by (simp add: write_position_def b u)
qed

section \<open>What consuming does to the tables\<close>

text \<open>Every row after the step is a row from before with the same slot, no more live and no more visible.\<close>

definition narrows :: "string \<Rightarrow> string \<Rightarrow> journal \<Rightarrow> journal \<Rightarrow> bool" where
  "narrows project label db db' \<longleftrightarrow> (\<forall>e' \<in> set (events db'). \<exists>e \<in> set (events db).
     de_stream e' = de_stream e \<and> de_seq e' = de_seq e \<and> de_projected_at e' = de_projected_at e
     \<and> (de_withdrawn_at e' = None \<longrightarrow> de_withdrawn_at e = None)
     \<and> (addressed project label e' \<longrightarrow> addressed project label e))"

lemma narrows_refl: "narrows p l db db"
  by (auto simp: narrows_def)

lemma narrows_trans: "narrows p l a b \<Longrightarrow> narrows p l b c \<Longrightarrow> narrows p l a c"
  unfolding narrows_def by (metis (no_types, lifting))

lemma sql_updateE:
  assumes "x \<in> set (sql_update p f rs)"
  obtains y where "y \<in> set rs" "x = (if p y then f y else y)"
  using assms by (subst (asm) set_sql_update) (erule imageE, blast)

definition same_rest :: "journal \<Rightarrow> journal \<Rightarrow> bool" where
  "same_rest db db' \<longleftrightarrow> attempts db' = attempts db \<and> transitions db' = transitions db \<and> outbox db' = outbox db
     \<and> leases db' = leases db \<and> coverage db' = coverage db \<and> attention db' = attention db"

lemma adopt_stream_Inr:
  assumes "adopt_stream p label now cur sp (n, db) = Inr (n', db')"
  shows "same_rest db db'" "cursors db' = cursors db" "stream_cursors db' = stream_cursors db"
    "rewinds db' = rewinds db" "narrows p label db db'"
proof -
  obtain stream position where sp: "sp = (stream, position)" by (cases sp)
  define past where "past = passed_wildcard p stream (pos_get cur stream) position"
  define dup where "dup = (\<lambda>w. past w \<and> sql_exists (exact_twin label w) (events db))"
  have d: "db' = db\<lparr>events := sql_update past (\<lambda>e. e\<lparr>de_recipient := label\<rparr>)
      (sql_update dup (\<lambda>e. e\<lparr>de_withdrawn_at := Some now\<rparr>) (events db))\<rparr>"
    using assms
    by (auto simp: sp adopt_stream_def Let_def readdress_def violation_def withdraw_rows_def past_def dup_def
        split: if_splits)
  show "same_rest db db'" "cursors db' = cursors db" "stream_cursors db' = stream_cursors db" "rewinds db' = rewinds db"
    by (simp_all add: d same_rest_def)
  have star: "de_root e = p \<and> de_recipient e = ''*''" if "past e" for e
    using that by (simp add: past_def passed_wildcard_def)
  show "narrows p label db db'"
    unfolding narrows_def
  proof
    fix e' assume "e' \<in> set (events db')"
    then have "e' \<in> set (sql_update past (\<lambda>e. e\<lparr>de_recipient := label\<rparr>)
      (sql_update dup (\<lambda>e. e\<lparr>de_withdrawn_at := Some now\<rparr>) (events db)))" by (simp add: d)
    from sql_updateE [OF this] obtain e1 where
      e1: "e1 \<in> set (sql_update dup (\<lambda>e. e\<lparr>de_withdrawn_at := Some now\<rparr>) (events db))"
        "e' = (if past e1 then e1\<lparr>de_recipient := label\<rparr> else e1)" .
    from sql_updateE [OF e1(1)] obtain e where
      e: "e \<in> set (events db)" "e1 = (if dup e then e\<lparr>de_withdrawn_at := Some now\<rparr> else e)" .
    show "\<exists>e\<in>set (events db). de_stream e' = de_stream e \<and> de_seq e' = de_seq e \<and>
        de_projected_at e' = de_projected_at e \<and> (de_withdrawn_at e' = None \<longrightarrow> de_withdrawn_at e = None) \<and>
        (addressed p label e' \<longrightarrow> addressed p label e)"
      using e e1(2) star [of e1] by (intro bexI [OF _ e(1)]) (auto simp: addressed_def split: if_splits)
  qed
qed

lemma adopt_streams_ok:
  assumes "delivery_ok db" "label \<noteq> ''*''"
  shows "\<exists>n' db'. adopt_streams p label now cur sps (n, db) = Inr (n', db') \<and> delivery_ok db' \<and> same_rest db db'
     \<and> cursors db' = cursors db \<and> stream_cursors db' = stream_cursors db \<and> narrows p label db db'"
  using assms(1)
proof (induction sps arbitrary: n db)
  case Nil
  then show ?case by (auto simp: same_rest_def narrows_refl)
next
  case (Cons sp sps)
  from adopt_stream_succeeds [OF Cons.prems assms(2)] obtain n1 db1 where
    a: "adopt_stream p label now cur sp (n, db) = Inr (n1, db1)" "delivery_ok db1" by blast
  from Cons.IH [OF a(2), of n1] obtain n2 db2 where
    b: "adopt_streams p label now cur sps (n1, db1) = Inr (n2, db2)" "delivery_ok db2" "same_rest db1 db2"
      "cursors db2 = cursors db1" "stream_cursors db2 = stream_cursors db1" "narrows p label db1 db2" by blast
  from a b adopt_stream_Inr [OF a(1)] show ?case
    by (auto simp: same_rest_def intro: narrows_trans)
qed

lemma cursor_rowI:
  assumes "delivery_ok db" "c \<in> set (cursors db)" "cc_root c = p" "cc_label c = l"
  shows "cursor_row p l db = Some c"
  unfolding cursor_row_def
proof (rule sql_fetchone_unique)
  show "x = c" if "x \<in> set (cursors db)" "cc_root x = p \<and> cc_label x = l" for x
    by (rule keyed_eq [of cc_key "cursors db"])
      (use assms that in \<open>simp_all add: delivery_ok_def cc_key_def\<close>)
qed (use assms in simp_all)

lemma cursor_rowD: "cursor_row p l db = Some c \<Longrightarrow> c \<in> set (cursors db) \<and> cc_root c = p \<and> cc_label c = l"
  by (auto simp: cursor_row_def dest: sql_fetchone_SomeD)

lemma owner_mem:
  assumes "map cc_owner cs' = map cc_owner cs" "c \<in> set cs"
  obtains c' where "c' \<in> set cs'" "cc_owner c' = cc_owner c"
proof -
  have "cc_owner c \<in> set (map cc_owner cs')" using assms(2) by (simp add: assms(1))
  then show thesis using that by auto
qed

lemma pending_cong:
  "(\<And>s. position_of p l s db' = position_of p l s db) \<Longrightarrow> pending p l db' = pending p l db"
  by (simp add: pending_def outstanding_def fun_eq_iff)

text \<open>
  \<open>_write_cursor_positions\<close> on a well-formed journal: it succeeds, and every requested stream is at
  its requested position.
\<close>

lemma write_cursor_positions_ok:
  assumes ok: "delivery_ok db" and label: "label \<noteq> ''*''"
    and cur: "cursor_row p label db = Some c" "cc_generation c = generation"
    and actor: "strip actor \<noteq> []" and dist: "distinct (map fst advances)"
  shows "\<exists>v db'. write_cursor_positions p label generation version advances current actor now db = Inr (v, db')
     \<and> delivery_ok db' \<and> same_rest db db' \<and> narrows p label db db'
     \<and> (\<forall>s. position_of p label s db' = (case map_of advances s of None \<Rightarrow> position_of p label s db | Some q \<Rightarrow> q))
     \<and> (\<exists>c'. cursor_row p label db' = Some c' \<and> cc_advanced_by c' = Some actor
          \<and> cc_backlog c' = label_has_unread_delivery p label db')
     \<and> map cc_owner (cursors db') = map cc_owner (cursors db)"
proof -
  from adopt_streams_ok [OF ok label] obtain n db1 where
    a: "adopt_streams p label now current advances (0, db) = Inr (n, db1)" "delivery_ok db1" "same_rest db db1"
      "cursors db1 = cursors db" "stream_cursors db1 = stream_cursors db" "narrows p label db db1"
    by blast
  define db2 where "db2 = (if n \<noteq> 0 then invalidate_snapshots p ''*'' now (Some label) db1 else db1)"
  have d2: "delivery_ok db2" "same_rest db1 db2" "map cc_owner (cursors db2) = map cc_owner (cursors db1)"
    "stream_cursors db2 = stream_cursors db1" "events db2 = events db1"
    using a(2) by (simp_all add: db2_def same_rest_def)
  define db3 where "db3 = fold (write_position p label now current) advances db2"
  have d3: "delivery_ok db3" "cursors db3 = cursors db2" "events db3 = events db2" "same_rest db2 db3"
    using d2(1) by (simp_all add: db3_def fold_keeps write_position_ok same_rest_def)
  have pos2: "position_of p label s db2 = position_of p label s db" for s
    using d2(4) a(5) by (simp add: position_of_def)
  have pos3: "position_of p label s db3 = (case map_of advances s of None \<Rightarrow> position_of p label s db | Some q \<Rightarrow> q)" for s
    by (simp add: db3_def position_after_writes [OF dist] pos2 split: option.split)
  define hit where "hit = (\<lambda>c :: controller_cursor. cc_root c = p \<and> cc_label c = label \<and> cc_generation c = generation)"
  define f where "f = (\<lambda>c :: controller_cursor. c\<lparr>cc_version := Suc (cc_version c), cc_updated_at := now,
      cc_backlog := label_has_unread_delivery p label db3, cc_advanced_at := Some now, cc_advanced_by := Some actor\<rparr>)"
  define db4 where "db4 = db3\<lparr>cursors := sql_update hit f (cursors db3)\<rparr>"
  from cursor_rowD [OF cur(1)] have c: "c \<in> set (cursors db)" "cc_root c = p" "cc_label c = label" by auto
  have ow: "map cc_owner (cursors db3) = map cc_owner (cursors db)" using d2(3) d3(2) a(4) by simp
  from owner_mem [OF ow c(1)] obtain c3 where c3: "c3 \<in> set (cursors db3)" "cc_owner c3 = cc_owner c" .
  then have c3h: "hit c3" using c cur(2) by (simp add: hit_def cc_owner_def cc_key_def)
  have "sql_rowcount hit (cursors db3) \<le> 1"
    by (rule rowcount_le_1 [of cc_key _ hit "(p, label)"])
      (use d3(1) in \<open>simp_all add: delivery_ok_def hit_def cc_key_def\<close>)
  with sql_rowcount_pos [where p = hit, OF c3(1) c3h] have one: "sql_rowcount hit (cursors db3) = 1" by simp
  have k4: "map cc_owner (cursors db4) = map cc_owner (cursors db3)"
    unfolding db4_def by (simp, rule map_sql_update_same) (simp add: f_def cc_owner_def cc_key_def)
  have "map cc_key (cursors db4) = map cc_key (cursors db3)" by (simp only: cc_key_owner k4)
  then have d4: "delivery_ok db4" using d3(1) by (simp add: delivery_ok_def db4_def)
  have row4: "cursor_row p label db4 = Some (f c3)"
    by (rule cursor_rowI [OF d4]) (use c3 c3h in \<open>auto simp: db4_def set_sql_update hit_def f_def\<close>)
  have pos4: "position_of p label s db4 = position_of p label s db3" for s by (simp add: db4_def position_of_def)
  have unread: "label_has_unread_delivery p label db4 = label_has_unread_delivery p label db3"
    using pending_cong [OF pos4] by (simp add: label_has_unread_delivery_def db4_def)
  have run: "write_cursor_positions p label generation version advances current actor now db =
      Inr (\<lparr>cw_label = label, cw_generation = generation, cw_previous = version,
                       cw_version = Suc version, cw_advances = advances\<rparr>, db4)"
    unfolding write_cursor_positions_def a(1) sum.case prod.case Let_def db2_def [symmetric] db3_def [symmetric]
      hit_def [symmetric] f_def [symmetric] db4_def [symmetric]
    using one row4 actor by (simp add: f_def)
  have "same_rest db db4" using a(3) d2(2) d3(4) by (simp add: same_rest_def db4_def)
  moreover have "narrows p label db db4" using a(6) by (simp add: narrows_def db4_def d3(3) d2(5))
  ultimately show ?thesis
    using run d4 row4 unread pos3 pos4 k4 ow by (simp add: f_def)
qed

section \<open>Positions of a set of rows\<close>

lemma max_positions_props:
  "distinct (map fst (max_positions rows))
   \<and> (\<forall>e \<in> set rows. \<exists>q. map_of (max_positions rows) (de_stream e) = Some q \<and> de_seq e \<le> q)"
proof -
  have "distinct (map fst ps) \<Longrightarrow>
    distinct (map fst (fold (\<lambda>e ps. AList.update (de_stream e) (max (pos_get ps (de_stream e)) (de_seq e)) ps) rows ps))
    \<and> (\<forall>s q. map_of ps s = Some q \<longrightarrow> (\<exists>q'. map_of (fold (\<lambda>e ps. AList.update (de_stream e) (max (pos_get ps (de_stream e)) (de_seq e)) ps) rows ps) s = Some q' \<and> q \<le> q'))
    \<and> (\<forall>e \<in> set rows. \<exists>q. map_of (fold (\<lambda>e ps. AList.update (de_stream e) (max (pos_get ps (de_stream e)) (de_seq e)) ps) rows ps) (de_stream e) = Some q \<and> de_seq e \<le> q)" for ps
  proof (induction rows arbitrary: ps)
    case (Cons r rows)
    let ?ps = "AList.update (de_stream r) (max (pos_get ps (de_stream r)) (de_seq r)) ps"
    let ?R = "fold (\<lambda>e ps. AList.update (de_stream e) (max (pos_get ps (de_stream e)) (de_seq e)) ps) rows ?ps"
    have d: "distinct (map fst ?ps)" using Cons.prems by (rule distinct_update)
    note IH = Cons.IH [OF d]
    have r: "map_of ?ps (de_stream r) = Some (max (pos_get ps (de_stream r)) (de_seq r))" by (simp add: update_conv')
    with IH obtain q where q: "map_of ?R (de_stream r) = Some q" "max (pos_get ps (de_stream r)) (de_seq r) \<le> q"
      by blast
    have "\<exists>q'. map_of ?R s = Some q' \<and> q0 \<le> q'" if s: "map_of ps s = Some q0" for s q0
    proof (cases "s = de_stream r")
      case True
      with s q show ?thesis by (auto simp: pos_get_def)
    next
      case False
      with s have "map_of ?ps s = Some q0" by (simp add: update_conv')
      with IH show ?thesis by blast
    qed
    with IH q show ?case by auto
  qed simp
  note base = this [of "[]"]
  have "distinct (map fst ([] :: positions))" by simp
  from base [OF this] show ?thesis unfolding max_positions_def by blast
qed

lemma max_positions_attained:
  "map_of (max_positions rows) s = Some q \<Longrightarrow> \<exists>e \<in> set rows. de_stream e = s \<and> de_seq e = q"
proof -
  let ?f = "\<lambda>e ps. AList.update (de_stream e) (max (pos_get ps (de_stream e)) (de_seq e)) ps"
  have "\<forall>s q. map_of ps s = Some q \<longrightarrow> (\<exists>e \<in> R. de_stream e = s \<and> de_seq e = q) \<Longrightarrow> set rows \<subseteq> R \<Longrightarrow>
    \<forall>s q. map_of (fold ?f rows ps) s = Some q \<longrightarrow> (\<exists>e \<in> R. de_stream e = s \<and> de_seq e = q)" for ps R
  proof (induction rows arbitrary: ps)
    case (Cons r rows)
    have "\<forall>s q. map_of (?f r ps) s = Some q \<longrightarrow> (\<exists>e \<in> R. de_stream e = s \<and> de_seq e = q)"
      using Cons.prems by (auto simp: update_conv' pos_get_def max_def split: option.splits if_splits)
    with Cons show ?case by simp
  qed simp
  from this [of "[]" "set rows"] show "map_of (max_positions rows) s = Some q \<Longrightarrow> ?thesis"
    by (auto simp: max_positions_def)
qed

lemma map_of_sort: "distinct (map fst xs) \<Longrightarrow> map_of (sort_key f xs) k = map_of xs k"
proof -
  assume d: "distinct (map fst xs)"
  have "distinct (map fst (sort_key f xs))"
    using d by (simp add: distinct_map)
  with d have "map_of (sort_key f xs) k = Some v \<longleftrightarrow> map_of xs k = Some v" for v
    by (simp add: map_of_eq_Some_iff)
  then show ?thesis by (metis option.exhaust)
qed

lemma drain_targets_props:
  "distinct (map fst (drain_targets p l db))"
  "e \<in> set (events db) \<Longrightarrow> pending p l db e \<Longrightarrow> \<exists>q. map_of (drain_targets p l db) (de_stream e) = Some q \<and> de_seq e \<le> q"
  "map_of (drain_targets p l db) s = Some q \<Longrightarrow> \<exists>e \<in> set (events db). pending p l db e \<and> de_stream e = s \<and> de_seq e = q"
proof -
  note m = max_positions_props [of "filter (pending p l db) (events db)"]
  show "distinct (map fst (drain_targets p l db))"
    using m by (simp add: drain_targets_def distinct_map)
  have eq: "map_of (drain_targets p l db) x = map_of (max_positions (filter (pending p l db) (events db))) x" for x
    unfolding drain_targets_def using m by (intro map_of_sort) blast
  show "e \<in> set (events db) \<Longrightarrow> pending p l db e \<Longrightarrow>
      \<exists>q. map_of (drain_targets p l db) (de_stream e) = Some q \<and> de_seq e \<le> q"
  proof -
    assume "e \<in> set (events db)" "pending p l db e"
    then have "e \<in> set (filter (pending p l db) (events db))" by simp
    with m show ?thesis unfolding eq by blast
  qed
  show "map_of (drain_targets p l db) s = Some q \<Longrightarrow>
      \<exists>e \<in> set (events db). pending p l db e \<and> de_stream e = s \<and> de_seq e = q"
    unfolding eq by (drule max_positions_attained) auto
qed

lemma ensure_cursor_ok:
  assumes "delivery_ok db"
  shows "delivery_ok (ensure_cursor p l now db)" "\<exists>c. cursor_row p l (ensure_cursor p l now db) = Some c"
    "events (ensure_cursor p l now db) = events db" "stream_cursors (ensure_cursor p l now db) = stream_cursors db"
    "same_rest db (ensure_cursor p l now db)"
proof -
  show "delivery_ok (ensure_cursor p l now db)"
    using assms by (auto simp: ensure_cursor_def delivery_ok_def sql_exists_iff cc_key_def new_cursor_def)
  show "\<exists>c. cursor_row p l (ensure_cursor p l now db) = Some c"
    by (auto simp: ensure_cursor_def cursor_row_def exists_fetch fetch_append new_cursor_def split: option.split)
qed (simp_all add: ensure_cursor_def same_rest_def)

lemma identity_not_star: "identity_token l \<Longrightarrow> l \<noteq> ''*''"
  using star_not_identity_token by metis

end
