(* ===== verification/GF_Delivery_Props.thy ===== *)
theory GF_Delivery_Props
  imports GF_Delivery_Lemmas
begin

text \<open>
  The properties of event delivery: draining, advancing against a peeked snapshot, idempotent
  recording, visibility after projection and the retirement of a recipient.
\<close>

text \<open>
  C30. Draining leaves nothing behind: for a well-formed journal \<open>set_cursor\<close> without positions
  always succeeds, and afterwards the label has no readable event past its cursor, on any stream,
  addressed to it or to everyone, and its backlog flag says so.
\<close>

theorem set_cursor_drains:
  assumes "delivery_ok db" "identity_token label" "strip actor \<noteq> []"
  shows "\<exists>v db'. set_cursor_action project label None actor now db = Inr (v, db') \<and> delivery_ok db'
     \<and> \<not> label_has_unread_delivery project label db'
     \<and> (\<exists>c. cursor_row project label db' = Some c \<and> \<not> cc_backlog c)"
proof -
  let ?db1 = "ensure_cursor project label now db"
  note e = ensure_cursor_ok [OF assms(1), of project label now]
  from e(2) obtain c where c: "cursor_row project label ?db1 = Some c" by blast
  from write_cursor_positions_ok [OF e(1) identity_not_star [OF assms(2)] c refl assms(3) drain_targets_props(1)]
  obtain v db' where w:
    "write_cursor_positions project label (cc_generation c) (cc_version c) (drain_targets project label ?db1)
       (current_positions project label ?db1) actor now ?db1 = Inr (v, db')"
    "delivery_ok db'" "narrows project label ?db1 db'"
    "\<forall>s. position_of project label s db' = (case map_of (drain_targets project label ?db1) s of
        None \<Rightarrow> position_of project label s ?db1 | Some q \<Rightarrow> q)"
    "\<exists>c'. cursor_row project label db' = Some c' \<and> cc_backlog c' = label_has_unread_delivery project label db'"
    by blast
  have none: "\<not> label_has_unread_delivery project label db'"
    unfolding label_has_unread_delivery_def sql_exists_iff
  proof
    assume "\<exists>r\<in>set (events db'). pending project label db' r"
    then obtain e' where e': "e' \<in> set (events db')" "pending project label db' e'" by blast
    with w(3) obtain e0 where e0: "e0 \<in> set (events ?db1)" "de_stream e' = de_stream e0" "de_seq e' = de_seq e0"
        "de_projected_at e' = de_projected_at e0" "de_withdrawn_at e' = None \<longrightarrow> de_withdrawn_at e0 = None"
        "addressed project label e' \<longrightarrow> addressed project label e0"
      unfolding narrows_def by blast
    show False
    proof (cases "pending project label ?db1 e0")
      case True
      from drain_targets_props(2) [OF e0(1) True] w(4) e'(2) e0(2,3) show False
        by (auto simp: pending_def outstanding_def)
    next
      case False
      with e'(2) e0 have "de_seq e0 \<le> position_of project label (de_stream e0) ?db1"
        by (auto simp: pending_def outstanding_def)
      moreover have "position_of project label (de_stream e0) ?db1 \<le> position_of project label (de_stream e0) db'"
        using w(4) drain_targets_props(3) [of project label ?db1 "de_stream e0"]
        by (auto simp: pending_def outstanding_def split: option.split)
      ultimately show False using e'(2) e0(2,3) by (simp add: pending_def outstanding_def)
    qed
  qed
  with w e show ?thesis by (auto simp: set_cursor_action_def c)
qed

section \<open>Advancing\<close>

lemma token_char_not_space: "ascii_letter c \<or> ascii_digit c \<Longrightarrow> \<not> py_space c"
  by (auto simp: ascii_letter_def ascii_digit_def py_space_def Let_def less_eq_char_def)

lemma token_strip: "identity_token s \<Longrightarrow> strip s \<noteq> []"
proof (cases s)
  case (Cons c cs)
  assume "identity_token s"
  then have c: "\<not> py_space c" using token_char_not_space by (simp add: Cons)
  then have "dropWhile py_space (rev s) \<noteq> []" by (auto simp: Cons dropWhile_eq_Nil_conv)
  moreover have "lstrip s = s" using c by (simp add: Cons lstrip_def)
  ultimately show ?thesis by (simp add: strip_def rstrip_def)
qed simp

lemma advance_authority_Inr:
  assumes "advance_authority project a now db = Inr (g, v, db1)" "delivery_ok db"
  shows "delivery_ok db1" "events db1 = events db" "stream_cursors db1 = stream_cursors db" "same_rest db db1"
    "\<exists>c. cursor_row project (av_label a) db1 = Some c \<and> cc_generation c = g"
    "cc_owner ` set (cursors db) \<subseteq> cc_owner ` set (cursors db1)"
proof -
  let ?l = "av_label a"
  have "(db1 = db \<and> (\<exists>c. cursor_row project ?l db = Some c \<and> cc_generation c = g))
      \<or> (cursor_row project ?l db = None \<and> db1 = db\<lparr>cursors := cursors db @ [new_cursor project ?l g now]\<rparr>)"
    using assms(1) by (auto simp: advance_authority_def Let_def split: if_splits option.splits)
  moreover have "delivery_ok (db\<lparr>cursors := cursors db @ [new_cursor project ?l g now]\<rparr>)"
    if "cursor_row project ?l db = None"
    using that assms(2)
    by (auto simp: delivery_ok_def cursor_row_def sql_fetchone_None_iff cc_key_def new_cursor_def)
  ultimately show "delivery_ok db1" "events db1 = events db" "stream_cursors db1 = stream_cursors db" "same_rest db db1"
    "\<exists>c. cursor_row project ?l db1 = Some c \<and> cc_generation c = g"
    "cc_owner ` set (cursors db) \<subseteq> cc_owner ` set (cursors db1)"
    using assms(2) by (auto simp: same_rest_def cursor_row_def fetch_append new_cursor_def split: option.splits)
qed

lemma check_advance_Inr:
  assumes "check_advance sha project label snaps db (s, q) = Inr cur" "1 \<le> q"
  shows "position_of project label s db < q"
    "map_of snaps s = Some (sha (stream_material project label s q False db))"
    "\<forall>r \<in> set (snapshot_rows project label s q False db). de_projected_at (snd r) \<noteq> None"
proof -
  show "position_of project label s db < q"
    using assms
    by (auto simp: check_advance_def Let_def exists_fetch position_of_def split: if_splits option.splits)
  show "map_of snaps s = Some (sha (stream_material project label s q False db))"
    "\<forall>r \<in> set (snapshot_rows project label s q False db). de_projected_at (snd r) \<noteq> None"
    using assms
    by (auto simp: check_advance_def Let_def stream_snapshot_def list_ex_iff split: if_splits prod.splits)
qed

lemma check_advances_Inr:
  "check_advances sha project label snaps db sps cur = Inr cur' \<Longrightarrow> sp \<in> set sps \<Longrightarrow>
     \<exists>c. check_advance sha project label snaps db sp = Inr c"
  by (induction sps arbitrary: cur) (auto split: sum.splits)

lemma advance_checksD:
  assumes "advance_checks a = Inr ()"
  shows "identity_token (av_label a)" "identity_token (av_actor a)" "(s, q) \<in> set (av_advances a) \<Longrightarrow> 1 \<le> q"
  using assms
  by (auto simp: advance_checks_def need_identity_token_def demand_def split: if_splits)

lemma advance_Inr:
  assumes "delivery_ok db" "advance_checks a = Inr ()" "distinct (map fst (av_advances a))"
    and "advance_cursor_action sha project a now db = Inr (v, db')"
  obtains g w db1 cur where "advance_authority project a now db = Inr (g, w, db1)"
    "\<And>s q. (s, q) \<in> set (av_advances a) \<Longrightarrow>
        \<exists>c. check_advance sha project (av_label a) (av_snapshots a) db1 (s, nat q) = Inr c"
    "delivery_ok db'" "same_rest db db'" "narrows project (av_label a) db db'"
    "cc_owner ` set (cursors db) \<subseteq> cc_owner ` set (cursors db')"
    "\<And>s. position_of project (av_label a) s db' =
      (case map_of (av_advances a) s of None \<Rightarrow> position_of project (av_label a) s db | Some q \<Rightarrow> nat q)"
proof -
  let ?l = "av_label a"
  let ?adv = "map (\<lambda>(s, p). (s, nat p)) (av_advances a)"
  from assms(4) obtain g w db1 cur where
    au: "advance_authority project a now db = Inr (g, w, db1)" and
    ck: "check_advances sha project ?l (av_snapshots a) db1 ?adv [] = Inr cur" and
    wr: "write_cursor_positions project ?l g w ?adv cur (av_actor a) now db1 = Inr (v, db')"
    by (auto simp: advance_cursor_action_def Let_def split: sum.splits if_splits prod.splits)
  note A = advance_authority_Inr [OF au assms(1)]
  from A(5) obtain c where c: "cursor_row project ?l db1 = Some c" "cc_generation c = g" by blast
  have "map fst ?adv = map fst (av_advances a)" by (simp add: case_prod_beta comp_def)
  then have d: "distinct (map fst ?adv)" using assms(3) by (simp only:)
  note tok = advance_checksD(1,2) [OF assms(2)]
  from write_cursor_positions_ok [OF A(1) identity_not_star [OF tok(1)] c token_strip [OF tok(2)] d, of w cur now] wr
  have W: "delivery_ok db'" "same_rest db1 db'" "narrows project ?l db1 db'"
    "map cc_owner (cursors db') = map cc_owner (cursors db1)"
    "\<And>s. position_of project ?l s db' = (case map_of ?adv s of None \<Rightarrow> position_of project ?l s db1 | Some q \<Rightarrow> q)"
    by auto
  have m: "map_of ?adv s = map_option nat (map_of (av_advances a) s)" for s
    by (induction "av_advances a") (simp_all add: map_of_map)
  show thesis
  proof (rule that [OF au _ W(1)])
    show "\<exists>c. check_advance sha project ?l (av_snapshots a) db1 (s, nat q) = Inr c" if "(s, q) \<in> set (av_advances a)" for s q
      by (rule check_advances_Inr [OF ck]) (use that in force)
    show "same_rest db db'" using A(4) W(2) by (simp add: same_rest_def)
    have "cc_owner ` set (cursors db') = cc_owner ` set (cursors db1)" using W(4) by (metis list.set_map)
    with A(6) show "cc_owner ` set (cursors db) \<subseteq> cc_owner ` set (cursors db')" by simp
    show "narrows project ?l db db'" using W(3) by (simp add: narrows_def A(2))
    show "position_of project ?l s db' =
      (case map_of (av_advances a) s of None \<Rightarrow> position_of project ?l s db | Some q \<Rightarrow> nat q)" for s
    proof -
      have same: "position_of project ?l s db1 = position_of project ?l s db" by (simp add: A(3) position_of_def)
      show ?thesis by (simp add: W(5) m same split: option.split)
    qed
  qed
qed

text \<open>
  A committed advance moves every requested stream strictly forward, to exactly the requested
  position, and no other stream.
\<close>

lemma advance_moves_forward:
  assumes "delivery_ok db" "advance_checks a = Inr ()" "distinct (map fst (av_advances a))"
    and "advance_cursor_action sha project a now db = Inr (v, db')"
  shows "delivery_ok db'
     \<and> (\<forall>(s, q) \<in> set (av_advances a). position_of project (av_label a) s db < nat q
          \<and> position_of project (av_label a) s db' = nat q)
     \<and> (\<forall>s. s \<notin> fst ` set (av_advances a) \<longrightarrow>
          position_of project (av_label a) s db' = position_of project (av_label a) s db)"
  using assms
proof (rule advance_Inr)
  fix g w db1 cur
  assume au: "advance_authority project a now db = Inr (g, w, db1)"
    and ck: "\<And>s q. (s, q) \<in> set (av_advances a) \<Longrightarrow>
        \<exists>c. check_advance sha project (av_label a) (av_snapshots a) db1 (s, nat q) = Inr c"
    and ok: "delivery_ok db'"
    and pos: "\<And>s. position_of project (av_label a) s db' =
      (case map_of (av_advances a) s of None \<Rightarrow> position_of project (av_label a) s db | Some q \<Rightarrow> nat q)"
  have same: "position_of project (av_label a) s db1 = position_of project (av_label a) s db" for s
    using advance_authority_Inr(3) [OF au assms(1)] by (simp add: position_of_def)
  have "position_of project (av_label a) s db < nat q \<and> position_of project (av_label a) s db' = nat q"
    if m: "(s, q) \<in> set (av_advances a)" for s q
  proof -
    from ck [OF m] obtain c where "check_advance sha project (av_label a) (av_snapshots a) db1 (s, nat q) = Inr c" ..
    from check_advance_Inr(1) [OF this] advance_checksD(3) [OF assms(2) m]
    have "position_of project (av_label a) s db < nat q" by (simp add: same)
    moreover have "map_of (av_advances a) s = Some q" using assms(3) m by (rule map_of_is_SomeI)
    ultimately show ?thesis by (simp add: pos)
  qed
  moreover have "map_of (av_advances a) s = None" if "s \<notin> fst ` set (av_advances a)" for s
    using that by (simp add: map_of_eq_None_iff)
  ultimately show ?thesis using ok pos by auto
qed


section \<open>A sample mailbox\<close>

definition sample_mail :: delivery_event where
  "sample_mail = \<lparr>de_root = ''/p'', de_recipient = ''*'', de_origin = ''o'',
     de_uuid = ''44444444-4444-4444-8444-444444444444'', de_stream = ''s'', de_seq = 1, de_carrier = ''c'',
     de_type = ''done'', de_waking = True, de_created_at = ''t0'', de_projected_at = Some ''t0'',
     de_withdrawn_at = None\<rparr>"

definition sample_lease :: controller_lease where
  "sample_lease = \<lparr>ls_root = ''/p'', ls_label = ''c1'', ls_generation = 1, ls_nonce = ''n1'',
     ls_principal = [(''principal_id'', JStr ''me'')], ls_pid = None, ls_start_token = None, ls_state = ACTIVE,
     ls_claimed_at = ''t0'', ls_renewed_at = ''t0'', ls_deadline_at = ''t9'', ls_ended_at = None,
     ls_ended_reason = None\<rparr>"

definition sample_mailbox :: journal where
  "sample_mailbox = empty_journal\<lparr>leases := [sample_lease], cursors := [new_cursor ''/p'' ''c1'' 1 ''t0''],
     events := [sample_mail]\<rparr>"

definition sample_sha :: "string \<Rightarrow> string" where
  "sample_sha t = replicate 64 (if t = ''1:1'' then CHR ''0'' else CHR ''1'')"

definition sample_advance :: advance_args where
  "sample_advance = \<lparr>av_label = ''c1'', av_nonce = Some ''n1'', av_version = 0,
     av_snapshots = [(''s'', sample_sha ''1:1'')], av_advances = [(''s'', 1)], av_actor = ''me'',
     av_no_lease = False\<rparr>"

lemma sample_mailbox_ok: "delivery_ok sample_mailbox"
  by (simp add: delivery_ok_def sample_mailbox_def empty_journal_def sample_mail_def new_cursor_def)

lemma sample_advance_checks: "advance_checks sample_advance = Inr ()"
  by code_simp

lemma sample_advances: "isl (advance_cursor_action sample_sha ''/p'' sample_advance ''t1'' sample_mailbox) = False"
  by code_simp

lemma sample_tokens: "identity_token ''c1''" "strip ''me'' \<noteq> []"
  by code_simp+

theorem set_cursor_drains_witness:
  "\<exists>v db'. set_cursor_action ''/p'' ''c1'' None ''me'' ''t1'' sample_mailbox = Inr (v, db')
     \<and> \<not> label_has_unread_delivery ''/p'' ''c1'' db'"
  using set_cursor_drains [OF sample_mailbox_ok sample_tokens, of "''/p''" "''t1''"] by blast

lemma sample_advanced: obtains v db' where
  "advance_cursor_action sample_sha ''/p'' sample_advance ''t1'' sample_mailbox = Inr (v, db')"
proof (cases "advance_cursor_action sample_sha ''/p'' sample_advance ''t1'' sample_mailbox")
  case (Inl x)
  then have "isl (advance_cursor_action sample_sha ''/p'' sample_advance ''t1'' sample_mailbox)" by simp
  then show thesis by (simp add: sample_advances)
next
  case (Inr p)
  then show thesis using that by (cases p) simp
qed

lemma sample_advance_simps: "av_label sample_advance = ''c1''" "av_advances sample_advance = [(''s'', 1)]"
  "av_snapshots sample_advance = [(''s'', sample_sha ''1:1'')]"
  by (simp_all add: sample_advance_def)

lemma advance_moves_forward_witness:
  "\<exists>v db'. advance_cursor_action sample_sha ''/p'' sample_advance ''t1'' sample_mailbox = Inr (v, db')
     \<and> position_of ''/p'' ''c1'' ''s'' db' = 1"
proof (rule sample_advanced)
  fix v db'
  assume run: "advance_cursor_action sample_sha ''/p'' sample_advance ''t1'' sample_mailbox = Inr (v, db')"
  have "distinct (map fst (av_advances sample_advance))" by (simp add: sample_advance_simps)
  from advance_moves_forward [OF sample_mailbox_ok sample_advance_checks this run] run show ?thesis
    by (simp add: sample_advance_simps)
qed

lemma sample_peek: "cursor_peek_action sample_sha ''/p'' ''c1'' None False 10 True sample_mailbox =
  Inr \<lparr>pk_label = ''c1'', pk_generation = 1, pk_version = 0, pk_snapshots = [(''s'', sample_sha ''1:1'')],
       pk_items = [sample_mail]\<rparr>"
  by code_simp


section \<open>Recording\<close>

text \<open>No replacement key names the recorded event itself, under any recipient.\<close>

definition replaces_others :: "event_args \<Rightarrow> bool" where
  "replaces_others e \<longleftrightarrow> (\<forall>(r, o', u) \<in> set (ea_replaces e). (o', u) \<noteq> (ea_origin e, ea_uuid e))"

definition replaced_by :: "string \<Rightarrow> string \<times> string \<times> string \<Rightarrow> delivery_event \<Rightarrow> bool" where
  "replaced_by project key e = (case key of (r, o', u) \<Rightarrow>
     de_root e = project \<and> (r = ''*'' \<or> de_recipient e = r) \<and> de_origin e = o' \<and> de_uuid e = u)"

definition withdraw_row :: "string \<Rightarrow> delivery_event \<Rightarrow> delivery_event" where
  "withdraw_row now e = e\<lparr>de_withdrawn_at := Some (case de_withdrawn_at e of None \<Rightarrow> now | Some t \<Rightarrow> t)\<rparr>"

lemma withdraw_replaced_alt:
  "withdraw_replaced project now key db = db\<lparr>events := sql_update (replaced_by project key) (withdraw_row now) (events db)\<rparr>"
  by (cases key) (simp add: withdraw_replaced_def replaced_by_def [abs_def] withdraw_row_def [abs_def])

lemma withdraw_all_alt:
  "fold (withdraw_replaced project now) keys db =
     db\<lparr>events := sql_update (\<lambda>e. \<exists>k \<in> set keys. replaced_by project k e) (withdraw_row now) (events db)\<rparr>"
proof (induction keys arbitrary: db)
  case Nil
  then show ?case by (simp add: sql_update_def)
next
  case (Cons k ks)
  have r: "replaced_by project k' (withdraw_row now e) = replaced_by project k' e" for k' e
    by (cases k') (simp add: replaced_by_def withdraw_row_def)
  have w: "withdraw_row now (withdraw_row now e) = withdraw_row now e" for e
    by (simp add: withdraw_row_def)
  have comb: "sql_update (\<lambda>e. \<exists>k \<in> set ks. replaced_by project k e) (withdraw_row now)
      (sql_update (replaced_by project k) (withdraw_row now) rs)
    = sql_update (\<lambda>e. \<exists>k \<in> set (k # ks). replaced_by project k e) (withdraw_row now) rs" for rs
    by (simp add: sql_update_def r w)
  show ?case
    unfolding fold_simps Cons.IH unfolding withdraw_replaced_alt by (simp add: comb)
qed

lemma withdraw_all_again:
  assumes "\<And>e. e \<in> set (events db) \<Longrightarrow> \<exists>k \<in> set keys. replaced_by project k e \<Longrightarrow> de_withdrawn_at e \<noteq> None"
  shows "fold (withdraw_replaced project now) keys db = db"
proof -
  have "sql_update (\<lambda>e. \<exists>k \<in> set keys. replaced_by project k e) (withdraw_row now) (events db) = events db"
    unfolding sql_update_def by (rule map_idI) (auto simp: withdraw_row_def dest!: assms)
  then show ?thesis by (simp add: withdraw_all_alt)
qed

lemma set_dedupe [simp]: "set (dedupe xs) = set xs"
  by (simp add: dedupe_def)

lemma own_row_not_replaced:
  assumes "replaces_others e" "de_origin r = ea_origin e" "de_uuid r = ea_uuid e" "k \<in> set (ea_replaces e)"
  shows "\<not> replaced_by project k r"
  using assms by (cases k) (auto simp: replaces_others_def replaced_by_def)

lemma fetch_sql_update:
  assumes "\<And>r. p (f r) = p r" "\<And>r. p r \<Longrightarrow> \<not> q r"
  shows "sql_fetchone p (sql_update q f rs) = sql_fetchone p rs"
  using assms by (induction rs) (auto simp: sql_fetchone_def sql_update_def)

text \<open>
  Recording is idempotent. Repeating a recorded event, at any later time but with nothing else
  happening in between, answers with the same row and changes nothing at all: no second row, no
  cursor version, no later withdrawal stamp on the rows it replaces.
\<close>

lemma record_delivery_idempotent:
  assumes "replaces_others e" "record_delivery_action project e w now db = Inr (r, db')"
  shows "record_delivery_action project e w2 now2 db' = Inr (r, db') \<and> r \<in> set (events db') \<and> same_content e r"
proof -
  define rcp where "rcp = effective_recipient project e db"
  define own where "own = (\<lambda>r :: delivery_event. de_root r = project \<and> de_recipient r = rcp \<and> de_origin r = ea_origin e \<and> de_uuid r = ea_uuid e)"
  define db1 where "db1 = fold (withdraw_replaced project w) (dedupe (ea_replaces e)) db"
  define q where "q = (\<lambda>x. \<exists>k \<in> set (ea_replaces e). replaced_by project k x)"
  have ev1: "events db1 = sql_update q (withdraw_row w) (events db)" "leases db1 = leases db"
    by (simp_all add: db1_def withdraw_all_alt q_def)
  have notq: "\<not> q x" if "own x" for x
    using that own_row_not_replaced [OF assms(1)] by (auto simp: own_def q_def)
  have same: "sql_fetchone own (events db1) = sql_fetchone own (events db)"
    unfolding ev1
  proof (rule fetch_sql_update)
    show "own (withdraw_row w x) = own x" for x by (simp add: own_def withdraw_row_def)
  qed (rule notq)
  have done1: "de_withdrawn_at x \<noteq> None" if "x \<in> set (events db1)" "q x" for x
  proof -
    from that(1) obtain y where "y \<in> set (events db)" "x = (if q y then withdraw_row w y else y)"
      unfolding ev1 by (rule sql_updateE)
    moreover have "q (withdraw_row w y) = q y" for y
      unfolding q_def by (rule bex_cong [OF refl]) (auto simp: replaced_by_def withdraw_row_def)
    ultimately show ?thesis using that(2) by (auto simp: withdraw_row_def split: if_splits)
  qed
  have run: "(case sql_fetchone own (events db) of
      Some r \<Rightarrow> if \<not> same_content e r then Inl JournalIntegrityError else Inr (r, db1)
    | None \<Rightarrow> (case insert_event (new_event project rcp e) db1 of Inl x \<Rightarrow> Inl x
        | Inr db2 \<Rightarrow> Inr (new_event project rcp e, invalidate_snapshots project rcp now None db2))) = Inr (r, db')"
    using assms(2) unfolding record_delivery_action_def Let_def rcp_def [symmetric] own_def [symmetric] db1_def [symmetric]
    by simp
  have new: "own (new_event project rcp e)" "same_content e (new_event project rcp e)"
    by (simp_all add: own_def new_event_def same_content_def)
  have res: "sql_fetchone own (events db') = Some r \<and> same_content e r \<and> leases db' = leases db
      \<and> (\<forall>x \<in> set (events db'). q x \<longrightarrow> de_withdrawn_at x \<noteq> None)"
  proof (cases "sql_fetchone own (events db)")
    case (Some r0)
    with run have "r0 = r" "db' = db1" "same_content e r" by (auto split: if_splits)
    with Some same show ?thesis by (simp add: ev1(2)) (blast dest: done1)
  next
    case None
    with run obtain db2 where i: "insert_event (new_event project rcp e) db1 = Inr db2" "r = new_event project rcp e"
        "db' = invalidate_snapshots project rcp now None db2"
      by (auto split: sum.splits)
    then have "events db2 = events db1 @ [new_event project rcp e]" "leases db2 = leases db1"
      by (auto simp: insert_event_def violation_def split: if_splits)
    with i None same new notq [OF new(1)] show ?thesis by (auto simp: fetch_append ev1(2) dest: done1)
  qed
  have rcp': "effective_recipient project e db' = rcp"
    using res by (simp add: rcp_def effective_recipient_def has_active_lease_def)
  have "fold (withdraw_replaced project w2) (dedupe (ea_replaces e)) db' = db'"
    by (rule withdraw_all_again) (use res in \<open>simp add: q_def\<close>)
  then have "record_delivery_action project e w2 now2 db' = Inr (r, db')"
    using res unfolding record_delivery_action_def Let_def rcp' own_def [symmetric] by simp
  with res sql_fetchone_SomeD [of own "events db'" r] show ?thesis by blast
qed

definition sample_event :: event_args where
  "sample_event = \<lparr>ea_recipient = ''c1'', ea_origin = ''o'', ea_uuid = ''55555555-5555-4555-8555-555555555555'',
     ea_stream = ''s'', ea_seq = 2, ea_carrier = ''c'', ea_type = ''done'', ea_class = ''waking'',
     ea_created_at = ''2026-01-01T00:00:00+00:00'',
     ea_replaces = [(''*'', ''o'', ''44444444-4444-4444-8444-444444444444'')], ea_fallback = True\<rparr>"

lemma sample_record: "isl (record_delivery_action ''/p'' sample_event ''t1'' ''t1'' sample_mailbox) = False"
  by code_simp

lemma record_delivery_idempotent_witness:
  "\<exists>r db'. record_delivery_action ''/p'' sample_event ''t1'' ''t1'' sample_mailbox = Inr (r, db')
     \<and> record_delivery_action ''/p'' sample_event ''t2'' ''t2'' db' = Inr (r, db')"
proof (cases "record_delivery_action ''/p'' sample_event ''t1'' ''t1'' sample_mailbox")
  case (Inl x)
  with sample_record show ?thesis by simp
next
  case (Inr p)
  have "replaces_others sample_event" by code_simp
  from record_delivery_idempotent [OF this, of "''/p''" "''t1''" "''t1''" sample_mailbox "fst p" "snd p"] Inr
  show ?thesis by (intro exI [of _ "fst p"] exI [of _ "snd p"]) simp
qed

section \<open>What a projection makes visible\<close>

definition invalidated :: "string \<Rightarrow> string \<Rightarrow> journal \<Rightarrow> controller_cursor \<Rightarrow> controller_cursor" where
  "invalidated project now db c = c\<lparr>cc_version := Suc (cc_version c), cc_updated_at := now,
     cc_backlog := label_has_unread_delivery project (cc_label c) db\<rparr>"

lemma unread_cong:
  "events db' = events db \<Longrightarrow> stream_cursors db' = stream_cursors db \<Longrightarrow>
     label_has_unread_delivery p l db' = label_has_unread_delivery p l db"
proof -
  assume e: "events db' = events db" "stream_cursors db' = stream_cursors db"
  have "pending p l db' = pending p l db" by (rule pending_cong) (simp add: position_of_def e)
  then show ?thesis by (simp add: label_has_unread_delivery_def e)
qed

lemma invalidate_labels_alt:
  "distinct ls \<Longrightarrow> fold (invalidate_label project now) ls db =
     db\<lparr>cursors := sql_update (\<lambda>c. cc_root c = project \<and> cc_label c \<in> set ls) (invalidated project now db) (cursors db)\<rparr>"
proof (induction ls arbitrary: db)
  case Nil
  then show ?case by (simp add: sql_update_def)
next
  case (Cons l ls)
  let ?d = "invalidate_label project now l db"
  have u: "invalidated project now ?d = invalidated project now db"
    by (simp add: invalidated_def unread_cong [of ?d db] fun_eq_iff)
  have "l \<notin> set ls" using Cons.prems by simp
  then have c: "sql_update (\<lambda>c. cc_root c = project \<and> cc_label c \<in> set ls) (invalidated project now db) (cursors ?d)
      = sql_update (\<lambda>c. cc_root c = project \<and> cc_label c \<in> set (l # ls)) (invalidated project now db) (cursors db)"
    by (auto simp: invalidate_label_def sql_update_def invalidated_def)
  have "fold (invalidate_label project now) ls ?d = ?d\<lparr>cursors := sql_update (\<lambda>c. cc_root c = project \<and> cc_label c \<in> set ls) (invalidated project now ?d) (cursors ?d)\<rparr>"
    using Cons.prems by (intro Cons.IH) simp
  also have "\<dots> = db\<lparr>cursors := sql_update (\<lambda>c. cc_root c = project \<and> cc_label c \<in> set (l # ls)) (invalidated project now db) (cursors db)\<rparr>"
    by (simp only: u c) (simp add: invalidate_label_def)
  finally show ?case by simp
qed

lemma invalidation_labels_distinct:
  assumes "delivery_ok db"
  shows "distinct (invalidation_labels project recipient x db)"
proof -
  let ?cs = "filter (\<lambda>c. cc_root c = project \<and> x \<noteq> Some (cc_label c)) (cursors db)"
  have "distinct (map cc_key ?cs)"
    using assms by (simp add: delivery_ok_def distinct_map_filter)
  then have "distinct (map cc_label ?cs)"
    by (rule distinct_map_transfer) (simp add: cc_key_def)
  then show ?thesis by (simp add: invalidation_labels_def)
qed

lemma invalidation_labels_iff:
  assumes "c \<in> set (cursors db)" "cc_root c = project" "recipient = ''*'' \<or> cc_label c = recipient" "x \<noteq> Some (cc_label c)"
  shows "cc_label c \<in> set (invalidation_labels project recipient x db)"
  using assms by (auto simp: invalidation_labels_def sql_exists_iff)

lemma invalidate_reaches:
  assumes "delivery_ok db" "c \<in> set (cursors db)" "cc_root c = project"
    and "recipient = ''*'' \<or> cc_label c = recipient" "x \<noteq> Some (cc_label c)"
  shows "invalidated project now db c \<in> set (cursors (invalidate_snapshots project recipient now x db))"
  using assms(2,3) invalidation_labels_iff [OF assms(2-5)]
  by (auto simp: invalidate_snapshots_def invalidate_labels_alt [OF invalidation_labels_distinct [OF assms(1)]]
      set_sql_update)

lemma projection_rowD:
  "projection_row project recipient origin uuid db = Some e \<Longrightarrow>
     e \<in> set (events db) \<and> de_root e = project \<and> de_recipient e \<in> {recipient, ''*''} \<and> de_origin e = origin \<and> de_uuid e = uuid"
  by (auto simp: projection_row_def split: option.splits if_splits dest!: sql_fetchone_SomeD)

text \<open>
  Projection reaches every reader. When a projection is the one that makes a live event readable,
  each cursor the event is addressed to, by label or by the wildcard, and that stands before it gets a
  new version and a raised backlog flag, and the event is unread for its label.
\<close>

lemma projection_reaches_readers:
  assumes "delivery_ok db" "mark_projected_action project enqueue recipient origin uuid now now2 db = Inr (v, db')"
    and "pj_new v" "de_withdrawn_at (pj_row v) = None"
    and "c \<in> set (cursors db)" "cc_root c = project" "addressed project (cc_label c) (pj_row v)"
    and "position_of project (cc_label c) (de_stream (pj_row v)) db < de_seq (pj_row v)"
  shows "label_has_unread_delivery project (cc_label c) db'
     \<and> (\<exists>c' \<in> set (cursors db'). cc_key c' = cc_key c \<and> cc_version c' = Suc (cc_version c) \<and> cc_backlog c')"
proof -
  from assms(2) obtain row where row: "projection_row project recipient origin uuid db = Some row"
    by (auto simp: mark_projected_action_def split: option.splits)
  define target where "target = (if de_recipient row = recipient then recipient else ''*'')"
  define stamp where "stamp = (case de_projected_at row of None \<Rightarrow> now | Some t \<Rightarrow> if t = [] then now else t)"
  define hit where "hit = (\<lambda>e :: delivery_event. de_root e = project \<and> de_recipient e = target \<and> de_origin e = origin
                        \<and> de_uuid e = uuid \<and> de_projected_at e = None)"
  define db1 where "db1 = db\<lparr>events := sql_update hit (\<lambda>e. e\<lparr>de_projected_at := Some stamp\<rparr>) (events db)\<rparr>"
  have v: "v = \<lparr>pj_row = row\<lparr>de_projected_at := Some stamp\<rparr>,
        pj_cursors = active_cursors project target (if sql_rowcount hit (events db) = 1 then invalidate_snapshots project target stamp None db1 else db1),
        pj_new = (sql_rowcount hit (events db) = 1)\<rparr>"
    and d': "db' = (if sql_rowcount hit (events db) = 1 \<and> enqueue \<and> should_enqueue_delivery (row\<lparr>de_projected_at := Some stamp\<rparr>)
        then enqueue_wake now2 (row\<lparr>de_projected_at := Some stamp\<rparr>) (if sql_rowcount hit (events db) = 1 then invalidate_snapshots project target stamp None db1 else db1)
        else (if sql_rowcount hit (events db) = 1 then invalidate_snapshots project target stamp None db1 else db1))"
    using assms(2)
    unfolding mark_projected_action_def row option.case Let_def target_def [symmetric] stamp_def [symmetric] hit_def [symmetric] db1_def [symmetric]
    by simp_all
  have one: "sql_rowcount hit (events db) = 1" using assms(3) by (simp add: v)
  have cur: "cursors db' = cursors (invalidate_snapshots project target stamp None db1)"
    "events db' = events db1" "stream_cursors db' = stream_cursors db"
    by (simp_all add: d' one) (simp_all add: db1_def)
  note rowD = projection_rowD [OF row]
  have tgt: "de_recipient row = target" using rowD by (auto simp: target_def)
  have "hit row"
  proof (rule ccontr)
    assume "\<not> hit row"
    obtain y where y: "y \<in> set (events db)" "hit y"
      using one by (metis sql_rowcount_0_iff zero_neq_one)
    have "de_key y = de_key row" using y(2) rowD tgt by (simp add: hit_def de_key_def)
    moreover have "distinct (map de_key (events db))" using assms(1) by (simp add: delivery_ok_def)
    ultimately have "y = row" using y(1) rowD by (blast intro: keyed_eq)
    with y(2) \<open>\<not> hit row\<close> show False by simp
  qed
  then have mem: "row\<lparr>de_projected_at := Some stamp\<rparr> \<in> set (events db1)"
    using rowD by (auto simp: db1_def set_sql_update)
  have pos: "position_of project l s db' = position_of project l s db" for l s
    by (simp add: position_of_def cur(3))
  have "pending project (cc_label c) db' (pj_row v)"
    using assms(4,7,8) by (simp add: pending_def outstanding_def pos) (simp add: v)
  then have unread: "label_has_unread_delivery project (cc_label c) db'"
    using mem by (auto simp: label_has_unread_delivery_def sql_exists_iff cur(2) v)
  have ok1: "delivery_ok db1" unfolding db1_def by (rule project_ok [OF assms(1)])
  have lab: "target = ''*'' \<or> cc_label c = target"
    using assms(7) tgt by (auto simp: addressed_def v)
  have "invalidated project stamp db1 c \<in> set (cursors db')"
    unfolding cur(1) by (rule invalidate_reaches [OF ok1 _ assms(6) lab]) (use assms(5) in \<open>simp_all add: db1_def\<close>)
  moreover have "label_has_unread_delivery project (cc_label c) db1"
    using unread unread_cong [of db' db1] cur by (simp add: db1_def)
  ultimately show ?thesis
    using unread by (intro conjI bexI [of _ "invalidated project stamp db1 c"]) (simp_all add: invalidated_def cc_key_def)
qed

definition sample_unread :: journal where
  "sample_unread = sample_mailbox\<lparr>events := [sample_mail\<lparr>de_projected_at := None\<rparr>]\<rparr>"

lemma projection_reaches_readers_witness:
  "\<exists>v db'. mark_projected_action ''/p'' True ''c1'' ''o'' ''44444444-4444-4444-8444-444444444444'' ''t1'' ''t1'' sample_unread
      = Inr (v, db') \<and> label_has_unread_delivery ''/p'' ''c1'' db'"
proof -
  let ?m = "mark_projected_action ''/p'' True ''c1'' ''o'' ''44444444-4444-4444-8444-444444444444'' ''t1'' ''t1'' sample_unread"
  have ev: "(case ?m of Inl _ \<Rightarrow> False | Inr (v, db') \<Rightarrow> pj_new v \<and> de_withdrawn_at (pj_row v) = None
      \<and> addressed ''/p'' ''c1'' (pj_row v) \<and> position_of ''/p'' ''c1'' (de_stream (pj_row v)) sample_unread < de_seq (pj_row v))"
    by code_simp
  have ok: "delivery_ok sample_unread"
    using sample_mailbox_ok by (simp add: delivery_ok_def sample_unread_def sample_mailbox_def empty_journal_def)
  have c: "new_cursor ''/p'' ''c1'' 1 ''t0'' \<in> set (cursors sample_unread)" "cc_root (new_cursor ''/p'' ''c1'' 1 ''t0'') = ''/p''"
    "cc_label (new_cursor ''/p'' ''c1'' 1 ''t0'') = ''c1''"
    by (simp_all add: sample_unread_def sample_mailbox_def new_cursor_def)
  show ?thesis
  proof (cases ?m)
    case (Inl x)
    with ev show ?thesis by simp
  next
    case (Inr p)
    obtain v db' where p: "p = (v, db')" by (cases p)
    with Inr ev have "pj_new v" "de_withdrawn_at (pj_row v) = None" "addressed ''/p'' ''c1'' (pj_row v)"
      "position_of ''/p'' ''c1'' (de_stream (pj_row v)) sample_unread < de_seq (pj_row v)" by simp_all
    with projection_reaches_readers [OF ok Inr [unfolded p] _ _ c(1,2), unfolded c(3)] Inr p show ?thesis by simp
  qed
qed

section \<open>Acknowledging what was peeked\<close>

lemma pos_get_max: "map_of ps s = Some q \<Longrightarrow> pos_get ps s = q"
  by (simp add: pos_get_def)

lemma check_advances_succeed:
  "(\<And>sp. sp \<in> set sps \<Longrightarrow> \<exists>c. check_advance sha p l snaps db sp = Inr c) \<Longrightarrow>
     \<exists>cur'. check_advances sha p l snaps db sps cur = Inr cur'"
proof (induction sps arbitrary: cur)
  case (Cons sp sps)
  from Cons.prems [of sp] obtain c where "check_advance sha p l snaps db sp = Inr c" by auto
  with Cons show ?case by auto
qed simp

lemma pending_rowsD: "e \<in> set (pending_rows p l w ss n db) \<Longrightarrow> e \<in> set (events db) \<and> pending p l db e"
  by (auto simp: pending_rows_def dest!: in_set_takeD)

lemma map_of_map_pair: "map_of (map (\<lambda>(s, p). (s, f s p)) ps) k = map_option (f k) (map_of ps k)"
  by (induction ps) auto

text \<open>
  What was peeked can be acknowledged. A holder of the active lease that peeks everything (not only
  waking events) and finds no half-delivered event below can advance to the positions it was shown,
  with the snapshots it was given: the advance is not refused and afterwards none of the shown events
  is pending any more.
\<close>

lemma peek_then_advance:
  assumes ok: "delivery_ok db"
    and peek: "cursor_peek_action sha project (av_label a) (Some nonce) False limit whole db = Inr pk"
    and settled: "\<And>e. e \<in> set (events db) \<Longrightarrow> outstanding project (av_label a) db e \<Longrightarrow>
        de_stream e \<in> de_stream ` set (pk_items pk) \<Longrightarrow> de_projected_at e \<noteq> None"
    and args: "av_nonce a = Some nonce" "\<not> av_no_lease a" "av_version a = int (pk_version pk)"
      "av_snapshots a = pk_snapshots pk" "av_advances a = map (\<lambda>(s, p). (s, int p)) (max_positions (pk_items pk))"
      "strip (av_actor a) \<noteq> []" "av_label a \<noteq> ''*''"
  shows "\<exists>v db'. advance_cursor_action sha project a now db = Inr (v, db')
     \<and> (\<forall>e \<in> set (pk_items pk). \<not> pending project (av_label a) db' e)"
proof -
  let ?l = "av_label a"
  let ?ps = "max_positions (pk_items pk)"
  from peek obtain lease c where lease: "active_row project ?l db = Some lease" "ls_nonce lease = nonce"
      "cursor_row project ?l db = Some c" "cc_generation c = ls_generation lease"
    and pk: "pk_version pk = cc_version c"
      "pk_snapshots pk = map (\<lambda>(s, p). (s, fst (stream_snapshot sha project ?l s p False db))) ?ps"
    by (auto simp: cursor_peek_action_def Let_def split: option.splits if_splits)
  have items: "e \<in> set (events db) \<and> pending project ?l db e" if "e \<in> set (pk_items pk)" for e
    using that peek
    by (auto simp: cursor_peek_action_def Let_def split: option.splits if_splits dest!: pending_rowsD)
  have auth: "advance_authority project a now db = Inr (ls_generation lease, cc_version c, db)"
    using lease args by (simp add: advance_authority_def)
  have adv: "map (\<lambda>(s, p). (s, nat p)) (av_advances a) = ?ps"
    unfolding args by (simp add: comp_def case_prod_beta)
  note mp = max_positions_props [of "pk_items pk"]
  have ck: "\<exists>cur. check_advance sha project ?l (av_snapshots a) db (s, q) = Inr cur" if m: "(s, q) \<in> set ?ps" for s q
  proof -
    have q: "map_of ?ps s = Some q" using m mp by (simp add: map_of_is_SomeI)
    from max_positions_attained [OF q] obtain e where e: "e \<in> set (pk_items pk)" "de_stream e = s" "de_seq e = q" by blast
    with items have e': "e \<in> set (events db)" "pending project ?l db e" by auto
    then have "position_of project ?l s db < q" using e by (auto simp: pending_def outstanding_def)
    moreover have "sql_exists (\<lambda>e. addressed project ?l e \<and> de_stream e = s \<and> de_seq e = q
                  \<and> de_projected_at e \<noteq> None \<and> de_withdrawn_at e = None) (events db)"
      using e e' by (auto simp: sql_exists_iff pending_def outstanding_def)
    moreover have "\<not> snd (stream_snapshot sha project ?l s q False db)"
      using settled e(1,2) by (auto simp: stream_snapshot_def list_ex_iff snapshot_rows_def with_rowid_def dest!: set_zip_rightD)
    moreover have "map_of (av_snapshots a) s = Some (fst (stream_snapshot sha project ?l s q False db))"
      by (simp add: args pk map_of_map_pair q)
    ultimately show ?thesis
      by (cases "stream_snapshot sha project ?l s q False db") (simp add: check_advance_def Let_def)
  qed
  have "\<exists>cur. check_advances sha project ?l (av_snapshots a) db ?ps [] = Inr cur"
    by (rule check_advances_succeed) (use ck in fast)
  then obtain cur where cur: "check_advances sha project ?l (av_snapshots a) db ?ps [] = Inr cur" ..
  from write_cursor_positions_ok [OF ok args(7) lease(3,4) args(6), of ?ps "cc_version c" cur now] mp
  obtain v db' where w: "write_cursor_positions project ?l (ls_generation lease) (cc_version c) ?ps cur (av_actor a) now db = Inr (v, db')"
    "\<forall>s. position_of project ?l s db' = (case map_of ?ps s of None \<Rightarrow> position_of project ?l s db | Some q \<Rightarrow> q)"
    by auto
  have "advance_cursor_action sha project a now db = Inr (v, db')"
    unfolding advance_cursor_action_def auth sum.case prod.case adv Let_def cur
    using w(1) pk args by simp
  moreover have "\<not> pending project ?l db' e" if "e \<in> set (pk_items pk)" for e
    using mp w(2) that by (force simp: pending_def outstanding_def)
  ultimately show ?thesis by blast
qed

lemma peek_then_advance_witness:
  "\<exists>v db'. advance_cursor_action sample_sha ''/p'' sample_advance ''t1'' sample_mailbox = Inr (v, db')
     \<and> \<not> pending ''/p'' ''c1'' db' sample_mail"
proof -
  let ?pk = "\<lparr>pk_label = ''c1'', pk_generation = 1, pk_version = 0, pk_snapshots = [(''s'', sample_sha ''1:1'')],
       pk_items = [sample_mail]\<rparr>"
  have l: "av_label sample_advance = ''c1''" by (simp add: sample_advance_def)
  have pk: "cursor_peek_action sample_sha ''/p'' (av_label sample_advance) (Some ''n1'') False 10 True sample_mailbox = Inr ?pk"
    unfolding l by code_simp
  have pr: "de_projected_at e \<noteq> None" if "e \<in> set (events sample_mailbox)" for e
    using that by (simp add: sample_mailbox_def sample_mail_def)
  have mp: "map (\<lambda>(s, p). (s, int p)) (max_positions [sample_mail]) = [(''s'', 1)]" by code_simp
  have "av_nonce sample_advance = Some ''n1''" "\<not> av_no_lease sample_advance"
    "av_version sample_advance = int (pk_version ?pk)" "av_snapshots sample_advance = pk_snapshots ?pk"
    "av_advances sample_advance = map (\<lambda>(s, p). (s, int p)) (max_positions (pk_items ?pk))"
    "strip (av_actor sample_advance) \<noteq> []" "av_label sample_advance \<noteq> ''*''"
    using sample_tokens(2) by (simp_all add: mp) (simp_all add: sample_advance_def)
  from peek_then_advance [OF sample_mailbox_ok pk pr this, of "''t1''"] show ?thesis by (simp add: l)
qed

section \<open>Retiring a recipient\<close>

text \<open>
  No withdrawn wildcard row has the identity of mail that is about to be moved. The code looks for a
  live twin only, so this is what the move relies on.
\<close>

definition no_stale_twin :: "string \<Rightarrow> string \<Rightarrow> journal \<Rightarrow> bool" where
  "no_stale_twin project label db \<longleftrightarrow> (\<forall>e \<in> set (events db). \<forall>w \<in> set (events db).
     rehome_candidate project label db e \<and> de_root w = project \<and> de_recipient w = ''*''
       \<and> de_origin w = de_origin e \<and> de_uuid w = de_uuid e \<longrightarrow> de_withdrawn_at w = None)"

lemma rehome_result:
  fixes now :: string
  assumes ok: "delivery_ok db" and label: "label \<noteq> ''*''" and stale: "no_stale_twin project label db"
  defines "dup \<equiv> \<lambda>e. rehome_candidate project label db e \<and> sql_exists (wildcard_twin e) (events db)"
  defines "rest \<equiv> \<lambda>e. rehome_candidate project label db e \<and> \<not> sql_exists (wildcard_twin e) (events db)"
  defines "move \<equiv> \<lambda>e. if dup e then e\<lparr>de_withdrawn_at := Some now\<rparr> else if rest e then e\<lparr>de_recipient := ''*''\<rparr> else e"
  shows "\<exists>n. rehome_retired project label now db = Inr (n, db\<lparr>events := map move (events db)\<rparr>)"
    and "delivery_ok (db\<lparr>events := map move (events db)\<rparr>)"
proof -
  define db1 where "db1 = withdraw_rows dup now db"
  have ok1: "delivery_ok db1" unfolding db1_def by (rule withdraw_rows_ok [OF ok])
  have ev1: "events db1 = map (\<lambda>e. if dup e then e\<lparr>de_withdrawn_at := Some now\<rparr> else e) (events db)"
    by (simp add: db1_def withdraw_rows_def sql_update_def)
  have cand1: "rehome_candidate project label db1 e = rehome_candidate project label db e" for e
    by (simp add: rehome_candidate_def db1_def withdraw_rows_def position_of_def)
  let ?ren = "\<lambda>e. e\<lparr>de_recipient := ''*''\<rparr>" and ?c = "rehome_candidate project label db1"
  let ?F = "\<lambda>e. if ?c e then ?ren e else e"
  have rows: "sql_update ?c ?ren (events db1) = map ?F (events db1)" by (simp add: sql_update_def)
  have move: "map ?F (events db1) = map move (events db)"
    unfolding ev1 map_map
    by (rule map_cong [OF refl])
      (auto simp: move_def dup_def rest_def cand1, simp_all add: rehome_candidate_def)
  \<comment> \<open>a row still to be moved has no wildcard row with its identity, and no live one in its slot\<close>
  have no_twin: False if x: "x \<in> set (events db1)" "?c x" and y: "y \<in> set (events db1)" "\<not> ?c y"
      "de_root y = project" "de_recipient y = ''*''"
      "(de_origin y = de_origin x \<and> de_uuid y = de_uuid x) \<or> (de_live y \<and> de_stream y = de_stream x \<and> de_seq y = de_seq x)" for x y
  proof -
    from x obtain x0 where x0: "x0 \<in> set (events db)" "x = (if dup x0 then x0\<lparr>de_withdrawn_at := Some now\<rparr> else x0)"
      by (auto simp: ev1)
    have c: "rehome_candidate project label db x" using x(2) by (simp only: cand1)
    then have "de_withdrawn_at x = None" by (simp add: rehome_candidate_def)
    with x0(2) c have x': "x = x0" "\<not> dup x" "rehome_candidate project label db x"
      by (auto split: if_splits)
    from y(1) obtain y0 where y0: "y0 \<in> set (events db)" "y = (if dup y0 then y0\<lparr>de_withdrawn_at := Some now\<rparr> else y0)"
      by (auto simp: ev1)
    have "de_recipient y0 = ''*''" using y(4) y0(2) by (simp split: if_splits)
    then have "\<not> dup y0" using label by (simp add: dup_def rehome_candidate_def)
    with y0 have y': "y \<in> set (events db)" by simp
    have "de_withdrawn_at y = None"
      using y(3-5) stale x0(1) x'(1,3) y' by (auto simp: no_stale_twin_def de_live_def)
    with y(3-5) y' x'(3) have "sql_exists (wildcard_twin x) (events db)"
      by (auto simp: sql_exists_iff wildcard_twin_def rehome_candidate_def)
    with x' show False by (simp add: dup_def)
  qed
  have cD: "de_root x = project \<and> de_recipient x = label \<and> de_live x" if "?c x" for x
    using that by (simp add: rehome_candidate_def de_live_def)
  have keys: "distinct (map (de_key \<circ> ?F) (events db1))"
  proof (rule distinct_map_transfer [of de_key])
    show "distinct (map de_key (events db1))" using ok1 by (simp add: delivery_ok_def)
    fix x y assume xy: "x \<in> set (events db1)" "y \<in> set (events db1)" "(de_key \<circ> ?F) x = (de_key \<circ> ?F) y"
    show "de_key x = de_key y"
    proof (cases "?c x = ?c y")
      case True
      with xy(3) cD [of x] cD [of y] show ?thesis by (auto simp: de_key_def split: if_splits)
    next
      case False
      have k: "de_key (?F x) = de_key (?F y)" using xy(3) by simp
      consider "?c x" "\<not> ?c y" | "?c y" "\<not> ?c x" using False by blast
      then show ?thesis
      proof cases
        case 1
        with k no_twin [OF xy(1) 1(1) xy(2) 1(2)] cD [OF 1(1)] show ?thesis by (simp add: de_key_def)
      next
        case 2
        with k no_twin [OF xy(2) 2(1) xy(1) 2(2)] cD [OF 2(1)] show ?thesis by (simp add: de_key_def)
      qed
    qed
  qed
  have live: "filter de_live (map ?F (events db1)) = map ?F (filter de_live (events db1))"
    by (induction "events db1") (auto simp: filter_map comp_def de_live_def)
  have slots: "distinct (map (de_slot \<circ> ?F) (filter de_live (events db1)))"
  proof (rule distinct_map_transfer [of de_slot])
    show "distinct (map de_slot (filter de_live (events db1)))" using ok1 by (simp add: delivery_ok_def)
    fix x y assume xy: "x \<in> set (filter de_live (events db1))" "y \<in> set (filter de_live (events db1))"
      "(de_slot \<circ> ?F) x = (de_slot \<circ> ?F) y"
    then have m: "x \<in> set (events db1)" "y \<in> set (events db1)" "de_live x" "de_live y" by auto
    show "de_slot x = de_slot y"
    proof (cases "?c x = ?c y")
      case True
      with xy(3) cD [of x] cD [of y] show ?thesis by (auto simp: de_slot_def split: if_splits)
    next
      case False
      have k: "de_slot (?F x) = de_slot (?F y)" using xy(3) by simp
      consider "?c x" "\<not> ?c y" | "?c y" "\<not> ?c x" using False by blast
      then show ?thesis
      proof cases
        case 1
        with k m(4) no_twin [OF m(1) 1(1) m(2) 1(2)] cD [OF 1(1)] show ?thesis by (simp add: de_slot_def)
      next
        case 2
        with k m(3) no_twin [OF m(2) 2(1) m(1) 2(2)] cD [OF 2(1)] show ?thesis by (simp add: de_slot_def)
      qed
    qed
  qed
  have r: "readdress ?c ''*'' db1 = Inr (db1\<lparr>events := map move (events db)\<rparr>)"
    using keys slots by (simp add: readdress_def rows live flip: move)
  from readdress_ok [OF ok1 this] show "delivery_ok (db\<lparr>events := map move (events db)\<rparr>)"
    by (simp add: db1_def withdraw_rows_def)
  from r show "\<exists>n. rehome_retired project label now db = Inr (n, db\<lparr>events := map move (events db)\<rparr>)"
    unfolding rehome_retired_def Let_def dup_def [symmetric] db1_def [symmetric]
    by simp (simp add: db1_def withdraw_rows_def)
qed

text \<open>
  Retiring a recipient loses no mail. When no withdrawn wildcard row blocks the move, every live
  event of the label that is unread or not yet readable is afterwards available to everyone: a live
  wildcard row carries its identity or its slot. Nothing live and unread is left under the label.
\<close>

lemma rehome_keeps_mail:
  assumes "delivery_ok db" "label \<noteq> ''*''" "no_stale_twin project label db"
  shows "\<exists>n db'. rehome_retired project label now db = Inr (n, db') \<and> delivery_ok db'
     \<and> (\<forall>e \<in> set (events db'). \<not> rehome_candidate project label db' e)
     \<and> (\<forall>e \<in> set (events db). rehome_candidate project label db e \<longrightarrow>
          (\<exists>w \<in> set (events db'). wildcard_twin e w))"
proof -
  define dup where "dup = (\<lambda>e. rehome_candidate project label db e \<and> sql_exists (wildcard_twin e) (events db))"
  define move where "move = (\<lambda>e. if dup e then e\<lparr>de_withdrawn_at := Some now\<rparr>
     else if rehome_candidate project label db e \<and> \<not> sql_exists (wildcard_twin e) (events db) then e\<lparr>de_recipient := ''*''\<rparr> else e)"
  let ?db' = "db\<lparr>events := map move (events db)\<rparr>"
  have R: "\<exists>n. rehome_retired project label now db = Inr (n, ?db')" "delivery_ok ?db'"
    unfolding move_def dup_def by (rule rehome_result [OF assms])+
  have c: "rehome_candidate project label ?db' e = rehome_candidate project label db e" for e
    by (simp add: rehome_candidate_def position_of_def)
  have none: "\<not> rehome_candidate project label db (move e)" for e
    using assms(2) by (auto simp: move_def dup_def) (auto simp: rehome_candidate_def)
  have star: "move w = w" if "de_recipient w = ''*''" for w
    using that assms(2) by (auto simp: move_def dup_def rehome_candidate_def)
  have keep: "\<exists>w \<in> set (events ?db'). wildcard_twin e w"
    if e: "e \<in> set (events db)" "rehome_candidate project label db e" for e
  proof (cases "sql_exists (wildcard_twin e) (events db)")
    case True
    then obtain w where w: "w \<in> set (events db)" "wildcard_twin e w" by (auto simp: sql_exists_iff)
    then have "move w = w" by (intro star) (simp add: wildcard_twin_def)
    with w show ?thesis by force
  next
    case False
    then have "move e = e\<lparr>de_recipient := ''*''\<rparr>" using e by (simp add: move_def dup_def)
    moreover have "wildcard_twin e (e\<lparr>de_recipient := ''*''\<rparr>)"
      using e(2) by (simp add: wildcard_twin_def rehome_candidate_def)
    moreover have "move e \<in> set (events ?db')" using e(1) by simp
    ultimately show ?thesis by metis
  qed
  from R(1) obtain n where "rehome_retired project label now db = Inr (n, ?db')" ..
  with R(2) none keep show ?thesis by (auto simp: c)
qed

definition sample_exact :: delivery_event where
  "sample_exact = sample_mail\<lparr>de_recipient := ''c1'', de_uuid := ''66666666-6666-4666-8666-666666666666'', de_seq := 2\<rparr>"

definition sample_addressed :: journal where
  "sample_addressed = sample_mailbox\<lparr>events := [sample_mail, sample_exact]\<rparr>"

lemma sample_addressed_ok: "delivery_ok sample_addressed" "no_stale_twin ''/p'' ''c1'' sample_addressed"
  by (simp_all add: delivery_ok_def no_stale_twin_def sample_addressed_def sample_mailbox_def sample_exact_def
      sample_mail_def empty_journal_def de_key_def de_slot_def)

lemma rehome_keeps_mail_witness:
  "\<exists>n db'. rehome_retired ''/p'' ''c1'' ''t1'' sample_addressed = Inr (n, db')
     \<and> (\<exists>w \<in> set (events db'). wildcard_twin sample_exact w)"
proof -
  have m: "sample_exact \<in> set (events sample_addressed)" "rehome_candidate ''/p'' ''c1'' sample_addressed sample_exact"
    by (simp add: sample_addressed_def) code_simp
  have "(''c1'' :: string) \<noteq> ''*''" by simp
  from rehome_keeps_mail [OF sample_addressed_ok(1) this sample_addressed_ok(2), of "''t1''"] m show ?thesis by blast
qed

end
