(* ===== verification/GF_Attempt_History.thy ===== *)
theory GF_Attempt_History
  imports GF_Attempts
begin

text \<open>
  Histories of the attempt tables: the step relation of the attempt operations, the decision
  contract (a recorded verdict stays what it is), a sample history for the witnesses, and the
  properties of the attempt lifecycle.
\<close>

section \<open>Histories\<close>

inductive attempt_step :: "bool \<Rightarrow> journal \<Rightarrow> journal \<Rightarrow> bool" for supersede where
  prepare: "prepare_attempt_action project digest p na nt now dd db = Inr (v, db') \<Longrightarrow>
     attempt_step supersede db db'"
| rebind: "rebind_attempt_action dispatch expected account engine db = Inr (v, db') \<Longrightarrow>
     attempt_step supersede db db'"
| start: "start_attempt_action attempt token epoch now deadline db = Inr (v, db') \<Longrightarrow>
     attempt_step supersede db db'"
| run: "mark_running_action attempt token epoch worker now db = Inr (v, db') \<Longrightarrow>
     attempt_step supersede db db'"
| commit: "commit_terminal_action t tid eid host now db = Inr (c, db') \<Longrightarrow>
     canonical_uuid tid \<Longrightarrow> canonical_uuid eid \<Longrightarrow> (ta_supersede t \<longrightarrow> supersede) \<Longrightarrow>
     attempt_step supersede db db'"
| other: "attempts db' = attempts db \<Longrightarrow> transitions db' = transitions db \<Longrightarrow>
     map event_core (outbox db') = map event_core (outbox db) \<Longrightarrow> attempt_step supersede db db'"

lemma canonical_uuid_nonempty: "canonical_uuid s \<Longrightarrow> s \<noteq> []"
  by (auto simp: canonical_uuid_def)

lemma core_keys:
  "ob_key b = (fst (event_core b), fst (snd (event_core b)))"
  "ob_event b = fst (snd (snd (snd (event_core b))))"
  "ob_event_key b = (fst (snd (snd (event_core b))), fst (snd (snd (snd (event_core b)))),
      fst (snd (snd (snd (snd (event_core b))))))"
  "ob_recipient b = fst (snd (snd (snd (snd (event_core b)))))"
  "ob_type b = fst (snd (snd (snd (snd (snd (event_core b))))))"
  by (simp_all add: event_core_def ob_key_def ob_event_key_def)

lemma map_core:
  assumes "map event_core xs = map event_core ys"
  shows "map (g \<circ> event_core) xs = map (g \<circ> event_core) ys"
  using assms by (metis map_map)

lemma core_mem:
  assumes "map event_core xs = map event_core ys" "b \<in> set ys"
  obtains b' where "b' \<in> set xs" "event_core b' = event_core b"
proof -
  from assms(2) have "event_core b \<in> set (map event_core xs)" by (simp add: assms(1))
  then show thesis using that by auto
qed

lemma other_keeps:
  assumes ok: "attempts_ok db" and same: "attempts db' = attempts db" "transitions db' = transitions db"
    and core: "map event_core (outbox db') = map event_core (outbox db)"
  shows "attempts_ok db' \<and> attempts_le db db'"
proof -
  have k: "map ob_key (outbox db') = map ob_key (outbox db)"
    "map ob_event_key (outbox db') = map ob_event_key (outbox db)"
    using map_core [OF core, of "\<lambda>c. (fst c, fst (snd c))"]
      map_core [OF core, of "\<lambda>c. (fst (snd (snd c)), fst (snd (snd (snd c))), fst (snd (snd (snd (snd c)))))"]
    by (simp_all add: comp_def flip: core_keys(1,3))
  have rec: "recorded db' a" if "recorded db a" for a
  proof (cases "at_transition a")
    case (Some tid)
    with that obtain b where b: "b \<in> set (outbox db)" "ob_key b = (at_attempt a, tid)" "ob_event b \<noteq> []"
        "ob_recipient b = at_dispatch a"
      by (auto simp: recorded_def)
    from core_mem [OF core b(1)] obtain b' where "b' \<in> set (outbox db')" "event_core b' = event_core b" .
    with b have "\<exists>b \<in> set (outbox db'). ob_key b = (at_attempt a, tid) \<and> ob_event b \<noteq> [] \<and> ob_recipient b = at_dispatch a"
      by (metis core_keys(1,2,4))
    with that Some show ?thesis by (auto simp: recorded_def same)
  qed (simp add: recorded_def)
  have fk: "\<forall>b \<in> set (outbox db'). ob_key b \<in> tr_key ` set (transitions db)"
  proof
    fix b assume "b \<in> set (outbox db')"
    then have "ob_key b \<in> set (map ob_key (outbox db))" by (simp flip: k(1))
    with ok show "ob_key b \<in> tr_key ` set (transitions db)" by (auto simp: attempts_ok_def)
  qed
  have w: "winners db' = winners db" by (simp add: winners_def same fun_eq_iff)
  have "attempts_ok db'"
    using ok rec fk unfolding attempts_ok_def by (simp add: same k w)
  moreover have "event_core ` set (outbox db') = event_core ` set (outbox db)"
    using arg_cong [OF core, of set] by simp
  then have "attempts_le db db'" by (auto simp: attempts_le_def same)
  ultimately show ?thesis ..
qed

lemma attempt_step_keeps: "attempt_step s db db' \<Longrightarrow> attempts_ok db \<Longrightarrow> attempts_ok db' \<and> attempts_le db db'"
proof (induction rule: attempt_step.induct)
  case prepare then show ?case by (rule keepsD [OF prepare_keeps, rotated])
next
  case rebind then show ?case by (rule keepsD [OF rebind_keeps, rotated])
next
  case start then show ?case by (rule keepsD [OF start_keeps, rotated])
next
  case run then show ?case by (rule keepsD [OF mark_running_keeps, rotated])
next
  case (commit t tid eid host now db c db')
  show ?case
    by (rule keepsD [OF commit_keeps commit(5,1)]) (use commit(2,3) in \<open>auto dest: canonical_uuid_nonempty\<close>)
next
  case other then show ?case by (intro other_keeps)
qed

lemma attempts_ok_empty: "attempts_ok empty_journal"
  by (simp add: attempts_ok_def empty_journal_def List.map_filter_def)

lemma attempt_steps_keep:
  "(attempt_step s)\<^sup>*\<^sup>* db db' \<Longrightarrow> attempts_ok db \<Longrightarrow> attempts_ok db' \<and> attempts_le db db'"
  by (induction rule: rtranclp_induct)
    (auto intro: attempts_le_refl dest: attempt_step_keeps attempts_le_trans)

text \<open>A final row is never touched again, except by a superseding commit.\<close>

lemma final_row_kept_update:
  "a \<in> set rs \<Longrightarrow> \<not> p a \<Longrightarrow> a \<in> set (sql_update p f rs)"
  by (auto simp: set_sql_update)

lemma final_row_stays:
  assumes "attempt_step False db db'" "attempts_ok db" "a \<in> set (attempts db)" "at_state a \<in> ATTEMPT_FINAL_STATES"
  shows "a \<in> set (attempts db')"
  using assms
proof (induction rule: attempt_step.induct)
  case (prepare project digest p na nt now dd db v db')
  then show ?case
    by (auto simp: prepare_attempt_action_def Let_def insert_attempt_def violation_def life_defs
        split: option.splits if_splits sum.splits intro!: final_row_kept_update)
next
  case (rebind dispatch expected account engine db v db')
  then show ?case
    by (auto simp: rebind_attempt_action_def Let_def life_defs
        split: option.splits if_splits intro!: final_row_kept_update)
next
  case (start attempt token epoch now deadline db v db')
  then show ?case
    by (auto simp: start_attempt_action_def Let_def life_defs
        split: option.splits if_splits dest!: reread_Inr intro!: final_row_kept_update)
next
  case (run attempt token epoch worker now db v db')
  then show ?case
    by (auto simp: mark_running_action_def Let_def life_defs
        split: option.splits if_splits dest!: reread_Inr intro!: final_row_kept_update)
next
  case (commit t tid eid host now db c db')
  from commit(5,1) show ?case
  proof (cases rule: commit_cases)
    case repeat
    with commit(6) show ?thesis by simp
  next
    case (fresh b line)
    have "a \<noteq> b"
      using fresh(3) commit(4,7) by (auto simp: superseding_final_def life_defs)
    then have "\<not> terminal_hit t a" using fresh(6) commit(6) by blast
    then show ?thesis
      using commit(6) by (auto simp: commit_new_Inr(2) [OF fresh(7)] intro: final_row_kept_update)
  qed
next
  case (other db' db)
  then show ?case by simp
qed

section \<open>The decided outcome of an attempt\<close>

type_synonym outcome = "string \<times> string \<times> string \<times> string \<times> string \<times> dict"

definition outcome_of :: "terminal_commit \<Rightarrow> outcome" where
  "outcome_of c = (tm_transition c, tm_dispatch c, tm_state c, tm_event c, tm_type c, tm_observation c)"

definition decided :: "string \<Rightarrow> journal \<Rightarrow> outcome \<Rightarrow> bool" where
  "decided k db out \<longleftrightarrow> (\<exists>a \<in> set (attempts db). at_attempt a = k \<and> at_state a \<in> ATTEMPT_FINAL_STATES
     \<and> (\<exists>c. stored_commit a db = Inr c \<and> outcome_of c = out))"

lemma joined_outbox_eq:
  assumes "attempts_ok db" "b \<in> set (outbox db)" "ob_key b = (at_attempt a, tid)" "at_transition a = Some tid"
  shows "joined_outbox a db = Some b"
proof -
  have "distinct (map ob_key (outbox db))" using assms(1) by (simp add: attempts_ok_def)
  then show ?thesis
    unfolding joined_outbox_def assms(4) option.case
    by (intro sql_fetchone_unique) (use assms in \<open>auto simp: ob_key_def dest: keyed_eq [of ob_key]\<close>)
qed

lemma stored_commit_eq:
  assumes "attempts_ok db" "a \<in> set (attempts db)" "at_state a \<in> ATTEMPT_FINAL_STATES"
  obtains b tid where "b \<in> set (outbox db)" "at_transition a = Some tid" "ob_key b = (at_attempt a, tid)"
    "stored_commit a db = Inr \<lparr>tm_attempt = at_attempt a, tm_transition = tid,
              tm_dispatch = at_dispatch a, tm_state = the (at_terminal_state a),
              tm_event = ob_event b, tm_type = ob_type b, tm_observation = the (at_outcome a),
              tm_at = journal_terminal_at (at_terminal_at a), tm_idempotent = True\<rparr>"
proof -
  have ok: "attempt_ok a" "recorded db a" using assms by (simp_all add: attempts_ok_def)
  with assms(3) obtain tid s obs where t: "at_transition a = Some tid" "tid \<noteq> []" "at_terminal_state a = Some s"
      "at_outcome a = Some obs"
    by (auto simp: attempt_ok_def)
  with ok(2) obtain b where b: "b \<in> set (outbox db)" "ob_key b = (at_attempt a, tid)" "ob_event b \<noteq> []"
    by (auto simp: recorded_def)
  have "joined_outbox a db = Some b" by (rule joined_outbox_eq [OF assms(1) b(1,2) t(1)])
  with t b show thesis
    by (intro that [OF b(1) t(1) b(2)]) (simp add: stored_commit_def str_column_def)
qed

text \<open>
  A decision recorded for a key stays what it is: the contract of every first-writer-wins store
  in the program.
\<close>

locale decision =
  fixes good :: "'db \<Rightarrow> bool"
    and step :: "'db \<Rightarrow> 'db \<Rightarrow> bool"
    and verdict :: "'k \<Rightarrow> 'db \<Rightarrow> 'o \<Rightarrow> bool"
  assumes good_step: "good db \<Longrightarrow> step db db' \<Longrightarrow> good db'"
    and verdict_step: "good db \<Longrightarrow> step db db' \<Longrightarrow> verdict k db out \<Longrightarrow> verdict k db' out"
    and verdict_unique: "good db \<Longrightarrow> verdict k db out \<Longrightarrow> verdict k db out2 \<Longrightarrow> out = out2"
begin

lemma verdict_stays:
  "step\<^sup>*\<^sup>* db db' \<Longrightarrow> good db \<Longrightarrow> verdict k db out \<Longrightarrow> good db' \<and> verdict k db' out"
  by (induction rule: rtranclp_induct) (auto intro: good_step verdict_step)

lemma verdict_agrees:
  "step\<^sup>*\<^sup>* db db' \<Longrightarrow> good db \<Longrightarrow> verdict k db out \<Longrightarrow> verdict k db' out2 \<Longrightarrow> out2 = out"
  using verdict_stays verdict_unique by blast

end

interpretation terminal: decision attempts_ok "attempt_step False" decided
proof
  show "attempts_ok db \<Longrightarrow> attempt_step False db db' \<Longrightarrow> attempts_ok db'" for db db'
    using attempt_step_keeps by blast
next
  fix db db' k out
  assume ok: "attempts_ok db" and step: "attempt_step False db db'" and d: "decided k db out"
  then obtain a c where a: "a \<in> set (attempts db)" "at_attempt a = k" "at_state a \<in> ATTEMPT_FINAL_STATES"
      "stored_commit a db = Inr c" "outcome_of c = out"
    by (auto simp: decided_def)
  have ok': "attempts_ok db'" "attempts_le db db'" using attempt_step_keeps [OF step ok] by auto
  have a': "a \<in> set (attempts db')" by (rule final_row_stays [OF step ok a(1,3)])
  from stored_commit_eq [OF ok a(1,3)] obtain b tid where b: "b \<in> set (outbox db)" "at_transition a = Some tid"
      "ob_key b = (at_attempt a, tid)" "c = \<lparr>tm_attempt = at_attempt a, tm_transition = tid,
              tm_dispatch = at_dispatch a, tm_state = the (at_terminal_state a),
              tm_event = ob_event b, tm_type = ob_type b, tm_observation = the (at_outcome a),
              tm_at = journal_terminal_at (at_terminal_at a), tm_idempotent = True\<rparr>"
    using a(4) by auto
  from stored_commit_eq [OF ok'(1) a' a(3)] obtain b' tid' where b': "b' \<in> set (outbox db')" "at_transition a = Some tid'"
      "ob_key b' = (at_attempt a, tid')" "stored_commit a db' = Inr \<lparr>tm_attempt = at_attempt a, tm_transition = tid',
              tm_dispatch = at_dispatch a, tm_state = the (at_terminal_state a),
              tm_event = ob_event b', tm_type = ob_type b', tm_observation = the (at_outcome a),
              tm_at = journal_terminal_at (at_terminal_at a), tm_idempotent = True\<rparr>"
    by auto
  from ok'(2) b(1) obtain b2 where b2: "b2 \<in> set (outbox db')" "event_core b2 = event_core b"
    unfolding attempts_le_def by (metis (no_types, lifting) image_iff subset_iff)
  then have "ob_key b2 = ob_key b'" using b(2,3) b'(2,3) core_keys(1) by simp
  then have "b2 = b'" using ok'(1) b2(1) b'(1) by (auto simp: attempts_ok_def dest: keyed_eq [of ob_key])
  then have "ob_event b' = ob_event b" "ob_type b' = ob_type b" using b2(2) core_keys by simp_all
  with a a' b b' show "decided k db' out"
    unfolding decided_def by (intro bexI [of _ a]) (auto simp: outcome_of_def)
next
  show "attempts_ok db \<Longrightarrow> decided k db out \<Longrightarrow> decided k db out2 \<Longrightarrow> out = out2" for db k out out2
    unfolding decided_def by (metis attempt_by_id old.sum.inject(2))
qed

lemma commit_decides:
  assumes ok: "attempts_ok db" and uuid: "tid \<noteq> []" "eid \<noteq> []"
    and run: "commit_terminal_action t tid eid host now db = Inr (c, db')"
  shows "decided (ta_attempt t) db' (outcome_of c)"
  using ok run
proof (cases rule: commit_cases)
  case (repeat a)
  then show ?thesis by (auto simp: decided_def)
next
  case (fresh a line)
  note n = commit_new_Inr [OF fresh(7)]
  have ok': "attempts_ok db'" using keepsD [OF commit_keeps [OF uuid] ok run] by simp
  let ?a = "finish_row t tid now a" and ?b = "commit_event t tid eid host now a line"
  have a: "?a \<in> set (attempts db')"
    using update_one [OF fresh(6) fresh(1)] by (simp add: n(2))
  have b: "?b \<in> set (outbox db')" "ob_key ?b = (at_attempt ?a, tid)"
    using fresh(2) by (simp_all add: n(2) commit_event_def ob_key_def)
  have "joined_outbox ?a db' = Some ?b"
    by (rule joined_outbox_eq [OF ok' b]) simp
  then have "stored_commit ?a db' = Inr ((commit_value t tid eid now a)\<lparr>tm_at := journal_terminal_at (Some now), tm_idempotent := True\<rparr>)"
    using uuid fresh(2) by (simp add: stored_commit_def commit_event_def commit_value_def str_column_def)
  then show ?thesis
    unfolding decided_def
    by (intro bexI [OF _ a]) (use fresh(2) in \<open>auto simp: outcome_of_def n(1) commit_value_def\<close>)
qed

section \<open>A sample history\<close>

definition sample_attempt :: string where "sample_attempt = ''11111111-1111-4111-8111-111111111111''"
definition sample_tid :: string where "sample_tid = ''22222222-2222-4222-8222-222222222222''"
definition sample_eid :: string where "sample_eid = ''33333333-3333-4333-8333-333333333333''"

definition sample_row :: dispatch_attempt where
  "sample_row = \<lparr>at_attempt = sample_attempt, at_dispatch = ''d1'', at_root = ''/p'', at_state = PREPARED,
     at_epoch = 0, at_token = ''tok'', at_worker = None, at_prepared_at = ''2026-01-01T00:00:00+00:00'',
     at_updated_at = ''2026-01-01T00:00:00+00:00'', at_deadline = Some ''2026-01-01T00:05:00+00:00'',
     at_transition = None, at_terminal_state = None, at_outcome = None, at_terminal_at = None,
     at_owner_label = None, at_owner_digest = None, at_account = None, at_engine = None\<rparr>"

definition sample_args :: prepare_args where
  "sample_args = \<lparr>pa_dispatch = ''d1'', pa_attempt = None, pa_token = Some ''tok'', pa_start_deadline = None,
     pa_defer = False, pa_owner_label = None, pa_owner_nonce = None, pa_account = None, pa_engine = None\<rparr>"

definition sample_prepared :: journal where
  "sample_prepared = empty_journal\<lparr>attempts := [sample_row]\<rparr>"

definition sample_terminal :: terminal_args where
  "sample_terminal = \<lparr>ta_attempt = sample_attempt, ta_terminal = ''complete'', ta_type = ''result'',
     ta_observation = [], ta_deadline = None, ta_supersede = False\<rparr>"

lemma sample_uuids: "canonical_uuid sample_attempt" "canonical_uuid sample_tid" "canonical_uuid sample_eid"
  by code_simp+

lemma sample_nonempty [simp]: "sample_tid \<noteq> []" "sample_eid \<noteq> []" "sample_attempt \<noteq> []"
  by (simp_all add: sample_tid_def sample_eid_def sample_attempt_def)

lemma sample_prepare:
  "prepare_attempt_action ''/p'' id sample_args sample_attempt ''x'' ''2026-01-01T00:00:00+00:00''
     ''2026-01-01T00:05:00+00:00'' empty_journal = Inr (identity_of sample_row, sample_prepared)"
  by (simp add: prepare_attempt_action_def empty_journal_def sample_args_def sample_row_def sample_prepared_def
      sql_fetchone_def given_def asserted_account_def asserted_engine_def filled_opt_def insert_attempt_def
      clash_def identity_of_def Let_def)

lemma sample_reached: "(attempt_step s)\<^sup>*\<^sup>* empty_journal sample_prepared"
  by (rule r_into_rtranclp, rule attempt_step.prepare [OF sample_prepare])

lemma sample_ok: "attempts_ok sample_prepared"
  using attempt_steps_keep [OF sample_reached attempts_ok_empty] by blast

definition sample_claimed :: journal where
  "sample_claimed = empty_journal\<lparr>attempts := [sample_row\<lparr>at_state := STARTING, at_epoch := 1,
     at_updated_at := ''t1'', at_deadline := Some ''t9''\<rparr>]\<rparr>"

lemma sample_start:
  "start_attempt_action sample_attempt ''tok'' 0 ''t1'' ''t9'' sample_prepared =
     Inr (identity_of (hd (attempts sample_claimed)), sample_claimed)"
  by (simp add: start_attempt_action_def sample_prepared_def sample_claimed_def sample_row_def empty_journal_def
      sql_rowcount_def sql_update_def reread_identity_def sql_fetchone_def identity_of_def)

definition sample_committed :: journal where
  "sample_committed = sample_prepared\<lparr>attempts := [finish_row sample_terminal sample_tid ''t2'' sample_row],
     transitions := [commit_transition sample_terminal sample_tid ''t2'' sample_row],
     outbox := [commit_event sample_terminal sample_tid sample_eid ''host'' ''t2'' sample_row ''dispatch terminal: complete'']\<rparr>"

lemma sample_commit:
  "commit_terminal_action sample_terminal sample_tid sample_eid ''host'' ''t2'' sample_prepared =
     Inr (commit_value sample_terminal sample_tid sample_eid ''t2'' sample_row, sample_committed)"
proof -
  have h: "outbox_headline_text ''complete'' (JObj (canon_dict [])) = Inr ''dispatch terminal: complete''"
    by (simp add: outbox_headline_text_def canon_dict_def jget_def filled_def)
  show ?thesis
    using h
    by (simp add: commit_terminal_action_def sample_prepared_def sample_committed_def empty_journal_def
        sql_fetchone_def sample_terminal_def sample_row_def superseding_final_def life_defs terminal_refusal_def
        commit_new_def sql_rowcount_def terminal_hit_def update_keyed_def sql_update_def List.map_filter_def
        insert_transition_def insert_outbox_def clash_def sql_exists_def commit_transition_def commit_event_def
        commit_value_def tr_key_def ob_key_def)
qed

lemma fetch_attempt:
  assumes "attempts_ok db" "a \<in> set (attempts db)" "at_attempt a = k"
  shows "sql_fetchone (\<lambda>r. at_attempt r = k) (attempts db) = Some a"
proof (rule sql_fetchone_unique)
  show "x = a" if "x \<in> set (attempts db)" "at_attempt x = k" for x
    by (rule attempt_by_id [OF assms(1) that(1) assms(2)]) (simp add: that(2) assms(3))
qed (use assms in simp_all)

lemma stored_idempotent: "stored_commit a db = Inr c \<Longrightarrow> tm_idempotent c"
  by (auto simp: stored_commit_def split: option.splits if_splits)

section \<open>Properties\<close>

text \<open>
  C11. Every journal the attempt operations can produce is well formed: keys are unique, the
  terminal columns are set exactly on final attempts, a final attempt has its transition row and
  its outbox event, and exactly one transition ever took it out of a live state.
\<close>

theorem attempts_invariant:
  assumes "(attempt_step s)\<^sup>*\<^sup>* empty_journal db"
  shows "attempts_ok db"
  using attempt_steps_keep [OF assms attempts_ok_empty] by blast

theorem attempts_invariant_witness: "attempts_ok sample_prepared"
  using attempts_invariant [OF sample_reached] .

text \<open>
  Along any history an attempt never disappears, keeps its dispatch, token and owner, only
  advances through its lifecycle, and no transition or outbox event is lost or rewritten.
\<close>

lemma lifecycle_only_advances:
  assumes "attempts_ok db" "(attempt_step s)\<^sup>*\<^sup>* db db'"
  shows "attempts_le db db'"
  using attempt_steps_keep [OF assms(2,1)] by blast

lemma lifecycle_only_advances_witness: "attempts_le sample_prepared sample_claimed"
  by (rule lifecycle_only_advances [OF sample_ok]) (rule r_into_rtranclp, rule attempt_step.start [OF sample_start])

text \<open>
  C1. The first terminal commit wins: once one classifier has committed an attempt, a later
  commit by any other, whatever it proposes and whatever happened in between, changes nothing
  and is answered with the outcome of the first. Only an explicit supersession may replace it.
\<close>

theorem first_terminal_wins:
  assumes "attempts_ok db" "canonical_uuid tid" "canonical_uuid eid"
    and "commit_terminal_action t tid eid host now db = Inr (c, db1)"
    and "(attempt_step False)\<^sup>*\<^sup>* db1 db2"
    and "ta_attempt u = ta_attempt t" "\<not> ta_supersede u"
  shows "\<exists>d. commit_terminal_action u tid2 eid2 host2 now2 db2 = Inr (d, db2)
     \<and> tm_idempotent d \<and> outcome_of d = outcome_of c"
proof -
  note uuid = canonical_uuid_nonempty [OF assms(2)] canonical_uuid_nonempty [OF assms(3)]
  have ok1: "attempts_ok db1" using keepsD [OF commit_keeps [OF uuid] assms(1,4)] by blast
  have "decided (ta_attempt t) db1 (outcome_of c)" by (rule commit_decides [OF assms(1) uuid assms(4)])
  from terminal.verdict_stays [OF assms(5) ok1 this]
  have ok2: "attempts_ok db2" and d: "decided (ta_attempt u) db2 (outcome_of c)" using assms(6) by simp_all
  from d obtain a e where a: "a \<in> set (attempts db2)" "at_attempt a = ta_attempt u"
      "at_state a \<in> ATTEMPT_FINAL_STATES" "stored_commit a db2 = Inr e" "outcome_of e = outcome_of c"
    by (auto simp: decided_def)
  have "sql_fetchone (\<lambda>r. at_attempt r = ta_attempt u) (attempts db2) = Some a"
    by (rule fetch_attempt [OF ok2 a(1,2)])
  moreover have "tm_idempotent e" by (rule stored_idempotent [OF a(4)])
  ultimately show ?thesis
    using a assms(7) by (simp add: commit_terminal_action_def superseding_final_def)
qed

theorem first_terminal_wins_witness:
  "\<exists>d. commit_terminal_action (sample_terminal\<lparr>ta_terminal := ''failed'', ta_type := ''blocked''\<rparr>)
      sample_tid sample_eid ''other'' ''t3'' sample_committed = Inr (d, sample_committed)
     \<and> tm_idempotent d \<and> outcome_of d = outcome_of (commit_value sample_terminal sample_tid sample_eid ''t2'' sample_row)"
  by (rule first_terminal_wins [OF sample_ok sample_uuids(2,3) sample_commit rtranclp.rtrancl_refl])
    (simp_all add: sample_terminal_def)

text \<open>
  A launch is claimed at most once: after one \<open>PREPARED -> STARTING\<close> claim of an attempt, every
  later claim loses its compare-and-swap, whichever token, epoch and deadline it presents.
\<close>

lemma launch_claimed_once:
  assumes "attempts_ok db" "start_attempt_action k token epoch now deadline db = Inr (v, db1)"
    and "(attempt_step s)\<^sup>*\<^sup>* db1 db2"
  shows "\<exists>m. start_attempt_action k token2 epoch2 now2 deadline2 db2 = Inl (CASMismatch m)"
proof -
  let ?p = "\<lambda>r. at_attempt r = k \<and> at_token r = token \<and> at_state r = PREPARED \<and> at_epoch r = epoch"
  from assms(2) have n: "sql_rowcount ?p (attempts db) \<noteq> 0" and
    d: "db1 = db\<lparr>attempts := sql_update ?p (\<lambda>r. r\<lparr>at_state := STARTING, at_epoch := Suc (at_epoch r),
          at_updated_at := now, at_deadline := Some deadline\<rparr>) (attempts db)\<rparr>"
    by (auto simp: start_attempt_action_def Let_def dest: reread_Inr split: if_splits)
  from n obtain a where a: "a \<in> set (attempts db)" "?p a" by (auto simp: sql_rowcount_0_iff)
  let ?a1 = "a\<lparr>at_state := STARTING, at_epoch := Suc (at_epoch a), at_updated_at := now, at_deadline := Some deadline\<rparr>"
  from a have a1: "?a1 \<in> set (attempts db1)" "at_attempt ?a1 = k" "at_epoch ?a1 \<ge> 1"
    by (auto simp: d set_sql_update image_iff intro!: bexI [of _ a])
  have ok1: "attempts_ok db1" using keepsD [OF start_keeps assms(1,2)] by blast
  from attempt_steps_keep [OF assms(3) ok1] have ok2: "attempts_ok db2" and le: "attempts_le db1 db2" by auto
  from le a1 obtain a2 where a2: "a2 \<in> set (attempts db2)" "at_attempt a2 = k" "at_epoch a2 \<ge> 1"
    unfolding attempts_le_def attempt_core_def by (metis (no_types, lifting) le_trans prod.inject)
  have "at_state a2 \<noteq> PREPARED" using attempts_ok_row [OF ok2 a2(1)] a2(3) by (auto simp: attempt_ok_def)
  then have "sql_rowcount (\<lambda>r. at_attempt r = k \<and> at_token r = token2 \<and> at_state r = PREPARED \<and> at_epoch r = epoch2) (attempts db2) = 0"
    using attempt_by_id [OF ok2 _ a2(1)] a2(2) by (auto simp: sql_rowcount_0_iff)
  then show ?thesis by (simp add: start_attempt_action_def)
qed

lemma launch_claimed_once_witness:
  "\<exists>m. start_attempt_action sample_attempt ''tok'' 1 ''t5'' ''t6'' sample_claimed = Inl (CASMismatch m)"
  by (rule launch_claimed_once [OF sample_ok sample_start rtranclp.rtrancl_refl])

text \<open>
  Abandoning an expired launch never overrides a worker: \<open>commit_expired_attempt\<close> makes a new
  commit only for an attempt still unclaimed by a worker whose start deadline has passed.
\<close>

lemma expired_commit_only_unclaimed:
  assumes "attempts_ok db"
    and "commit_terminal_action (expired_args k observed terminal observation) tid eid host now db = Inr (c, db')"
    and "\<not> tm_idempotent c"
  shows "\<exists>a \<in> set (attempts db). at_attempt a = k \<and> at_state a \<in> {PREPARED, STARTING}
     \<and> (\<exists>d. at_deadline a = Some d \<and> d \<le> observed)"
  using assms(1,2)
proof (cases rule: commit_cases)
  case (repeat a)
  with stored_idempotent assms(3) show ?thesis by blast
next
  case (fresh a line)
  then show ?thesis
    by (intro bexI [OF _ fresh(1)])
      (auto simp: terminal_hit_def expired_args_def terminal_args_of_def split: option.splits)
qed

definition sample_expired_committed :: journal where
  "sample_expired_committed = (let t = expired_args sample_attempt ''3000'' ''abandoned'' None in
     sample_prepared\<lparr>attempts := [finish_row t sample_tid ''t2'' sample_row],
     transitions := [commit_transition t sample_tid ''t2'' sample_row],
     outbox := [commit_event t sample_tid sample_eid ''host'' ''t2'' sample_row ''dispatch terminal: abandoned'']\<rparr>)"

lemma sample_expired_commit:
  "commit_terminal_action (expired_args sample_attempt ''3000'' ''abandoned'' None) sample_tid sample_eid ''host'' ''t2'' sample_prepared =
     Inr (commit_value (expired_args sample_attempt ''3000'' ''abandoned'' None) sample_tid sample_eid ''t2'' sample_row, sample_expired_committed)"
proof -
  have h: "outbox_headline_text ''abandoned'' (JObj (canon_dict [])) = Inr ''dispatch terminal: abandoned''"
    by (simp add: outbox_headline_text_def canon_dict_def jget_def filled_def)
  have le: "''2026-01-01T00:05:00+00:00'' \<le> ''3000''" "\<not> ''3000'' < ''2026-01-01T00:05:00+00:00''"
    by code_simp+
  show ?thesis
    using h le
    by (simp add: commit_terminal_action_def sample_prepared_def sample_expired_committed_def empty_journal_def
        sql_fetchone_def expired_args_def terminal_args_of_def default_event_type_def given_def Let_def
        sample_row_def superseding_final_def life_defs terminal_refusal_def
        commit_new_def sql_rowcount_def terminal_hit_def update_keyed_def sql_update_def List.map_filter_def
        insert_transition_def insert_outbox_def clash_def sql_exists_def commit_transition_def commit_event_def
        commit_value_def tr_key_def ob_key_def)
qed

lemma expired_commit_only_unclaimed_witness:
  "\<exists>a \<in> set (attempts sample_prepared). at_attempt a = sample_attempt \<and> at_state a \<in> {PREPARED, STARTING}
     \<and> (\<exists>d. at_deadline a = Some d \<and> d \<le> ''3000'')"
  by (rule expired_commit_only_unclaimed [OF sample_ok sample_expired_commit]) (simp add: commit_value_def)

text \<open>
  A new terminal commit writes all three rows or none: the attempt becomes final with the
  proposed state, and exactly one transition and one outbox event for it are appended.
\<close>

lemma terminal_commit_records:
  assumes "attempts_ok db" "commit_terminal_action t tid eid host now db = Inr (c, db')" "\<not> tm_idempotent c"
  shows "\<exists>a \<in> set (attempts db). \<exists>line. at_attempt a = ta_attempt t
     \<and> set (attempts db') = insert (finish_row t tid now a) (set (attempts db) - {a})
     \<and> transitions db' = transitions db @ [commit_transition t tid now a]
     \<and> outbox db' = outbox db @ [commit_event t tid eid host now a line]
     \<and> c = commit_value t tid eid now a"
  using assms(1,2)
proof (cases rule: commit_cases)
  case (repeat a)
  with stored_idempotent assms(3) show ?thesis by blast
next
  case (fresh a line)
  note n = commit_new_Inr [OF fresh(7)]
  have "set (attempts db') = insert (finish_row t tid now a) (set (attempts db) - {a})"
    using update_one [OF fresh(6) fresh(1)] by (simp add: n(2))
  then show ?thesis
    by (intro bexI [OF _ fresh(1)] exI [of _ line]) (simp add: n(1,2) fresh(2))
qed

lemma terminal_commit_records_witness:
  "\<exists>a \<in> set (attempts sample_prepared). \<exists>line. at_attempt a = ta_attempt sample_terminal
     \<and> set (attempts sample_committed) = insert (finish_row sample_terminal sample_tid ''t2'' a) (set (attempts sample_prepared) - {a})
     \<and> transitions sample_committed = transitions sample_prepared @ [commit_transition sample_terminal sample_tid ''t2'' a]
     \<and> outbox sample_committed = outbox sample_prepared @ [commit_event sample_terminal sample_tid sample_eid ''host'' ''t2'' a line]
     \<and> commit_value sample_terminal sample_tid sample_eid ''t2'' sample_row = commit_value sample_terminal sample_tid sample_eid ''t2'' a"
  by (rule terminal_commit_records [OF sample_ok sample_commit]) (simp add: commit_value_def)

text \<open>
  The public \<open>commit_terminal\<close>, with its argument checks, retries and whatever other journal
  writers that keep the contract do in between, keeps the journal well formed and loses nothing,
  whether it commits, gives up or raises.
\<close>

lemma commit_terminal_keeps_journal:
  assumes "attempts_ok db" "polite attempts_ok attempts_le env" "canonical_uuid tid" "canonical_uuid eid"
    and "commit_terminal cfg env started t tid eid host now db = Some (r, db')"
  shows "attempts_ok db' \<and> attempts_le db db'"
  using att.checked_write_keeps [OF commit_keeps assms(2,1) assms(5) [unfolded commit_terminal_def]]
    assms(3,4) canonical_uuid_nonempty by blast

lemma sample_env_polite: "polite attempts_ok attempts_le sample_env"
  by (simp add: polite_def sample_env_def attempts_le_refl)

lemma sample_terminal_checks: "terminal_checks sample_terminal = Inr ()"
proof -
  have "state_token ''complete''" by code_simp
  then show ?thesis
    using sample_uuids(1)
    by (simp add: terminal_checks_def sample_terminal_def need_canonical_uuid_def need_state_token_def
        demand_def TERMINAL_EVENT_TYPES_def)
qed

lemma commit_terminal_keeps_journal_witness:
  "attempts_ok sample_committed \<and> attempts_le sample_prepared sample_committed"
  by (rule commit_terminal_keeps_journal [OF sample_ok sample_env_polite sample_uuids(2,3),
        of sample_config 0 sample_terminal "''host''" "''t2''" _ sample_committed])
    (simp add: commit_terminal_def checked_write_def sample_terminal_checks sample_write
      [where action = "commit_terminal_action sample_terminal sample_tid sample_eid ''host'' ''t2''", OF sample_commit])

end
