(* ===== verification/GF_Lease_Lemmas.thy ===== *)
theory GF_Lease_Lemmas
  imports GF_Leases GF_Delivery_Props GF_Attempt_History
begin

text \<open>
  The invariant of the controller registry (\<open>registry_ok\<close>: lease, cursor, coverage, attention and
  delivery tables), the order in which it only grows (\<open>registry_le\<close>), and the proof that every lease,
  listener, attention and delivery operation keeps both.
\<close>

section \<open>The registry invariant\<close>

definition lease_row_ok :: "controller_lease \<Rightarrow> bool" where
  "lease_row_ok l \<longleftrightarrow> 1 \<le> ls_generation l
     \<and> (if ls_state l = ACTIVE then ls_ended_at l = None \<and> ls_ended_reason l = None
        else ls_ended_at l \<noteq> None \<and> ls_ended_reason l \<noteq> None)"

text \<open>
  The constraints of the lease table, the active generation is the newest of its label, and its
  cursor row carries it.
\<close>

definition leases_ok :: "journal \<Rightarrow> bool" where
  "leases_ok db \<longleftrightarrow> distinct (map ls_key (leases db)) \<and> distinct (map ls_nonce_key (leases db))
     \<and> (\<forall>l \<in> set (leases db). lease_row_ok l)
     \<and> (\<forall>l \<in> set (leases db). \<forall>m \<in> set (leases db). ls_state l = ACTIVE \<and> ls_place m = ls_place l \<longrightarrow>
          ls_generation m \<le> ls_generation l)
     \<and> (\<forall>l \<in> set (leases db). ls_state l = ACTIVE \<longrightarrow> (ls_place l, ls_generation l) \<in> cc_owner ` set (cursors db))"

definition coverage_row_ok :: "listener_coverage \<Rightarrow> bool" where
  "coverage_row_ok c \<longleftrightarrow> (if cv_state c = ARMED then cv_exited_at c = None \<and> cv_exit_reason c = None
     else cv_exited_at c \<noteq> None \<and> cv_exit_reason c \<noteq> None)"

text \<open>An armed listener belongs to the active generation, and there is one per generation.\<close>

definition coverage_ok :: "journal \<Rightarrow> bool" where
  "coverage_ok db \<longleftrightarrow> distinct (map cv_id (coverage db))
     \<and> distinct (map cv_place (filter (\<lambda>c. cv_state c = ARMED) (coverage db)))
     \<and> (\<forall>c \<in> set (coverage db). coverage_row_ok c \<and> cv_place c \<in> ls_key ` set (leases db))
     \<and> (\<forall>c \<in> set (coverage db). cv_state c = ARMED \<longrightarrow>
          (\<exists>l \<in> set (leases db). ls_key l = cv_place c \<and> ls_nonce l = cv_nonce c \<and> ls_state l = ACTIVE))"

definition attention_ok :: "journal \<Rightarrow> bool" where
  "attention_ok db \<longleftrightarrow> distinct (map ai_id (attention db)) \<and> distinct (map ai_place (attention db))
     \<and> (\<forall>a \<in> set (attention db). (ai_root a, ai_label a, ai_generation a) \<in> ls_key ` set (leases db))"

definition registry_ok :: "journal \<Rightarrow> bool" where
  "registry_ok db \<longleftrightarrow> delivery_ok db \<and> leases_ok db \<and> coverage_ok db \<and> attention_ok db"

text \<open>
  What later journals keep of the registry: every generation stays with its nonce, an ended one is
  never touched again, and a new one is newer than all of its label.
\<close>

definition registry_le :: "journal \<Rightarrow> journal \<Rightarrow> bool" where
  "registry_le db db' \<longleftrightarrow>
     (\<forall>l \<in> set (leases db). \<exists>l' \<in> set (leases db'). ls_key l' = ls_key l \<and> ls_nonce l' = ls_nonce l
        \<and> ls_claimed_at l' = ls_claimed_at l \<and> (ls_state l \<noteq> ACTIVE \<longrightarrow> l' = l))
   \<and> (\<forall>l' \<in> set (leases db'). ls_key l' \<in> ls_key ` set (leases db)
        \<or> (\<forall>l \<in> set (leases db). ls_place l = ls_place l' \<longrightarrow> ls_generation l < ls_generation l'))"

lemma registry_le_refl: "registry_le db db"
  by (auto simp: registry_le_def)

lemma registry_le_eq: "leases db' = leases db \<Longrightarrow> registry_le db db'"
  by (auto simp: registry_le_def)

lemma ls_key_place: "ls_key l = ls_key m \<Longrightarrow> ls_place l = ls_place m \<and> ls_generation l = ls_generation m"
  by (simp add: ls_key_def ls_place_def)

lemma registry_le_keys: "registry_le a b \<Longrightarrow> ls_key ` set (leases a) \<subseteq> ls_key ` set (leases b)"
proof
  fix k assume le: "registry_le a b" and "k \<in> ls_key ` set (leases a)"
  then obtain l where "l \<in> set (leases a)" "k = ls_key l" by blast
  with le obtain l' where "l' \<in> set (leases b)" "ls_key l' = k" unfolding registry_le_def by blast
  then show "k \<in> ls_key ` set (leases b)" by blast
qed

lemma registry_le_trans:
  assumes "registry_le a b" "registry_le b c"
  shows "registry_le a c"
proof -
  have keep: "\<exists>l' \<in> set (leases c). ls_key l' = ls_key l \<and> ls_nonce l' = ls_nonce l
      \<and> ls_claimed_at l' = ls_claimed_at l \<and> (ls_state l \<noteq> ACTIVE \<longrightarrow> l' = l)" if l: "l \<in> set (leases a)" for l
  proof -
    from assms(1) l obtain m where m: "m \<in> set (leases b)" "ls_key m = ls_key l" "ls_nonce m = ls_nonce l"
        "ls_claimed_at m = ls_claimed_at l" "ls_state l \<noteq> ACTIVE \<longrightarrow> m = l"
      unfolding registry_le_def by blast
    from assms(2) m(1) obtain n where "n \<in> set (leases c)" "ls_key n = ls_key m" "ls_nonce n = ls_nonce m"
        "ls_claimed_at n = ls_claimed_at m" "ls_state m \<noteq> ACTIVE \<longrightarrow> n = m"
      unfolding registry_le_def by blast
    with m show ?thesis by (intro bexI [of _ n]) auto
  qed
  have new: "ls_key n \<in> ls_key ` set (leases a)
      \<or> (\<forall>l \<in> set (leases a). ls_place l = ls_place n \<longrightarrow> ls_generation l < ls_generation n)" if n: "n \<in> set (leases c)" for n
  proof (cases "ls_key n \<in> ls_key ` set (leases b)")
    case True
    then obtain m where m: "m \<in> set (leases b)" "ls_key m = ls_key n" by auto
    with assms(1) have "ls_key m \<in> ls_key ` set (leases a)
      \<or> (\<forall>l \<in> set (leases a). ls_place l = ls_place m \<longrightarrow> ls_generation l < ls_generation m)"
      unfolding registry_le_def by blast
    with ls_key_place [OF m(2)] m(2) show ?thesis by simp
  next
    case False
    with assms(2) n have c: "\<forall>m \<in> set (leases b). ls_place m = ls_place n \<longrightarrow> ls_generation m < ls_generation n"
      unfolding registry_le_def by blast
    have "ls_generation l < ls_generation n" if l: "l \<in> set (leases a)" "ls_place l = ls_place n" for l
    proof -
      from registry_le_keys [OF assms(1)] l(1) obtain m where "m \<in> set (leases b)" "ls_key m = ls_key l" by force
      with c l(2) ls_key_place [of m l] show ?thesis by auto
    qed
    then show ?thesis by blast
  qed
  show ?thesis unfolding registry_le_def using keep new by blast
qed

section \<open>Frames of the registry\<close>

lemma leases_ok_cong:
  assumes "leases_ok db" "leases db' = leases db" "cc_owner ` set (cursors db) \<subseteq> cc_owner ` set (cursors db')"
  shows "leases_ok db'"
  using assms unfolding leases_ok_def by (simp only: assms(2)) blast

lemma owners_subset: "map cc_owner cs' = map cc_owner cs \<Longrightarrow> cc_owner ` set cs \<subseteq> cc_owner ` set cs'"
  by (metis list.set_map order_refl)

lemma coverage_ok_cong: "coverage_ok db \<Longrightarrow> leases db' = leases db \<Longrightarrow> coverage db' = coverage db \<Longrightarrow> coverage_ok db'"
  by (simp add: coverage_ok_def)

lemma attention_ok_cong:
  assumes "attention_ok db" "ls_key ` set (leases db) \<subseteq> ls_key ` set (leases db')" "attention db' = attention db"
  shows "attention_ok db'"
  using assms unfolding attention_ok_def by (simp only: assms(3)) blast

lemma registry_frame:
  assumes "registry_ok db" "delivery_ok db'" "leases db' = leases db" "coverage db' = coverage db" "attention db' = attention db"
    and "cc_owner ` set (cursors db) \<subseteq> cc_owner ` set (cursors db')"
  shows "registry_ok db' \<and> registry_le db db'"
  using assms leases_ok_cong [OF _ assms(3,6)] coverage_ok_cong [OF _ assms(3,4)] attention_ok_cong [of db db']
  by (simp add: registry_ok_def registry_le_eq)

text \<open>A generation ends together with the coverage of its listener.\<close>

lemma exit_coverage_frame [simp]:
  "leases (exit_coverage p l g now r db) = leases db" "cursors (exit_coverage p l g now r db) = cursors db"
  "events (exit_coverage p l g now r db) = events db" "attention (exit_coverage p l g now r db) = attention db"
  "stream_cursors (exit_coverage p l g now r db) = stream_cursors db" "rewinds (exit_coverage p l g now r db) = rewinds db"
  "attempts (exit_coverage p l g now r db) = attempts db" "transitions (exit_coverage p l g now r db) = transitions db"
  "outbox (exit_coverage p l g now r db) = outbox db" "system_attention (exit_coverage p l g now r db) = system_attention db"
  by (simp_all add: exit_coverage_def)

lemma delivery_ok_cong:
  "events db' = events db \<Longrightarrow> cursors db' = cursors db \<Longrightarrow> stream_cursors db' = stream_cursors db \<Longrightarrow>
     rewinds db' = rewinds db \<Longrightarrow> delivery_ok db' = delivery_ok db"
  by (simp add: delivery_ok_def)

lemma end_lease_simps [simp]:
  "ls_key (end_lease s now r l) = ls_key l" "ls_nonce_key (end_lease s now r l) = ls_nonce_key l"
  "ls_nonce (end_lease s now r l) = ls_nonce l" "ls_place (end_lease s now r l) = ls_place l"
  "ls_generation (end_lease s now r l) = ls_generation l" "ls_claimed_at (end_lease s now r l) = ls_claimed_at l"
  "ls_state (end_lease s now r l) = s" "ls_ended_at (end_lease s now r l) = Some now"
  "ls_ended_reason (end_lease s now r l) = Some r" "ls_root (end_lease s now r l) = ls_root l"
  "ls_label (end_lease s now r l) = ls_label l"
  by (simp_all add: end_lease_def ls_key_def ls_nonce_key_def ls_place_def)

lemma exit_filter:
  "filter (\<lambda>c. cv_state c = ARMED) (sql_update (\<lambda>c. cv_root c = p \<and> cv_label c = label \<and> cv_generation c = g \<and> cv_state c = ARMED)
       (\<lambda>c. c\<lparr>cv_state := EXITED, cv_exited_at := t, cv_exit_reason := r\<rparr>) cs)
     = filter (\<lambda>c. cv_state c = ARMED \<and> cv_place c \<noteq> (p, label, g)) cs"
  by (induction cs) (auto simp: sql_update_def cv_place_def)

lemma end_generation:
  fixes now now2 r r2 :: string
  assumes ok: "registry_ok db" and s: "s \<noteq> ACTIVE"
    and hit: "\<And>l. hit l \<Longrightarrow> ls_key l = (p, label, g) \<and> ls_state l = ACTIVE"
  defines "db' \<equiv> exit_coverage p label g now2 r2 (db\<lparr>leases := sql_update hit (end_lease s now r) (leases db)\<rparr>)"
  shows "registry_ok db' \<and> registry_le db db'"
proof -
  have L: "leases db' = sql_update hit (end_lease s now r) (leases db)" by (simp add: db'_def)
  have maps: "map ls_key (leases db') = map ls_key (leases db)" "map ls_nonce_key (leases db') = map ls_nonce_key (leases db)"
    unfolding L by (rule map_sql_update_same, simp)+
  have rows: "\<exists>m \<in> set (leases db). l = (if hit m then end_lease s now r m else m)" if "l \<in> set (leases db')" for l
    using that unfolding L by (rule sql_updateE) auto
  have act: "l \<in> set (leases db) \<and> \<not> hit l" if "l \<in> set (leases db')" "ls_state l = ACTIVE" for l
  proof -
    from rows [OF that(1)] obtain m where m: "m \<in> set (leases db)" "l = (if hit m then end_lease s now r m else m)" by blast
    have "\<not> hit m"
    proof
      assume "hit m"
      then have "ls_state l = s" by (simp add: m(2))
      with that(2) s show False by simp
    qed
    with m show ?thesis by simp
  qed
  have lo: "leases_ok db" and co: "coverage_ok db" and ao: "attention_ok db" and d: "delivery_ok db"
    using ok by (simp_all add: registry_ok_def)
  have "lease_row_ok l" if "l \<in> set (leases db')" for l
    using rows [OF that] lo s by (auto simp: leases_ok_def lease_row_ok_def split: if_splits)
  moreover have "ls_generation m \<le> ls_generation l"
    if l: "l \<in> set (leases db')" "ls_state l = ACTIVE" and m: "m \<in> set (leases db')" "ls_place m = ls_place l" for l m
  proof -
    from rows [OF m(1)] obtain m0 where "m0 \<in> set (leases db)" "m = (if hit m0 then end_lease s now r m0 else m0)" by blast
    with act [OF l] l(2) m(2) lo show ?thesis by (auto simp: leases_ok_def split: if_splits)
  qed
  moreover have "(ls_place l, ls_generation l) \<in> cc_owner ` set (cursors db')"
    if "l \<in> set (leases db')" "ls_state l = ACTIVE" for l
    using act [OF that] that lo by (simp add: leases_ok_def db'_def)
  ultimately have "leases_ok db'" using lo unfolding leases_ok_def maps by blast
  moreover have cov: "coverage db' = sql_update (\<lambda>c. cv_root c = p \<and> cv_label c = label \<and> cv_generation c = g \<and> cv_state c = ARMED)
       (\<lambda>c. c\<lparr>cv_state := EXITED, cv_exited_at := Some now2, cv_exit_reason := Some r2\<rparr>) (coverage db)"
    by (simp add: db'_def exit_coverage_def)
  have keys: "ls_key ` set (leases db') = ls_key ` set (leases db)"
    using maps(1) by (metis list.set_map)
  have "coverage_ok db'"
  proof -
    have ids: "map cv_id (coverage db') = map cv_id (coverage db)"
      unfolding cov by (rule map_sql_update_same) simp
    have armed: "filter (\<lambda>c. cv_state c = ARMED) (coverage db') =
        filter (\<lambda>c. cv_state c = ARMED \<and> cv_place c \<noteq> (p, label, g)) (coverage db)"
      unfolding cov by (rule exit_filter)
    have "distinct (map cv_place (filter (\<lambda>c. cv_state c = ARMED) (coverage db')))"
      using co unfolding armed coverage_ok_def by (simp add: distinct_map_filter_sub)
    moreover have "coverage_row_ok c \<and> cv_place c \<in> ls_key ` set (leases db')" if "c \<in> set (coverage db')" for c
    proof -
      from that obtain c0 where "c0 \<in> set (coverage db)" "c = (if cv_root c0 = p \<and> cv_label c0 = label \<and> cv_generation c0 = g \<and> cv_state c0 = ARMED
          then c0\<lparr>cv_state := EXITED, cv_exited_at := Some now2, cv_exit_reason := Some r2\<rparr> else c0)"
        unfolding cov by (rule sql_updateE)
      with co show ?thesis unfolding keys by (auto simp: coverage_ok_def coverage_row_ok_def cv_place_def)
    qed
    moreover have "\<exists>l \<in> set (leases db'). ls_key l = cv_place c \<and> ls_nonce l = cv_nonce c \<and> ls_state l = ACTIVE"
      if c: "c \<in> set (coverage db')" "cv_state c = ARMED" for c
    proof -
      have "c \<in> set (filter (\<lambda>c. cv_state c = ARMED) (coverage db'))" using c by simp
      then have c': "c \<in> set (coverage db)" "cv_place c \<noteq> (p, label, g)" unfolding armed by auto
      with co c(2) obtain l where l: "l \<in> set (leases db)" "ls_key l = cv_place c" "ls_nonce l = cv_nonce c" "ls_state l = ACTIVE"
        unfolding coverage_ok_def by blast
      then have "\<not> hit l" using hit c'(2) by auto
      with l show ?thesis unfolding L set_sql_update by force
    qed
    ultimately show ?thesis using co unfolding coverage_ok_def ids by blast
  qed
  moreover have "attention_ok db'" by (rule attention_ok_cong [OF ao]) (simp_all add: keys, simp add: db'_def)
  moreover have "delivery_ok db'" using d delivery_ok_cong [of db' db] by (simp add: db'_def)
  moreover have "registry_le db db'"
  proof -
    have "\<exists>l' \<in> set (leases db'). ls_key l' = ls_key l \<and> ls_nonce l' = ls_nonce l
      \<and> ls_claimed_at l' = ls_claimed_at l \<and> (ls_state l \<noteq> ACTIVE \<longrightarrow> l' = l)" if "l \<in> set (leases db)" for l
      using that hit by (intro bexI [of _ "if hit l then end_lease s now r l else l"]) (auto simp: L set_sql_update)
    then show ?thesis unfolding registry_le_def using keys by blast
  qed
  ultimately show ?thesis by (simp add: registry_ok_def)
qed

section \<open>Each operation keeps the registry\<close>

text \<open>A change that keeps the invariant and loses nothing; such changes compose.\<close>

definition safe :: "journal \<Rightarrow> journal \<Rightarrow> bool" where
  "safe db db' \<longleftrightarrow> (registry_ok db \<longrightarrow> registry_ok db' \<and> registry_le db db')"

lemma safe_refl [simp]: "safe db db"
  by (simp add: safe_def registry_le_refl)

lemma safe_trans: "safe a b \<Longrightarrow> safe b c \<Longrightarrow> safe a c"
  by (auto simp: safe_def intro: registry_le_trans)

lemma safe_fold: "(\<And>x d. safe d (f x d)) \<Longrightarrow> safe d (fold f xs d)"
proof (induction xs arbitrary: d)
  case (Cons x xs)
  show ?case using safe_trans [OF Cons.prems(1) [of d x] Cons.IH [OF Cons.prems(1)]] by simp
qed simp

lemma safe_frame:
  assumes "delivery_ok db \<Longrightarrow> delivery_ok db'" "leases db' = leases db" "coverage db' = coverage db"
    "attention db' = attention db" "cc_owner ` set (cursors db) \<subseteq> cc_owner ` set (cursors db')"
  shows "safe db db'"
  unfolding safe_def using registry_frame [OF _ _ assms(2-5)] assms(1) by (auto simp: registry_ok_def)

lemma safe_end_generation:
  assumes "s \<noteq> ACTIVE" "\<And>l. hit l \<Longrightarrow> ls_key l = (p, label, g) \<and> ls_state l = ACTIVE"
  shows "safe db (exit_coverage p label g now2 r2 (db\<lparr>leases := sql_update hit (end_lease s now r) (leases db)\<rparr>))"
  unfolding safe_def using end_generation [OF _ assms] by blast

lemma withdraw_rows_frame [simp]:
  "leases (withdraw_rows q now db) = leases db" "cursors (withdraw_rows q now db) = cursors db"
  "coverage (withdraw_rows q now db) = coverage db" "attention (withdraw_rows q now db) = attention db"
  "attempts (withdraw_rows q now db) = attempts db" "transitions (withdraw_rows q now db) = transitions db"
  "outbox (withdraw_rows q now db) = outbox db" "stream_cursors (withdraw_rows q now db) = stream_cursors db"
  by (simp_all add: withdraw_rows_def)

lemma safe_withdraw_rows: "safe db (withdraw_rows q now db)"
  by (rule safe_frame) (simp_all add: withdraw_rows_ok)

lemma insert_event_Inr:
  "insert_event r db = Inr db' \<Longrightarrow> db' = db\<lparr>events := events db @ [r]\<rparr>"
  by (auto simp: insert_event_def violation_def split: if_splits)

lemma safe_insert_event: "insert_event r db = Inr db' \<Longrightarrow> safe db db'"
  by (rule safe_frame) (auto dest: insert_event_Inr insert_event_ok)

lemma safe_invalidate: "safe db (invalidate_snapshots p r t x db)"
  by (rule safe_frame) (simp_all add: owners_subset)

text \<open>Attention.\<close>

lemma safe_resolve_item: "safe db (resolve_item p now stale db)"
proof -
  let ?d = "db\<lparr>attention := sql_update (\<lambda>a. ai_id a = ai_id stale \<and> ai_state a = OPEN)
        (\<lambda>a. a\<lparr>ai_state := RESOLVED, ai_resolved_at := Some now\<rparr>) (attention db)\<rparr>"
  have m: "map ai_id (attention ?d) = map ai_id (attention db)" "map ai_place (attention ?d) = map ai_place (attention db)"
    by (simp, rule map_sql_update_same, simp add: ai_place_def)+
  have "attention_ok ?d" if ok: "attention_ok db"
  proof -
    have "(ai_root a, ai_label a, ai_generation a) \<in> ls_key ` set (leases db)" if "a \<in> set (attention ?d)" for a
    proof -
      from that have "a \<in> set (sql_update (\<lambda>a. ai_id a = ai_id stale \<and> ai_state a = OPEN)
        (\<lambda>a. a\<lparr>ai_state := RESOLVED, ai_resolved_at := Some now\<rparr>) (attention db))" by simp
      then obtain b where "b \<in> set (attention db)" "ai_root a = ai_root b" "ai_label a = ai_label b" "ai_generation a = ai_generation b"
        by (rule sql_updateE) (auto split: if_splits)
      with ok show ?thesis by (simp add: attention_ok_def)
    qed
    with ok m show ?thesis unfolding attention_ok_def by simp
  qed
  then have "safe db ?d"
    using leases_ok_cong [of db ?d] coverage_ok_cong [of db ?d] delivery_ok_cong [of ?d db]
    by (simp add: safe_def registry_ok_def registry_le_eq)
  then show ?thesis
    unfolding resolve_item_def withdraw_attention_event_def by (rule safe_trans [OF _ safe_withdraw_rows])
qed

lemma resolve_item_leases [simp]:
  "leases (resolve_item p now a db) = leases db" "coverage (resolve_item p now a db) = coverage db"
  "cursors (resolve_item p now a db) = cursors db" "attempts (resolve_item p now a db) = attempts db"
  "transitions (resolve_item p now a db) = transitions db" "outbox (resolve_item p now a db) = outbox db"
  by (simp_all add: resolve_item_def withdraw_attention_event_def)

lemma safe_collapse: "safe db (snd (collapse_open_attention p l now db))"
  by (auto simp: collapse_open_attention_def safe_resolve_item intro: safe_fold split: list.split)

lemma collapse_frame [simp]:
  "leases (snd (collapse_open_attention p l now db)) = leases db"
  "coverage (snd (collapse_open_attention p l now db)) = coverage db"
  "cursors (snd (collapse_open_attention p l now db)) = cursors db"
  "attempts (snd (collapse_open_attention p l now db)) = attempts db"
  "transitions (snd (collapse_open_attention p l now db)) = transitions db"
  "outbox (snd (collapse_open_attention p l now db)) = outbox db"
  by (auto simp: collapse_open_attention_def fold_frame split: list.split)

lemma safe_insert_attention:
  assumes "insert_attention r db = Inr db'"
  shows "safe db db'"
proof -
  from assms have d: "db' = db\<lparr>attention := attention db @ [r]\<rparr>"
    and n: "\<not> clash ai_id r (attention db)" "\<not> clash ai_place r (attention db)"
      "sql_exists (\<lambda>l. ls_root l = ai_root r \<and> ls_label l = ai_label r \<and> ls_generation l = ai_generation r) (leases db)"
    by (auto simp: insert_attention_def violation_def split: if_splits)
  from n(3) have "(ai_root r, ai_label r, ai_generation r) \<in> ls_key ` set (leases db)"
    by (force simp: sql_exists_iff ls_key_def)
  with n(1,2) have "attention_ok db'" if "attention_ok db"
    using that by (auto simp: attention_ok_def d clash_def)
  then show ?thesis
    using leases_ok_cong [of db db'] coverage_ok_cong [of db db'] delivery_ok_cong [of db' db]
    by (simp add: safe_def registry_ok_def registry_le_eq d)
qed

definition lease_frame :: "journal \<Rightarrow> journal \<Rightarrow> bool" where
  "lease_frame db db' \<longleftrightarrow> leases db' = leases db \<and> coverage db' = coverage db
     \<and> map cc_owner (cursors db') = map cc_owner (cursors db)
     \<and> attempts db' = attempts db \<and> transitions db' = transitions db \<and> outbox db' = outbox db"

lemma lease_frame_refl [simp]: "lease_frame db db"
  by (simp add: lease_frame_def)

lemma materialize_safe:
  assumes "materialize_attention p l g trigger reason item now db = Inr db'"
  shows "safe db db' \<and> lease_frame db db'"
proof -
  let ?c = "snd (collapse_open_attention p l now db)"
  have c: "safe db ?c" "lease_frame db ?c" by (simp_all add: safe_collapse lease_frame_def)
  from assms consider "db' = db" | "db' = ?c"
    | r db2 ev db3 where "insert_attention r ?c = Inr db2" "insert_event ev db2 = Inr db3"
        "db' = invalidate_snapshots p l now None db3"
    by (auto simp: materialize_attention_def Let_def split: if_splits prod.splits sum.splits)
  then show ?thesis
  proof cases
    case 1
    then show ?thesis by simp
  next
    case 2
    with c show ?thesis by simp
  next
    case 3
    have "lease_frame db db'"
      using 3 c(2) insert_event_Inr [OF 3(2)]
      by (auto simp: lease_frame_def insert_attention_def violation_def split: if_splits)
    then show ?thesis
      using safe_trans [OF c(1) safe_trans [OF safe_insert_attention [OF 3(1)]
          safe_trans [OF safe_insert_event [OF 3(2)] safe_invalidate]]] 3(3) by simp
  qed
qed

text \<open>Ending by expiry.\<close>

lemma expire_active_Inr:
  assumes "expire_active_lease p l g nonce renewed ended item now db = Inr (row, db')"
  shows "safe db db'" "row = None \<Longrightarrow> db' = db"
    "row \<noteq> None \<Longrightarrow> lease_frame (exit_coverage p l g ended ''orphaned''
       (db\<lparr>leases := sql_update (\<lambda>x. ls_root x = p \<and> ls_label x = l \<and> ls_generation x = g
                  \<and> ls_nonce x = nonce \<and> ls_renewed_at x = renewed \<and> ls_state x = ACTIVE)
          (end_lease EXPIRED ended ''holder-dead'') (leases db)\<rparr>)) db'"
proof -
  define hit where "hit = (\<lambda>x :: controller_lease. ls_root x = p \<and> ls_label x = l \<and> ls_generation x = g
                  \<and> ls_nonce x = nonce \<and> ls_renewed_at x = renewed \<and> ls_state x = ACTIVE)"
  define d1 where "d1 = exit_coverage p l g ended ''orphaned''
       (db\<lparr>leases := sql_update hit (end_lease EXPIRED ended ''holder-dead'') (leases db)\<rparr>)"
  have s1: "safe db d1" unfolding d1_def
    by (rule safe_end_generation) (auto simp: hit_def ls_key_def)
  from assms have r: "(row = None \<and> db' = db) \<or>
      materialize_attention p l g ''horizon'' ''holder-dead'' item now d1 = Inr db'"
    unfolding expire_active_lease_def Let_def hit_def [symmetric] d1_def [symmetric]
    by (auto split: if_splits sum.splits)
  then show "safe db db'" using s1 by (auto dest!: materialize_safe intro: safe_trans)
  show "row = None \<Longrightarrow> db' = db"
  proof -
    assume none: "row = None"
    show "db' = db"
    proof (cases "sql_rowcount hit (leases db) = 0")
      case True
      with assms show ?thesis unfolding expire_active_lease_def Let_def hit_def [symmetric] by simp
    next
      case False
      then obtain x where x: "x \<in> set (leases db)" "hit x" by (auto simp: sql_rowcount_0_iff)
      from assms False none have m: "materialize_attention p l g ''horizon'' ''holder-dead'' item now d1 = Inr db'"
        and nr: "lease_row p l g db' = None"
        unfolding expire_active_lease_def Let_def hit_def [symmetric] d1_def [symmetric]
        by (auto split: sum.splits)
      have "end_lease EXPIRED ended ''holder-dead'' x \<in> set (leases db')"
        using materialize_safe [OF m] x by (force simp: lease_frame_def d1_def set_sql_update)
      with nr x(2) show ?thesis by (auto simp: lease_row_def sql_fetchone_None_iff hit_def)
    qed
  qed
  assume "row \<noteq> None"
  with r have "lease_frame d1 db'" by (auto dest: materialize_safe)
  then show "lease_frame (exit_coverage p l g ended ''orphaned''
       (db\<lparr>leases := sql_update (\<lambda>x. ls_root x = p \<and> ls_label x = l \<and> ls_generation x = g
                  \<and> ls_nonce x = nonce \<and> ls_renewed_at x = renewed \<and> ls_state x = ACTIVE)
          (end_lease EXPIRED ended ''holder-dead'') (leases db)\<rparr>)) db'"
    unfolding d1_def hit_def .
qed

lemma expire_all_safe: "expire_all p ended items now dead db = Inr (rows, db') \<Longrightarrow> safe db db'"
proof (induction p ended items now dead db arbitrary: rows db' rule: expire_all.induct)
  case (1 p ended items now db)
  then show ?case by simp
next
  case (2 p ended items now label g nonce renewed rest db)
  from 2(2) obtain row db1 rows' where
    a: "expire_active_lease p label g nonce renewed ended (items label g) now db = Inr (row, db1)"
      "expire_all p ended items now rest db1 = Inr (rows', db')"
    by (auto split: sum.splits)
  show ?case by (rule safe_trans [OF expire_active_Inr(1) [OF a(1)] 2(1) [OF a(1) refl a(2)]])
qed

text \<open>Renewing: the key, the nonce, the state and the ended columns stay.\<close>

lemma safe_renew:
  assumes "\<And>l. ls_key (f l) = ls_key l \<and> ls_nonce (f l) = ls_nonce l \<and> ls_claimed_at (f l) = ls_claimed_at l
      \<and> ls_state (f l) = ls_state l \<and> ls_ended_at (f l) = ls_ended_at l \<and> ls_ended_reason (f l) = ls_ended_reason l"
    and "\<And>l. hit l \<Longrightarrow> ls_state l = ACTIVE"
  shows "safe db (db\<lparr>leases := sql_update hit f (leases db)\<rparr>)" (is "safe db ?d")
proof -
  have pl: "ls_place (f l) = ls_place l" "ls_generation (f l) = ls_generation l" "ls_nonce_key (f l) = ls_nonce_key l" for l
    using assms(1) [of l] by (simp_all add: ls_key_def ls_place_def ls_nonce_key_def)
  have maps: "map ls_key (leases ?d) = map ls_key (leases db)" "map ls_nonce_key (leases ?d) = map ls_nonce_key (leases db)"
    by (simp, rule map_sql_update_same, simp add: assms(1) pl)+
  have keys: "ls_key ` set (leases ?d) = ls_key ` set (leases db)" using maps(1) by (metis list.set_map)
  have rows: "\<exists>m \<in> set (leases db). l = (if hit m then f m else m) \<and> ls_place l = ls_place m \<and> ls_generation l = ls_generation m
      \<and> ls_state l = ls_state m \<and> lease_row_ok l = lease_row_ok m" if "l \<in> set (leases ?d)" for l
  proof -
    have "l \<in> set (sql_update hit f (leases db))" using that by simp
    then show ?thesis
      by (rule sql_updateE) (auto simp: pl assms(1) lease_row_ok_def)
  qed
  have "leases_ok ?d" if lo: "leases_ok db"
  proof -
    have "lease_row_ok l" if "l \<in> set (leases ?d)" for l using rows [OF that] lo unfolding leases_ok_def by metis
    moreover have "ls_generation m \<le> ls_generation l" if "l \<in> set (leases ?d)" "ls_state l = ACTIVE"
        "m \<in> set (leases ?d)" "ls_place m = ls_place l" for l m
      using rows [OF that(1)] rows [OF that(3)] that(2,4) lo unfolding leases_ok_def by metis
    moreover have "(ls_place l, ls_generation l) \<in> cc_owner ` set (cursors ?d)"
      if "l \<in> set (leases ?d)" "ls_state l = ACTIVE" for l
      using rows [OF that(1)] that(2) lo unfolding leases_ok_def by auto
    ultimately show ?thesis using lo unfolding leases_ok_def maps by blast
  qed
  moreover have "coverage_ok ?d" if co: "coverage_ok db"
  proof -
    have "\<exists>l \<in> set (leases ?d). ls_key l = cv_place c \<and> ls_nonce l = cv_nonce c \<and> ls_state l = ACTIVE"
      if c: "c \<in> set (coverage db)" "cv_state c = ARMED" for c
    proof -
      from co c obtain l where "l \<in> set (leases db)" "ls_key l = cv_place c" "ls_nonce l = cv_nonce c" "ls_state l = ACTIVE"
        unfolding coverage_ok_def by blast
      then show ?thesis
        by (intro bexI [of _ "if hit l then f l else l"]) (auto simp: assms(1) set_sql_update)
    qed
    with co show ?thesis unfolding coverage_ok_def keys by simp
  qed
  moreover have "attention_ok ?d" if "attention_ok db"
    by (rule attention_ok_cong [OF that]) (simp_all add: keys [simplified])
  moreover have "registry_le db ?d"
  proof -
    have "\<exists>l' \<in> set (leases ?d). ls_key l' = ls_key l \<and> ls_nonce l' = ls_nonce l
      \<and> ls_claimed_at l' = ls_claimed_at l \<and> (ls_state l \<noteq> ACTIVE \<longrightarrow> l' = l)" if "l \<in> set (leases db)" for l
      using that assms by (intro bexI [of _ "if hit l then f l else l"]) (auto simp: set_sql_update)
    then show ?thesis unfolding registry_le_def using keys by blast
  qed
  ultimately show ?thesis using delivery_ok_cong [of ?d db] by (simp add: safe_def registry_ok_def)
qed

lemma renew_active_safe: "renew_active_action p l nonce g deadline db = Inr (v, db') \<Longrightarrow> safe db db'"
  by (auto simp: renew_active_action_def Let_def ls_key_def split: if_splits option.splits intro!: safe_renew)

lemma renew_same_safe: "renew_same_principal p l owner d active db = Inr (v, db') \<Longrightarrow> safe db db'"
  by (auto simp: renew_same_principal_def Let_def ls_key_def split: sum.splits option.splits intro!: safe_renew)

lemma displace_safe:
  assumes "displace p l takeover ev d active db = Inr (n, db')"
  shows "safe db db'"
proof (cases "proven_dead_incumbent ev active")
  case True
  with assms show ?thesis
    by (auto simp: displace_def split: sum.splits option.splits dest: expire_active_Inr(1))
next
  case False
  with assms have "db' = exit_coverage p l (ls_generation active) (cd_now d) ''superseded''
        (db\<lparr>leases := sql_update
            (\<lambda>x. ls_root x = p \<and> ls_label x = l \<and> ls_generation x = ls_generation active \<and> ls_state x = ACTIVE)
            (end_lease SUPERSEDED (cd_now d) ''explicit-takeover'') (leases db)\<rparr>)"
    by (simp add: displace_def split: if_splits)
  then show ?thesis by (auto intro!: safe_end_generation simp: ls_key_def)
qed

text \<open>A new generation.\<close>

lemma next_generation_gt:
  "l \<in> set (leases db) \<Longrightarrow> ls_place l = (p, label) \<Longrightarrow> ls_generation l < next_generation p label db"
  by (auto simp: next_generation_def ls_place_def less_Suc_eq_le intro: sql_max_ge)

lemma reset_cursor_frame [simp]:
  "leases (reset_cursor p l g now db) = leases db" "coverage (reset_cursor p l g now db) = coverage db"
  "attention (reset_cursor p l g now db) = attention db" "events (reset_cursor p l g now db) = events db"
  "stream_cursors (reset_cursor p l g now db) = stream_cursors db" "rewinds (reset_cursor p l g now db) = rewinds db"
  "attempts (reset_cursor p l g now db) = attempts db" "transitions (reset_cursor p l g now db) = transitions db"
  "outbox (reset_cursor p l g now db) = outbox db"
  by (simp_all add: reset_cursor_def Let_def)

lemma refresh_frame [simp]:
  "leases (refresh_backlog p l db) = leases db" "coverage (refresh_backlog p l db) = coverage db"
  "attention (refresh_backlog p l db) = attention db" "events (refresh_backlog p l db) = events db"
  "stream_cursors (refresh_backlog p l db) = stream_cursors db" "rewinds (refresh_backlog p l db) = rewinds db"
  "attempts (refresh_backlog p l db) = attempts db" "transitions (refresh_backlog p l db) = transitions db"
  "outbox (refresh_backlog p l db) = outbox db"
  by (simp_all add: refresh_backlog_def)

lemma refresh_owner: "map cc_owner (cursors (refresh_backlog p l db)) = map cc_owner (cursors db)"
  unfolding refresh_backlog_def by (simp, rule map_sql_update_same) (simp add: cc_owner_def cc_key_def)

lemma refresh_delivery_ok: "delivery_ok (refresh_backlog p l db) = delivery_ok db"
  using refresh_owner [of p l db] by (simp add: delivery_ok_def cc_key_owner)

lemma reset_cursor_ok: "delivery_ok db \<Longrightarrow> delivery_ok (reset_cursor p l g now db)"
proof -
  assume ok: "delivery_ok db"
  let ?key = "\<lambda>c :: controller_cursor. cc_root c = p \<and> cc_label c = l"
  have "map cc_key (sql_update ?key f (cursors db)) = map cc_key (cursors db)"
    if "\<And>c. cc_key (f c) = cc_key c" for f
    by (rule map_sql_update_same) (simp add: that)
  with ok show ?thesis
    by (auto simp: reset_cursor_def Let_def delivery_ok_def sql_rowcount_0_iff new_cursor_def cc_key_def)
qed

lemma reset_cursor_owner: "((p, l), g) \<in> cc_owner ` set (cursors (reset_cursor p l g now db))"
proof (cases "sql_rowcount (\<lambda>c. cc_root c = p \<and> cc_label c = l) (cursors db) = 0")
  case True
  then show ?thesis by (simp add: reset_cursor_def new_cursor_def cc_owner_def cc_key_def)
next
  case False
  then obtain c where "c \<in> set (cursors db)" "cc_root c = p" "cc_label c = l" by (auto simp: sql_rowcount_0_iff)
  then have "c\<lparr>cc_generation := g, cc_version := Suc (cc_version c),
            cc_updated_at := now, cc_advanced_at := None, cc_advanced_by := None\<rparr> \<in> set (cursors (reset_cursor p l g now db))"
    using False by (auto simp: reset_cursor_def Let_def set_sql_update)
  moreover have "cc_owner (c\<lparr>cc_generation := g, cc_version := Suc (cc_version c),
            cc_updated_at := now, cc_advanced_at := None, cc_advanced_by := None\<rparr>) = ((p, l), g)"
    using \<open>cc_root c = p\<close> \<open>cc_label c = l\<close> by (simp add: cc_owner_def cc_key_def)
  ultimately show ?thesis by (metis imageI)
qed

lemma reset_cursor_other:
  assumes "(k, h) \<in> cc_owner ` set (cursors db)" "k \<noteq> (p, l)"
  shows "(k, h) \<in> cc_owner ` set (cursors (reset_cursor p l g now db))"
proof -
  from assms(1) obtain c where c: "c \<in> set (cursors db)" "cc_owner c = (k, h)" by force
  then have "\<not> (cc_root c = p \<and> cc_label c = l)" using assms(2) by (auto simp: cc_owner_def cc_key_def)
  with c(1) have "c \<in> set (cursors (reset_cursor p l g now db))"
    by (auto simp: reset_cursor_def Let_def set_sql_update)
  with c(2) show ?thesis by force
qed

definition claim_row :: "string \<Rightarrow> string \<Rightarrow> nat \<Rightarrow> string \<Rightarrow> dict \<Rightarrow> claim_draw \<Rightarrow> controller_lease" where
  "claim_row project label generation nonce owner d = \<lparr>ls_root = project, ls_label = label, ls_generation = generation,
     ls_nonce = nonce, ls_principal = canon_dict owner, ls_pid = int_value (jget owner ''pid''),
     ls_start_token = text_value (jget owner ''start_token''), ls_state = ACTIVE,
     ls_claimed_at = cd_now d, ls_renewed_at = cd_now d, ls_deadline_at = cd_deadline d,
     ls_ended_at = None, ls_ended_reason = None\<rparr>"

definition allocated_nonce :: "string option \<Rightarrow> claim_draw \<Rightarrow> string option \<Rightarrow> string" where
  "allocated_nonce nonce d replaced =
     (if replaced \<noteq> None \<and> nonce \<noteq> None \<and> nonce = replaced then cd_nonce d
      else case nonce of None \<Rightarrow> cd_nonce d | Some n \<Rightarrow> n)"

lemma insert_leaseD:
  assumes "insert_lease r db = Inr db'"
  shows "db' = db\<lparr>leases := leases db @ [r]\<rparr>" "ls_key r \<notin> ls_key ` set (leases db)"
    "ls_nonce_key r \<notin> ls_nonce_key ` set (leases db)"
    "ls_state r = ACTIVE \<Longrightarrow> l \<in> set (leases db) \<Longrightarrow> ls_place l = ls_place r \<Longrightarrow> ls_state l \<noteq> ACTIVE"
  using assms by (auto simp: insert_lease_def violation_def clash_def sql_exists_iff split: if_splits)

lemma claim_new_Inr:
  assumes "claim_new p l owner nonce d replaced db = Inr (v, db')"
  shows "safe db db'" "leases db' = leases db @ [claim_row p l (next_generation p l db) (allocated_nonce nonce d replaced) owner d]"
    "v \<in> set (leases db')" "ls_place v = (p, l)" "ls_generation v = next_generation p l db"
    "coverage db' = coverage db" "((p, l), next_generation p l db) \<in> cc_owner ` set (cursors db')"
proof -
  let ?g = "next_generation p l db"
  let ?row = "claim_row p l ?g (allocated_nonce nonce d replaced) owner d"
  from assms obtain db1 where i: "insert_lease ?row db = Inr db1"
    and db': "db' = refresh_backlog p l (reset_cursor p l ?g (cd_now d) db1)" "lease_row p l ?g db' = Some v"
    by (auto simp: claim_new_def Let_def claim_row_def allocated_nonce_def split: sum.splits option.splits)
  note I = insert_leaseD [OF i]
  have row: "ls_place ?row = (p, l)" "ls_generation ?row = ?g" "ls_state ?row = ACTIVE" "lease_row_ok ?row"
    by (simp_all add: claim_row_def ls_place_def lease_row_ok_def next_generation_def)
  show L: "leases db' = leases db @ [?row]" by (simp add: db'(1) I(1))
  from db'(2) show "v \<in> set (leases db')" "ls_place v = (p, l)" "ls_generation v = ?g"
    by (auto simp: lease_row_def ls_place_def dest!: sql_fetchone_SomeD)
  show cov: "coverage db' = coverage db" by (simp add: db'(1) I(1))
  have own: "cc_owner ` set (cursors db') = cc_owner ` set (cursors (reset_cursor p l ?g (cd_now d) db1))"
    unfolding db'(1) using refresh_owner by (metis list.set_map)
  show mine: "((p, l), ?g) \<in> cc_owner ` set (cursors db')" unfolding own by (rule reset_cursor_owner)
  have c1: "cursors db1 = cursors db" by (simp add: I(1))
  show "safe db db'"
    unfolding safe_def
  proof
    assume ok: "registry_ok db"
    then have lo: "leases_ok db" and co: "coverage_ok db" and ao: "attention_ok db" and dl: "delivery_ok db"
      by (simp_all add: registry_ok_def)
    have new: "ls_generation m < ?g" if "m \<in> set (leases db)" "ls_place m = (p, l)" for m
      by (rule next_generation_gt [OF that])
    have old: "(ls_place m, ls_generation m) \<in> cc_owner ` set (cursors db')"
      if m: "m \<in> set (leases db)" "ls_state m = ACTIVE" for m
    proof -
      have "ls_place m \<noteq> (p, l)" using I(4) [OF row(3) m(1)] m(2) row(1) by auto
      moreover have "(ls_place m, ls_generation m) \<in> cc_owner ` set (cursors db1)"
        using lo m c1 by (simp add: leases_ok_def)
      ultimately show ?thesis unfolding own by (intro reset_cursor_other)
    qed
    have "ls_generation m \<le> ls_generation x" if "x \<in> set (leases db')" "ls_state x = ACTIVE" "m \<in> set (leases db')" "ls_place m = ls_place x" for x m
    proof (cases "x = ?row")
      case True
      with that row new show ?thesis by (auto simp: L less_imp_le)
    next
      case False
      then have x: "x \<in> set (leases db)" using that(1) by (auto simp: L)
      then have "ls_place x \<noteq> (p, l)" using I(4) [OF row(3) x] that(2) row(1) by auto
      then have "m \<noteq> ?row" using that(4) row(1) by metis
      then have "m \<in> set (leases db)" using that(3) by (auto simp: L)
      with lo x that show ?thesis unfolding leases_ok_def by blast
    qed
    moreover have "lease_row_ok m" if "m \<in> set (leases db')" for m
      using that lo row(4) by (auto simp: L leases_ok_def)
    moreover have "(ls_place m, ls_generation m) \<in> cc_owner ` set (cursors db')"
      if "m \<in> set (leases db')" "ls_state m = ACTIVE" for m
      using that mine old row(1,2) by (auto simp: L)
    moreover have "distinct (map ls_key (leases db'))" "distinct (map ls_nonce_key (leases db'))"
      using lo I(2,3) by (auto simp: L leases_ok_def)
    ultimately have "leases_ok db'" unfolding leases_ok_def by blast
    moreover have "coverage_ok db'" using co unfolding coverage_ok_def cov by (auto simp: L)
    moreover have "attention_ok db'" by (rule attention_ok_cong [OF ao]) (auto simp: L db'(1) I(1))
    moreover have "delivery_ok db'"
      unfolding db'(1) refresh_delivery_ok by (rule reset_cursor_ok) (use dl in \<open>simp add: I(1) delivery_ok_def\<close>)
    moreover have "registry_le db db'"
    proof -
      have "ls_key m \<in> ls_key ` set (leases db) \<or> (\<forall>x \<in> set (leases db). ls_place x = ls_place m \<longrightarrow> ls_generation x < ls_generation m)"
        if m: "m \<in> set (leases db')" for m
      proof (cases "m = ?row")
        case True
        with row new show ?thesis by auto
      next
        case False
        with m show ?thesis by (auto simp: L)
      qed
      then show ?thesis unfolding registry_le_def by (auto simp: L)
    qed
    ultimately show "registry_ok db' \<and> registry_le db db'" by (simp add: registry_ok_def)
  qed
qed

lemma claim_safe: "claim_action p l owner nonce takeover ev d db = Inr (v, db') \<Longrightarrow> safe db db'"
  by (auto simp: claim_action_def Let_def split: option.splits if_splits sum.splits
      intro: safe_trans [OF safe_collapse] safe_trans [OF safe_collapse safe_trans]
        dest!: claim_new_Inr(1) renew_same_safe displace_safe)

lemma readdress_Inr: "readdress q label db = Inr db' \<Longrightarrow> \<exists>ev. db' = db\<lparr>events := ev\<rparr>"
  by (auto simp: readdress_def violation_def Let_def split: if_splits)

lemma rehome_Inr:
  assumes "rehome_retired p l now db = Inr (n, db')"
  shows "\<exists>ev. db' = db\<lparr>events := ev\<rparr>" "delivery_ok db \<Longrightarrow> delivery_ok db'"
proof -
  from assms obtain q d r where d: "d = withdraw_rows q now db" "readdress r ''*'' d = Inr db'"
    by (auto simp: rehome_retired_def Let_def split: sum.splits)
  from readdress_Inr [OF d(2)] show "\<exists>ev. db' = db\<lparr>events := ev\<rparr>"
    by (auto simp: d(1) withdraw_rows_def)
  show "delivery_ok db \<Longrightarrow> delivery_ok db'"
    using d by (auto intro: withdraw_rows_ok readdress_ok)
qed

lemma release_safe:
  assumes "release_action p l nonce reason now db = Inr (v, db')"
  shows "safe db db'"
proof -
  from assms obtain row where row: "sql_fetchone (\<lambda>x. ls_root x = p \<and> ls_label x = l \<and> ls_nonce x = nonce \<and> ls_state x = ACTIVE)
         (leases db) = Some row"
    by (auto simp: release_action_def split: option.splits)
  define g where "g = ls_generation row"
  define db1 where "db1 = db\<lparr>leases := sql_update
                 (\<lambda>x. ls_root x = p \<and> ls_label x = l \<and> ls_generation x = g \<and> ls_state x = ACTIVE)
                 (end_lease RETIRED now reason) (leases db)\<rparr>"
  from assms obtain n db2 where re: "rehome_retired p l now db1 = Inr (n, db2)"
    and db': "db' = exit_coverage p l g now ''orphaned'' (if n \<noteq> 0 then invalidate_snapshots p ''*'' now (Some l) db2 else db2)"
    unfolding release_action_def row option.case Let_def g_def [symmetric] db1_def [symmetric]
    by (auto split: sum.splits)
  have s1: "safe db (exit_coverage p l g now ''orphaned'' db1)"
    unfolding db1_def by (rule safe_end_generation) (auto simp: ls_key_def)
  from rehome_Inr(1) [OF re] obtain ev where d2: "db2 = db1\<lparr>events := ev\<rparr>" by blast
  have "safe (exit_coverage p l g now ''orphaned'' db1) db'"
  proof (rule safe_frame)
    show "delivery_ok db'" if "delivery_ok (exit_coverage p l g now ''orphaned'' db1)"
    proof -
      have "delivery_ok db1" using that delivery_ok_cong [of "exit_coverage p l g now ''orphaned'' db1" db1] by simp
      then have "delivery_ok db2" by (rule rehome_Inr(2) [OF re])
      then show ?thesis
        using delivery_ok_cong [of db' "if n \<noteq> 0 then invalidate_snapshots p ''*'' now (Some l) db2 else db2"]
        by (simp add: db' split: if_splits)
    qed
    show "cc_owner ` set (cursors (exit_coverage p l g now ''orphaned'' db1)) \<subseteq> cc_owner ` set (cursors db')"
      by (rule owners_subset) (simp add: db' d2)
  qed (simp_all add: db' d2 exit_coverage_def)
  with s1 show ?thesis by (rule safe_trans)
qed

lemma sql_update_False [simp]: "sql_update (\<lambda>_. False) f rs = rs"
  by (simp add: sql_update_def)

lemma safe_exit_coverage: "safe db (exit_coverage p l g now r db)"
  using safe_end_generation [of RETIRED "\<lambda>_. False" p l g db now r now r] by simp

lemma active_rowD:
  "active_row p l db = Some x \<Longrightarrow> x \<in> set (leases db) \<and> ls_root x = p \<and> ls_label x = l \<and> ls_state x = ACTIVE"
  by (auto simp: active_row_def dest: sql_fetchone_SomeD)

lemma arm_safe:
  assumes "arm_listener_action p l nonce pid tok ppid id' now db = Inr (v, db')"
  shows "safe db db'"
proof -
  from assms obtain lease where lease: "active_row p l db = Some lease" "ls_nonce lease = nonce"
    by (auto simp: arm_listener_action_def split: option.splits if_splits)
  let ?d = "exit_coverage p l (ls_generation lease) now ''superseded'' db"
  let ?row = "\<lparr>cv_id = id', cv_root = p, cv_label = l, cv_generation = ls_generation lease,
                   cv_nonce = nonce, cv_pid = pid, cv_start_token = tok, cv_parent_pid = ppid,
                   cv_armed_at = now, cv_state = ARMED, cv_exited_at = None, cv_exit_reason = None\<rparr>"
  from assms lease have i: "insert_coverage ?row ?d = Inr db'"
    by (auto simp: arm_listener_action_def Let_def split: sum.splits)
  then have I: "db' = ?d\<lparr>coverage := coverage ?d @ [?row]\<rparr>" "\<not> clash cv_id ?row (coverage ?d)"
    "\<not> sql_exists (\<lambda>c. cv_place c = cv_place ?row \<and> cv_state c = ARMED) (coverage ?d)"
    by (auto simp: insert_coverage_def violation_def split: if_splits)
  note A = active_rowD [OF lease(1)]
  have "registry_ok db' \<and> registry_le ?d db'" if ok: "registry_ok ?d"
  proof -
    have pl: "ls_key lease = cv_place ?row" "lease \<in> set (leases ?d)" using A by (simp_all add: ls_key_def cv_place_def)
    have co: "coverage_ok ?d" using ok by (simp add: registry_ok_def)
    have "distinct (map cv_place (filter (\<lambda>c. cv_state c = ARMED) (coverage db')))"
      using co I(3) by (auto simp: I(1) coverage_ok_def sql_exists_iff)
    moreover have "distinct (map cv_id (coverage db'))" using co I(2) by (auto simp: I(1) coverage_ok_def clash_def)
    moreover have "coverage_row_ok c \<and> cv_place c \<in> ls_key ` set (leases db')" if "c \<in> set (coverage db')" for c
    proof (cases "c = ?row")
      case True
      with pl show ?thesis by (auto simp: I(1) coverage_row_ok_def intro!: rev_image_eqI)
    next
      case False
      with that have "c \<in> set (coverage ?d)" by (simp add: I(1))
      with co show ?thesis unfolding coverage_ok_def I(1) by simp
    qed
    moreover have "\<exists>x \<in> set (leases db'). ls_key x = cv_place c \<and> ls_nonce x = cv_nonce c \<and> ls_state x = ACTIVE"
      if c: "c \<in> set (coverage db')" "cv_state c = ARMED" for c
    proof (cases "c = ?row")
      case True
      with pl lease(2) A show ?thesis by (intro bexI [of _ lease]) (simp_all add: I(1))
    next
      case False
      with c have "c \<in> set (coverage ?d)" by (simp add: I(1))
      with co c(2) show ?thesis unfolding coverage_ok_def I(1) by simp
    qed
    ultimately have "coverage_ok db'" unfolding coverage_ok_def by blast
    moreover have "leases_ok db'" by (rule leases_ok_cong [of ?d]) (use ok in \<open>simp_all add: I(1) registry_ok_def\<close>)
    moreover have "attention_ok db'" by (rule attention_ok_cong [of ?d]) (use ok in \<open>simp_all add: I(1) registry_ok_def\<close>)
    moreover have "delivery_ok db'"
      using ok delivery_ok_cong [of db' ?d] by (simp add: I(1) registry_ok_def)
    ultimately show ?thesis by (simp add: registry_ok_def registry_le_eq I(1))
  qed
  then have "safe ?d db'" by (simp add: safe_def)
  with safe_exit_coverage show ?thesis by (rule safe_trans)
qed

lemma exit_row_simps [simp]:
  "cv_id (exit_row now r c) = cv_id c" "cv_place (exit_row now r c) = cv_place c" "cv_state (exit_row now r c) = EXITED"
  "coverage_row_ok (exit_row now r c)"
  by (simp_all add: exit_row_def cv_place_def coverage_row_ok_def)

lemma safe_exit_rows: "safe db (db\<lparr>coverage := sql_update (\<lambda>c. q c \<and> cv_state c = ARMED) (exit_row now r) (coverage db)\<rparr>)" (is "safe db ?d")
proof -
  have "coverage_ok ?d" if co: "coverage_ok db"
  proof -
    have ids: "map cv_id (coverage ?d) = map cv_id (coverage db)" by (simp, rule map_sql_update_same) simp
    have armed: "filter (\<lambda>c. cv_state c = ARMED) (sql_update (\<lambda>c. q c \<and> cv_state c = ARMED) (exit_row now r) cs)
        = filter (\<lambda>c. cv_state c = ARMED \<and> \<not> q c) cs" for cs
      by (induction cs) (auto simp: sql_update_def)
    have "distinct (map cv_place (filter (\<lambda>c. cv_state c = ARMED) (coverage ?d)))"
      using co by (simp add: armed coverage_ok_def distinct_map_filter_sub)
    moreover have "coverage_row_ok c \<and> cv_place c \<in> ls_key ` set (leases db)" if "c \<in> set (coverage ?d)" for c
    proof -
      from that have "c \<in> set (sql_update (\<lambda>c. q c \<and> cv_state c = ARMED) (exit_row now r) (coverage db))" by simp
      then show ?thesis by (rule sql_updateE) (use co in \<open>auto simp: coverage_ok_def\<close>)
    qed
    moreover have "c \<in> set (coverage db)" if "c \<in> set (coverage ?d)" "cv_state c = ARMED" for c
    proof -
      have "c \<in> set (filter (\<lambda>c. cv_state c = ARMED) (coverage ?d))" using that by simp
      then show ?thesis by (simp add: armed)
    qed
    ultimately show ?thesis using co unfolding coverage_ok_def ids by simp
  qed
  then show ?thesis
    using leases_ok_cong [of db ?d] attention_ok_cong [of db ?d] delivery_ok_cong [of ?d db]
    by (simp add: safe_def registry_ok_def registry_le_eq)
qed

lemma exit_listener_safe: "exit_listener_action id' reason item now db = Inr (v, db') \<Longrightarrow> safe db db'"
  by (auto simp: exit_listener_action_def Let_def safe_exit_rows split: option.splits if_splits sum.splits
      dest!: materialize_safe intro: safe_trans [OF safe_exit_rows])

lemma safe_system: "safe db (db\<lparr>system_attention := xs\<rparr>)"
  by (rule safe_frame) (simp_all add: delivery_ok_def)

lemma record_system_safe: "record_system_action p ty reason ns item payload now db = Inr (v, db') \<Longrightarrow> safe db db'"
  by (auto simp: record_system_action_def Let_def safe_system split: sum.splits if_splits
      intro: safe_trans [OF safe_system safe_trans [OF safe_insert_event safe_invalidate]]
        safe_trans [OF safe_insert_event safe_invalidate])

lemma resolve_system_safe: "resolve_system_action p ty dispatch keep now db = Inr (v, db') \<Longrightarrow> safe db db'"
  by (auto simp: resolve_system_action_def Let_def resolve_system_item_def withdraw_attention_event_def
      intro!: safe_fold safe_trans [OF safe_system safe_withdraw_rows])

text \<open>Delivery.\<close>

lemma withdraw_replaced_frame [simp]:
  "leases (withdraw_replaced p now k db) = leases db" "coverage (withdraw_replaced p now k db) = coverage db"
  "attention (withdraw_replaced p now k db) = attention db" "cursors (withdraw_replaced p now k db) = cursors db"
  "attempts (withdraw_replaced p now k db) = attempts db" "transitions (withdraw_replaced p now k db) = transitions db"
  "outbox (withdraw_replaced p now k db) = outbox db"
  by (simp_all add: withdraw_replaced_alt)

lemma record_safe: "record_delivery_action p e w now db = Inr (v, db') \<Longrightarrow> safe db db'"
proof -
  assume run: "record_delivery_action p e w now db = Inr (v, db')"
  have s: "safe db (fold (withdraw_replaced p w) keys db)" for keys
    by (rule safe_fold, rule safe_frame) (simp_all add: withdraw_replaced_ok)
  from run show ?thesis
    by (auto simp: record_delivery_action_def Let_def s split: option.splits if_splits sum.splits
      intro: safe_trans [OF s safe_trans [OF safe_insert_event safe_invalidate]])
qed

lemma enqueue_wake_frame2 [simp]: "attention (enqueue_wake now e db) = attention db"
  by (simp add: enqueue_wake_def Let_def)

lemma project_safe: "mark_projected_action p enq r o' u now now2 db = Inr (v, db') \<Longrightarrow> safe db db'"
proof -
  assume run: "mark_projected_action p enq r o' u now now2 db = Inr (v, db')"
  show ?thesis
  proof (rule safe_frame)
    show "delivery_ok db \<Longrightarrow> delivery_ok db'" by (rule mark_projected_ok [OF _ run])
  qed (use run in \<open>auto simp: mark_projected_action_def Let_def split: option.splits intro!: owners_subset\<close>)
qed

lemma withdraw_safe: "withdraw_action p r o' u now db = Inr (v, db') \<Longrightarrow> safe db db'"
proof -
  assume run: "withdraw_action p r o' u now db = Inr (v, db')"
  show ?thesis
  proof (rule safe_frame)
    show "delivery_ok db \<Longrightarrow> delivery_ok db'" by (rule withdraw_action_ok [OF _ run])
  qed (use run in \<open>auto simp: withdraw_action_def Let_def split: option.splits if_splits intro!: owners_subset\<close>)
qed

end
