(* ===== verification/GF_Lease_Props.thy ===== *)
theory GF_Lease_Props
  imports GF_Lease_Lemmas
begin

text \<open>
  Histories of the controller registry and what they guarantee: who owns a label, that ended
  generations are fenced for good, what the expiry sweep may end, and which claims succeed.
\<close>

lemma advance_safe:
  assumes "advance_checks a = Inr ()" "distinct (map fst (av_advances a))"
    and "advance_cursor_action sha p a now db = Inr (v, db')"
  shows "safe db db'"
  unfolding safe_def
proof
  assume ok: "registry_ok db"
  then have d: "delivery_ok db" by (simp add: registry_ok_def)
  from d assms show "registry_ok db' \<and> registry_le db db'"
    by (rule advance_Inr) (rule registry_frame [OF ok], simp_all add: same_rest_def)
qed

lemma set_cursor_checksD:
  "set_cursor_checks l ps actor = Inr () \<Longrightarrow> identity_token l \<and> identity_token actor"
  by (auto simp: set_cursor_checks_def need_identity_token_def split: if_splits option.splits)

lemma set_cursor_Inr:
  assumes d: "delivery_ok db" and chk: "set_cursor_checks l ps actor = Inr ()" "\<And>qs. ps' = Some qs \<Longrightarrow> distinct (map fst qs)"
    and run: "set_cursor_action p l ps' actor now db = Inr (v, db')"
  shows "delivery_ok db'" "same_rest db db'" "cc_owner ` set (cursors db) \<subseteq> cc_owner ` set (cursors db')"
proof -
  let ?d = "ensure_cursor p l now db"
  note E = ensure_cursor_ok [OF d, of p l now]
  note T = set_cursor_checksD [OF chk(1)]
  define targets where "targets = (case ps' of None \<Rightarrow> drain_targets p l ?d | Some qs \<Rightarrow> qs)"
  have dist: "distinct (map fst targets)"
    using chk(2) drain_targets_props(1) by (simp add: targets_def split: option.split)
  from E(2) obtain c where c: "cursor_row p l ?d = Some c" by blast
  from run have w: "write_cursor_positions p l (cc_generation c) (cc_version c) targets (current_positions p l ?d) actor now ?d = Inr (v, db')"
    by (simp add: set_cursor_action_def Let_def c targets_def)
  from write_cursor_positions_ok [OF E(1) identity_not_star [OF conjunct1 [OF T]] c refl token_strip [OF conjunct2 [OF T]] dist,
      of "cc_version c" "current_positions p l ?d" now] w
  have W: "delivery_ok db'" "same_rest ?d db'" "map cc_owner (cursors db') = map cc_owner (cursors ?d)" by auto
  show "delivery_ok db'" by (rule W(1))
  show "same_rest db db'" using W(2) E(5) by (simp add: same_rest_def)
  have "cc_owner ` set (cursors db') = cc_owner ` set (cursors ?d)" using W(3) by (metis list.set_map)
  then show "cc_owner ` set (cursors db) \<subseteq> cc_owner ` set (cursors db')" by (auto simp: ensure_cursor_def)
qed

lemma set_cursor_safe:
  assumes "set_cursor_checks l ps actor = Inr ()" "\<And>qs. ps' = Some qs \<Longrightarrow> distinct (map fst qs)"
    and "set_cursor_action p l ps' actor now db = Inr (v, db')"
  shows "safe db db'"
  unfolding safe_def
proof
  assume ok: "registry_ok db"
  then have d: "delivery_ok db" by (simp add: registry_ok_def)
  from set_cursor_Inr [OF d assms(1) _ assms(3)] assms(2) show "registry_ok db' \<and> registry_le db db'"
    by (intro registry_frame [OF ok]) (simp_all add: same_rest_def)
qed

section \<open>Histories of the registry\<close>

inductive registry_step :: "journal \<Rightarrow> journal \<Rightarrow> bool" where
  rec: "record_delivery_action p e w now db = Inr (r, db') \<Longrightarrow> registry_step db db'"
| project: "mark_projected_action p enq rcp o' u now now2 db = Inr (pj, db') \<Longrightarrow> registry_step db db'"
| withdraw: "withdraw_action p rcp o' u now db = Inr (ev, db') \<Longrightarrow> registry_step db db'"
| advance: "advance_checks a = Inr () \<Longrightarrow> distinct (map fst (av_advances a)) \<Longrightarrow>
     advance_cursor_action sha p a now db = Inr (cw, db') \<Longrightarrow> registry_step db db'"
| set_cursor: "set_cursor_checks l ps actor = Inr () \<Longrightarrow> (\<And>qs. ps' = Some qs \<Longrightarrow> distinct (map fst qs)) \<Longrightarrow>
     set_cursor_action p l ps' actor now db = Inr (cw, db') \<Longrightarrow> registry_step db db'"
| expire: "expire_all p ended items now dead db = Inr (ls, db') \<Longrightarrow> registry_step db db'"
| renew: "renew_active_action p l nonce g deadline db = Inr (le, db') \<Longrightarrow> registry_step db db'"
| claim: "claim_action p l owner supplied takeover evidence d db = Inr (le, db') \<Longrightarrow> registry_step db db'"
| release: "release_action p l nonce reason now db = Inr (le, db') \<Longrightarrow> registry_step db db'"
| arm: "arm_listener_action p l nonce pid tok ppid id' now db = Inr (cv, db') \<Longrightarrow> registry_step db db'"
| exit_arm: "exit_listener_action id' reason item now db = Inr (cv, db') \<Longrightarrow> registry_step db db'"
| system: "record_system_action p ty reason ns item payload now db = Inr (sy, db') \<Longrightarrow> registry_step db db'"
| resolve: "resolve_system_action p ty dispatch keep now db = Inr (ids, db') \<Longrightarrow> registry_step db db'"
| other: "delivery_ok db' \<Longrightarrow> leases db' = leases db \<Longrightarrow> coverage db' = coverage db \<Longrightarrow> attention db' = attention db \<Longrightarrow>
     map cc_owner (cursors db') = map cc_owner (cursors db) \<Longrightarrow> registry_step db db'"

lemma registry_step_safe: "registry_step db db' \<Longrightarrow> safe db db'"
proof (induction rule: registry_step.induct)
  case (set_cursor l ps actor ps' p now db cw db')
  show ?case by (rule set_cursor_safe [OF set_cursor(1) set_cursor(2) set_cursor(3)])
next
  case (other db' db)
  then show ?case by (intro safe_frame owners_subset)
qed (blast intro: record_safe project_safe withdraw_safe advance_safe expire_all_safe renew_active_safe claim_safe
    release_safe arm_safe exit_listener_safe record_system_safe resolve_system_safe)+

lemma registry_step_keeps: "registry_step db db' \<Longrightarrow> registry_ok db \<Longrightarrow> registry_ok db' \<and> registry_le db db'"
  using registry_step_safe by (auto simp: safe_def)

lemma registry_ok_empty: "registry_ok empty_journal"
  by (simp add: registry_ok_def delivery_ok_def leases_ok_def coverage_ok_def attention_ok_def empty_journal_def)

lemma registry_steps_keep:
  "registry_step\<^sup>*\<^sup>* db db' \<Longrightarrow> registry_ok db \<Longrightarrow> registry_ok db' \<and> registry_le db db'"
  by (induction rule: rtranclp_induct) (auto intro: registry_le_refl dest: registry_step_keeps registry_le_trans)

interpretation reg: txn_contract registry_ok registry_le
  by unfold_locales (fact registry_le_refl, fact registry_le_trans)

text \<open>That a generation has ended, and how, is a decision: the first writer's row stays.\<close>

definition ended_as :: "string \<times> string \<times> nat \<Rightarrow> journal \<Rightarrow> controller_lease \<Rightarrow> bool" where
  "ended_as k db l \<longleftrightarrow> l \<in> set (leases db) \<and> ls_key l = k \<and> ls_state l \<noteq> ACTIVE"

interpretation ended: decision registry_ok registry_step ended_as
proof
  show "registry_ok db \<Longrightarrow> registry_step db db' \<Longrightarrow> registry_ok db'" for db db'
    using registry_step_keeps by blast
  show "ended_as k db' l" if "registry_ok db" "registry_step db db'" "ended_as k db l" for db db' k l
    using registry_step_keeps [OF that(2,1)] that(3) by (fastforce simp: ended_as_def registry_le_def)
  show "l = m" if "registry_ok db" "ended_as k db l" "ended_as k db m" for db k l m
    using that by (auto simp: ended_as_def registry_ok_def leases_ok_def intro: keyed_eq [of ls_key])
qed

section \<open>Ownership\<close>

lemma active_unique:
  assumes "leases_ok db" "l \<in> set (leases db)" "m \<in> set (leases db)" "ls_state l = ACTIVE" "ls_state m = ACTIVE"
    and "ls_place l = ls_place m"
  shows "l = m"
proof (rule keyed_eq [of ls_key])
  show "distinct (map ls_key (leases db))" using assms(1) by (simp add: leases_ok_def)
  have "ls_generation l \<le> ls_generation m" "ls_generation m \<le> ls_generation l"
    using assms unfolding leases_ok_def by metis+
  then show "ls_key l = ls_key m" using assms(6) by (simp add: ls_key_def ls_place_def)
qed (use assms in simp_all)

lemma active_rowI:
  assumes "leases_ok db" "l \<in> set (leases db)" "ls_state l = ACTIVE" "ls_place l = (p, label)"
  shows "active_row p label db = Some l"
  unfolding active_row_def
  by (rule sql_fetchone_unique) (use assms in \<open>auto simp: ls_place_def intro!: active_unique [OF assms(1)]\<close>)

lemma lease_rowD: "lease_row p l g db = Some x \<Longrightarrow> x \<in> set (leases db) \<and> ls_key x = (p, l, g)"
  by (auto simp: lease_row_def ls_key_def dest: sql_fetchone_SomeD)

lemma renew_same_Inr:
  assumes "leases_ok db" "renew_same_principal p label owner d a db = Inr (l, db')" "a \<in> set (leases db)"
    "ls_state a = ACTIVE" "ls_place a = (p, label)"
  shows "ls_key l = ls_key a" "ls_nonce l = ls_nonce a" "ls_state l = ACTIVE" "l \<in> set (leases db')"
    "map ls_key (leases db') = map ls_key (leases db)" "ls_principal l = canon_dict owner"
proof -
  from assms(2) obtain t where d': "db' = db\<lparr>leases := sql_update
                 (\<lambda>l. ls_root l = p \<and> ls_label l = label \<and> ls_generation l = ls_generation a
                    \<and> ls_nonce l = ls_nonce a \<and> ls_state l = ACTIVE)
                 (\<lambda>l. l\<lparr>ls_renewed_at := t, ls_deadline_at := cd_deadline d,
                        ls_principal := canon_dict owner, ls_pid := int_value (jget owner ''pid''),
                        ls_start_token := text_value (jget owner ''start_token'')\<rparr>) (leases db)\<rparr>"
    and l: "lease_row p label (ls_generation a) db' = Some l"
    by (auto simp: renew_same_principal_def Let_def split: sum.splits option.splits)
  show keys: "map ls_key (leases db') = map ls_key (leases db)"
    unfolding d' by (simp, rule map_sql_update_same) (simp add: ls_key_def)
  note L = lease_rowD [OF l]
  from L show mem: "l \<in> set (leases db')" by blast
  show key: "ls_key l = ls_key a" using L assms(5) by (simp add: ls_key_def ls_place_def)
  let ?a = "a\<lparr>ls_renewed_at := t, ls_deadline_at := cd_deadline d,
                        ls_principal := canon_dict owner, ls_pid := int_value (jget owner ''pid''),
                        ls_start_token := text_value (jget owner ''start_token'')\<rparr>"
  have a': "?a \<in> set (leases db')" using assms(3-5) by (force simp: d' set_sql_update ls_place_def)
  have "l = ?a"
  proof (rule keyed_eq [of ls_key, OF _ mem a'])
    show "distinct (map ls_key (leases db'))" using assms(1) keys by (simp add: leases_ok_def)
    show "ls_key l = ls_key ?a" using key by (simp add: ls_key_def)
  qed
  with assms(4) show "ls_nonce l = ls_nonce a" "ls_state l = ACTIVE" "ls_principal l = canon_dict owner" by simp_all
qed

lemma displaced_ended:
  assumes "displace p label takeover ev d a db = Inr (n, db')" "a \<in> set (leases db)" "ls_state a = ACTIVE"
    "ls_place a = (p, label)"
  shows "takeover \<or> proven_dead_incumbent ev a" "\<exists>e. ended_as (ls_key a) db' e" "n = ls_nonce a"
proof -
  show "takeover \<or> proven_dead_incumbent ev a" "n = ls_nonce a"
    using assms(1) by (auto simp: displace_def split: if_splits sum.splits option.splits)
  have pl: "ls_root a = p" "ls_label a = label" using assms(4) by (simp_all add: ls_place_def)
  show "\<exists>e. ended_as (ls_key a) db' e"
  proof (cases "proven_dead_incumbent ev a")
    case True
    with assms(1) obtain row where x: "expire_active_lease p label (ls_generation a) (ls_nonce a) (ls_renewed_at a)
            (cd_now d) (cd_item d) (cd_now d) db = Inr (Some row, db')"
      by (auto simp: displace_def split: sum.splits option.splits)
    have "end_lease EXPIRED (cd_now d) ''holder-dead'' a \<in> set (leases db')"
      using expire_active_Inr(3) [OF x] assms(2,3) pl by (force simp: lease_frame_def set_sql_update)
    then show ?thesis by (intro exI [of _ "end_lease EXPIRED (cd_now d) ''holder-dead'' a"]) (simp add: ended_as_def)
  next
    case False
    with assms have "end_lease SUPERSEDED (cd_now d) ''explicit-takeover'' a \<in> set (leases db')"
      using pl by (force simp: displace_def set_sql_update split: if_splits)
    then show ?thesis by (intro exI [of _ "end_lease SUPERSEDED (cd_now d) ''explicit-takeover'' a"]) (simp add: ended_as_def)
  qed
qed

lemma ended_as_le: "registry_le a b \<Longrightarrow> ended_as k a e \<Longrightarrow> ended_as k b e"
  by (fastforce simp: ended_as_def registry_le_def)

text \<open>
  C5. A claim respects the incumbent. When another generation is active, a committed claim either
  renews that very generation for the principal that owns it, with key and nonce unchanged and no new
  row, or was authorised by an explicit takeover or by a proof that exactly this generation's holder
  is dead; then the old generation is ended and the new one is newer.
\<close>

theorem claim_respects_incumbent:
  assumes "registry_ok db" "active_row project label db = Some a"
    and "claim_action project label owner nonce takeover evidence d db = Inr (l, db')"
  shows "(principal_matches a owner \<and> ls_key l = ls_key a \<and> ls_nonce l = ls_nonce a
          \<and> map ls_key (leases db') = map ls_key (leases db))
     \<or> (\<not> principal_matches a owner \<and> (takeover \<or> proven_dead_incumbent evidence a)
          \<and> ls_place l = ls_place a \<and> ls_generation a < ls_generation l \<and> (\<exists>e. ended_as (ls_key a) db' e))"
proof -
  let ?db0 = "snd (collapse_open_attention project label (cd_now d) db)"
  have a0: "active_row project label ?db0 = Some a" using assms(2) by (simp add: active_row_def)
  note A = active_rowD [OF a0]
  have ok0: "registry_ok ?db0" using safe_collapse assms(1) unfolding safe_def by blast
  show ?thesis
  proof (cases "principal_matches a owner")
    case True
    with assms(3) a0 have r: "renew_same_principal project label owner d a ?db0 = Inr (l, db')"
      by (simp add: claim_action_def Let_def)
    from renew_same_Inr [OF _ r] A ok0 True show ?thesis by (simp add: registry_ok_def ls_place_def)
  next
    case False
    with assms(3) a0 obtain n db1 where x: "displace project label takeover evidence d a ?db0 = Inr (n, db1)"
      and c: "claim_new project label owner nonce d (Some n) db1 = Inr (l, db')"
      by (auto simp: claim_action_def Let_def split: sum.splits)
    have pl: "ls_place a = (project, label)" using A by (simp add: ls_place_def)
    from displaced_ended [OF x _ _ pl] A obtain e where e: "takeover \<or> proven_dead_incumbent evidence a" "ended_as (ls_key a) db1 e"
      by auto
    from displace_safe [OF x] ok0 have ok1: "registry_ok db1" "registry_le ?db0 db1" by (auto simp: safe_def)
    from claim_new_Inr(1) [OF c] ok1(1) have le: "registry_le db1 db'" by (simp add: safe_def)
    have e1: "e \<in> set (leases db1)" "ls_key e = ls_key a" using e(2) by (simp_all add: ended_as_def)
    then have "ls_generation a < next_generation project label db1"
      using next_generation_gt [of e db1] ls_key_place [OF e1(2)] pl by simp
    then show ?thesis
      using False e ended_as_le [OF le e(2)] claim_new_Inr(4,5) [OF c] pl by auto
  qed
qed

text \<open>
  A committed claim establishes ownership: the returned lease is the active one of the label, for
  the claiming principal, its generation is the newest, and the label's cursor carries it.
\<close>

lemma claim_establishes_owner:
  assumes "registry_ok db" "claim_action project label owner nonce takeover evidence d db = Inr (l, db')"
  shows "active_row project label db' = Some l \<and> ls_principal l = canon_dict owner
     \<and> (\<exists>c. cursor_row project label db' = Some c \<and> cc_generation c = ls_generation l)"
proof -
  have ok: "registry_ok db'" using claim_safe [OF assms(2)] assms(1) by (simp add: safe_def)
  let ?db0 = "snd (collapse_open_attention project label (cd_now d) db)"
  have ok0: "registry_ok ?db0" using safe_collapse assms(1) unfolding safe_def by blast
  have "l \<in> set (leases db') \<and> ls_state l = ACTIVE \<and> ls_place l = (project, label) \<and> ls_principal l = canon_dict owner"
  proof (cases "\<exists>a. active_row project label ?db0 = Some a \<and> principal_matches a owner")
    case True
    then obtain a where a: "active_row project label ?db0 = Some a" "principal_matches a owner" by blast
    with assms(2) have r: "renew_same_principal project label owner d a ?db0 = Inr (l, db')"
      by (simp add: claim_action_def Let_def)
    note A = active_rowD [OF a(1)]
    from renew_same_Inr [OF _ r] A ok0 ls_key_place [of l a] show ?thesis by (simp add: registry_ok_def ls_place_def)
  next
    case False
    then obtain rep db1 where c: "claim_new project label owner nonce d rep db1 = Inr (l, db')"
      using assms(2) by (auto simp: claim_action_def Let_def split: option.splits sum.splits if_splits)
    let ?row = "claim_row project label (next_generation project label db1) (allocated_nonce nonce d rep) owner d"
    note C = claim_new_Inr [OF c]
    have "ls_key l = ls_key ?row" using C(4,5) by (simp add: ls_key_def ls_place_def claim_row_def)
    moreover have "?row \<in> set (leases db')" by (simp add: C(2))
    ultimately have "l = ?row"
      using C(3) ok by (auto simp: registry_ok_def leases_ok_def intro: keyed_eq [of ls_key])
    with C(3,4) show ?thesis by (simp add: claim_row_def)
  qed
  moreover have "\<exists>c. cursor_row project label db' = Some c \<and> cc_generation c = ls_generation x"
    if x: "x \<in> set (leases db')" "ls_state x = ACTIVE" "ls_place x = (project, label)" for x
  proof -
    from ok x have "((project, label), ls_generation x) \<in> cc_owner ` set (cursors db')"
      unfolding registry_ok_def leases_ok_def by metis
    then obtain c where "c \<in> set (cursors db')" "cc_root c = project" "cc_label c = label" "cc_generation c = ls_generation x"
      by (auto simp: cc_owner_def cc_key_def)
    then show ?thesis using cursor_rowI [of db' c] ok by (auto simp: registry_ok_def)
  qed
  ultimately show ?thesis using active_rowI [of db' l] ok by (auto simp: registry_ok_def)
qed

lemma active_has_cursor:
  assumes "registry_ok db" "active_row project label db = Some l"
  obtains c where "cursor_row project label db = Some c" "cc_generation c = ls_generation l"
proof -
  note A = active_rowD [OF assms(2)]
  have "((project, label), ls_generation l) \<in> cc_owner ` set (cursors db)"
    using assms(1) A unfolding registry_ok_def leases_ok_def by (metis ls_place_def)
  then obtain c where "c \<in> set (cursors db)" "cc_root c = project" "cc_label c = label" "cc_generation c = ls_generation l"
    by (auto simp: cc_owner_def cc_key_def)
  then show thesis using that cursor_rowI [of db c] assms(1) by (auto simp: registry_ok_def)
qed

text \<open>
  The integrity error of \<open>cursor_peek\<close> cannot happen: in every reachable journal an active lease has
  its generation-matched cursor, so a peek succeeds exactly when the label has an active lease and the
  nonce, if given, is its nonce.
\<close>

lemma peek_never_integrity_error:
  assumes "registry_step\<^sup>*\<^sup>* empty_journal db"
  shows "((\<exists>pk. cursor_peek_action sha project label nonce waking limit whole db = Inr pk)
     \<longleftrightarrow> (\<exists>l. active_row project label db = Some l \<and> (nonce = None \<or> nonce = Some (ls_nonce l))))
   \<and> cursor_peek_action sha project label nonce waking limit whole db \<noteq> Inl JournalIntegrityError"
proof -
  have ok: "registry_ok db" using registry_steps_keep [OF assms registry_ok_empty] by blast
  show ?thesis
  proof (cases "active_row project label db")
    case None
    then show ?thesis by (simp add: cursor_peek_action_def)
  next
    case (Some l)
    from active_has_cursor [OF ok Some] obtain c where "cursor_row project label db = Some c" "cc_generation c = ls_generation l" .
    with Some show ?thesis by (auto simp: cursor_peek_action_def Let_def)
  qed
qed

text \<open>A lost compare-and-swap.\<close>

definition refused :: "txn_exn + 'a \<Rightarrow> bool" where
  "refused r \<longleftrightarrow> (case r of Inl (CASMismatch _) \<Rightarrow> True | _ \<Rightarrow> False)"

lemma ended_nonce_inactive:
  assumes "registry_ok db0" "ended_as k db0 l" "registry_step\<^sup>*\<^sup>* db0 db"
    and "x \<in> set (leases db)" "ls_place x = ls_place l" "ls_nonce x = ls_nonce l"
  shows "ls_state x \<noteq> ACTIVE"
proof -
  from ended.verdict_stays [OF assms(3,1,2)] have ok: "registry_ok db" and l: "ended_as k db l" by auto
  have "x = l"
    using ok l assms(4-6) by (auto simp: registry_ok_def leases_ok_def ended_as_def ls_nonce_key_def ls_place_def
        intro!: keyed_eq [of ls_nonce_key])
  with l show ?thesis by (simp add: ended_as_def)
qed

text \<open>
  C4. An ended generation is fenced for good. Once a generation is superseded, expired or retired,
  then after any further history its nonce advances no cursor, reads no cursor, renews and releases
  nothing and arms no listener: each is refused as a lost compare-and-swap.
\<close>

theorem ended_lease_is_fenced:
  assumes "registry_ok db0" "ended_as (project, label, g) db0 l" "registry_step\<^sup>*\<^sup>* db0 db"
    and "av_label a = label" "av_nonce a = Some (ls_nonce l)" "\<not> av_no_lease a"
  shows "refused (advance_cursor_action sha project a now db)
     \<and> refused (cursor_peek_action sha project label (Some (ls_nonce l)) waking limit whole db)
     \<and> refused (renew_active_action project label (ls_nonce l) g' deadline db)
     \<and> refused (release_action project label (ls_nonce l) reason now db)
     \<and> refused (arm_listener_action project label (ls_nonce l) pid tok ppid id' now db)"
proof -
  have pl: "ls_place l = (project, label)" using assms(2) by (simp add: ended_as_def ls_key_def ls_place_def)
  have no: "\<not> (ls_root x = project \<and> ls_label x = label \<and> ls_nonce x = ls_nonce l \<and> ls_state x = ACTIVE)"
    if "x \<in> set (leases db)" for x
    using ended_nonce_inactive [OF assms(1-3) that] pl by (auto simp: ls_place_def)
  have act: "ls_nonce x \<noteq> ls_nonce l" if "active_row project label db = Some x" for x
    using active_rowD [OF that] no by blast
  have fetch: "sql_fetchone (\<lambda>x. ls_root x = project \<and> ls_label x = label \<and> ls_nonce x = ls_nonce l \<and> ls_state x = ACTIVE) (leases db) = None"
    using no by (simp add: sql_fetchone_None_iff)
  have cnt: "sql_rowcount (\<lambda>x. ls_root x = project \<and> ls_label x = label \<and> ls_nonce x = ls_nonce l
      \<and> ls_generation x = g' \<and> ls_state x = ACTIVE) (leases db) = 0"
    using no by (auto simp: sql_rowcount_0_iff)
  show ?thesis
  proof (intro conjI)
    show "refused (advance_cursor_action sha project a now db)"
      using assms(4-6) act by (auto simp: refused_def advance_cursor_action_def advance_authority_def split: option.split)
    show "refused (cursor_peek_action sha project label (Some (ls_nonce l)) waking limit whole db)"
      using act by (auto simp: refused_def cursor_peek_action_def split: option.split)
    show "refused (renew_active_action project label (ls_nonce l) g' deadline db)"
      by (simp add: refused_def renew_active_action_def cnt)
    show "refused (release_action project label (ls_nonce l) reason now db)"
      by (simp add: refused_def release_action_def fetch)
    show "refused (arm_listener_action project label (ls_nonce l) pid tok ppid id' now db)"
      using act by (auto simp: refused_def arm_listener_action_def split: option.split)
  qed
qed

lemma expire_active_spares:
  assumes "expire_active_lease p label g nonce renewed ended item now db = Inr (row, db')" "l \<in> set (leases db)"
    and "\<not> (ls_root l = p \<and> ls_label l = label \<and> ls_generation l = g \<and> ls_nonce l = nonce \<and> ls_renewed_at l = renewed)"
  shows "l \<in> set (leases db')"
proof (cases row)
  case None
  with expire_active_Inr(2) [OF assms(1)] assms(2) show ?thesis by simp
next
  case (Some r)
  then have "row \<noteq> None" by simp
  from expire_active_Inr(3) [OF assms(1) this] assms(2,3) show ?thesis
    by (auto simp: lease_frame_def intro!: final_row_kept_update)
qed

lemma expire_all_spares:
  "expire_all p ended items now dead db = Inr (rows, db') \<Longrightarrow> l \<in> set (leases db) \<Longrightarrow>
     ls_root l \<noteq> p \<or> (ls_label l, ls_generation l, ls_nonce l, ls_renewed_at l) \<notin> set dead \<Longrightarrow> l \<in> set (leases db')"
proof (induction p ended items now dead db arbitrary: rows db' rule: expire_all.induct)
  case (1 p ended items now db)
  then show ?case by simp
next
  case (2 p ended items now label g nonce renewed rest db)
  from 2(2) obtain row db1 rows' where
    a: "expire_active_lease p label g nonce renewed ended (items label g) now db = Inr (row, db1)"
      "expire_all p ended items now rest db1 = Inr (rows', db')"
    by (auto split: sum.splits)
  have "l \<in> set (leases db1)" by (rule expire_active_spares [OF a(1) 2(3)]) (use 2(4) in auto)
  then show ?case by (rule 2(1) [OF a(1) refl a(2)]) (use 2(4) in auto)
qed

text \<open>
  The sweep ends only what it proved dead. A lease that is active when the sweep commits is
  untouched unless the probe reported its holder dead for a row read before with the same generation,
  nonce and renewal time: a lease claimed or renewed in between survives.
\<close>

lemma sweep_ends_only_dead:
  assumes "expire_all project ended items now (proven_dead project alive db0) db = Inr (rows, db')"
    and "l \<in> set (leases db)" "l \<notin> set (leases db')"
  shows "alive (ls_label l) (ls_nonce l) = Some False
     \<and> (\<exists>seen \<in> set (leases db0). ls_state seen = ACTIVE \<and> ls_key seen = ls_key l \<and> ls_nonce seen = ls_nonce l
          \<and> ls_renewed_at seen = ls_renewed_at l)"
proof -
  have "ls_root l = project" "(ls_label l, ls_generation l, ls_nonce l, ls_renewed_at l) \<in> set (proven_dead project alive db0)"
    using expire_all_spares [OF assms(1,2)] assms(3) by blast+
  then show ?thesis by (auto simp: proven_dead_def lease_records_def ls_key_def)
qed

lemma lease_row_fresh:
  assumes "distinct (map ls_key (leases db))" "l \<in> set (leases db)" "ls_key l = (p, label, g)"
  shows "lease_row p label g db = Some l"
  unfolding lease_row_def
  by (rule sql_fetchone_unique) (use assms in \<open>auto simp: ls_key_def intro!: keyed_eq [of ls_key]\<close>)

text \<open>
  Claiming a free label succeeds exactly when the nonce was never used for it. A nonce some ended
  generation of the label still holds makes the claim raise the database's integrity error, not a
  refusal: only a nonce taken over within the same transaction is replaced by a fresh one.
\<close>

lemma claim_free_label:
  assumes "registry_ok db" "active_row project label db = None"
  shows "if \<exists>l \<in> set (leases db). ls_place l = (project, label) \<and> ls_nonce l = allocated_nonce nonce d None
     then claim_action project label owner nonce takeover evidence d db = violation
     else (\<exists>l db'. claim_action project label owner nonce takeover evidence d db = Inr (l, db'))"
proof -
  let ?db0 = "snd (collapse_open_attention project label (cd_now d) db)"
  let ?g = "next_generation project label ?db0"
  let ?row = "claim_row project label ?g (allocated_nonce nonce d None) owner d"
  have c: "claim_action project label owner nonce takeover evidence d db = claim_new project label owner nonce d None ?db0"
    using assms(2) by (simp add: claim_action_def Let_def active_row_def)
  have new: "claim_new project label owner nonce d None ?db0 = (case insert_lease ?row ?db0 of Inl x \<Rightarrow> Inl x
     | Inr db1 \<Rightarrow> (case lease_row project label ?g (refresh_backlog project label (reset_cursor project label ?g (cd_now d) db1)) of
          None \<Rightarrow> Inl OtherError
        | Some l \<Rightarrow> Inr (l, refresh_backlog project label (reset_cursor project label ?g (cd_now d) db1))))"
    unfolding claim_new_def Let_def claim_row_def allocated_nonce_def by simp
  have key: "ls_key ?row \<notin> ls_key ` set (leases db)"
  proof
    assume "ls_key ?row \<in> ls_key ` set (leases db)"
    then obtain l where l: "l \<in> set (leases db)" "ls_key l = ls_key ?row" by force
    then have "ls_generation l < ?g" using next_generation_gt [of l ?db0 project label] ls_key_place [OF l(2)]
      by (simp add: claim_row_def ls_place_def)
    with ls_key_place [OF l(2)] show False by (simp add: claim_row_def)
  qed
  have noact: "\<not> sql_exists (\<lambda>l. ls_place l = ls_place ?row \<and> ls_state l = ACTIVE) (leases db)"
    using assms(2) by (auto simp: sql_exists_iff active_row_def sql_fetchone_None_iff ls_place_def claim_row_def)
  have nonce: "clash ls_nonce_key ?row (leases db) \<longleftrightarrow>
      (\<exists>l \<in> set (leases db). ls_place l = (project, label) \<and> ls_nonce l = allocated_nonce nonce d None)"
    by (auto simp: clash_def ls_nonce_key_def ls_place_def claim_row_def image_iff)
  show ?thesis
  proof (cases "clash ls_nonce_key ?row (leases db)")
    case True
    then have "insert_lease ?row ?db0 = violation" by (simp add: insert_lease_def)
    with True show ?thesis unfolding c new by (simp add: nonce violation_def)
  next
    case False
    with key noact have i: "insert_lease ?row ?db0 = Inr (?db0\<lparr>leases := leases db @ [?row]\<rparr>)"
      by (simp add: insert_lease_def clash_def)
    let ?db2 = "refresh_backlog project label (reset_cursor project label ?g (cd_now d) (?db0\<lparr>leases := leases db @ [?row]\<rparr>))"
    have "lease_row project label ?g ?db2 = Some ?row"
      by (rule lease_row_fresh) (use assms(1) key in \<open>simp_all add: registry_ok_def leases_ok_def claim_row_def ls_key_def\<close>)
    then have "claim_new project label owner nonce d None ?db0 = Inr (?row, ?db2)" unfolding new i by simp
    with False show ?thesis unfolding c nonce by auto
  qed
qed

text \<open>
  Arming takes the listener slot over: afterwards the new listener is the label's active coverage
  and no other listener of the label is armed.
\<close>

lemma arm_takes_over:
  assumes "registry_ok db" "arm_listener_action project label nonce pid tok ppid id' now db = Inr (row, db')"
  shows "active_coverage project label db' = Some row
     \<and> (\<forall>c \<in> set (coverage db'). cv_root c = project \<and> cv_label c = label \<and> cv_state c = ARMED \<longrightarrow> c = row)"
proof -
  have ok: "registry_ok db'" using arm_safe [OF assms(2)] assms(1) by (simp add: safe_def)
  from assms(2) obtain lease where lease: "active_row project label db = Some lease" "leases db' = leases db"
    "row \<in> set (coverage db')" "cv_state row = ARMED" "cv_root row = project" "cv_label row = label" "cv_generation row = ls_generation lease"
    by (auto simp: arm_listener_action_def Let_def insert_coverage_def violation_def split: option.splits if_splits sum.splits)
  note A = active_rowD [OF lease(1)]
  have all: "c = row" if c: "c \<in> set (coverage db')" "cv_root c = project" "cv_label c = label" "cv_state c = ARMED" for c
  proof -
    have "coverage_ok db'" using ok by (simp add: registry_ok_def)
    with c(1,4) obtain l where l: "l \<in> set (leases db')" "ls_key l = cv_place c" "ls_state l = ACTIVE"
      unfolding coverage_ok_def by blast
    then have "ls_place l = ls_place lease" using A c by (auto simp: ls_key_def ls_place_def cv_place_def)
    then have "l = lease" using active_unique [of db l lease] assms(1) l lease(2) A by (simp add: registry_ok_def)
    then have "cv_place c = cv_place row" using l(2) lease c by (simp add: ls_key_def cv_place_def)
    moreover have "distinct (map cv_place (filter (\<lambda>c. cv_state c = ARMED) (coverage db')))"
      using ok by (simp add: registry_ok_def coverage_ok_def)
    ultimately show ?thesis
      using c lease(3,4) by (auto intro: keyed_eq [of cv_place "filter (\<lambda>c. cv_state c = ARMED) (coverage db')"])
  qed
  moreover have "active_coverage project label db' = Some row"
    unfolding active_coverage_def
  proof (rule sql_fetchone_unique [OF lease(3)])
    have "sql_exists (\<lambda>l. ls_root l = project \<and> ls_label l = label \<and> ls_generation l = cv_generation row \<and> ls_state l = ACTIVE) (leases db')"
      unfolding sql_exists_iff lease(2) using A lease(7) by (intro bexI [of _ lease]) simp_all
    then show "cv_root row = project \<and> cv_label row = label \<and> cv_state row = ARMED
      \<and> sql_exists (\<lambda>l. ls_root l = project \<and> ls_label l = label \<and> ls_generation l = cv_generation row \<and> ls_state l = ACTIVE) (leases db')"
      using lease(4-6) by simp
  qed (use all in blast)
  ultimately show ?thesis by blast
qed

text \<open>
  A release ends the ownership: afterwards the label has no active lease and no armed listener, and
  the released row is in the journal as retired.
\<close>

lemma release_ends_ownership:
  assumes "registry_ok db" "release_action project label nonce reason now db = Inr (l, db')"
  shows "active_row project label db' = None \<and> active_coverage project label db' = None
     \<and> ended_as (ls_key l) db' l \<and> ls_place l = (project, label) \<and> ls_nonce l = nonce"
proof -
  from assms(2) obtain row n db2 where row: "sql_fetchone (\<lambda>x. ls_root x = project \<and> ls_label x = label \<and> ls_nonce x = nonce \<and> ls_state x = ACTIVE)
         (leases db) = Some row"
    and re: "rehome_retired project label now (db\<lparr>leases := sql_update
                 (\<lambda>x. ls_root x = project \<and> ls_label x = label \<and> ls_generation x = ls_generation row \<and> ls_state x = ACTIVE)
                 (end_lease RETIRED now reason) (leases db)\<rparr>) = Inr (n, db2)"
    and l: "l = end_lease RETIRED now reason row" "leases db' = leases db2"
    by (auto simp: release_action_def Let_def split: option.splits sum.splits if_splits)
  from sql_fetchone_SomeD [OF row] have R: "row \<in> set (leases db)" "ls_root row = project" "ls_label row = label"
    "ls_nonce row = nonce" "ls_state row = ACTIVE" by auto
  from rehome_Inr(1) [OF re] l(2) have L: "leases db' = sql_update
                 (\<lambda>x. ls_root x = project \<and> ls_label x = label \<and> ls_generation x = ls_generation row \<and> ls_state x = ACTIVE)
                 (end_lease RETIRED now reason) (leases db)" by auto
  have lo: "leases_ok db" using assms(1) by (simp add: registry_ok_def)
  have none: "ls_state x \<noteq> ACTIVE" if "x \<in> set (leases db')" "ls_root x = project" "ls_label x = label" for x
  proof -
    from that(1) obtain y where y: "y \<in> set (leases db)" "x = (if ls_root y = project \<and> ls_label y = label
        \<and> ls_generation y = ls_generation row \<and> ls_state y = ACTIVE then end_lease RETIRED now reason y else y)"
      unfolding L by (rule sql_updateE)
    show ?thesis
    proof
      assume act: "ls_state x = ACTIVE"
      then have "x = y" using y(2) by (auto split: if_splits)
      then have "y = row" using active_unique [OF lo y(1) R(1)] act that R by (simp add: ls_place_def)
      with y(2) \<open>x = y\<close> act R show False by (metis end_lease_simps(7) lease_state.distinct(5))
    qed
  qed
  then have "active_row project label db' = None" by (auto simp: active_row_def sql_fetchone_None_iff)
  moreover have "active_coverage project label db' = None"
    using none by (auto simp: active_coverage_def sql_fetchone_None_iff sql_exists_iff)
  moreover have "l \<in> set (leases db')" using R by (force simp: l(1) L set_sql_update)
  ultimately show ?thesis using R by (simp add: ended_as_def l(1) ls_place_def)
qed

section \<open>A sample registry\<close>

definition sample_owner :: dict where "sample_owner = [(''principal_id'', JStr ''me'')]"
definition sample_other :: dict where "sample_other = [(''principal_id'', JStr ''you'')]"

definition sample_draw :: claim_draw where
  "sample_draw = \<lparr>cd_now = ''t1'', cd_now_us = 0, cd_deadline = ''t9'', cd_nonce = ''n2'',
     cd_item = ''77777777-7777-4777-8777-777777777777''\<rparr>"

definition sample_ended :: journal where
  "sample_ended = sample_mailbox\<lparr>leases := [end_lease RETIRED ''t1'' ''released'' sample_lease]\<rparr>"

lemma sample_registry_ok: "registry_ok sample_mailbox" "registry_ok sample_ended"
  using sample_mailbox_ok
  by (simp_all add: registry_ok_def leases_ok_def coverage_ok_def attention_ok_def sample_ended_def sample_mailbox_def
      empty_journal_def sample_lease_def lease_row_ok_def end_lease_def new_cursor_def cc_owner_def cc_key_def ls_place_def
      delivery_ok_def)

lemma not_isl: "\<not> isl x \<Longrightarrow> (\<And>v db'. x = Inr (v, db') \<Longrightarrow> thesis) \<Longrightarrow> thesis"
  by (cases x) auto

lemma sample_active: "active_row ''/p'' ''c1'' sample_mailbox = Some sample_lease" "active_row ''/p'' ''c1'' sample_ended = None"
  by (simp_all add: active_row_def sql_fetchone_def sample_mailbox_def sample_ended_def sample_lease_def end_lease_def empty_journal_def)

theorem claim_respects_incumbent_witness:
  "\<exists>l db'. claim_action ''/p'' ''c1'' sample_other None True None sample_draw sample_mailbox = Inr (l, db')
     \<and> ls_generation sample_lease < ls_generation l \<and> (\<exists>e. ended_as (ls_key sample_lease) db' e)"
proof -
  have n: "\<not> principal_matches sample_lease sample_other" by code_simp
  have "\<not> isl (claim_action ''/p'' ''c1'' sample_other None True None sample_draw sample_mailbox)" by code_simp
  then obtain l db' where r: "claim_action ''/p'' ''c1'' sample_other None True None sample_draw sample_mailbox = Inr (l, db')"
    by (rule not_isl)
  with claim_respects_incumbent [OF sample_registry_ok(1) sample_active(1) r] n show ?thesis by blast
qed

lemma claim_establishes_owner_witness:
  "\<exists>l db'. claim_action ''/p'' ''c1'' sample_other None True None sample_draw sample_mailbox = Inr (l, db')
     \<and> active_row ''/p'' ''c1'' db' = Some l"
proof -
  have "\<not> isl (claim_action ''/p'' ''c1'' sample_other None True None sample_draw sample_mailbox)" by code_simp
  then show ?thesis
    using claim_establishes_owner [OF sample_registry_ok(1)] by (auto elim!: not_isl)
qed

lemma peek_never_integrity_error_witness:
  "\<exists>db pk. registry_step\<^sup>*\<^sup>* empty_journal db \<and> cursor_peek_action id ''/p'' ''c1'' None False 10 True db = Inr pk"
proof -
  let ?r = "claim_action ''/p'' ''c1'' sample_owner None False None sample_draw empty_journal"
  have n: "\<not> isl ?r" by code_simp
  have act: "case ?r of Inl _ \<Rightarrow> False | Inr (l, db') \<Rightarrow> active_row ''/p'' ''c1'' db' \<noteq> None" by code_simp
  from n obtain l db where r: "?r = Inr (l, db)" by (rule not_isl)
  have st: "registry_step\<^sup>*\<^sup>* empty_journal db" by (rule r_into_rtranclp, rule registry_step.claim [OF r])
  from act r obtain x where "active_row ''/p'' ''c1'' db = Some x" by auto
  with peek_never_integrity_error [OF st, of id "''/p''" "''c1''" None False 10 True] st show ?thesis by blast
qed

theorem ended_lease_is_fenced_witness:
  "refused (advance_cursor_action sample_sha ''/p'' sample_advance ''t2'' sample_ended)"
proof -
  have e: "ended_as (''/p'', ''c1'', 1) sample_ended (end_lease RETIRED ''t1'' ''released'' sample_lease)"
    by (simp add: ended_as_def sample_ended_def sample_mailbox_def empty_journal_def) (simp add: sample_lease_def ls_key_def)
  have a: "av_label sample_advance = ''c1''" "av_nonce sample_advance = Some (ls_nonce (end_lease RETIRED ''t1'' ''released'' sample_lease))"
    "\<not> av_no_lease sample_advance"
    by (simp_all add: sample_advance_def sample_lease_def)
  show ?thesis using ended_lease_is_fenced [OF sample_registry_ok(2) e rtranclp.rtrancl_refl a] by blast
qed

lemma sweep_ends_only_dead_witness:
  "\<exists>rows db'. expire_all ''/p'' ''t2'' (\<lambda>_ _. ''77777777-7777-4777-8777-777777777777'') ''t2''
       (proven_dead ''/p'' (\<lambda>_ nonce. Some (nonce \<noteq> ''n1'')) sample_mailbox) sample_mailbox = Inr (rows, db')
     \<and> (\<lambda>_ nonce. Some (nonce \<noteq> ''n1'')) (ls_label sample_lease) (ls_nonce sample_lease) = Some False"
proof -
  let ?x = "expire_all ''/p'' ''t2'' (\<lambda>_ _. ''77777777-7777-4777-8777-777777777777'') ''t2''
       (proven_dead ''/p'' (\<lambda>_ nonce. Some (nonce \<noteq> ''n1'')) sample_mailbox) sample_mailbox"
  have c: "case ?x of Inl _ \<Rightarrow> False | Inr (_, db') \<Rightarrow> list_all (\<lambda>l. ls_state l = EXPIRED) (leases db')" by code_simp
  then have "\<not> isl ?x" by (auto split: sum.splits)
  then obtain rows db' where r: "?x = Inr (rows, db')" by (rule not_isl)
  have "sample_lease \<in> set (leases sample_mailbox)" by (simp add: sample_mailbox_def)
  moreover have "sample_lease \<notin> set (leases db')" using c r by (auto simp: list_all_iff sample_lease_def)
  ultimately show ?thesis using sweep_ends_only_dead [OF r] r by blast
qed

lemma claim_free_label_witness:
  "claim_action ''/p'' ''c1'' sample_owner (Some ''n1'') False None sample_draw sample_ended = violation"
proof -
  have "end_lease RETIRED ''t1'' ''released'' sample_lease \<in> set (leases sample_ended)"
    "ls_place (end_lease RETIRED ''t1'' ''released'' sample_lease) = (''/p'', ''c1'')"
    "ls_nonce (end_lease RETIRED ''t1'' ''released'' sample_lease) = allocated_nonce (Some ''n1'') sample_draw None"
    by (simp_all add: sample_ended_def) (simp_all add: ls_place_def sample_lease_def allocated_nonce_def)
  then have "\<exists>l \<in> set (leases sample_ended). ls_place l = (''/p'', ''c1'') \<and> ls_nonce l = allocated_nonce (Some ''n1'') sample_draw None"
    by blast
  then show ?thesis
    using claim_free_label [OF sample_registry_ok(2) sample_active(2), of "Some ''n1''" sample_draw sample_owner False None] by simp
qed

lemma arm_takes_over_witness:
  "\<exists>row db'. arm_listener_action ''/p'' ''c1'' ''n1'' 7 ''tok'' 6 ''88888888-8888-4888-8888-888888888888'' ''t2'' sample_mailbox
      = Inr (row, db') \<and> active_coverage ''/p'' ''c1'' db' = Some row"
proof -
  have "\<not> isl (arm_listener_action ''/p'' ''c1'' ''n1'' 7 ''tok'' 6 ''88888888-8888-4888-8888-888888888888'' ''t2'' sample_mailbox)"
    by code_simp
  then show ?thesis using arm_takes_over [OF sample_registry_ok(1)] by (auto elim!: not_isl)
qed

lemma release_ends_ownership_witness:
  "\<exists>l db'. release_action ''/p'' ''c1'' ''n1'' ''released'' ''t2'' sample_mailbox = Inr (l, db')
     \<and> active_row ''/p'' ''c1'' db' = None"
proof -
  have "\<not> isl (release_action ''/p'' ''c1'' ''n1'' ''released'' ''t2'' sample_mailbox)" by code_simp
  then show ?thesis using release_ends_ownership [OF sample_registry_ok(1)] by (auto elim!: not_isl)
qed

text \<open>
  Register, release, register again under the same session nonce: the second claim raises the
  database's integrity error.
\<close>

lemma reclaim_with_same_nonce_raises:
  "case claim_action ''/p'' ''c1'' sample_owner (Some ''session'') False None sample_draw empty_journal of
     Inl _ \<Rightarrow> False
   | Inr (l, db1) \<Rightarrow> (case release_action ''/p'' ''c1'' ''session'' ''released'' ''t2'' db1 of
       Inl _ \<Rightarrow> False
     | Inr (l', db2) \<Rightarrow> (case claim_action ''/p'' ''c1'' sample_owner (Some ''session'') False None sample_draw db2 of
         Inl x \<Rightarrow> x = SqlDatabase IntegrityViolation | Inr _ \<Rightarrow> False))"
  by code_simp

text \<open>
  C3. The registry invariant. Every journal reachable by lease, listener, attention and delivery
  operations satisfies the constraints of its tables, has its active generation newest and matched by
  the cursor, and arms listeners for active generations only; and from any such journal on no
  generation is lost, no ended one is touched, and new ones are newer.
\<close>

theorem registry_invariant:
  assumes "registry_step\<^sup>*\<^sup>* empty_journal db" "registry_step\<^sup>*\<^sup>* db db'"
  shows "registry_ok db \<and> registry_ok db' \<and> registry_le db db'"
  using registry_steps_keep [OF assms(1) registry_ok_empty] registry_steps_keep [OF assms(2)] by blast

theorem registry_invariant_witness:
  "\<exists>db. registry_step\<^sup>*\<^sup>* empty_journal db \<and> registry_ok db \<and> active_row ''/p'' ''c1'' db \<noteq> None"
proof -
  let ?r = "claim_action ''/p'' ''c1'' sample_owner None False None sample_draw empty_journal"
  have n: "\<not> isl ?r" by code_simp
  have act: "case ?r of Inl _ \<Rightarrow> False | Inr (l, db') \<Rightarrow> active_row ''/p'' ''c1'' db' \<noteq> None" by code_simp
  from n obtain l db where r: "?r = Inr (l, db)" by (rule not_isl)
  have st: "registry_step\<^sup>*\<^sup>* empty_journal db" by (rule r_into_rtranclp, rule registry_step.claim [OF r])
  from registry_invariant [OF st rtranclp.rtrancl_refl] st act r show ?thesis by auto
qed

end
