(* ===== verification/GF_Outbox_Props.thy ===== *)
theory GF_Outbox_Props
  imports GF_Outbox GF_Lease_Props
begin

text \<open>
  Properties of the terminal outbox taken one operation at a time: the batch a projection pass works on,
  what a recorded failure does to a row, and which rows a reconciliation leaves live.
\<close>

section \<open>Batches\<close>

lemma splice_step:
  "index < length fresh \<Longrightarrow> index < length retries \<Longrightarrow>
     splice (drop index fresh) (drop index retries)
       = fresh ! index # retries ! index # splice (drop (Suc index) fresh) (drop (Suc index) retries)"
  by (simp add: Cons_nth_drop_Suc [symmetric])

lemma splice_Nil2 [simp]: "splice xs [] = xs"
  by (cases xs) simp_all

lemma merge_classes_splice:
  "length merged < limit \<Longrightarrow>
     merge_classes limit fresh retries index merged =
       take limit (merged @ splice (drop index fresh) (drop index retries))"
proof (induction limit fresh retries index merged rule: merge_classes.induct)
  case (1 limit fresh retries index merged)
  consider (both) "index < length fresh" "index < length retries" | (fresh) "index < length fresh" "length retries \<le> index"
    | (retry) "length fresh \<le> index" "index < length retries" | (none) "length fresh \<le> index" "length retries \<le> index"
    by linarith
  then show ?case
  proof cases
    case both
    then show ?thesis
      using 1 by (subst merge_classes.simps)
        (auto simp: Let_def splice_step less_Suc_eq_le Suc_le_eq take_Cons' split: if_splits)
  next
    case fresh
    then show ?thesis
      using 1 by (cases "limit = Suc (length merged)"; subst merge_classes.simps)
        (auto simp: Let_def Cons_nth_drop_Suc [symmetric])
  next
    case retry
    then show ?thesis
      using 1 by (cases "limit = Suc (length merged)"; subst merge_classes.simps)
        (auto simp: Let_def Cons_nth_drop_Suc [symmetric])
  next
    case none
    then have "\<not> index < max (length fresh) (length retries)" by simp
    then show ?thesis using 1(2) none by (subst merge_classes.simps) simp
  qed
qed

text \<open>
  The batch loop is the alternation it is meant to be: for a positive limit its result is the first
  \<open>limit\<close> rows of the fresh rows and the due retries taken in turns.
\<close>

lemma pending_outbox_alternates:
  assumes "0 < limit"
  shows "pending_outbox limit now db = take limit (splice (fresh_outbox limit db) (retry_outbox limit now db))"
  using merge_classes_splice [of "[]" limit "fresh_outbox limit db" "retry_outbox limit now db" 0] assms
  by (simp add: pending_outbox_def)

lemma pending_outbox_alternates_witness:
  "pending_outbox 3 ''t'' empty_journal = take 3 (splice (fresh_outbox 3 empty_journal) (retry_outbox 3 ''t'' empty_journal))"
  by (rule pending_outbox_alternates) simp

lemma set_splice [simp]: "set (splice xs ys) = set xs \<union> set ys"
  by (induction xs ys rule: splice.induct) auto

lemma hd_in_splice:
  "2 \<le> n \<Longrightarrow> xs \<noteq> [] \<Longrightarrow> hd xs \<in> set (take n (splice xs ys))"
  "2 \<le> n \<Longrightarrow> ys \<noteq> [] \<Longrightarrow> hd ys \<in> set (take n (splice xs ys))"
  by (cases xs; cases ys; auto simp: numeral_2_eq_2 take_Cons' split: nat.splits)+

text \<open>
  Neither class starves. A batch has at most \<open>limit\<close> rows, all unprojected and not quarantined, and
  with a limit of two or more it holds the oldest fresh row and the first due retry whenever there is one.
\<close>

lemma outbox_batch_fair:
  assumes "2 \<le> limit"
  shows "length (pending_outbox limit now db) \<le> limit
     \<and> (\<forall>b \<in> set (pending_outbox limit now db). b \<in> set (outbox db) \<and> outbox_pending b
          \<and> (0 < ob_attempts b \<longrightarrow> (case ob_retry_at b of None \<Rightarrow> True | Some t \<Rightarrow> t \<le> now)))
     \<and> (fresh_outbox limit db \<noteq> [] \<longrightarrow> hd (fresh_outbox limit db) \<in> set (pending_outbox limit now db))
     \<and> (retry_outbox limit now db \<noteq> [] \<longrightarrow> hd (retry_outbox limit now db) \<in> set (pending_outbox limit now db))"
proof -
  have p: "pending_outbox limit now db = take limit (splice (fresh_outbox limit db) (retry_outbox limit now db))"
    using merge_classes_splice [of "[]" limit "fresh_outbox limit db" "retry_outbox limit now db" 0] assms
    by (simp add: pending_outbox_def)
  have f: "b \<in> set (outbox db) \<and> outbox_pending b \<and> ob_attempts b = 0" if "b \<in> set (fresh_outbox limit db)" for b
    using in_set_takeD [OF that [unfolded fresh_outbox_def]] by simp
  have r: "b \<in> set (outbox db) \<and> outbox_pending b \<and> (case ob_retry_at b of None \<Rightarrow> True | Some t \<Rightarrow> t \<le> now)"
    if "b \<in> set (retry_outbox limit now db)" for b
    using in_set_takeD [OF that [unfolded retry_outbox_def]] by simp
  have "b \<in> set (outbox db) \<and> outbox_pending b
      \<and> (0 < ob_attempts b \<longrightarrow> (case ob_retry_at b of None \<Rightarrow> True | Some t \<Rightarrow> t \<le> now))"
    if "b \<in> set (pending_outbox limit now db)" for b
    using in_set_takeD [OF that [unfolded p]] f [of b] r [of b] by auto
  then show ?thesis
    unfolding p by (auto intro: hd_in_splice [OF assms])
qed

lemma outbox_batch_fair_witness:
  "length (pending_outbox 2 ''t9'' sample_committed) \<le> 2
     \<and> hd (fresh_outbox 2 sample_committed) \<in> set (pending_outbox 2 ''t9'' sample_committed)"
proof -
  have "fresh_outbox 2 sample_committed \<noteq> []" by code_simp
  with outbox_batch_fair [of 2 "''t9''" sample_committed] show ?thesis by simp
qed

section \<open>Failures\<close>

lemma record_system_outbox:
  "record_system_action p ty reason ns item payload now db = Inr (v, db') \<Longrightarrow>
     outbox db' = outbox db \<and> attempts db' = attempts db \<and> transitions db' = transitions db
     \<and> (\<exists>a \<in> set (system_attention db'). sy_id a = item)"
  by (auto simp: record_system_action_def Let_def clash_def insert_event_def violation_def image_iff
      split: if_splits sum.splits)

lemma record_system_total: "\<exists>v db'. record_system_action p ty reason ns item payload now db = Inr (v, db')"
  by (auto simp: record_system_action_def Let_def split: sum.splits)

lemma ob_key_attempts [simp]: "ob_key (b\<lparr>ob_attempts := n, ob_error := e, ob_retry_at := t, ob_quarantined_at := q\<rparr>) = ob_key b"
  by (simp add: ob_key_def)

text \<open>
  A poisoned event is retried at most three times. Recording a failure of a pending row succeeds,
  raises its count by one and keeps it pending exactly while the count is below three; the third failure
  quarantines it, with a system attention item to show for it, so no batch ever returns it again. Every
  other row is untouched.
\<close>

lemma projection_failure_quarantines:
  assumes "distinct (map ob_key (outbox db))" "row \<in> set (outbox db)" "outbox_pending row"
  shows "\<exists>v db' row'. projection_failure_action project row error item now after db = Inr (v, db')
     \<and> row' \<in> set (outbox db') \<and> ob_key row' = ob_key row \<and> ob_attempts row' = Suc (ob_attempts row)
     \<and> outbox_pending row' = (Suc (ob_attempts row) < OUTBOX_MAX_PROJECTION_ATTEMPTS)
     \<and> (\<not> outbox_pending row' \<longrightarrow> row' \<notin> set (pending_outbox limit later db')
          \<and> (\<exists>a \<in> set (system_attention db'). sy_id a = item))
     \<and> {b \<in> set (outbox db'). ob_key b \<noteq> ob_key row} = {b \<in> set (outbox db). ob_key b \<noteq> ob_key row}"
proof -
  let ?n = "Suc (ob_attempts row)"
  define quarantined where "quarantined = (OUTBOX_MAX_PROJECTION_ATTEMPTS \<le> ?n)"
  define hit where "hit = (\<lambda>b :: outbox_row. ob_key b = ob_key row \<and> outbox_pending b)"
  define f where "f = (\<lambda>b :: outbox_row. b\<lparr>ob_attempts := ?n, ob_error := Some (take 2000 error),
     ob_retry_at := (if quarantined then None else Some (after (OUTBOX_RETRY_BASE_S * 2 ^ (?n - 1)))),
     ob_quarantined_at := (if quarantined then Some now else None)\<rparr>)"
  define db1 where "db1 = db\<lparr>outbox := sql_update hit f (outbox db)\<rparr>"
  have "sql_rowcount hit (outbox db) \<le> 1"
    by (rule rowcount_le_1 [OF assms(1), of hit "ob_key row"]) (simp add: hit_def)
  moreover have "sql_rowcount hit (outbox db) \<noteq> 0"
    by (rule sql_rowcount_pos [OF assms(2)]) (simp add: hit_def assms(3))
  ultimately have one: "sql_rowcount hit (outbox db) = 1" by simp
  obtain v db2 where s: "record_system_action project ''terminal_outbox_quarantined'' ''projection_retry_exhausted''
       ''outbox-quarantine'' item (quarantine_payload row item ?n (take 2000 error)) now db1 = Inr (v, db2)"
    using record_system_total by blast
  have run: "projection_failure_action project row error item now after db =
      (if quarantined then Inr ((?n, None, True), db2)
       else Inr ((?n, Some (after (OUTBOX_RETRY_BASE_S * 2 ^ (?n - 1))), False), db1))"
    using one s unfolding projection_failure_action_def Let_def quarantined_def [symmetric] hit_def [symmetric]
      f_def [symmetric] db1_def [symmetric] by simp
  define db' where "db' = (if quarantined then db2 else db1)"
  have ob: "outbox db' = sql_update hit f (outbox db)"
    using record_system_outbox [OF s] by (simp add: db'_def db1_def)
  have mem: "f row \<in> set (outbox db')"
    unfolding ob set_sql_update using assms(2,3) by (force simp: hit_def)
  have pend: "outbox_pending (f row) = (\<not> quarantined)"
    using assms(3) by (simp add: f_def outbox_pending_def)
  have key: "ob_key (f b) = ob_key b" for b by (simp add: f_def)
  have others: "{b \<in> set (outbox db'). ob_key b \<noteq> ob_key row} = {b \<in> set (outbox db). ob_key b \<noteq> ob_key row}"
    unfolding ob set_sql_update by (auto simp: hit_def key)
  have batch: "b \<in> set (pending_outbox limit later db') \<Longrightarrow> outbox_pending b" for b
    using merge_classes_splice [of "[]" limit "fresh_outbox limit db'" "retry_outbox limit later db'" 0]
    by (cases "limit = 0")
      (auto simp: pending_outbox_def fresh_outbox_def retry_outbox_def merge_classes.simps dest!: in_set_takeD)
  show ?thesis
  proof (intro exI conjI)
    show "projection_failure_action project row error item now after db =
        Inr (if quarantined then (?n, None, True) else (?n, Some (after (OUTBOX_RETRY_BASE_S * 2 ^ (?n - 1))), False), db')"
      by (simp add: run db'_def)
    show "f row \<in> set (outbox db')" by (rule mem)
    show "ob_key (f row) = ob_key row" by (rule key)
    show "ob_attempts (f row) = ?n" by (simp add: f_def)
    show "outbox_pending (f row) = (?n < OUTBOX_MAX_PROJECTION_ATTEMPTS)" using pend by (simp add: quarantined_def not_le)
    show "\<not> outbox_pending (f row) \<longrightarrow> f row \<notin> set (pending_outbox limit later db')
          \<and> (\<exists>a \<in> set (system_attention db'). sy_id a = item)"
      using batch record_system_outbox [OF s] pend by (auto simp: db'_def)
    show "{b \<in> set (outbox db'). ob_key b \<noteq> ob_key row} = {b \<in> set (outbox db). ob_key b \<noteq> ob_key row}" by (rule others)
  qed
qed

definition sample_poisoned :: outbox_row where
  "sample_poisoned = (commit_event sample_terminal sample_tid sample_eid ''host'' ''t2'' sample_row ''dispatch terminal: complete'')
     \<lparr>ob_attempts := 2, ob_error := Some ''failed'', ob_retry_at := Some ''t5''\<rparr>"

lemma projection_failure_quarantines_witness:
  "\<exists>v db' row'. projection_failure_action ''/p'' sample_poisoned ''boom'' ''i'' ''t6'' (\<lambda>_. ''t8'')
       (empty_journal\<lparr>outbox := [sample_poisoned]\<rparr>) = Inr (v, db')
     \<and> row' \<in> set (outbox db') \<and> ob_attempts row' = 3 \<and> \<not> outbox_pending row'"
proof -
  have "outbox_pending sample_poisoned" "ob_attempts sample_poisoned = 2" by code_simp+
  with projection_failure_quarantines [of "empty_journal\<lparr>outbox := [sample_poisoned]\<rparr>" sample_poisoned "''/p''" "''boom''" "''i''"
      "''t6''" "\<lambda>_. ''t8''"]
  show ?thesis by (fastforce simp: OUTBOX_MAX_PROJECTION_ATTEMPTS_def)
qed

section \<open>Reconciling the recipients of a terminal event\<close>

definition live_for :: "string \<Rightarrow> string \<Rightarrow> string \<Rightarrow> delivery_event \<Rightarrow> bool" where
  "live_for project origin uuid e \<longleftrightarrow> de_root e = project \<and> de_origin e = origin \<and> de_uuid e = uuid \<and> de_withdrawn_at e = None"

lemma reconcile_events:
  "events (fold (\<lambda>r d. invalidate_snapshots project r now None
            (withdraw_rows (\<lambda>e. live_for project origin uuid e \<and> de_recipient e = r) now d)) rs db)
   = sql_update (\<lambda>e. live_for project origin uuid e \<and> de_recipient e \<in> set rs) (\<lambda>e. e\<lparr>de_withdrawn_at := Some now\<rparr>) (events db)"
proof (induction rs arbitrary: db)
  case Nil
  then show ?case by (simp add: sql_update_def)
next
  case (Cons r rs)
  have c: "sql_update (\<lambda>e. live_for project origin uuid e \<and> de_recipient e \<in> set rs) (\<lambda>e. e\<lparr>de_withdrawn_at := Some now\<rparr>)
      (sql_update (\<lambda>e. live_for project origin uuid e \<and> de_recipient e = r) (\<lambda>e. e\<lparr>de_withdrawn_at := Some now\<rparr>) es)
    = sql_update (\<lambda>e. live_for project origin uuid e \<and> de_recipient e \<in> set (r # rs)) (\<lambda>e. e\<lparr>de_withdrawn_at := Some now\<rparr>) es" for es
    by (auto simp: sql_update_def live_for_def)
  show ?case unfolding fold_simps Cons.IH by (simp add: withdraw_rows_def c)
qed

text \<open>
  Reconciliation keeps exactly the authoritative targets. Afterwards every live row of the event is
  addressed to a requested recipient, or is a wildcard standing in for a requested one that has no live
  row; no row of a requested recipient and no row of another event is touched.
\<close>

lemma reconcile_leaves_authoritative:
  assumes "reconcile_action project origin uuid requested now db = Inr (stale, db')"
  shows "(\<forall>e \<in> set (events db'). live_for project origin uuid e \<longrightarrow> de_recipient e \<in> set requested
        \<or> (de_recipient e = ''*'' \<and> (\<exists>r \<in> set requested. \<forall>x \<in> set (events db'). live_for project origin uuid x \<longrightarrow> de_recipient x \<noteq> r)))
     \<and> (\<forall>e \<in> set (events db). \<not> live_for project origin uuid e \<or> de_recipient e \<in> set requested \<longrightarrow> e \<in> set (events db'))"
proof -
  let ?mine = "live_for project origin uuid"
  define live where "live = map de_recipient (filter ?mine (events db))"
  define preserved where "preserved = (if ''*'' \<in> set live \<and> list_ex (\<lambda>r. r \<notin> set live) requested then ''*'' # requested else requested)"
  have mine: "(\<lambda>e. de_root e = project \<and> de_origin e = origin \<and> de_uuid e = uuid \<and> de_withdrawn_at e = None) = ?mine"
    by (simp add: live_for_def fun_eq_iff)
  have st: "stale = sort (remdups (filter (\<lambda>r. r \<notin> set preserved) live))"
    and db': "db' = fold (\<lambda>r d. invalidate_snapshots project r now None
            (withdraw_rows (\<lambda>e. ?mine e \<and> de_recipient e = r) now d)) stale db"
    using assms unfolding reconcile_action_def Let_def mine live_def preserved_def by auto
  have ev: "events db' = sql_update (\<lambda>e. ?mine e \<and> de_recipient e \<in> set stale) (\<lambda>e. e\<lparr>de_withdrawn_at := Some now\<rparr>) (events db)"
    unfolding db' by (rule reconcile_events)
  have stale: "r \<in> set stale \<longleftrightarrow> r \<in> set live \<and> r \<notin> set preserved" for r by (auto simp: st)
  have old: "e \<in> set (events db) \<and> de_recipient e \<in> set preserved" if "e \<in> set (events db')" "?mine e" for e
  proof -
    from that(1) obtain y where y: "y \<in> set (events db)" "e = (if ?mine y \<and> de_recipient y \<in> set stale then y\<lparr>de_withdrawn_at := Some now\<rparr> else y)"
      unfolding ev by (rule sql_updateE)
    have "e = y" "\<not> (?mine y \<and> de_recipient y \<in> set stale)"
      using y(2) that(2) by (auto simp: live_for_def split: if_splits)
    moreover have "de_recipient e \<in> set live" using y(1) \<open>e = y\<close> that(2) by (auto simp: live_def)
    ultimately show ?thesis using y(1) that(2) stale by auto
  qed
  have kept: "e \<in> set (events db')" if "e \<in> set (events db)" "\<not> ?mine e \<or> de_recipient e \<in> set requested" for e
    using that stale [of "de_recipient e"] unfolding ev set_sql_update
    by (intro image_eqI [of _ _ e]) (auto simp: preserved_def split: if_splits)
  have "de_recipient e \<in> set requested \<or> (de_recipient e = ''*'' \<and> (\<exists>r \<in> set requested. \<forall>x \<in> set (events db'). ?mine x \<longrightarrow> de_recipient x \<noteq> r))"
    if e: "e \<in> set (events db')" "?mine e" for e
  proof (cases "de_recipient e \<in> set requested")
    case False
    with old [OF e] obtain r where r: "de_recipient e = ''*''" "r \<in> set requested" "r \<notin> set live"
      by (auto simp: preserved_def list_ex_iff split: if_splits)
    have "de_recipient x \<noteq> r" if "x \<in> set (events db')" "?mine x" for x
      using old [OF that] r(3) that(2) by (auto simp: live_def)
    with r show ?thesis by blast
  qed simp
  with kept show ?thesis by blast
qed

definition sample_fanout :: journal where
  "sample_fanout = sample_mailbox\<lparr>events := [sample_mail, sample_mail\<lparr>de_recipient := ''c1''\<rparr>]\<rparr>"

lemma reconcile_leaves_authoritative_witness:
  "\<exists>stale db'. reconcile_action ''/p'' ''o'' (de_uuid sample_mail) [''c1''] ''t1'' sample_fanout = Inr (stale, db')
     \<and> sample_mail\<lparr>de_recipient := ''c1''\<rparr> \<in> set (events db')"
proof -
  obtain stale db' where r: "reconcile_action ''/p'' ''o'' (de_uuid sample_mail) [''c1''] ''t1'' sample_fanout = Inr (stale, db')"
    by (simp add: reconcile_action_def Let_def)
  have "sample_mail\<lparr>de_recipient := ''c1''\<rparr> \<in> set (events sample_fanout)" by (simp add: sample_fanout_def)
  with reconcile_leaves_authoritative [OF r] r show ?thesis by simp
qed

definition blocked_event :: event_args where
  "blocked_event = \<lparr>ea_recipient = ''c1'', ea_origin = ''o'', ea_uuid = ''55555555-5555-4555-8555-555555555555'',
     ea_stream = ''d1'', ea_seq = 1, ea_carrier = ''/m/d1'', ea_type = ''result'', ea_class = ''waking'',
     ea_created_at = ''2026-01-01T00:00:00+00:00'', ea_replaces = [], ea_fallback = True\<rparr>"


end
