(* ===== verification/GF_Projection.thy ===== *)
theory GF_Projection
  imports GF_Outbox_Props
begin

text \<open>
  The projection pass as a whole (\<open>project_terminal_outbox\<close>): the locale \<open>projector\<close> collects what its
  transactions owe a contract on the journal, and its interpretations give the invariant of the whole
  journal and the fact that a row marked projected has its event in front of the readers.
\<close>

section \<open>What a pass owes its callers\<close>

lemma must_commitD: "must_commit a = Some (r, db) \<Longrightarrow> \<exists>w. a = Some (w, db)"
  by (auto simp: must_commit_def split: option.splits sum.splits prod.splits)

text \<open>
  A computation that, from a journal satisfying the invariant, ends in one that satisfies it and is
  related to the first. The contract makes such computations compose.
\<close>

definition kept :: "('db \<Rightarrow> bool) \<Rightarrow> ('db \<Rightarrow> 'db \<Rightarrow> bool) \<Rightarrow> 'db \<Rightarrow> ('a \<times> 'db) option \<Rightarrow> bool" where
  "kept good rel db answer \<longleftrightarrow> (good db \<longrightarrow> (\<forall>r db'. answer = Some (r, db') \<longrightarrow> good db' \<and> rel db db'))"

lemma keptD: "kept good rel db a \<Longrightarrow> a = Some (r, db') \<Longrightarrow> good db \<Longrightarrow> good db' \<and> rel db db'"
  by (simp add: kept_def)

lemma kept_sum:
  "(\<And>x. kept good rel d (f x)) \<Longrightarrow> (\<And>r. kept good rel d (g r)) \<Longrightarrow> kept good rel d (case v of Inl x \<Rightarrow> f x | Inr r \<Rightarrow> g r)"
  by (cases v) simp_all

lemma kept_if: "kept good rel d x \<Longrightarrow> kept good rel d y \<Longrightarrow> kept good rel d (if b then x else y)"
  by simp

lemma kept_must: "kept good rel db a \<Longrightarrow> kept good rel db (must_commit a)"
  unfolding kept_def using must_commitD by blast

context txn_contract
begin

lemma kept_Some: "kept good rel db (Some (r, db))"
  using rel_refl by (simp add: kept_def)

lemma kept_bind:
  assumes "kept good rel db a" "\<And>v d. kept good rel d (f v d)"
  shows "kept good rel db (case a of None \<Rightarrow> None | Some (v, d) \<Rightarrow> f v d)"
  unfolding kept_def
proof (intro impI allI)
  fix r db' assume ok: "good db" and run: "(case a of None \<Rightarrow> None | Some (v, d) \<Rightarrow> f v d) = Some (r, db')"
  then obtain v d where a: "a = Some (v, d)" "f v d = Some (r, db')" by (auto split: option.splits)
  with assms(1) ok have "good d" "rel db d" by (auto simp: kept_def)
  moreover from this assms(2) [of d v] a(2) have "good db'" "rel d db'" by (auto simp: kept_def)
  ultimately show "good db' \<and> rel db db'" using rel_trans by blast
qed

lemma kept_write:
  assumes "keeps good rel action" "polite good rel env"
  shows "kept good rel db (checked_write cfg env started checks action db)"
    "kept good rel db (domain_write cfg env started action db)"
proof -
  show "kept good rel db (checked_write cfg env started checks action db)"
    unfolding kept_def using checked_write_keeps [OF assms] by blast
  have "domain_write cfg env started action db = checked_write cfg env started (Inr ()) action db"
    by (simp add: checked_write_def)
  then show "kept good rel db (domain_write cfg env started action db)"
    unfolding kept_def using checked_write_keeps [OF assms] by simp
qed

end

text \<open>
  The interface between the projection pass and the journal: a contract that each transaction of the
  pass honours. Then every stage of a pass honours it, whatever it answers.
\<close>

locale projector = txn_contract good rel
  for good :: "journal \<Rightarrow> bool" and rel :: "journal \<Rightarrow> journal \<Rightarrow> bool" +
  assumes record_keeps: "keeps good rel (record_delivery_action p e w now)"
    and project_keeps: "keeps good rel (mark_projected_action p enq r o' u now now2)"
    and reconcile_keeps: "keeps good rel (reconcile_action p o' u rs now)"
    and failure_keeps: "keeps good rel (projection_failure_action p row error item now after)"
    and mark_keeps: "keeps good rel (mark_outbox_projected_action row now)"
begin

lemmas stages = kept_bind kept_sum kept_if kept_Some kept_must kept_write
  record_keeps project_keeps reconcile_keeps failure_keeps mark_keeps

lemma assign_recipient_kept:
  assumes "\<And>k. polite good rel (oe_env oe k)"
  shows "kept good rel db (assign_recipient oe project row ca k target db)"
  unfolding assign_recipient_def record_delivery_event_def mark_delivery_projected_def
  by (intro stages assms)

lemma assign_recipients_kept:
  assumes "\<And>k. polite good rel (oe_env oe k)"
  shows "kept good rel db (assign_recipients oe project row ca k targets db)"
proof (induction targets arbitrary: k db)
  case (Cons t ts)
  show ?case unfolding assign_recipients.simps by (intro stages assign_recipient_kept [OF assms] Cons.IH)
qed (simp add: kept_Some)

lemma complete_terminal_delivery_kept:
  assumes "\<And>k. polite good rel (oe_env oe k)"
  shows "kept good rel db (complete_terminal_delivery oe project row ca k db)"
  unfolding complete_terminal_delivery_def Let_def by (intro stages assign_recipients_kept assms)

lemma project_row_kept:
  assumes "\<And>k. polite good rel (oe_env oe k)"
  shows "kept good rel db (project_row oe project post k row db)"
  unfolding project_row_def Let_def by (intro stages complete_terminal_delivery_kept assms)

lemma project_rows_kept:
  assumes "\<And>k. polite good rel (oe_env oe k)"
  shows "kept good rel db (project_rows oe project post k rows db)"
proof (induction rows arbitrary: k db)
  case (Cons row rows)
  show ?case unfolding project_rows.simps by (intro stages project_row_kept [OF assms] Cons.IH)
qed (simp add: kept_Some)

end

section \<open>The whole journal\<close>

definition journal_ok :: "journal \<Rightarrow> bool" where
  "journal_ok db \<longleftrightarrow> attempts_ok db \<and> registry_ok db"

definition journal_le :: "journal \<Rightarrow> journal \<Rightarrow> bool" where
  "journal_le db db' \<longleftrightarrow> attempts_le db db' \<and> registry_le db db'"

text \<open>Operations outside the attempt lifecycle leave its tables, and of an outbox row only its bookkeeping changes.\<close>

definition attempt_frame :: "journal \<Rightarrow> journal \<Rightarrow> bool" where
  "attempt_frame db db' \<longleftrightarrow> attempts db' = attempts db \<and> transitions db' = transitions db
     \<and> map event_core (outbox db') = map event_core (outbox db)"

lemma attempt_frame_refl [simp]: "attempt_frame db db"
  by (simp add: attempt_frame_def)

lemma keeps_whole:
  assumes "\<And>db v db'. action db = Inr (v, db') \<Longrightarrow> safe db db' \<and> attempt_frame db db'"
  shows "keeps journal_ok journal_le action"
proof
  fix db v db' assume ok: "journal_ok db" and run: "action db = Inr (v, db')"
  from assms [OF run] have s: "safe db db'" "attempt_frame db db'" by auto
  from ok s show "journal_ok db' \<and> journal_le db db'"
    using other_keeps [of db db'] by (auto simp: journal_ok_def journal_le_def safe_def attempt_frame_def)
qed

lemma withdraw_replaced_fold_frame:
  "attempt_frame db (fold (withdraw_replaced p w) keys db)"
  by (simp add: withdraw_all_alt attempt_frame_def)

lemma record_frame: "record_delivery_action p e w now db = Inr (v, db') \<Longrightarrow> attempt_frame db db'"
  by (auto simp: record_delivery_action_def Let_def withdraw_all_alt attempt_frame_def
      split: option.splits if_splits sum.splits dest!: insert_event_Inr)

lemma project_frame: "mark_projected_action p enq r o' u now now2 db = Inr (v, db') \<Longrightarrow> attempt_frame db db'"
  by (auto simp: mark_projected_action_def Let_def attempt_frame_def split: option.splits)

lemma reconcile_frame:
  assumes "reconcile_action p o' u rs now db = Inr (v, db')"
  shows "safe db db'" "attempt_frame db db'"
proof -
  from assms obtain q where d: "db' = fold (\<lambda>r d. invalidate_snapshots p r now None (withdraw_rows (q r) now d)) v db"
    by (auto simp: reconcile_action_def Let_def)
  show "safe db db'" unfolding d by (rule safe_fold) (rule safe_trans [OF safe_withdraw_rows safe_invalidate])
  show "attempt_frame db db'" unfolding d attempt_frame_def
    by (simp add: fold_frame)
qed

lemma failure_shape:
  assumes "projection_failure_action p row error item now after db = Inr (v, db')"
  obtains hit f d where "d = db\<lparr>outbox := sql_update hit f (outbox db)\<rparr>"
    "\<And>b. event_core (f b) = event_core b" "\<And>b. ob_projected_at (f b) = ob_projected_at b"
    "db' = d \<or> (\<exists>v'. record_system_action p ''terminal_outbox_quarantined'' ''projection_retry_exhausted''
       ''outbox-quarantine'' item (quarantine_payload row item (Suc (ob_attempts row)) (take 2000 error)) now d = Inr (v', db'))"
proof -
  let ?n = "Suc (ob_attempts row)"
  define quarantined where "quarantined = (OUTBOX_MAX_PROJECTION_ATTEMPTS \<le> ?n)"
  define hit where "hit = (\<lambda>b :: outbox_row. ob_key b = ob_key row \<and> outbox_pending b)"
  define f where "f = (\<lambda>b :: outbox_row. b\<lparr>ob_attempts := ?n, ob_error := Some (take 2000 error),
     ob_retry_at := (if quarantined then None else Some (after (OUTBOX_RETRY_BASE_S * 2 ^ (?n - 1)))),
     ob_quarantined_at := (if quarantined then Some now else None)\<rparr>)"
  define d where "d = db\<lparr>outbox := sql_update hit f (outbox db)\<rparr>"
  show thesis
  proof (rule that)
    show "d = db\<lparr>outbox := sql_update hit f (outbox db)\<rparr>" by (rule d_def)
    show "event_core (f b) = event_core b" "ob_projected_at (f b) = ob_projected_at b" for b
      by (simp_all add: event_core_def f_def)
    show "db' = d \<or> (\<exists>v'. record_system_action p ''terminal_outbox_quarantined'' ''projection_retry_exhausted''
       ''outbox-quarantine'' item (quarantine_payload row item ?n (take 2000 error)) now d = Inr (v', db'))"
      using assms unfolding projection_failure_action_def Let_def quarantined_def [symmetric] hit_def [symmetric]
        f_def [symmetric] d_def [symmetric] by (auto split: if_splits sum.splits)
  qed
qed

lemma failure_frame:
  assumes "projection_failure_action p row error item now after db = Inr (v, db')"
  shows "safe db db'" "attempt_frame db db'"
proof -
  obtain hit f d where d: "d = db\<lparr>outbox := sql_update hit f (outbox db)\<rparr>" "\<And>b. event_core (f b) = event_core b"
    and db': "db' = d \<or> (\<exists>v'. record_system_action p ''terminal_outbox_quarantined'' ''projection_retry_exhausted''
       ''outbox-quarantine'' item (quarantine_payload row item (Suc (ob_attempts row)) (take 2000 error)) now d = Inr (v', db'))"
    by (rule failure_shape [OF assms]) blast
  have "safe db d" by (rule safe_frame) (simp_all add: d(1) delivery_ok_def)
  moreover have "map event_core (outbox d) = map event_core (outbox db)"
    unfolding d(1) by (simp, rule map_sql_update_same) (simp add: d(2))
  moreover have "attempts d = attempts db" "transitions d = transitions db" by (simp_all add: d(1))
  ultimately show "safe db db'" "attempt_frame db db'"
    using db' by (auto simp: attempt_frame_def intro: safe_trans dest: record_system_safe record_system_outbox)
qed

lemma update_capped_map:
  "(\<And>r. p r \<Longrightarrow> g (f r) = g r) \<Longrightarrow> map g (snd (update_capped cap p f rs)) = map g rs"
  by (induction cap p f rs rule: update_capped.induct) (auto split: prod.splits)

lemma mark_outbox_frame:
  assumes "mark_outbox_projected_action row now db = Inr (v, db')"
  shows "safe db db'" "attempt_frame db db'"
proof -
  let ?u = "update_capped 1 (\<lambda>b. ob_key b = ob_key row)
        (\<lambda>b. b\<lparr>ob_projected_at := Some now, ob_attempts := Suc (ob_attempts row), ob_error := None,
               ob_retry_at := None, ob_quarantined_at := None\<rparr>) (outbox db)"
  from assms have d: "db' = db\<lparr>outbox := snd ?u\<rparr>"
    by (auto simp: mark_outbox_projected_action_def split: prod.splits if_splits)
  show "safe db db'" by (rule safe_frame) (simp_all add: d delivery_ok_def)
  have "map event_core (snd ?u) = map event_core (outbox db)"
    by (rule update_capped_map) (simp add: event_core_def)
  then show "attempt_frame db db'" by (simp add: attempt_frame_def d)
qed

interpretation whole: projector journal_ok journal_le
proof unfold_locales
  show "journal_le db db" for db by (simp add: journal_le_def attempts_le_refl registry_le_refl)
  show "journal_le a b \<Longrightarrow> journal_le b c \<Longrightarrow> journal_le a c" for a b c
    by (auto simp: journal_le_def intro: attempts_le_trans registry_le_trans)
qed (intro keeps_whole conjI; blast intro: record_safe record_frame project_safe project_frame reconcile_frame
  failure_frame mark_outbox_frame)+

text \<open>
  A projection pass keeps the journal whole. Whatever fails on the way (a carrier append, a lost
  compare-and-swap, an exhausted retry budget, a concurrent polite writer), a pass leaves the attempt
  invariant and the lease registry intact; no accepted terminal outcome is lost and no ended lease revived.
\<close>

lemma outbox_projection_keeps_journal:
  assumes "\<And>k. polite journal_ok journal_le (oe_env oe k)" "journal_ok db"
    and "project_terminal_outbox oe project post limit now db = Some (r, db')"
  shows "journal_ok db' \<and> journal_le db db'"
  by (rule keptD [OF whole.project_rows_kept [OF assms(1)] assms(3) [unfolded project_terminal_outbox_def] assms(2)])

section \<open>A full pass on a small journal\<close>

definition sample_outbox_env :: outbox_env where
  "sample_outbox_env = \<lparr>oe_config = sample_config, oe_env = \<lambda>_. sample_env, oe_started = \<lambda>_. 0, oe_now = \<lambda>_. ''t9'',
     oe_after = \<lambda>_ _. ''t99'', oe_enqueue = True, oe_item = \<lambda>_. ''i'', oe_describe = \<lambda>_. ''failed''\<rparr>"

definition sample_post :: "outbox_row \<Rightarrow> txn_exn + carrier" where
  "sample_post row = Inr \<lparr>ca_dispatch = ''d1'', ca_seq = 1, ca_path = ''/m/d1'', ca_recorded = True\<rparr>"

definition sample_ready :: journal where
  "sample_ready = sample_prepared\<lparr>attempts := [finish_row sample_terminal sample_tid ''2026-01-01T00:00:00+00:00'' sample_row],
     transitions := [commit_transition sample_terminal sample_tid ''2026-01-01T00:00:00+00:00'' sample_row],
     outbox := [commit_event sample_terminal sample_tid sample_eid ''host'' ''2026-01-01T00:00:00+00:00'' sample_row ''dispatch terminal: complete'']\<rparr>"

lemma sample_pass:
  "case project_terminal_outbox sample_outbox_env ''/p'' sample_post 10 ''t9'' sample_ready of
     Some (Inr [_], _) \<Rightarrow> True | _ \<Rightarrow> False"
  by code_simp

lemma sample_polite: "(\<And>db. rel db db) \<Longrightarrow> polite good rel sample_env"
  by (simp add: polite_def sample_env_def)

lemma sample_headline: "outbox_headline_text ''complete'' (JObj (canon_dict [])) = Inr ''dispatch terminal: complete''"
  by (simp add: outbox_headline_text_def canon_dict_def jget_def filled_def)

lemma sample_commit_ready:
  "\<exists>v. commit_terminal_action sample_terminal sample_tid sample_eid ''host'' ''2026-01-01T00:00:00+00:00'' sample_prepared
     = Inr (v, sample_ready)"
  using sample_headline
  by (simp add: commit_terminal_action_def sample_prepared_def sample_ready_def empty_journal_def
      sql_fetchone_def sample_terminal_def sample_row_def superseding_final_def life_defs terminal_refusal_def
      commit_new_def sql_rowcount_def terminal_hit_def update_keyed_def sql_update_def List.map_filter_def
      insert_transition_def insert_outbox_def clash_def sql_exists_def commit_transition_def commit_event_def
      commit_value_def tr_key_def ob_key_def)

lemma sample_ready_ok: "journal_ok sample_ready"
proof -
  have "attempts_ok sample_ready"
    using sample_commit_ready keepsD [OF commit_keeps [OF sample_nonempty(1,2)] sample_ok] by blast
  moreover have "registry_ok sample_ready"
    by (simp add: registry_ok_def delivery_ok_def leases_ok_def coverage_ok_def attention_ok_def sample_ready_def
        sample_prepared_def empty_journal_def)
  ultimately show ?thesis by (simp add: journal_ok_def)
qed

section \<open>Projected means readable\<close>

text \<open>The identities of the events that readers can see, and the keys of the outbox rows marked projected.\<close>

definition shown :: "journal \<Rightarrow> (string \<times> string \<times> string) set" where
  "shown db = (\<lambda>e. (de_root e, de_origin e, de_uuid e)) ` {e \<in> set (events db). de_projected_at e \<noteq> None}"

definition marked :: "journal \<Rightarrow> (string \<times> string) set" where
  "marked db = ob_key ` {b \<in> set (outbox db). ob_projected_at b \<noteq> None}"

definition shown_le :: "journal \<Rightarrow> journal \<Rightarrow> bool" where
  "shown_le db db' \<longleftrightarrow> shown db \<subseteq> shown db' \<and> marked db \<subseteq> marked db'"

lemma shown_le_refl [simp]: "shown_le db db"
  by (simp add: shown_le_def)

lemma shown_le_trans: "shown_le a b \<Longrightarrow> shown_le b c \<Longrightarrow> shown_le a c"
  by (auto simp: shown_le_def)

lemma shown_update:
  assumes "events db' = sql_update q f (events db)"
    and "\<And>e. q e \<Longrightarrow> (de_root (f e), de_origin (f e), de_uuid (f e)) = (de_root e, de_origin e, de_uuid e)
       \<and> (de_projected_at e \<noteq> None \<longrightarrow> de_projected_at (f e) \<noteq> None)"
  shows "shown db \<subseteq> shown db'"
proof
  fix k assume "k \<in> shown db"
  then obtain e where e: "e \<in> set (events db)" "de_projected_at e \<noteq> None" "k = (de_root e, de_origin e, de_uuid e)"
    by (auto simp: shown_def)
  then have "(if q e then f e else e) \<in> set (events db')" by (simp add: assms(1) set_sql_update)
  with e assms(2) [of e] show "k \<in> shown db'"
    unfolding shown_def by (intro image_eqI [of _ _ "if q e then f e else e"]) auto
qed

lemma marked_update:
  assumes "outbox db' = sql_update q f (outbox db)" "\<And>b. ob_key (f b) = ob_key b"
    and "\<And>b. q b \<Longrightarrow> ob_projected_at b \<noteq> None \<Longrightarrow> ob_projected_at (f b) \<noteq> None"
  shows "marked db \<subseteq> marked db'"
proof
  fix k assume "k \<in> marked db"
  then obtain b where b: "b \<in> set (outbox db)" "ob_projected_at b \<noteq> None" "k = ob_key b"
    by (auto simp: marked_def)
  then have "(if q b then f b else b) \<in> set (outbox db')" by (simp add: assms(1) set_sql_update)
  with b assms(2,3) [of b] show "k \<in> marked db'"
    unfolding marked_def by (intro image_eqI [of _ _ "if q b then f b else b"]) auto
qed

lemma marked_cong: "outbox db' = outbox db \<Longrightarrow> marked db' = marked db"
  by (simp add: marked_def)

lemma shown_cong: "events db' = events db \<Longrightarrow> shown db' = shown db"
  by (simp add: shown_def)

lemma shown_append: "events db' = events db @ [e] \<Longrightarrow> shown db \<subseteq> shown db'"
  by (auto simp: shown_def)

text \<open>What the calls of a pass do to the two sets.\<close>

lemma shown_withdraw_rows: "shown db \<subseteq> shown (withdraw_rows q now db)"
  by (rule shown_update [of _ q "\<lambda>e. e\<lparr>de_withdrawn_at := Some now\<rparr>"]) (simp_all add: withdraw_rows_def)

lemma record_shown:
  assumes "record_delivery_action p e w now db = Inr (r, db')"
  shows "shown_le db db'"
proof -
  define d where "d = fold (withdraw_replaced p w) (dedupe (ea_replaces e)) db"
  have ev: "events d = sql_update (\<lambda>x. \<exists>k \<in> set (ea_replaces e). replaced_by p k x) (withdraw_row w) (events db)"
    "outbox d = outbox db"
    by (simp_all add: d_def withdraw_all_alt)
  have "shown db \<subseteq> shown d" by (rule shown_update [OF ev(1)]) (simp add: withdraw_row_def)
  with ev(2) have le: "shown_le db d" by (simp add: shown_le_def marked_def)
  define rcp where "rcp = effective_recipient p e db"
  define own where "own = (\<lambda>r :: delivery_event. de_root r = p \<and> de_recipient r = rcp \<and> de_origin r = ea_origin e \<and> de_uuid r = ea_uuid e)"
  have run: "(case sql_fetchone own (events db) of
      Some r \<Rightarrow> if \<not> same_content e r then Inl JournalIntegrityError else Inr (r, d)
    | None \<Rightarrow> (case insert_event (new_event p rcp e) d of Inl x \<Rightarrow> Inl x
        | Inr d2 \<Rightarrow> Inr (new_event p rcp e, invalidate_snapshots p rcp now None d2))) = Inr (r, db')"
    using assms unfolding record_delivery_action_def Let_def rcp_def [symmetric] own_def [symmetric] d_def [symmetric]
    by simp
  show ?thesis
  proof (cases "sql_fetchone own (events db)")
    case (Some r0)
    with run le show ?thesis by (simp split: if_splits)
  next
    case None
    with run obtain d2 where i: "insert_event (new_event p rcp e) d = Inr d2" "db' = invalidate_snapshots p rcp now None d2"
      by (auto split: sum.splits)
    from insert_event_Inr [OF i(1)] have "events db' = events d @ [new_event p rcp e]" "outbox db' = outbox d" by (simp_all add: i(2))
    then have "shown_le d db'" unfolding shown_le_def by (intro conjI shown_append) (simp_all add: marked_def)
    with le show ?thesis by (rule shown_le_trans)
  qed
qed

lemma project_shown:
  assumes "mark_projected_action p enq r o' u now now2 db = Inr (v, db')"
  shows "shown_le db db'" "(p, o', u) \<in> shown db'"
proof -
  obtain row where row: "projection_row p r o' u db = Some row"
    using assms by (auto simp: mark_projected_action_def split: option.splits)
  define target where "target = (if de_recipient row = r then r else ''*'')"
  define stamp where "stamp = (case de_projected_at row of None \<Rightarrow> now | Some t \<Rightarrow> if t = [] then now else t)"
  define hit where "hit = (\<lambda>e :: delivery_event. de_root e = p \<and> de_recipient e = target \<and> de_origin e = o'
                        \<and> de_uuid e = u \<and> de_projected_at e = None)"
  have ev: "events db' = sql_update hit (\<lambda>e. e\<lparr>de_projected_at := Some stamp\<rparr>) (events db)" "outbox db' = outbox db"
    using assms unfolding mark_projected_action_def row option.case Let_def target_def [symmetric] stamp_def [symmetric] hit_def [symmetric]
    by auto
  show "shown_le db db'"
    using shown_update [OF ev(1)] marked_cong [OF ev(2)] by (simp add: shown_le_def)
  note rowD = projection_rowD [OF row]
  let ?e = "if hit row then row\<lparr>de_projected_at := Some stamp\<rparr> else row"
  have "?e \<in> set (events db')" using rowD by (simp add: ev(1) set_sql_update)
  moreover have "de_projected_at ?e \<noteq> None" using rowD by (auto simp: hit_def target_def)
  ultimately show "(p, o', u) \<in> shown db'"
    unfolding shown_def using rowD by (intro image_eqI [of _ _ ?e]) auto
qed

lemma reconcile_shown:
  assumes "reconcile_action p o' u rs now db = Inr (v, db')"
  shows "shown_le db db'"
proof -
  from assms obtain q where d: "db' = fold (\<lambda>r d. invalidate_snapshots p r now None (withdraw_rows (q r) now d)) v db"
    by (auto simp: reconcile_action_def Let_def)
  have "shown_le db (fold (\<lambda>r d. invalidate_snapshots p r now None (withdraw_rows (q r) now d)) v db)" for v
  proof (induction v arbitrary: db)
    case (Cons r v)
    have "shown_le db (invalidate_snapshots p r now None (withdraw_rows (q r) now db))"
      using shown_withdraw_rows [of db "q r" now] shown_cong marked_cong by (simp add: shown_le_def shown_def marked_def)
    then show ?case unfolding fold_simps by (rule shown_le_trans) (rule Cons.IH)
  qed simp
  then show ?thesis by (simp add: d)
qed

lemma record_system_shown:
  "record_system_action p ty reason ns item payload now db = Inr (v, db') \<Longrightarrow> shown db \<subseteq> shown db'"
  by (auto simp: record_system_action_def Let_def shown_def split: if_splits sum.splits dest!: insert_event_Inr)

lemma failure_shown:
  assumes "projection_failure_action p row error item now after db = Inr (v, db')"
  shows "shown_le db db'"
proof -
  obtain hit f d where d: "d = db\<lparr>outbox := sql_update hit f (outbox db)\<rparr>" "\<And>b. event_core (f b) = event_core b"
      "\<And>b. ob_projected_at (f b) = ob_projected_at b"
    and db': "db' = d \<or> (\<exists>v'. record_system_action p ''terminal_outbox_quarantined'' ''projection_retry_exhausted''
       ''outbox-quarantine'' item (quarantine_payload row item (Suc (ob_attempts row)) (take 2000 error)) now d = Inr (v', db'))"
    by (rule failure_shape [OF assms]) blast
  have "marked db \<subseteq> marked d"
    by (rule marked_update [of _ hit f]) (use d(2) in \<open>simp_all add: d(1,3) ob_key_def event_core_def\<close>)
  moreover have "shown d = shown db" by (rule shown_cong) (simp add: d(1))
  moreover have "shown d \<subseteq> shown db' \<and> marked d = marked db'"
    using db'
  proof
    assume "\<exists>v'. record_system_action p ''terminal_outbox_quarantined'' ''projection_retry_exhausted''
       ''outbox-quarantine'' item (quarantine_payload row item (Suc (ob_attempts row)) (take 2000 error)) now d = Inr (v', db')"
    then obtain v' where r: "record_system_action p ''terminal_outbox_quarantined'' ''projection_retry_exhausted''
       ''outbox-quarantine'' item (quarantine_payload row item (Suc (ob_attempts row)) (take 2000 error)) now d = Inr (v', db')" ..
    from record_system_shown [OF r] record_system_outbox [OF r] show ?thesis by (simp add: marked_def)
  qed simp
  ultimately show ?thesis by (simp add: shown_le_def)
qed

lemma update_capped_member:
  "r \<in> set rs \<Longrightarrow> r \<in> set (snd (update_capped cap p f rs)) \<or> p r \<and> f r \<in> set (snd (update_capped cap p f rs))"
  by (induction cap p f rs rule: update_capped.induct) (auto split: prod.splits if_splits)

lemma update_capped_hit:
  "fst (update_capped cap p f rs) \<noteq> 0 \<Longrightarrow> \<exists>r \<in> set rs. p r \<and> f r \<in> set (snd (update_capped cap p f rs))"
  by (induction cap p f rs rule: update_capped.induct) (auto split: prod.splits if_splits)

lemma mark_shown:
  assumes "mark_outbox_projected_action row now db = Inr (v, db')"
  shows "shown_le db db'" "ob_key row \<in> marked db'"
proof -
  define f where "f = (\<lambda>b :: outbox_row. b\<lparr>ob_projected_at := Some now, ob_attempts := Suc (ob_attempts row), ob_error := None,
               ob_retry_at := None, ob_quarantined_at := None\<rparr>)"
  define u where "u = update_capped 1 (\<lambda>b. ob_key b = ob_key row) f (outbox db)"
  have d: "db' = db\<lparr>outbox := snd u\<rparr>" "fst u = 1"
    using assms unfolding mark_outbox_projected_action_def f_def [symmetric] u_def [symmetric]
    by (auto split: prod.splits if_splits)
  have f: "ob_key (f b) = ob_key b" "ob_projected_at (f b) = Some now" for b by (simp_all add: f_def ob_key_def)
  have "marked db \<subseteq> marked db'"
  proof
    fix k assume "k \<in> marked db"
    then obtain b where b: "b \<in> set (outbox db)" "ob_projected_at b \<noteq> None" "k = ob_key b" by (auto simp: marked_def)
    from update_capped_member [OF b(1), of 1 "\<lambda>b. ob_key b = ob_key row" f] b f [of b]
    show "k \<in> marked db'" unfolding marked_def d(1) u_def [symmetric]
      by (elim disjE) (auto intro: image_eqI [of _ _ b] image_eqI [of _ _ "f b"])
  qed
  moreover have "shown db' = shown db" by (simp add: d(1) shown_def)
  ultimately show "shown_le db db'" by (simp add: shown_le_def)
  from update_capped_hit [of 1 "\<lambda>b. ob_key b = ob_key row" f "outbox db"] f
  obtain b where "ob_key (f b) = ob_key row" "f b \<in> set (outbox db')"
    using d(2) unfolding u_def [symmetric] d(1) by auto
  then show "ob_key row \<in> marked db'" using f(2) [of b] unfolding marked_def by (intro image_eqI [of _ _ "f b"]) simp_all
qed

interpretation mail: projector "\<lambda>_. True" shown_le
proof unfold_locales
  show "shown_le db db" for db by simp
  show "shown_le a b \<Longrightarrow> shown_le b c \<Longrightarrow> shown_le a c" for a b c by (rule shown_le_trans)
qed (rule keepsI, simp add: record_shown project_shown(1) reconcile_shown failure_shown mark_shown(1))+

text \<open>A committed call ran its handler once, on what it saw.\<close>

lemma committed_run:
  assumes "domain_write cfg env started action db = Some (Inr w, db')" "wr_disposition w = COMMITTED"
  obtains v seen where "wr_value w = Some v" "action seen = Inr (v, db')"
  using loop_atomic [where n = 0 and db = db] assms unfolding domain_write_def by fastforce

lemma must_commit_run:
  assumes "must_commit (checked_write cfg env started checks action db) = Some (Inr v, db')"
  obtains seen where "action seen = Inr (v, db')"
proof -
  from assms obtain w where w: "checked_write cfg env started checks action db = Some (Inr w, db')" "wr_value w = Some v"
      "wr_disposition w = COMMITTED"
    by (auto simp: must_commit_def split: option.splits sum.splits prod.splits if_splits)
  then have "domain_write cfg env started action db = Some (Inr w, db')"
    by (auto simp: checked_write_def split: sum.splits)
  from committed_run [OF this w(3)] w(2) that show thesis by auto
qed

lemma assign_recipient_shown:
  assumes "assign_recipient oe project row ca k target db = Some (Inr r, db')"
  shows "(project, ob_origin row, ob_event row) \<in> shown db'"
proof -
  from assms obtain u :: delivery_event and d1 p where "must_commit (mark_delivery_projected (oe_config oe) (oe_env oe (Suc k)) (oe_started oe (Suc k)) project
       (oe_enqueue oe) (de_recipient u) (ob_origin row) (ob_event row) (oe_now oe (Suc k)) (oe_now oe (Suc k)) d1) = Some (Inr p, db')"
    unfolding assign_recipient_def by (auto split: option.splits sum.splits prod.splits)
  then obtain seen where "mark_projected_action project (oe_enqueue oe) (de_recipient u) (ob_origin row) (ob_event row)
       (oe_now oe (Suc k)) (oe_now oe (Suc k)) seen = Inr (p, db')"
    unfolding mark_delivery_projected_def by (rule must_commit_run)
  then show ?thesis by (rule project_shown(2))
qed

lemma shown_keptD:
  "kept (\<lambda>_. True) shown_le db a \<Longrightarrow> a = Some (r, db') \<Longrightarrow> k \<in> shown db \<Longrightarrow> k \<in> shown db'"
  "kept (\<lambda>_. True) shown_le db a \<Longrightarrow> a = Some (r, db') \<Longrightarrow> m \<in> marked db \<Longrightarrow> m \<in> marked db'"
  by (auto simp: kept_def shown_le_def)

lemma targets_nonempty: "terminal_recipients project owner db \<noteq> []"
  by (simp add: terminal_recipients_def Let_def)

lemma complete_shown:
  assumes "\<And>k. polite (\<lambda>_. True) shown_le (oe_env oe k)"
    and "complete_terminal_delivery oe project row ca k db = Some (Inr u, db')"
  shows "(project, ob_origin row, ob_event row) \<in> shown db'"
proof -
  obtain t ts where t: "terminal_recipients project (attempt_owner (ob_attempt row) db) db = t # ts"
    using targets_nonempty by (metis neq_Nil_conv)
  define k' where "k' = k + 2 * length (t # ts)"
  from assms(2) obtain rs d1 s where a: "assign_recipients oe project row ca k (t # ts) db = Some (Inr rs, d1)"
    and s: "must_commit (checked_write (oe_config oe) (oe_env oe k') (oe_started oe k')
                 (all_checks ([need_identity_token (ob_origin row), need_canonical_uuid (ob_event row)]
                    @ map need_recipient (remdups rs)))
                 (reconcile_action project (ob_origin row) (ob_event row) (remdups rs) (oe_now oe k')) d1) = Some (Inr s, db')"
    unfolding complete_terminal_delivery_def Let_def t k'_def [symmetric] by (auto split: option.splits sum.splits prod.splits simp del: assign_recipients.simps)
  from a obtain r d2 x where b: "assign_recipient oe project row ca k t db = Some (Inr r, d2)"
      "assign_recipients oe project row ca (Suc (Suc k)) ts d2 = Some (x, d1)"
    by (auto split: option.splits sum.splits prod.splits)
  have "(project, ob_origin row, ob_event row) \<in> shown d1"
    by (rule shown_keptD(1) [OF mail.assign_recipients_kept [OF assms(1)] b(2) assign_recipient_shown [OF b(1)]])
  then show ?thesis
    by (rule shown_keptD(1) [OF kept_must [OF mail.kept_write(1) [OF mail.reconcile_keeps assms(1)]] s])
qed

lemma project_row_shown:
  assumes "\<And>k. polite (\<lambda>_. True) shown_le (oe_env oe k)"
    and "project_row oe project post k row db = Some (Inr (Some p), db')"
  shows "(project, ob_origin row, ob_event row) \<in> shown db' \<and> ob_key row \<in> marked db'
     \<and> (pr_attempt p, pr_transition p, pr_event p) = (ob_attempt row, ob_transition row, ob_event row)"
proof -
  from assms(2) obtain ca d w where post: "post row = Inr ca"
    and c: "complete_terminal_delivery oe project row ca (k + 1) db = Some (Inr (), d)"
    and m: "domain_write (oe_config oe) (oe_env oe k) (oe_started oe k) (mark_outbox_projected_action row (oe_now oe k)) d = Some (Inr w, db')"
      "wr_disposition w = COMMITTED"
    and p: "p = \<lparr>pr_attempt = ob_attempt row, pr_transition = ob_transition row, pr_event = ob_event row,
                          pr_recorded = ca_recorded ca, pr_path = ca_path ca\<rparr>"
    unfolding project_row_def Let_def by (auto split: option.splits sum.splits prod.splits if_splits)
  obtain n seen where "mark_outbox_projected_action row (oe_now oe k) seen = Inr (n, db')"
    by (rule committed_run [OF m])
  then have "ob_key row \<in> marked db'" by (rule mark_shown(2))
  moreover have "(project, ob_origin row, ob_event row) \<in> shown db'"
    by (rule shown_keptD(1) [OF mail.kept_write(2) [OF mail.mark_keeps assms(1)] m(1) complete_shown [OF assms(1) c]])
  ultimately show ?thesis by (simp add: p)
qed

lemma project_rows_shown:
  assumes "\<And>k. polite (\<lambda>_. True) shown_le (oe_env oe k)"
    and "project_rows oe project post k rows db = Some (Inr ps, db')" "p \<in> set ps"
  shows "\<exists>row \<in> set rows. (pr_attempt p, pr_transition p, pr_event p) = (ob_attempt row, ob_transition row, ob_event row)
     \<and> (project, ob_origin row, ob_event row) \<in> shown db' \<and> ob_key row \<in> marked db'"
  using assms(2,3)
proof (induction rows arbitrary: k db ps)
  case (Cons row rows)
  from Cons.prems(1) obtain q d1 qs where q: "project_row oe project post k row db = Some (Inr q, d1)"
    and qs: "project_rows oe project post (k + 2 * length (leases db) + 5) rows d1 = Some (Inr qs, db')"
    and ps: "ps = (case q of None \<Rightarrow> [] | Some x \<Rightarrow> [x]) @ qs"
    by (auto split: option.splits sum.splits prod.splits)
  show ?case
  proof (cases "p \<in> set qs")
    case True
    with Cons.IH [OF qs] show ?thesis by auto
  next
    case False
    with Cons.prems(2) ps have "q = Some p" by (cases q) auto
    note now = project_row_shown [OF assms(1) q [unfolded this]]
    note later = shown_keptD [OF mail.project_rows_kept [OF assms(1)] qs]
    from now later show ?thesis by auto
  qed
qed simp

text \<open>
  Projected means readable. Whatever polite writers do in between and however often calls are
  retried, every row a pass reports as projected is one of the batch, carries its projection mark, and
  its event stands in the project's mailbox, projected, under the row's own origin and event identity.
\<close>

lemma projected_is_readable:
  assumes "\<And>k. polite (\<lambda>_. True) shown_le (oe_env oe k)"
    and "project_terminal_outbox oe project post limit now db = Some (Inr ps, db')" "p \<in> set ps"
  shows "\<exists>row \<in> set (pending_outbox limit now db). pr_attempt p = ob_attempt row \<and> pr_transition p = ob_transition row
     \<and> pr_event p = ob_event row
     \<and> (\<exists>e \<in> set (events db'). de_root e = project \<and> de_origin e = ob_origin row \<and> de_uuid e = ob_event row \<and> de_projected_at e \<noteq> None)
     \<and> (\<exists>b \<in> set (outbox db'). ob_key b = ob_key row \<and> ob_projected_at b \<noteq> None)"
  using project_rows_shown [OF assms(1) assms(2) [unfolded project_terminal_outbox_def] assms(3)]
  by (force simp: shown_def marked_def)

lemma sample_passed:
  obtains p db' where "project_terminal_outbox sample_outbox_env ''/p'' sample_post 10 ''t9'' sample_ready = Some (Inr [p], db')"
proof -
  let ?r = "project_terminal_outbox sample_outbox_env ''/p'' sample_post 10 ''t9'' sample_ready"
  have "\<exists>p db'. ?r = Some (Inr [p], db')"
    using sample_pass by (auto split: option.splits prod.splits sum.splits list.splits)
  with that show thesis by auto
qed

lemma sample_oe_polite: "(\<And>db. rel db db) \<Longrightarrow> polite good rel (oe_env sample_outbox_env k)"
  by (simp add: sample_outbox_env_def sample_polite)

lemma projected_is_readable_witness:
  "\<exists>p db'. project_terminal_outbox sample_outbox_env ''/p'' sample_post 10 ''t9'' sample_ready = Some (Inr [p], db')
     \<and> (\<exists>e \<in> set (events db'). de_uuid e = pr_event p \<and> de_projected_at e \<noteq> None)"
proof (rule sample_passed)
  fix p db' assume r: "project_terminal_outbox sample_outbox_env ''/p'' sample_post 10 ''t9'' sample_ready = Some (Inr [p], db')"
  from projected_is_readable [OF sample_oe_polite r, of p] r show ?thesis by auto
qed

lemma outbox_projection_keeps_journal_witness:
  "\<exists>p db'. project_terminal_outbox sample_outbox_env ''/p'' sample_post 10 ''t9'' sample_ready = Some (Inr [p], db')
     \<and> journal_ok db' \<and> journal_le sample_ready db'"
proof (rule sample_passed)
  fix p db' assume r: "project_terminal_outbox sample_outbox_env ''/p'' sample_post 10 ''t9'' sample_ready = Some (Inr [p], db')"
  from outbox_projection_keeps_journal [OF sample_oe_polite sample_ready_ok r] whole.rel_refl r show ?thesis by blast
qed

end
