(* ===== verification/GF_Registry_Refinement.thy ===== *)
theory GF_Registry_Refinement
  imports GF_Lease_Props
begin

text \<open>
  The abstract contract of the lease registry and the refinement: who owns each label and the last
  generation issued for it. A label is granted only when it is free and always to the next generation;
  an owner leaves by an end.
\<close>

record roster =
  ro_owner :: "string \<times> string \<Rightarrow> (nat \<times> string) option"
  ro_last :: "string \<times> string \<Rightarrow> nat"

inductive roster_step :: "roster \<Rightarrow> roster \<Rightarrow> bool" where
  grant: "ro_owner r pl = None \<Longrightarrow> roster_step r
     (r\<lparr>ro_owner := (ro_owner r)(pl \<mapsto> (Suc (ro_last r pl), n)), ro_last := (ro_last r)(pl := Suc (ro_last r pl))\<rparr>)"
| end_owner: "ro_owner r pl \<noteq> None \<Longrightarrow> roster_step r (r\<lparr>ro_owner := (ro_owner r)(pl := None)\<rparr>)"

text \<open>The abstraction of the lease table.\<close>

definition owner_of :: "controller_lease list \<Rightarrow> string \<times> string \<Rightarrow> (nat \<times> string) option" where
  "owner_of ls pl = map_option (\<lambda>l. (ls_generation l, ls_nonce l)) (find (\<lambda>l. ls_place l = pl \<and> ls_state l = ACTIVE) ls)"

definition roster_of :: "controller_lease list \<Rightarrow> roster" where
  "roster_of ls = \<lparr>ro_owner = owner_of ls, ro_last = \<lambda>pl. sql_max (\<lambda>l. ls_place l = pl) ls_generation 0 ls\<rparr>"

definition ls_sig :: "controller_lease \<Rightarrow> (string \<times> string) \<times> nat \<times> string \<times> bool" where
  "ls_sig l = (ls_place l, ls_generation l, ls_nonce l, ls_state l = ACTIVE)"

lemma sql_max_foldr: "sql_max p f 0 rs = foldr max (map f (filter p rs)) 0"
proof -
  have "foldr (\<lambda>x m. max (f x) m) rest (f r) = max (f r) (foldr max (map f rest) 0)" for rest r
    by (induction rest) (simp_all add: max.left_commute)
  then show ?thesis by (simp add: sql_max_def split: list.split)
qed

lemma owner_of_Cons:
  "owner_of (l # ls) pl = (if ls_place l = pl \<and> ls_state l = ACTIVE then Some (ls_generation l, ls_nonce l) else owner_of ls pl)"
  by (simp add: owner_of_def)

lemma roster_sig:
  assumes "map ls_sig ls' = map ls_sig ls"
  shows "roster_of ls' = roster_of ls"
proof -
  have "owner_of ls' pl = owner_of ls pl \<and> foldr max (map ls_generation (filter (\<lambda>l. ls_place l = pl) ls')) 0
      = foldr max (map ls_generation (filter (\<lambda>l. ls_place l = pl) ls)) 0" for pl
    using assms
  proof (induction ls arbitrary: ls')
    case (Cons l ls)
    then obtain l' ls'' where l: "ls' = l' # ls''" "ls_sig l' = ls_sig l" "map ls_sig ls'' = map ls_sig ls" by (cases ls') auto
    have s: "ls_place l' = ls_place l" "ls_generation l' = ls_generation l" "ls_nonce l' = ls_nonce l"
      "ls_state l' = ACTIVE \<longleftrightarrow> ls_state l = ACTIVE" using l(2) by (simp_all add: ls_sig_def)
    from Cons.IH [OF l(3)] show ?case by (simp add: l(1) owner_of_Cons s)
  qed simp
  then show ?thesis by (simp add: roster_of_def sql_max_foldr fun_eq_iff)
qed

lemma owner_of_None: "owner_of ls pl = None \<longleftrightarrow> (\<forall>l \<in> set ls. ls_place l = pl \<longrightarrow> ls_state l \<noteq> ACTIVE)"
  by (auto simp: owner_of_def find_None_iff)

lemma owner_of_Some:
  assumes "leases_ok db" "l \<in> set (leases db)" "ls_state l = ACTIVE"
  shows "owner_of (leases db) (ls_place l) = Some (ls_generation l, ls_nonce l)"
proof (cases "find (\<lambda>m. ls_place m = ls_place l \<and> ls_state m = ACTIVE) (leases db)")
  case None
  with assms(2,3) show ?thesis by (auto simp: find_None_iff)
next
  case (Some m)
  then have "m \<in> set (leases db)" "ls_place m = ls_place l" "ls_state m = ACTIVE" by (auto simp: find_Some_iff)
  with active_unique [OF assms(1) _ assms(2)] assms(3) have "m = l" by blast
  with Some show ?thesis by (simp add: owner_of_def)
qed

text \<open>Ending the active lease of a place.\<close>

lemma roster_end:
  assumes "leases_ok db" "a \<in> set (leases db)" "ls_state a = ACTIVE" "s \<noteq> ACTIVE" "hit a"
    "\<And>l. hit l \<Longrightarrow> ls_state l = ACTIVE \<and> ls_place l = ls_place a"
  shows "roster_step (roster_of (leases db)) (roster_of (sql_update hit (end_lease s now r) (leases db)))"
proof -
  let ?ls = "sql_update hit (end_lease s now r) (leases db)"
  have only: "hit l \<longleftrightarrow> l = a" if "l \<in> set (leases db)" for l
    using assms(5,6) active_unique [OF assms(1) that assms(2)] assms(3) by blast
  have "owner_of ?ls pl = (if pl = ls_place a then None else owner_of (leases db) pl)" for pl
  proof -
    have "find (\<lambda>l. ls_place l = pl \<and> ls_state l = ACTIVE) (sql_update hit (end_lease s now r) xs)
        = (if pl = ls_place a then None else find (\<lambda>l. ls_place l = pl \<and> ls_state l = ACTIVE) xs)"
      if "set xs \<subseteq> set (leases db)" for xs
      using that
    proof (induction xs)
      case (Cons x xs)
      have "ls_state x \<noteq> ACTIVE" if "ls_place x = ls_place a" "x \<noteq> a"
        using that active_unique [OF assms(1) _ assms(2) _ assms(3)] Cons.prems by auto
      with Cons assms(4) only [of x] show ?case by (auto simp: sql_update_def)
    qed (simp add: sql_update_def)
    from this [OF subset_refl] show ?thesis by (simp add: owner_of_def)
  qed
  moreover have "sql_max (\<lambda>l. ls_place l = pl) ls_generation 0 (sql_update hit (end_lease s now r) xs)
      = sql_max (\<lambda>l. ls_place l = pl) ls_generation 0 xs" for pl xs
    by (induction xs) (auto simp: sql_max_foldr sql_update_def)
  ultimately have "roster_of ?ls = roster_of (leases db)\<lparr>ro_owner := (ro_owner (roster_of (leases db)))(ls_place a := None)\<rparr>"
    by (auto simp: roster_of_def fun_eq_iff)
  moreover have "ro_owner (roster_of (leases db)) (ls_place a) \<noteq> None"
    using owner_of_Some [OF assms(1-3)] by (simp add: roster_of_def)
  ultimately show ?thesis using roster_step.end_owner by metis
qed

lemma roster_grant:
  assumes "owner_of (leases db) (p, l) = None"
  shows "roster_step (roster_of (leases db))
     (roster_of (leases db @ [claim_row p l (next_generation p l db) n owner d]))"
proof -
  let ?row = "claim_row p l (next_generation p l db) n owner d"
  have row: "ls_place ?row = (p, l)" "ls_state ?row = ACTIVE" "ls_nonce ?row = n" "ls_generation ?row = next_generation p l db"
    by (simp_all add: claim_row_def ls_place_def)
  have last: "sql_max (\<lambda>x. ls_place x = (p, l)) ls_generation 0 (leases db) = sql_max (\<lambda>x. ls_root x = p \<and> ls_label x = l) ls_generation 0 (leases db)"
    by (simp add: ls_place_def)
  have gt: "\<forall>x \<in> set (leases db). ls_place x = (p, l) \<longrightarrow> ls_generation x < next_generation p l db"
    using next_generation_gt by blast
  have app: "find P (xs @ [y]) = (case find P xs of None \<Rightarrow> if P y then Some y else None | Some x \<Rightarrow> Some x)" for P and xs and y :: controller_lease
    by (induction xs) auto
  have max: "sql_max P ls_generation 0 (xs @ [y]) = (if P y then max (sql_max P ls_generation 0 xs) (ls_generation y) else sql_max P ls_generation 0 xs)"
    for P xs and y :: controller_lease
  proof -
    have "foldr max ns n = max (foldr max ns 0) n" for ns and n :: nat
      by (induction ns) (simp_all add: max.assoc)
    from this [of "map ls_generation (filter P xs)" "ls_generation y"] show ?thesis by (simp add: sql_max_foldr)
  qed
  have "roster_of (leases db @ [?row]) = roster_of (leases db)\<lparr>
     ro_owner := (ro_owner (roster_of (leases db)))((p, l) \<mapsto> (Suc (ro_last (roster_of (leases db)) (p, l)), n)),
     ro_last := (ro_last (roster_of (leases db)))((p, l) := Suc (ro_last (roster_of (leases db)) (p, l)))\<rparr>"
    using assms row last
    by (auto simp: roster_of_def fun_eq_iff owner_of_def app max next_generation_def split: option.splits)
  with assms roster_step.grant [of "roster_of (leases db)" "(p, l)" n] show ?thesis by (simp add: roster_of_def)
qed

text \<open>A change of the journal is simulated when its roster takes abstract steps.\<close>

definition simulated :: "journal \<Rightarrow> journal \<Rightarrow> bool" where
  "simulated db db' \<longleftrightarrow> (registry_ok db \<longrightarrow> roster_step\<^sup>*\<^sup>* (roster_of (leases db)) (roster_of (leases db')))"

lemma simulated_same: "leases db' = leases db \<Longrightarrow> simulated db db'"
  by (simp add: simulated_def)

lemma simulated_trans: "simulated a b \<Longrightarrow> safe a b \<Longrightarrow> simulated b c \<Longrightarrow> simulated a c"
  by (auto simp: simulated_def safe_def intro: rtranclp_trans)

lemma simulated_sig: "map ls_sig (leases db') = map ls_sig (leases db) \<Longrightarrow> simulated db db'"
  using roster_sig [of "leases db'" "leases db"] by (simp add: simulated_def)

lemma simulated_end:
  assumes "s \<noteq> ACTIVE" "\<And>l. hit l \<Longrightarrow> ls_state l = ACTIVE \<and> ls_place l = pl"
    "leases db' = sql_update hit (end_lease s now r) (leases db)"
  shows "simulated db db'"
proof (cases "\<exists>a \<in> set (leases db). hit a")
  case True
  then obtain a where a: "a \<in> set (leases db)" "hit a" by blast
  show ?thesis unfolding simulated_def assms(3)
  proof
    assume "registry_ok db"
    then have "leases_ok db" by (simp add: registry_ok_def)
    from roster_end [OF this a(1) _ assms(1), of hit now r] assms(2) a(2)
    show "roster_step\<^sup>*\<^sup>* (roster_of (leases db)) (roster_of (sql_update hit (end_lease s now r) (leases db)))" by blast
  qed
next
  case False
  then have "sql_update hit (end_lease s now r) (leases db) = leases db" by (auto simp: sql_update_def intro: map_idI)
  then show ?thesis using assms(3) simulated_same by simp
qed

lemma simulated_expire_active:
  assumes "expire_active_lease p l g nonce renewed ended item now db = Inr (row, db')"
  shows "simulated db db'"
proof (cases "row = None")
  case True
  then show ?thesis using expire_active_Inr(2) [OF assms] simulated_same by simp
next
  case False
  show ?thesis
    by (rule simulated_end [where s = EXPIRED and pl = "(p, l)" and now = ended and r = "''holder-dead''"
        and hit = "\<lambda>x. ls_root x = p \<and> ls_label x = l \<and> ls_generation x = g \<and> ls_nonce x = nonce
           \<and> ls_renewed_at x = renewed \<and> ls_state x = ACTIVE"])
      (use expire_active_Inr(3) [OF assms False] in \<open>auto simp: lease_frame_def ls_place_def\<close>)
qed

lemma simulated_expire_all: "expire_all p ended items now dead db = Inr (rows, db') \<Longrightarrow> simulated db db'"
proof (induction p ended items now dead db arbitrary: rows db' rule: expire_all.induct)
  case (1 p ended items now db)
  then show ?case by (simp add: simulated_same)
next
  case (2 p ended items now label g nonce renewed rest db)
  from 2(2) obtain row db1 rows' where
    a: "expire_active_lease p label g nonce renewed ended (items label g) now db = Inr (row, db1)"
      "expire_all p ended items now rest db1 = Inr (rows', db')"
    by (auto split: sum.splits)
  show ?case
    by (rule simulated_trans [OF simulated_expire_active [OF a(1)] expire_active_Inr(1) [OF a(1)] 2(1) [OF a(1) refl a(2)]])
qed

lemma sig_update: "(\<And>l. ls_sig (f l) = ls_sig l) \<Longrightarrow> simulated db (db\<lparr>leases := sql_update hit f (leases db)\<rparr>)"
  by (rule simulated_sig) (simp add: map_sql_update_same)

lemma simulated_renew: "renew_active_action p l nonce g deadline db = Inr (v, db') \<Longrightarrow> simulated db db'"
  by (auto simp: renew_active_action_def Let_def ls_sig_def ls_place_def split: if_splits option.splits intro!: sig_update)

lemma simulated_renew_same: "renew_same_principal p l owner d active db = Inr (v, db') \<Longrightarrow> simulated db db'"
  by (auto simp: renew_same_principal_def Let_def ls_sig_def ls_place_def split: sum.splits option.splits intro!: sig_update)

lemma simulated_displace:
  assumes "displace p l takeover ev d active db = Inr (n, db')"
  shows "simulated db db'"
proof (cases "proven_dead_incumbent ev active")
  case True
  with assms show ?thesis
    by (auto simp: displace_def split: sum.splits option.splits dest: simulated_expire_active)
next
  case False
  with assms have "leases db' = sql_update
            (\<lambda>x. ls_root x = p \<and> ls_label x = l \<and> ls_generation x = ls_generation active \<and> ls_state x = ACTIVE)
            (end_lease SUPERSEDED (cd_now d) ''explicit-takeover'') (leases db)"
    by (auto simp: displace_def split: if_splits)
  then show ?thesis by (rule simulated_end [rotated 2, where pl = "(p, l)"]) (auto simp: ls_place_def)
qed

lemma simulated_claim_new:
  assumes "claim_new p l owner nonce d replaced db = Inr (v, db')"
  shows "simulated db db'"
proof -
  let ?row = "claim_row p l (next_generation p l db) (allocated_nonce nonce d replaced) owner d"
  from assms obtain db1 where "insert_lease ?row db = Inr db1"
    by (auto simp: claim_new_def Let_def claim_row_def allocated_nonce_def split: sum.splits option.splits)
  from insert_leaseD(4) [OF this] have "owner_of (leases db) (p, l) = None"
    by (auto simp: owner_of_None claim_row_def ls_place_def)
  from roster_grant [OF this] show ?thesis by (simp add: simulated_def claim_new_Inr(2) [OF assms] r_into_rtranclp)
qed

lemma simulated_claim:
  assumes "claim_action p l owner nonce takeover ev d db = Inr (v, db')"
  shows "simulated db db'"
proof -
  let ?db = "snd (collapse_open_attention p l (cd_now d) db)"
  have c: "simulated db ?db" "safe db ?db" by (simp_all add: simulated_same safe_collapse)
  have "simulated ?db db'"
  proof (cases "active_row p l ?db")
    case None
    with assms show ?thesis by (auto simp: claim_action_def intro: simulated_claim_new)
  next
    case (Some active)
    with assms show ?thesis
      by (auto simp: claim_action_def Let_def simulated_renew_same split: if_split_asm sum.splits
          intro: simulated_trans [OF simulated_displace displace_safe simulated_claim_new])
  qed
  then show ?thesis by (rule simulated_trans [OF c])
qed

lemma simulated_release:
  assumes "release_action p l nonce reason now db = Inr (v, db')"
  shows "simulated db db'"
proof -
  from assms obtain row where row: "sql_fetchone (\<lambda>x. ls_root x = p \<and> ls_label x = l \<and> ls_nonce x = nonce \<and> ls_state x = ACTIVE)
         (leases db) = Some row"
    by (auto simp: release_action_def split: option.splits)
  have "leases db' = sql_update (\<lambda>x. ls_root x = p \<and> ls_label x = l \<and> ls_generation x = ls_generation row \<and> ls_state x = ACTIVE)
                 (end_lease RETIRED now reason) (leases db)"
    using assms unfolding release_action_def row option.case Let_def
    by (auto dest!: rehome_Inr(1) split: sum.splits if_splits)
  then show ?thesis by (rule simulated_end [rotated 2, where pl = "(p, l)"]) (auto simp: ls_place_def)
qed

lemma leases_same:
  "record_delivery_action p e w now db = Inr (r, db') \<Longrightarrow> leases db' = leases db"
  "mark_projected_action p enq rcp o' u now now2 db = Inr (pj, db') \<Longrightarrow> leases db' = leases db"
  "withdraw_action p rcp o' u now db = Inr (evs, db') \<Longrightarrow> leases db' = leases db"
  "arm_listener_action p l nonce pid tok ppid id' now db = Inr (cv, db') \<Longrightarrow> leases db' = leases db"
  "exit_listener_action id' reason item now db = Inr (cv2, db') \<Longrightarrow> leases db' = leases db"
  "record_system_action p ty reason2 ns item payload now db = Inr (sy, db') \<Longrightarrow> leases db' = leases db"
  "resolve_system_action p ty dispatch keep now db = Inr (ids, db') \<Longrightarrow> leases db' = leases db"
proof -
  have fw: "leases (fold (withdraw_replaced p w) keys db) = leases db" for keys by (simp add: fold_frame)
  show "record_delivery_action p e w now db = Inr (r, db') \<Longrightarrow> leases db' = leases db"
    by (auto simp: record_delivery_action_def Let_def fw split: option.splits if_splits sum.splits dest!: insert_event_Inr)
  show "mark_projected_action p enq rcp o' u now now2 db = Inr (pj, db') \<Longrightarrow> leases db' = leases db"
    by (auto simp: mark_projected_action_def Let_def split: option.splits)
  show "withdraw_action p rcp o' u now db = Inr (evs, db') \<Longrightarrow> leases db' = leases db"
    by (auto simp: withdraw_action_def Let_def split: option.splits if_splits)
  show "arm_listener_action p l nonce pid tok ppid id' now db = Inr (cv, db') \<Longrightarrow> leases db' = leases db"
    by (auto simp: arm_listener_action_def Let_def insert_coverage_def violation_def split: option.splits if_splits sum.splits)
  show "exit_listener_action id' reason item now db = Inr (cv2, db') \<Longrightarrow> leases db' = leases db"
    by (auto simp: exit_listener_action_def Let_def lease_frame_def split: option.splits if_splits sum.splits dest!: materialize_safe)
  show "record_system_action p ty reason2 ns item payload now db = Inr (sy, db') \<Longrightarrow> leases db' = leases db"
    by (auto simp: record_system_action_def Let_def split: if_splits sum.splits dest!: insert_event_Inr)
  have fr: "leases (fold (resolve_system_item p now) xs db) = leases db" for xs
    by (simp add: fold_frame resolve_system_item_def withdraw_attention_event_def)
  show "resolve_system_action p ty dispatch keep now db = Inr (ids, db') \<Longrightarrow> leases db' = leases db"
    by (auto simp: resolve_system_action_def Let_def fr)
qed

lemma registry_step_simulated: "registry_step db db' \<Longrightarrow> simulated db db'"
proof (induction rule: registry_step.induct)
  case (advance a sha p now db cw db')
  have "leases db' = leases db" if "registry_ok db"
  proof -
    from that have "delivery_ok db" by (simp add: registry_ok_def)
    from this advance show ?thesis by (rule advance_Inr) (simp add: same_rest_def)
  qed
  then show ?case by (simp add: simulated_def)
next
  case (set_cursor l ps actor ps' p now db cw db')
  have "leases db' = leases db" if "registry_ok db"
  proof -
    from that have "delivery_ok db" by (simp add: registry_ok_def)
    from set_cursor_Inr(2) [OF this set_cursor(1) _ set_cursor(3)] set_cursor(2) show ?thesis by (simp add: same_rest_def)
  qed
  then show ?case by (simp add: simulated_def)
next
  case (other db' db)
  then show ?case by (intro simulated_same)
qed (blast intro: simulated_same leases_same simulated_expire_all simulated_renew simulated_claim simulated_release)+

text \<open>
  C2. The lease registry refines its roster. Along every history of registry operations the lease table,
  read as \<open>who owns each label and which generation was issued last\<close>, only takes steps of the abstract
  roster: a label is granted when it is free, always to the generation after the last one issued, and an
  owner leaves by an end; a takeover is an end followed by a grant, and no other operation moves it.
\<close>

theorem registry_refines_roster:
  assumes "registry_step\<^sup>*\<^sup>* db db'" "registry_ok db"
  shows "roster_step\<^sup>*\<^sup>* (roster_of (leases db)) (roster_of (leases db'))"
  using assms(1)
proof (induction rule: rtranclp_induct)
  case (step a b)
  have "registry_ok a" using registry_steps_keep [OF step(1) assms(2)] by blast
  with registry_step_simulated [OF step(2)] have "roster_step\<^sup>*\<^sup>* (roster_of (leases a)) (roster_of (leases b))"
    by (simp add: simulated_def)
  with step.IH show ?case by (rule rtranclp_trans)
qed simp

theorem registry_refines_roster_witness:
  "\<exists>db :: journal. roster_step\<^sup>*\<^sup>* (roster_of []) (roster_of (leases db)) \<and> ro_last (roster_of (leases db)) (''/p'', ''c1'') = 1"
proof -
  let ?r = "claim_action ''/p'' ''c1'' sample_owner None False None sample_draw empty_journal"
  have n: "\<not> isl ?r" by code_simp
  have act: "case ?r of Inl _ \<Rightarrow> False | Inr (l, db') \<Rightarrow> ro_last (roster_of (leases db')) (''/p'', ''c1'') = 1" by code_simp
  from n obtain l db where r: "?r = Inr (l, db)" by (rule not_isl)
  have "registry_step\<^sup>*\<^sup>* empty_journal db" by (rule r_into_rtranclp, rule registry_step.claim [OF r])
  from registry_refines_roster [OF this registry_ok_empty]
  have "roster_step\<^sup>*\<^sup>* (roster_of []) (roster_of (leases db))" by (simp add: empty_journal_def)
  moreover have "ro_last (roster_of (leases db)) (''/p'', ''c1'') = 1" using act unfolding r by simp
  ultimately show ?thesis by blast
qed

end
