(* ===== verification/GF_Limits.thy ===== *)
theory GF_Limits
  imports GF_States
begin

text \<open>
  Agent labels, capacity pools and the configured limits (\<open>scripts/goalflight_agent_limits.py\<close>): the
  committed tables, the merge of a machine-local profile over them, and the lookups admission uses.
  The profile file itself is a parameter: its decoded JSON object.
\<close>

section \<open>Labels\<close>

text \<open>\<open>str.casefold\<close> on ASCII; other letters are left alone.\<close>

definition ascii_lower :: "char \<Rightarrow> char" where
  "ascii_lower c = (let n = of_char c :: nat in if 65 \<le> n \<and> n \<le> 90 then char_of (n + 32) else c)"

definition casefold :: "string \<Rightarrow> string" where
  "casefold s = map ascii_lower s"

definition normalize_agent :: "string \<Rightarrow> string" where
  "normalize_agent agent = casefold (strip agent)"

definition LEGACY_AGENT_HANDLES :: "(string \<times> string) list" where
  "LEGACY_AGENT_HANDLES = [(''kimi'', ''moonshot'')]"

definition AGENT_CAP_POOL :: "(string \<times> string) list" where
  "AGENT_CAP_POOL = [(''codex-acp'', ''codex''), (''grok-code'', ''grok''), (''grok-research'', ''grok''),
     (''grok-acp'', ''grok''), (''grok-bash-tail'', ''grok'')]"

text \<open>\<open>d.get(k, dflt)\<close> on a table.\<close>

definition table_get :: "(string \<times> 'v) list \<Rightarrow> string \<Rightarrow> 'v \<Rightarrow> 'v" where
  "table_get d k dflt = (case map_of d k of None \<Rightarrow> dflt | Some v \<Rightarrow> v)"

definition canonical_agent_label :: "string \<Rightarrow> string" where
  "canonical_agent_label agent = table_get LEGACY_AGENT_HANDLES (normalize_agent agent) (normalize_agent agent)"

definition moonshot_family :: "string \<Rightarrow> bool" where
  "moonshot_family agent \<longleftrightarrow> canonical_agent_label agent = ''moonshot''"

definition cap_pool :: "string \<Rightarrow> string" where
  "cap_pool agent = (let a = canonical_agent_label agent in table_get AGENT_CAP_POOL a a)"

section \<open>Committed limits\<close>

definition COMMITTED_AGENT_RSS_MB :: "(string \<times> int) list" where
  "COMMITTED_AGENT_RSS_MB =
     [(''grok'', 200), (''grok-acp'', 200), (''grok-code'', 200), (''grok-research'', 200), (''codex'', 386),
      (''codex-acp'', 386), (''moonshot'', 386), (''claude'', 614), (''claude-code-cli-acp'', 614),
      (''cursor'', 1203), (''cursor-agent'', 1203), (''opencode'', 386), (''opencode-acp'', 386),
      (''opencode-bash-tail'', 386)]"

definition COMMITTED_AGENT_CAPS :: "(string \<times> int) list" where
  "COMMITTED_AGENT_CAPS =
     [(''cursor'', 3), (''cursor-agent'', 3), (''opencode'', 10), (''opencode-acp'', 10),
      (''opencode-bash-tail'', 10), (''claude'', 5), (''claude-code-cli-acp'', 5), (''codex'', 18),
      (''codex-acp'', 18), (''moonshot'', 6), (''grok'', 30), (''grok-acp'', 30), (''grok-code'', 30),
      (''grok-research'', 30), (''herm-worker'', 2), (''cla-worker'', 2), (''paperclip'', 2)]"

definition DEFAULT_ACCOUNT_CAPS :: "(string \<times> int) list" where
  "DEFAULT_ACCOUNT_CAPS = [(''grok'', 50)]"

section \<open>The machine-local profile\<close>

text \<open>
  \<open>int(value)\<close> on a decoded JSON value: \<open>None\<close> is the caught \<open>TypeError\<close> or \<open>ValueError\<close>. Digit-group
  underscores are not modelled.
\<close>

definition py_int :: "json \<Rightarrow> int option" where
  "py_int v = (case v of
      JInt i \<Rightarrow> Some i
    | JBool b \<Rightarrow> Some (if b then 1 else 0)
    | JFloat r \<Rightarrow> Some (if 0 \<le> r then \<lfloor>r\<rfloor> else \<lceil>r\<rceil>)
    | JStr s \<Rightarrow> (let (sg, ds) = split_sign (strip s)
        in if ds = [] then None else map_option (\<lambda>n. if sg < 0 then - n else n) (digits_value ds 0))
    | _ \<Rightarrow> None)"

definition json_float :: "json \<Rightarrow> real option" where
  "json_float v = (case v of
      JInt i \<Rightarrow> Some (of_int i)
    | JBool b \<Rightarrow> Some (if b then 1 else 0)
    | JFloat r \<Rightarrow> Some r
    | JStr s \<Rightarrow> py_float s
    | _ \<Rightarrow> None)"

definition positive_int_or :: "json \<Rightarrow> int option \<Rightarrow> int option" where
  "positive_int_or v dflt = (case py_int v of None \<Rightarrow> dflt | Some n \<Rightarrow> if 0 < n then Some n else dflt)"

text \<open>\<open>local_hard_cap(40)\<close> and \<open>local_operating_total()\<close>.\<close>

definition local_hard_cap :: "dict \<Rightarrow> int" where
  "local_hard_cap conf = (case positive_int_or (jget conf ''hard_cap'') None of None \<Rightarrow> 40 | Some n \<Rightarrow> n)"

definition local_operating_total :: "dict \<Rightarrow> int option" where
  "local_operating_total conf = positive_int_or (if has_key conf ''operating_total'' then jget conf ''operating_total''
     else jget conf ''max_total'') None"

definition merge_int_map :: "(string \<times> int) list \<Rightarrow> json \<Rightarrow> (string \<times> int) list" where
  "merge_int_map target override = (case override of
      JObj d \<Rightarrow> fold (\<lambda>(k, v) t. case py_int v of
          None \<Rightarrow> t
        | Some n \<Rightarrow> if 0 < n then AList.update (canonical_agent_label k) n t else t) d target
    | _ \<Rightarrow> target)"

text \<open>\<open>target.setdefault(vendor, {})[key] = value\<close>.\<close>

definition bucket_put :: "string \<Rightarrow> string \<Rightarrow> 'v \<Rightarrow> (string \<times> (string \<times> 'v) list) list \<Rightarrow> (string \<times> (string \<times> 'v) list) list" where
  "bucket_put vendor k v target = AList.update vendor (AList.update k v (table_get target vendor [])) target"

definition bucket_touch :: "string \<Rightarrow> (string \<times> (string \<times> 'v) list) list \<Rightarrow> (string \<times> (string \<times> 'v) list) list" where
  "bucket_touch vendor target = (if map_of target vendor = None then AList.update vendor [] target else target)"

definition split_colon :: "string \<Rightarrow> string \<times> string" where
  "split_colon s = (takeWhile (\<lambda>c. c \<noteq> CHR '':'') s, tl (dropWhile (\<lambda>c. c \<noteq> CHR '':'') s))"

definition merge_account_entry :: "string \<times> json \<Rightarrow> (string \<times> (string \<times> int) list) list \<Rightarrow> (string \<times> (string \<times> int) list) list" where
  "merge_account_entry e target = (case e of (vendor, accounts) \<Rightarrow> (case accounts of
      JObj d \<Rightarrow> if cap_pool vendor = [] then target
        else fold (\<lambda>(account, v) t. case py_int v of
            None \<Rightarrow> t
          | Some n \<Rightarrow> if 0 < n \<and> strip account \<noteq> [] then bucket_put (cap_pool vendor) (strip account) n t else t)
          d (bucket_touch (cap_pool vendor) target)
    | _ \<Rightarrow> (case py_int accounts of
        None \<Rightarrow> target
      | Some n \<Rightarrow> let text = strip vendor; (name, account) = split_colon text; pool = cap_pool name
          in if n \<le> 0 \<or> CHR '':'' \<notin> set text then target
             else if pool \<noteq> [] \<and> strip account \<noteq> [] then bucket_put pool (strip account) n target else target)))"

definition merge_account_caps :: "(string \<times> (string \<times> int) list) list \<Rightarrow> json \<Rightarrow> (string \<times> (string \<times> int) list) list" where
  "merge_account_caps target override = (case override of JObj d \<Rightarrow> fold merge_account_entry d target | _ \<Rightarrow> target)"

definition merge_weight_entry :: "string \<times> json \<Rightarrow> (string \<times> (string \<times> real) list) list \<Rightarrow> (string \<times> (string \<times> real) list) list" where
  "merge_weight_entry e target = (case e of (vendor, models) \<Rightarrow>
     (let pool = (if vendor = ''*'' then ''*'' else cap_pool vendor)
      in case models of
        JObj d \<Rightarrow> fold (\<lambda>(model, v) t. case json_float v of
            None \<Rightarrow> t
          | Some w \<Rightarrow> if 0 < w \<and> strip model \<noteq> [] then bucket_put pool (casefold (strip model)) w t else t)
          d (bucket_touch pool target)
      | _ \<Rightarrow> (case json_float models of
          None \<Rightarrow> target
        | Some w \<Rightarrow> if 0 < w \<and> strip vendor \<noteq> [] then bucket_put ''*'' (casefold (strip vendor)) w target else target)))"

definition merge_model_weights :: "(string \<times> (string \<times> real) list) list \<Rightarrow> json \<Rightarrow> (string \<times> (string \<times> real) list) list" where
  "merge_model_weights target override = (case override of JObj d \<Rightarrow> fold merge_weight_entry d target | _ \<Rightarrow> target)"

text \<open>The tables in effect after import.\<close>

record limits =
  lm_agent_caps :: "(string \<times> int) list"
  lm_rss :: "(string \<times> int) list"
  lm_account_caps :: "(string \<times> (string \<times> int) list) list"
  lm_weights :: "(string \<times> (string \<times> real) list) list"
  lm_hard_cap :: int
  lm_operating_total :: "int option"

definition limits_of :: "dict \<Rightarrow> limits" where
  "limits_of conf = \<lparr>
     lm_agent_caps = merge_int_map COMMITTED_AGENT_CAPS (jget conf ''agent_caps''),
     lm_rss = merge_int_map COMMITTED_AGENT_RSS_MB (jget conf ''agent_rss_mb''),
     lm_account_caps = merge_account_caps [] (jget conf ''account_caps''),
     lm_weights = merge_model_weights [] (if has_key conf ''model_weights'' then jget conf ''model_weights''
        else jget conf ''model_weights_by_vendor''),
     lm_hard_cap = local_hard_cap conf,
     lm_operating_total = local_operating_total conf\<rparr>"

section \<open>Lookups\<close>

definition account_cap :: "limits \<Rightarrow> string \<Rightarrow> string option \<Rightarrow> int option \<Rightarrow> int" where
  "account_cap lm vendor account dflt =
     (let key = cap_pool vendor;
          configured = table_get (lm_account_caps lm) key [];
          acct = (case account of None \<Rightarrow> ''default'' | Some a \<Rightarrow> if strip a = [] then ''default'' else strip a)
      in case map_of configured acct of
           Some v \<Rightarrow> v
         | None \<Rightarrow> (case map_of configured ''default'' of
             Some v \<Rightarrow> v
           | None \<Rightarrow> (case dflt of
               Some d \<Rightarrow> d
             | None \<Rightarrow> table_get DEFAULT_ACCOUNT_CAPS key
                 (table_get (lm_agent_caps lm) key (table_get (lm_agent_caps lm) vendor 2)))))"

definition model_weight :: "limits \<Rightarrow> string \<Rightarrow> string option \<Rightarrow> real" where
  "model_weight lm vendor model =
     (let key = casefold (strip (case model of None \<Rightarrow> [] | Some m \<Rightarrow> m))
      in if key = [] then 1
         else case map_of (table_get (lm_weights lm) (cap_pool vendor) []) key of
             Some w \<Rightarrow> if 0 < w then w else 1
           | None \<Rightarrow> (case map_of (table_get (lm_weights lm) ''*'' []) key of
               Some w \<Rightarrow> if 0 < w then w else 1
             | None \<Rightarrow> 1))"

lemma model_weight_pos: "0 < model_weight lm vendor model"
  by (auto simp: model_weight_def Let_def split: option.splits)

text \<open>Normalising twice is normalising once, so a stored agent label keeps its pool.\<close>

lemma ascii_lower_idem [simp]: "ascii_lower (ascii_lower c) = ascii_lower c"
  by (simp add: ascii_lower_def Let_def)

lemma py_space_lower [simp]: "py_space (ascii_lower c) = py_space c"
  by (auto simp: ascii_lower_def py_space_def Let_def)

lemma strip_casefold: "strip (casefold s) = casefold (strip s)"
  by (simp add: strip_def lstrip_def rstrip_def casefold_def dropWhile_map rev_map comp_def)

lemma dropWhile_hd: "dropWhile P s = [] \<or> \<not> P (hd (dropWhile P s))"
  using hd_dropWhile by blast

lemma dropWhile_stable: "s = [] \<or> \<not> P (hd s) \<Longrightarrow> dropWhile P s = s"
  by (cases s) auto

lemma strip_idem [simp]: "strip (strip s) = strip s"
proof -
  define l where "l = dropWhile py_space s"
  define r where "r = dropWhile py_space (rev l)"
  have s: "strip s = rev r" by (simp add: strip_def lstrip_def rstrip_def l_def r_def)
  have "r = [] \<or> \<not> py_space (hd r)" unfolding r_def by (rule dropWhile_hd)
  moreover have "rev r = [] \<or> \<not> py_space (hd (rev r))"
  proof (cases "rev r = []")
    case False
    obtain pre where pre: "l = rev r @ pre"
      unfolding r_def by (metis rev_append rev_rev_ident takeWhile_dropWhile_id)
    then have "hd (rev r) = hd l" "l \<noteq> []" using False by auto
    then show ?thesis using dropWhile_hd [of py_space s] unfolding l_def [symmetric] by metis
  qed simp
  ultimately show ?thesis
    by (simp add: s) (simp add: strip_def lstrip_def rstrip_def dropWhile_stable)
qed

lemma normalize_agent_idem [simp]: "normalize_agent (normalize_agent a) = normalize_agent a"
  by (simp add: normalize_agent_def strip_casefold) (simp add: casefold_def comp_def)

end
