(* ===== verification/GF_Capacity.thy ===== *)
theory GF_Capacity
  imports GF_Limits
begin

text \<open>
  The machine-global capacity leases (\<open>scripts/goalflight_capacity.py\<close>): the state file, what counts as
  a live, dead or unknown holder, pruning, reclaim and release. Every operation runs under the file
  lock, so it is a function of the loaded state. Process probes, the dispatch ledger and the clock are
  parameters, one reading per operation. Fields of a lease that are only written for operators
  (\<open>prompt_id\<close>, \<open>project_root\<close>, paths, \<open>model\<close>, \<open>priority\<close>, \<open>detached_*\<close>, \<open>spawn_failed_at\<close> and the
  like) are left out; a missing field is \<open>None\<close>.
\<close>

section \<open>State\<close>

record process_identity =
  pi_pid :: "int option"
  pi_token :: "string option"

record cap_lease =
  cl_id :: string
  cl_dispatch :: "string option"
  cl_agent :: string
  cl_account :: "string option"
  cl_effective :: "string option"
  cl_weight :: "real option"
  cl_controller :: "int option"
  cl_claimant :: "int option"
  cl_worker :: "int option"
  cl_pgid :: "int option"
  cl_controller_id :: "process_identity option"
  cl_claimant_id :: "process_identity option"
  cl_worker_id :: "process_identity option"
  cl_machine :: "string option"
  cl_schema :: "string option"
  cl_launch :: "string option"
  cl_mem :: int
  cl_state :: string
  cl_reason :: "string option"
  cl_reserved_at :: "string option"
  cl_deadline_at :: "string option"
  cl_started_at :: "string option"
  cl_expires_at :: "string option"
  cl_released_at :: "string option"
  cl_ended_at :: "string option"
  cl_live_until :: "string option"
  cl_live_pgid :: "int option"
  cl_unknown_since :: "string option"
  cl_retained :: bool

record cooldown =
  cd_reason :: string
  cd_until :: "string option"

record cap_state =
  cs_machine :: "string option"
  cs_leases :: "(string \<times> cap_lease) list"
  cs_cooldowns :: "(string \<times> cooldown) list"

text \<open>The file: missing, present but unreadable or misshapen, or a state.\<close>

datatype capacity_file = NoFile | BadFile | GoodFile cap_state

datatype cap_error = CapacityStateUnreadable | MissingCapacityLease

definition load_state :: "string \<Rightarrow> capacity_file \<Rightarrow> cap_error + cap_state" where
  "load_state machine file = (case file of
      NoFile \<Rightarrow> Inr \<lparr>cs_machine = Some machine, cs_leases = [], cs_cooldowns = []\<rparr>
    | BadFile \<Rightarrow> Inl CapacityStateUnreadable
    | GoodFile data \<Rightarrow> Inr (data\<lparr>cs_machine := (case cs_machine data of None \<Rightarrow> Some machine | Some m \<Rightarrow> Some m)\<rparr>))"

text \<open>A locked operation: its value, and the state it saved if it saved one.\<close>

type_synonym 'a cap_op = "cap_state \<Rightarrow> 'a \<times> cap_state option"

definition with_state :: "string \<Rightarrow> 'a cap_op \<Rightarrow> capacity_file \<Rightarrow> (cap_error + 'a) \<times> capacity_file" where
  "with_state machine body file = (case load_state machine file of
      Inl x \<Rightarrow> (Inl x, file)
    | Inr data \<Rightarrow> (case body data of (v, saved) \<Rightarrow>
        (Inr v, (case saved of None \<Rightarrow> file | Some data' \<Rightarrow> GoodFile data'))))"

section \<open>Evidence\<close>

text \<open>A dispatch row of the ledger and the status file it points to, as far as leases read them.\<close>

record dispatch_row =
  dr_state :: "string option"
  dr_reason :: "string option"
  dr_error :: "string option"
  dr_terminal :: "string option"
  dr_worker :: "int option"
  dr_worker_id :: "process_identity option"
  dr_pgid :: "int option"
  dr_alive :: "bool option"
  dr_claimant :: "int option"
  dr_claimant_id :: "process_identity option"
  dr_account :: "string option"
  dr_effective :: "string option"
  dr_status_path :: "string option"

record status_row =
  st_dispatch :: "string option"
  st_worker :: "int option"
  st_worker_id :: "process_identity option"
  st_pgid :: "int option"
  st_alive :: "bool option"

text \<open>
  \<open>ce_alive\<close> is \<open>goalflight_compat.pid_liveness\<close>, \<open>ce_group\<close> the \<open>killpg(pgid, 0)\<close> probe and \<open>ce_identity\<close>
  \<open>process_start_identity\<close>, each for a positive id; \<open>ce_read_record\<close> is \<open>goalflight_ledger.read_record\<close>
  and \<open>ce_read_status\<close> the decoded status file of a path.
\<close>

record cap_env =
  ce_now :: int
  ce_machine :: string
  ce_pid :: int
  ce_alive :: "int \<Rightarrow> bool option"
  ce_group :: "int \<Rightarrow> bool option"
  ce_identity :: "int \<Rightarrow> process_identity option"
  ce_read_record :: "string \<Rightarrow> dispatch_row option"
  ce_read_status :: "string \<Rightarrow> status_row option"

definition LEASE_SCHEMA :: string where "LEASE_SCHEMA = ''goalflight.capacity.lease.v2''"
definition SPAWNING_RESERVATION_S :: int where "SPAWNING_RESERVATION_S = 300"
definition INDETERMINATE_LIVE_RETENTION_S :: int where "INDETERMINATE_LIVE_RETENTION_S = 7200"
definition INDETERMINATE_LIVE_REASON :: string where "INDETERMINATE_LIVE_REASON = ''liveness_indeterminate_worker_live''"

definition LEASE_ONLY_TERMINAL_STATES :: "string set" where
  "LEASE_ONLY_TERMINAL_STATES = {''expired'', ''result_too_large''}"

definition TERMINAL_LEASE_STATES :: "string set" where
  "TERMINAL_LEASE_STATES = TERMINAL_STATES \<union> LEASE_ONLY_TERMINAL_STATES"

definition seconds :: "int \<Rightarrow> int" where "seconds s = s * us_per_s"

text \<open>\<open>iso\<close> and \<open>parse_iso\<close>. Every stored text is written by \<open>iso\<close>, so it carries its offset.\<close>

definition parse_iso :: "string option \<Rightarrow> int option" where
  "parse_iso v = (case v of None \<Rightarrow> None
     | Some s \<Rightarrow> if s = [] then None else map_option utc_instant (fromisoformat (replace_Z s)))"

definition or_else :: "'a option \<Rightarrow> 'a option \<Rightarrow> 'a option" where
  "or_else a b = (case a of None \<Rightarrow> b | Some _ \<Rightarrow> a)"

text \<open>\<open>s or t\<close> on optional strings.\<close>

definition filled_or :: "string option \<Rightarrow> string option \<Rightarrow> string option" where
  "filled_or a b = (case a of None \<Rightarrow> b | Some s \<Rightarrow> if s = [] then b else Some s)"

definition lease_is_legacy :: "cap_lease \<Rightarrow> bool" where
  "lease_is_legacy l \<longleftrightarrow> cl_machine l = None \<and> cl_schema l \<noteq> Some LEASE_SCHEMA"

definition spawning_reservation_expired :: "cap_env \<Rightarrow> cap_lease \<Rightarrow> bool" where
  "spawning_reservation_expired env l =
     (if cl_launch l \<noteq> Some ''spawning'' then False
      else case parse_iso (cl_deadline_at l) of
          Some deadline \<Rightarrow> deadline \<le> ce_now env
        | None \<Rightarrow> (case parse_iso (filled_or (cl_reserved_at l) (cl_started_at l)) of
            None \<Rightarrow> False
          | Some reserved \<Rightarrow> reserved + seconds SPAWNING_RESERVATION_S \<le> ce_now env))"

definition dispatch_record_for_lease :: "cap_env \<Rightarrow> string option \<Rightarrow> dispatch_row option" where
  "dispatch_record_for_lease env dispatch = (case dispatch of None \<Rightarrow> None
     | Some d \<Rightarrow> if d = [] then None else (case ce_read_record env d of None \<Rightarrow> None
       | Some r \<Rightarrow>
         (case (if dr_state r = Some ''unreadable'' then None else dr_status_path r) of
            None \<Rightarrow> Some r
          | Some path \<Rightarrow> (case (if path = [] then None else ce_read_status env path) of
              None \<Rightarrow> Some r
            | Some s \<Rightarrow> if st_dispatch s \<noteq> Some d then Some r
                else Some (r\<lparr>dr_worker := or_else (dr_worker r) (st_worker s),
                    dr_worker_id := or_else (dr_worker_id r) (st_worker_id s),
                    dr_pgid := or_else (dr_pgid r) (st_pgid s),
                    dr_alive := or_else (dr_alive r) (st_alive s)\<rparr>)))))"

text \<open>\<open>goalflight_ledger._terminal_key\<close>.\<close>

definition json_text :: "string option \<Rightarrow> json" where
  "json_text v = (case v of None \<Rightarrow> JNull | Some s \<Rightarrow> JStr s)"

definition terminal_key :: "dispatch_row \<Rightarrow> string" where
  "terminal_key r = (case filled_or (dr_terminal r) None of
      Some t \<Rightarrow> t
    | None \<Rightarrow> (case terminal_state_for (json_text (dr_state r)) (json_text (filled_or (dr_reason r) (dr_error r))) of
        Inr s \<Rightarrow> s | Inl _ \<Rightarrow> ''unknown''))"

section \<open>Liveness\<close>

definition probe_pid_liveness :: "cap_env \<Rightarrow> int option \<Rightarrow> bool option" where
  "probe_pid_liveness env pid = (case pid of None \<Rightarrow> Some False
     | Some p \<Rightarrow> if p \<le> 0 then Some False else ce_alive env p)"

definition process_start_identity :: "cap_env \<Rightarrow> int option \<Rightarrow> process_identity option" where
  "process_start_identity env pid = (case pid of None \<Rightarrow> None
     | Some p \<Rightarrow> if p \<le> 0 then None else ce_identity env p)"

definition process_group_liveness :: "cap_env \<Rightarrow> int option \<Rightarrow> bool option" where
  "process_group_liveness env pgid = (case pgid of None \<Rightarrow> None
     | Some g \<Rightarrow> if g \<le> 1 then None else ce_group env g)"

definition start_token :: "process_identity option \<Rightarrow> string option" where
  "start_token i = (case i of None \<Rightarrow> None | Some x \<Rightarrow> filled_or (pi_token x) None)"

definition lease_identity_for_pid :: "cap_lease \<Rightarrow> int option \<Rightarrow> process_identity option" where
  "lease_identity_for_pid l pid = (if pid = None then None
     else if cl_worker l = pid \<and> cl_worker_id l \<noteq> None then cl_worker_id l
     else if cl_controller l = pid \<and> cl_controller_id l \<noteq> None then cl_controller_id l
     else if cl_claimant l = pid \<and> cl_claimant_id l \<noteq> None then cl_claimant_id l
     else None)"

definition pid_generation_matches :: "cap_env \<Rightarrow> int option \<Rightarrow> cap_lease \<Rightarrow> bool option" where
  "pid_generation_matches env pid l =
     (case (start_token (lease_identity_for_pid l pid), start_token (process_start_identity env pid)) of
        (Some expected, Some current) \<Rightarrow> Some (current = expected)
      | _ \<Rightarrow> None)"

datatype liveness = Live | Dead | Unknown

definition prelaunch_claimant_liveness :: "cap_env \<Rightarrow> cap_lease \<Rightarrow> dispatch_row option \<Rightarrow> liveness" where
  "prelaunch_claimant_liveness env l record =
     (let pid = (case record of None \<Rightarrow> cl_claimant l | Some r \<Rightarrow> or_else (cl_claimant l) (dr_claimant r));
          expected = (case record of
              None \<Rightarrow> cl_claimant_id l
            | Some r \<Rightarrow> if start_token (cl_claimant_id l) = None then or_else (dr_claimant_id r) (cl_claimant_id l)
                else cl_claimant_id l)
      in case (pid, start_token expected) of
           (Some p, Some token) \<Rightarrow>
             if p \<le> 0 then Unknown
             else if or_else (Option.bind expected pi_pid) (Some p) \<noteq> Some p then Unknown
             else (case probe_pid_liveness env (Some p) of
                 Some False \<Rightarrow> Dead
               | None \<Rightarrow> Unknown
               | Some True \<Rightarrow> (case start_token (process_start_identity env (Some p)) of
                   None \<Rightarrow> Unknown
                 | Some current \<Rightarrow> if current = token then Live else Dead))
         | _ \<Rightarrow> Unknown)"

definition reclaimable_prelaunch_lease :: "cap_env \<Rightarrow> cap_lease \<Rightarrow> dispatch_row option \<Rightarrow> bool" where
  "reclaimable_prelaunch_lease env l record \<longleftrightarrow>
     cl_launch l = Some ''reserved'' \<and> cl_worker l = None
     \<and> (case record of None \<Rightarrow> False
        | Some r \<Rightarrow> dr_state r = Some ''waiting_capacity'' \<and> dr_worker r = None
            \<and> prelaunch_claimant_liveness env l record = Dead)"

definition worker_lease_view :: "cap_lease \<Rightarrow> dispatch_row option \<Rightarrow> cap_lease" where
  "worker_lease_view l record = (case record of None \<Rightarrow> l
     | Some r \<Rightarrow> l\<lparr>cl_worker := or_else (cl_worker l) (dr_worker r),
         cl_worker_id := or_else (cl_worker_id l) (dr_worker_id r),
         cl_pgid := or_else (cl_pgid l) (dr_pgid r)\<rparr>)"

definition worker_identity_liveness :: "cap_env \<Rightarrow> cap_lease \<Rightarrow> dispatch_row option \<Rightarrow> liveness \<times> string" where
  "worker_identity_liveness env l record =
     (let w = worker_lease_view l record
      in if cl_worker w = None then (Unknown, ''no_worker_identity'')
         else case probe_pid_liveness env (cl_worker w) of
             Some False \<Rightarrow> (Dead, ''pid_absent'')
           | None \<Rightarrow> (Unknown, ''worker_pid_probe_unavailable'')
           | Some True \<Rightarrow> (case pid_generation_matches env (cl_worker w) w of
               Some False \<Rightarrow> (Dead, ''pid_reused_start_token'')
             | None \<Rightarrow> (Unknown, ''worker_start_token_unavailable'')
             | Some True \<Rightarrow> (Live, ''worker_identity_match'')))"

definition lease_is_local :: "cap_env \<Rightarrow> cap_state \<Rightarrow> cap_lease \<Rightarrow> bool" where
  "lease_is_local env data l = (case filled_or (cl_machine l) None of
      None \<Rightarrow> True
    | Some m \<Rightarrow> m = ce_machine env \<or> filled_or (cs_machine data) None = Some m)"

text \<open>
  The window in which an unprobeable holder keeps its slot. When the lease has no clock at all the
  source stamps the first observation; \<open>retention_stamp\<close> is that write.
\<close>

definition retention_origin :: "cap_lease \<Rightarrow> int option" where
  "retention_origin l = or_else (parse_iso (cl_started_at l))
     (or_else (parse_iso (cl_expires_at l)) (parse_iso (cl_unknown_since l)))"

definition indeterminate_retention_open :: "cap_env \<Rightarrow> cap_lease \<Rightarrow> bool" where
  "indeterminate_retention_open env l =
     (case parse_iso (cl_live_until l) of
        Some until \<Rightarrow> ce_now env < until
      | None \<Rightarrow> ce_now env < (case retention_origin l of None \<Rightarrow> ce_now env | Some t \<Rightarrow> t) + seconds INDETERMINATE_LIVE_RETENTION_S)"

definition retention_stamp :: "cap_env \<Rightarrow> cap_lease \<Rightarrow> cap_lease" where
  "retention_stamp env l = (if parse_iso (cl_live_until l) = None \<and> retention_origin l = None
     then l\<lparr>cl_unknown_since := Some (iso_seconds (ce_now env))\<rparr> else l)"

definition pid_holds_capacity :: "cap_env \<Rightarrow> int option \<Rightarrow> cap_lease \<Rightarrow> bool" where
  "pid_holds_capacity env pid l = (case probe_pid_liveness env pid of
      Some True \<Rightarrow> pid_generation_matches env pid l \<noteq> Some False
    | Some False \<Rightarrow> False
    | None \<Rightarrow> indeterminate_retention_open env l)"

definition retained_live_scope_holds_capacity :: "cap_env \<Rightarrow> cap_lease \<Rightarrow> bool" where
  "retained_live_scope_holds_capacity env l =
     (if cl_reason l \<noteq> Some INDETERMINATE_LIVE_REASON then False
      else case process_group_liveness env (cl_live_pgid l) of
          Some b \<Rightarrow> b
        | None \<Rightarrow> indeterminate_retention_open env l)"

definition retained_live_scope_stamp :: "cap_env \<Rightarrow> cap_lease \<Rightarrow> cap_lease" where
  "retained_live_scope_stamp env l =
     (if cl_reason l = Some INDETERMINATE_LIVE_REASON \<and> process_group_liveness env (cl_live_pgid l) = None
      then retention_stamp env l else l)"

definition attached_worker_group_holds_capacity :: "cap_env \<Rightarrow> cap_lease \<Rightarrow> bool" where
  "attached_worker_group_holds_capacity env l =
     (if cl_pgid l = None \<or> cl_pgid l = Some 0 then False
      else if probe_pid_liveness env (cl_worker l) = Some True \<and> pid_generation_matches env (cl_worker l) l = Some False then False
      else case process_group_liveness env (cl_pgid l) of
          Some True \<Rightarrow> True
        | None \<Rightarrow> indeterminate_retention_open env l
        | Some False \<Rightarrow> pid_holds_capacity env (cl_worker l) l)"

definition lease_pids_dead :: "cap_env \<Rightarrow> cap_lease \<Rightarrow> bool" where
  "lease_pids_dead env l \<longleftrightarrow> \<not> retained_live_scope_holds_capacity env l \<and> cl_worker l \<noteq> None
     \<and> fst (worker_identity_liveness env l None) = Dead \<and> \<not> attached_worker_group_holds_capacity env l"

definition terminal_worker_gone :: "cap_env \<Rightarrow> cap_lease \<Rightarrow> dispatch_row option \<Rightarrow> bool" where
  "terminal_worker_gone env l record =
     (let w = worker_lease_view l record
      in if cl_worker w = None then
           (if cl_launch l = Some ''spawn_failed'' then True
            else case record of None \<Rightarrow> False
              | Some r \<Rightarrow>
                  if terminal_key r \<notin> TERMINAL_STATES then False
                  else if lease_is_legacy l then dr_alive r \<noteq> Some True
                  else if dr_alive r \<noteq> Some False then False
                  else if cl_launch l \<in> {Some ''reserved'', Some ''spawn_failed''} then True
                  else cl_launch l = Some ''spawning'' \<and> spawning_reservation_expired env l)
         else fst (worker_identity_liveness env w None) = Dead
            \<and> \<not> (attached_worker_group_holds_capacity env w \<or> retained_live_scope_holds_capacity env w))"

section \<open>Operations on one lease\<close>

definition lease_of :: "string \<Rightarrow> cap_state \<Rightarrow> cap_lease option" where
  "lease_of k data = map_of (cs_leases data) k"

definition put_lease :: "string \<Rightarrow> cap_lease \<Rightarrow> cap_state \<Rightarrow> cap_state" where
  "put_lease k l data = data\<lparr>cs_leases := AList.update k l (cs_leases data)\<rparr>"

definition pop_lease :: "string \<Rightarrow> cap_state \<Rightarrow> cap_state" where
  "pop_lease k data = data\<lparr>cs_leases := AList.delete k (cs_leases data)\<rparr>"

definition active_leases :: "cap_state \<Rightarrow> cap_lease list" where
  "active_leases data = filter (\<lambda>l. cl_state l = ''active'') (map snd (cs_leases data))"

text \<open>\<open>extend_active_lease_expiry\<close>; \<open>us\<close> is the detected sleep in microseconds.\<close>

definition extend_active_lease_expiry :: "string \<Rightarrow> int \<Rightarrow> bool cap_op" where
  "extend_active_lease_expiry k us data =
     (if k = [] \<or> us \<le> 0 then (False, None)
      else case lease_of k data of
          None \<Rightarrow> (False, None)
        | Some l \<Rightarrow> if cl_state l \<noteq> ''active'' then (False, None)
            else (case parse_iso (cl_expires_at l) of
                None \<Rightarrow> (False, None)
              | Some t \<Rightarrow> (True, Some (put_lease k (l\<lparr>cl_expires_at := Some (iso_seconds (t + us))\<rparr>) data))))"

definition record_attached_worker :: "cap_env \<Rightarrow> int \<Rightarrow> int option \<Rightarrow> cap_lease \<Rightarrow> cap_lease" where
  "record_attached_worker env pid pgid l = l\<lparr>cl_worker := Some pid,
     cl_pgid := (case pgid of Some g \<Rightarrow> if 1 < g then Some g else cl_pgid l | None \<Rightarrow> cl_pgid l),
     cl_launch := Some ''attached'', cl_worker_id := process_start_identity env (Some pid)\<rparr>"

definition attach_worker_to_capacity_lease :: "cap_env \<Rightarrow> string \<Rightarrow> int \<Rightarrow> int option \<Rightarrow> unit cap_op" where
  "attach_worker_to_capacity_lease env k pid pgid data =
     ((), if k = [] then None else map_option (\<lambda>l. put_lease k (record_attached_worker env pid pgid l) data) (lease_of k data))"

definition rebind_capacity_lease_account :: "string \<Rightarrow> string option \<Rightarrow> bool cap_op" where
  "rebind_capacity_lease_account k account data =
     (let a = strip (case account of None \<Rightarrow> [] | Some s \<Rightarrow> s)
      in if k = [] \<or> a = [] then (False, None)
         else case lease_of k data of
             None \<Rightarrow> (False, None)
           | Some l \<Rightarrow>
               if cl_state l \<noteq> ''active'' \<or> cl_worker l \<noteq> None \<or> cl_launch l \<noteq> Some ''reserved'' then (False, None)
               else (True, Some (put_lease k (l\<lparr>cl_account := Some a\<rparr>) data)))"

definition mark_lease_spawning :: "string \<Rightarrow> bool cap_op" where
  "mark_lease_spawning k data =
     (if k = [] then (False, None)
      else case lease_of k data of
          None \<Rightarrow> (False, None)
        | Some l \<Rightarrow>
            if cl_state l \<noteq> ''active'' then (False, None)
            else if cl_launch l \<notin> {None, Some ''reserved''} then (cl_launch l = Some ''spawning'', None)
            else (True, Some (put_lease k (l\<lparr>cl_launch := Some ''spawning''\<rparr>) data)))"

definition mark_lease_spawn_failed :: "string \<Rightarrow> bool cap_op" where
  "mark_lease_spawn_failed k data =
     (if k = [] then (False, None)
      else case lease_of k data of
          None \<Rightarrow> (False, None)
        | Some l \<Rightarrow>
            if cl_state l \<noteq> ''active'' \<or> cl_worker l \<noteq> None then (False, None)
            else if cl_launch l \<notin> {Some ''spawning'', Some ''reserved''} then (cl_launch l = Some ''spawn_failed'', None)
            else (True, Some (put_lease k (l\<lparr>cl_launch := Some ''spawn_failed''\<rparr>) data)))"

definition detach_lease_to_worker :: "cap_env \<Rightarrow> string \<Rightarrow> int \<Rightarrow> bool cap_op" where
  "detach_lease_to_worker env k pid data =
     (if k = [] \<or> pid = 0 then (False, None)
      else case lease_of k data of
          None \<Rightarrow> (False, None)
        | Some l \<Rightarrow> (True, Some (put_lease k (l\<lparr>cl_worker := Some pid,
            cl_worker_id := process_start_identity env (Some pid), cl_controller := Some pid,
            cl_controller_id := process_start_identity env (Some pid), cl_launch := Some ''attached''\<rparr>) data)))"

definition retain_indeterminate_live_lease :: "cap_env \<Rightarrow> string \<Rightarrow> int option \<Rightarrow> int \<Rightarrow> (cap_error + cap_lease) cap_op" where
  "retain_indeterminate_live_lease env k pgid retention_us data =
     (case lease_of k data of
        None \<Rightarrow> (Inl MissingCapacityLease, None)
      | Some l \<Rightarrow>
          (let l' = l\<lparr>cl_state := ''active'', cl_reason := Some INDETERMINATE_LIVE_REASON,
                 cl_live_until := Some (iso_seconds (ce_now env + max 0 retention_us)),
                 cl_live_pgid := (case pgid of Some g \<Rightarrow> if 1 < g then Some g else cl_live_pgid l | None \<Rightarrow> cl_live_pgid l)\<rparr>
           in (Inr l', Some (put_lease k l' data))))"

section \<open>Pruning and reclaim\<close>

definition prune_lease :: "cap_env \<Rightarrow> cap_state \<Rightarrow> cap_lease \<Rightarrow> cap_lease option" where
  "prune_lease env data l =
     (let l1 = (case parse_iso (cl_expires_at l) of
            None \<Rightarrow> l
          | Some t \<Rightarrow> if t < ce_now env \<and> lease_is_local env data l \<and> lease_pids_dead env l
              then l\<lparr>cl_state := ''expired'', cl_ended_at := filled_or (cl_ended_at l) (Some (iso_seconds (ce_now env)))\<rparr>
              else l)
      in if cl_state l1 \<notin> TERMINAL_LEASE_STATES then Some l1
         else case parse_iso (filled_or (cl_released_at l1) (cl_ended_at l1)) of
             None \<Rightarrow> None
           | Some t \<Rightarrow> if ce_now env - t < seconds (24 * 3600) then Some l1 else None)"

definition cooldown_over :: "cap_env \<Rightarrow> cooldown \<Rightarrow> bool" where
  "cooldown_over env c = (case parse_iso (cd_until c) of None \<Rightarrow> False | Some t \<Rightarrow> t < ce_now env)"

definition prune_state :: "cap_env \<Rightarrow> cap_state \<Rightarrow> cap_state" where
  "prune_state env data = data\<lparr>
     cs_leases := List.map_filter (\<lambda>(k, l). map_option (Pair k) (prune_lease env data l)) (cs_leases data),
     cs_cooldowns := filter (\<lambda>(_, c). \<not> cooldown_over env c) (cs_cooldowns data)\<rparr>"

text \<open>The verdict of \<open>stale_active_leases\<close> on one lease, and the stamp it may leave on it.\<close>

definition lease_is_stale :: "cap_env \<Rightarrow> cap_state \<Rightarrow> cap_lease \<Rightarrow> bool" where
  "lease_is_stale env data l =
     (if cl_state l \<noteq> ''active'' \<or> \<not> lease_is_local env data l then False
      else if retained_live_scope_holds_capacity env l then False
      else let record = dispatch_record_for_lease env (cl_dispatch l)
        in if (case record of None \<Rightarrow> False | Some r \<Rightarrow> reclaimable_prelaunch_lease env l record
              \<or> (terminal_key r \<in> TERMINAL_STATES \<and> terminal_worker_gone env l record)) then True
           else let w = worker_lease_view l record
             in if cl_worker w \<noteq> None then
                  fst (worker_identity_liveness env w None) = Dead \<and> \<not> attached_worker_group_holds_capacity env w
                else cl_launch l = Some ''spawn_failed'')"

definition observe_lease :: "cap_env \<Rightarrow> cap_state \<Rightarrow> cap_lease \<Rightarrow> cap_lease" where
  "observe_lease env data l = (if cl_state l = ''active'' \<and> lease_is_local env data l
     then retained_live_scope_stamp env l else l)"

definition stale_active_leases :: "cap_env \<Rightarrow> cap_state \<Rightarrow> cap_lease list \<times> cap_state" where
  "stale_active_leases env data =
     (filter (lease_is_stale env data) (active_leases data),
      data\<lparr>cs_leases := map (\<lambda>(k, l). (k, observe_lease env data l)) (cs_leases data)\<rparr>)"

definition pre_attach_claimant_liveness :: "cap_env \<Rightarrow> cap_lease \<Rightarrow> bool option" where
  "pre_attach_claimant_liveness env l =
     (if cl_worker l \<noteq> None then Some False else probe_pid_liveness env (cl_claimant l))"

definition unknown_claimant_leases :: "cap_env \<Rightarrow> cap_state \<Rightarrow> cap_lease list" where
  "unknown_claimant_leases env data =
     filter (\<lambda>l. lease_is_local env data l \<and> pre_attach_claimant_liveness env l = None) (active_leases data)"

definition reclaim_one :: "cap_env \<Rightarrow> string \<Rightarrow> string \<Rightarrow> string set \<Rightarrow> string \<Rightarrow> cap_state \<Rightarrow> string list \<times> cap_state" where
  "reclaim_one env state reason preserve k data =
     (if k = [] then ([], data)
      else case lease_of k data of
          None \<Rightarrow> ([], data)
        | Some l \<Rightarrow>
            if cl_state l \<noteq> ''active'' then ([], data)
            else ([k], put_lease k (l\<lparr>
                cl_state := (if k \<in> preserve then ''released'' else state),
                cl_reason := Some (if k \<in> preserve then ''orphaned_prelaunch_claimant'' else reason),
                cl_retained := (if k \<in> preserve then True else cl_retained l),
                cl_released_at := Some (iso_seconds (ce_now env))\<rparr>) data))"

fun reclaim_active_leases :: "cap_env \<Rightarrow> string \<Rightarrow> string \<Rightarrow> string set \<Rightarrow> string list \<Rightarrow> cap_state \<Rightarrow> string list \<times> cap_state" where
  "reclaim_active_leases env state reason preserve [] data = ([], data)"
| "reclaim_active_leases env state reason preserve (k # ks) data =
     (case reclaim_one env state reason preserve k data of (ids, data1) \<Rightarrow>
      (case reclaim_active_leases env state reason preserve ks data1 of (ids', data2) \<Rightarrow> (ids @ ids', data2)))"

definition reclaim_stale_leases ::
  "cap_env \<Rightarrow> string \<Rightarrow> string \<Rightarrow> bool \<Rightarrow> cap_state \<Rightarrow> string list \<times> cap_state" where
  "reclaim_stale_leases env state reason include_unknown data =
     (case stale_active_leases env data of (stale, data1) \<Rightarrow>
      (let preserve = cl_id ` {l \<in> set stale. cl_id l \<noteq> [] \<and>
             reclaimable_prelaunch_lease env l (dispatch_record_for_lease env (cl_dispatch l))};
           seen = set (map cl_id stale);
           extra = (if include_unknown then filter (\<lambda>l. cl_id l \<noteq> [] \<and> cl_id l \<notin> seen) (unknown_claimant_leases env data1) else [])
       in reclaim_active_leases env state reason preserve (map cl_id (stale @ extra)) data1))"

definition release_stale_op :: "cap_env \<Rightarrow> string \<Rightarrow> string \<Rightarrow> bool \<Rightarrow> bool \<Rightarrow> string list cap_op" where
  "release_stale_op env state reason keep include_unknown data =
     (case reclaim_stale_leases env state reason include_unknown (prune_state env data) of (released, data1) \<Rightarrow>
        (released, Some (if keep then data1 else data1\<lparr>cs_leases :=
           filter (\<lambda>(k, l). \<not> (k \<in> set released \<and> \<not> cl_retained l)) (cs_leases data1)\<rparr>)))"

section \<open>Release\<close>

datatype release_answer = Released string | Refused string

record release_args =
  ra_lease :: string
  ra_state :: string
  ra_reason :: "string option"
  ra_operator :: bool
  ra_keep :: bool

definition release_caller_owns_lease :: "cap_env \<Rightarrow> cap_lease \<Rightarrow> dispatch_row option \<Rightarrow> bool" where
  "release_caller_owns_lease env l record =
     (case start_token (process_start_identity env (Some (ce_pid env))) of
        None \<Rightarrow> False
      | Some token \<Rightarrow>
          (let w = worker_lease_view l record
           in (cl_worker w = Some (ce_pid env) \<and> Option.bind (cl_worker_id w) pi_token = Some token)
            \<or> (cl_claimant l = Some (ce_pid env) \<and> Option.bind (cl_claimant_id l) pi_token = Some token)))"

definition release_op :: "cap_env \<Rightarrow> release_args \<Rightarrow> release_answer cap_op" where
  "release_op env a data =
     (case lease_of (ra_lease a) data of
        None \<Rightarrow> (Refused ''missing_lease'', None)
      | Some l \<Rightarrow>
          if \<not> lease_is_local env data l then (Refused ''remote_lease'', None)
          else if cl_state l \<in> TERMINAL_LEASE_STATES then (Released (cl_state l), None)
          else
            (let plain = (case cl_dispatch l of None \<Rightarrow> None | Some d \<Rightarrow> if d = [] then None else ce_read_record env d);
                 merged = dispatch_record_for_lease env (cl_dispatch l);
                 verdict = fst (worker_identity_liveness env l merged)
             in if ra_operator a \<and> verdict \<noteq> Unknown then
                  (Refused (if verdict = Live then ''worker_alive'' else ''worker_identity_resolved''), None)
                else if \<not> ra_operator a \<and> \<not> release_caller_owns_lease env l plain \<and> \<not> terminal_worker_gone env l plain then
                  (Refused ''worker_alive'', None)
                else
                  (let l' = l\<lparr>cl_state := ra_state a, cl_released_at := Some (iso_seconds (ce_now env)),
                        cl_reason := filled_or (ra_reason a) (cl_reason l)\<rparr>
                   in (Released (ra_state a), Some (if ra_keep a \<or> ra_operator a then put_lease (ra_lease a) l' data
                         else pop_lease (ra_lease a) data)))))"

definition cmd_release :: "cap_env \<Rightarrow> release_args \<Rightarrow> capacity_file \<Rightarrow> (cap_error + release_answer) \<times> capacity_file" where
  "cmd_release env a file =
     (if ra_operator a \<and> (case ra_reason a of None \<Rightarrow> True | Some s \<Rightarrow> strip s = [])
      then (Inr (Refused ''operator_reason_required''), file)
      else with_state (ce_machine env) (release_op env a) file)"

definition release_terminal_op :: "cap_env \<Rightarrow> string \<Rightarrow> string \<Rightarrow> unit cap_op" where
  "release_terminal_op env dispatch state data =
     (let record = dispatch_record_for_lease env (Some dispatch);
          hit = (\<lambda>l. cl_dispatch l = Some dispatch \<and> cl_state l = ''active'' \<and> lease_is_local env data l
             \<and> terminal_worker_gone env l record)
      in ((), if list_ex hit (map snd (cs_leases data)) then Some (data\<lparr>cs_leases :=
           map (\<lambda>(k, l). (k, if hit l then l\<lparr>cl_state := state, cl_released_at := Some (iso_seconds (ce_now env)),
              cl_reason := Some ''dispatch_terminal''\<rparr> else l)) (cs_leases data)\<rparr>) else None))"

text \<open>Commands on the file.\<close>

definition cmd_release_stale where
  "cmd_release_stale env state reason keep include_unknown =
     with_state (ce_machine env) (release_stale_op env state reason keep include_unknown)"

definition release_terminal_dispatch where
  "release_terminal_dispatch env dispatch state = with_state (ce_machine env) (release_terminal_op env dispatch state)"

end
