(* ===== verification/GF_Admission.thy ===== *)
theory GF_Admission
  imports GF_Capacity
begin

text \<open>
  Admission to the machine (\<open>scripts/goalflight_capacity.py\<close>): the capacity profile, account headroom,
  cooldowns, \<open>cmd_acquire\<close>, the slot budget and the bounded wait. The rate-pressure report
  (\<open>current_rate_pressure\<close>) is an argument; \<open>GF_Pressure_Report\<close> computes it.
\<close>

section \<open>The profile\<close>

definition DEFAULT_RESERVE_MB :: int where "DEFAULT_RESERVE_MB = 2048"
definition DEFAULT_WORST_WORKER_MB :: int where "DEFAULT_WORST_WORKER_MB = 1200"

text \<open>What the machine and the environment say: detected RAM and \<open>GOALFLIGHT_CAPACITY_MAX_TOTAL\<close>.\<close>

record host =
  ho_ram :: int
  ho_max_total_env :: "string option"

record profile_args =
  pa_ram :: "int option"
  pa_reserve :: "int option"
  pa_worst :: "int option"
  pa_hard_cap :: "int option"
  pa_max_total :: "int option"

record cap_profile =
  pf_ram :: int
  pf_reserve :: int
  pf_worst :: int
  pf_raw :: int
  pf_operating :: int
  pf_hard_cap :: int

text \<open>\<open>value or fallback\<close> on optional integers: zero is false.\<close>

definition int_or :: "int option \<Rightarrow> int \<Rightarrow> int" where
  "int_or v d = (case v of None \<Rightarrow> d | Some n \<Rightarrow> if n = 0 then d else n)"

definition ram_tier :: "int \<Rightarrow> int" where
  "ram_tier ram = (if ram \<le> 0 then 2 else if ram \<le> 8 * 1024 then 1 else if ram \<le> 16 * 1024 then 3
     else if ram \<le> 32 * 1024 then 4 else if ram \<le> 64 * 1024 then 6 else 32)"

definition operating_cap_for_ram :: "limits \<Rightarrow> host \<Rightarrow> int \<Rightarrow> int \<Rightarrow> int" where
  "operating_cap_for_ram lm h ram raw =
     (case (case filled_or (ho_max_total_env h) None of None \<Rightarrow> None | Some s \<Rightarrow> py_int (JStr s)) of
        Some n \<Rightarrow> max 1 (min raw n)
      | None \<Rightarrow> (case lm_operating_total lm of
          Some n \<Rightarrow> max 1 (min raw n)
        | None \<Rightarrow> max 1 (min raw (ram_tier ram))))"

definition profile :: "limits \<Rightarrow> host \<Rightarrow> profile_args \<Rightarrow> cap_profile" where
  "profile lm h a =
     (let ram = int_or (pa_ram a) (ho_ram h);
          reserve = int_or (pa_reserve a) DEFAULT_RESERVE_MB;
          worst = int_or (pa_worst a) DEFAULT_WORST_WORKER_MB;
          hard = int_or (pa_hard_cap a) (lm_hard_cap lm);
          headroom = max 0 (ram - reserve);
          raw = max 1 (min hard (headroom div worst))
      in \<lparr>pf_ram = ram, pf_reserve = reserve, pf_worst = worst, pf_raw = raw,
          pf_operating = (case pa_max_total a of
              Some n \<Rightarrow> if n = 0 then operating_cap_for_ram lm h ram raw else max 1 (min raw n)
            | None \<Rightarrow> operating_cap_for_ram lm h ram raw),
          pf_hard_cap = hard\<rparr>)"

section \<open>Accounts\<close>

definition lease_vendor :: "cap_lease \<Rightarrow> string" where
  "lease_vendor l = cap_pool (normalize_agent (cl_agent l))"

text \<open>A named account: stripped, and neither empty nor \<open>default\<close>.\<close>

definition named_account :: "string option \<Rightarrow> string option" where
  "named_account v = (case v of None \<Rightarrow> None
     | Some s \<Rightarrow> if strip s = [] \<or> strip s = ''default'' then None else Some (strip s))"

definition lease_account :: "cap_env \<Rightarrow> cap_lease \<Rightarrow> string" where
  "lease_account env l =
     (case or_else (named_account (cl_account l)) (named_account (cl_effective l)) of
        Some a \<Rightarrow> a
      | None \<Rightarrow> (case dispatch_record_for_lease env (cl_dispatch l) of
          None \<Rightarrow> ''default''
        | Some r \<Rightarrow> if dr_state r = Some ''unreadable'' then ''default''
            else (case or_else (named_account (dr_effective r)) (named_account (dr_account r)) of
                Some a \<Rightarrow> a | None \<Rightarrow> ''default'')))"

definition lease_weight :: "cap_lease \<Rightarrow> real" where
  "lease_weight l = (case cl_weight l of None \<Rightarrow> 1 | Some w \<Rightarrow> if 0 < w then w else 1)"

definition account_cap_for :: "limits \<Rightarrow> string \<Rightarrow> string \<Rightarrow> int option \<Rightarrow> int" where
  "account_cap_for lm vendor account dflt =
     (let key = cap_pool (normalize_agent vendor); configured = table_get (lm_account_caps lm) key []
      in case or_else (map_of configured account) (map_of configured ''default'') of
           Some n \<Rightarrow> n
         | None \<Rightarrow> account_cap lm key (Some account) dflt)"

section \<open>Rate pressure\<close>

record pressure_entry =
  pe_scope :: "string option"
  pe_labels :: "string list"
  pe_effective :: "(string \<times> int) list"
  pe_recommended :: "(string \<times> int) list"
  pe_hard_stop :: bool

definition positive_or :: "int \<Rightarrow> int \<Rightarrow> int" where
  "positive_or n d = (if 0 < n then n else d)"

fun adaptive_cap :: "string \<Rightarrow> string \<Rightarrow> int \<Rightarrow> pressure_entry list \<Rightarrow> int \<times> pressure_entry option" where
  "adaptive_cap agent pool base [] = (base, None)"
| "adaptive_cap agent pool base (e # es) =
     (if pe_scope e = Some ''account'' then adaptive_cap agent pool base es
      else let labels = map normalize_agent (pe_labels e)
        in if agent \<notin> set labels \<and> pool \<notin> set labels then adaptive_cap agent pool base es
           else let caps = (if pe_effective e \<noteq> [] then pe_effective e else pe_recommended e)
             in case or_else (map_of caps agent) (map_of caps pool) of
                  None \<Rightarrow> adaptive_cap agent pool base es
                | Some n \<Rightarrow> let cap = (if pe_hard_stop e \<and> pe_scope e \<noteq> Some ''agent'' then 0
                      else max 1 (min base (positive_or n base)))
                    in if base \<le> cap then adaptive_cap agent pool base es else (cap, Some e))"

definition adaptive_agent_cap :: "string \<Rightarrow> int \<Rightarrow> pressure_entry list \<Rightarrow> int \<times> pressure_entry option" where
  "adaptive_agent_cap agent base pressure =
     (let a = normalize_agent agent in adaptive_cap a (cap_pool a) base pressure)"

record account_row =
  ar_vendor :: string
  ar_account :: string
  ar_active :: nat
  ar_weight :: real
  ar_cap :: int
  ar_base :: int
  ar_remaining :: real

text \<open>\<open>round(x, 6)\<close>, halves to even.\<close>

definition round6 :: "real \<Rightarrow> real" where
  "round6 x = of_int (round_half_even (x * 1000000)) / 1000000"

definition account_weight :: "cap_env \<Rightarrow> string \<Rightarrow> string \<Rightarrow> cap_lease list \<Rightarrow> real" where
  "account_weight env pool account ls =
     sum_list (map lease_weight (filter (\<lambda>l. lease_vendor l = pool \<and> lease_account env l = account) ls))"

definition account_row_for :: "limits \<Rightarrow> cap_env \<Rightarrow> pressure_entry list \<Rightarrow> cap_lease list \<Rightarrow> string \<times> string \<Rightarrow> account_row" where
  "account_row_for lm env pressure ls key =
     (let base = account_cap_for lm (fst key) (snd key) None;
          cap = fst (adaptive_agent_cap (fst key) base pressure);
          weight = round6 (account_weight env (fst key) (snd key) ls)
      in \<lparr>ar_vendor = fst key, ar_account = snd key,
          ar_active = length (filter (\<lambda>l. lease_vendor l = fst key \<and> lease_account env l = snd key) ls),
          ar_weight = weight, ar_cap = cap, ar_base = base,
          ar_remaining = round6 (max 0 (of_int cap - weight))\<rparr>)"

text \<open>The rows in key order: every account with a lease and every configured one except \<open>default\<close>.\<close>

definition account_capacity_rows :: "limits \<Rightarrow> cap_env \<Rightarrow> pressure_entry list \<Rightarrow> cap_lease list \<Rightarrow> account_row list" where
  "account_capacity_rows lm env pressure ls =
     (let configured = concat (map (\<lambda>(v, accounts). map (Pair v) (filter (\<lambda>a. a \<noteq> ''default'') (map fst accounts))) (lm_account_caps lm))
      in map (account_row_for lm env pressure ls)
           (sort_key (\<lambda>(v, a). v @ ''/'' @ a)
              (remdups (map (\<lambda>l. (lease_vendor l, lease_account env l)) ls @ configured))))"

section \<open>Acquiring\<close>

definition BULK_GLOBAL_RESERVE :: int where "BULK_GLOBAL_RESERVE = 3"
definition BULK_POOL_RESERVE :: int where "BULK_POOL_RESERVE = 1"
definition CRITICAL_GLOBAL_BORROW :: int where "CRITICAL_GLOBAL_BORROW = 2"
definition CRITICAL_POOL_BORROW :: int where "CRITICAL_POOL_BORROW = 2"
definition PRIORITY_LANES :: "string list" where "PRIORITY_LANES = [''critical'', ''normal'', ''bulk'']"

definition split_dash :: "string \<Rightarrow> string" where
  "split_dash s = takeWhile (\<lambda>c. c \<noteq> CHR ''-'') s"

definition cooldown_for :: "cap_state \<Rightarrow> string \<Rightarrow> string option \<Rightarrow> cooldown option" where
  "cooldown_for data agent account =
     (let find = map_of (cs_cooldowns data);
          scoped = (case named_account account of None \<Rightarrow> None
             | Some a \<Rightarrow> find (cap_pool (normalize_agent agent) @ ''/'' @ a))
      in or_else scoped (or_else (find agent) (find (split_dash agent))))"

record acquire_args =
  aq_profile :: profile_args
  aq_agent :: string
  aq_mem :: "int option"
  aq_account :: "string option"
  aq_effective :: "string option"
  aq_model :: "string option"
  aq_max_total :: "int option"
  aq_agent_cap :: "int option"
  aq_priority :: "string option"
  aq_lease_id :: "string option"
  aq_dispatch :: "string option"
  aq_controller :: "int option"
  aq_worker :: "int option"
  aq_ttl :: int

datatype acquire_answer = AcquireError string | AcquireWait string | AcquireAllow cap_lease

text \<open>The ceilings of the request's lane.\<close>

definition lane_max_total :: "string \<Rightarrow> int \<Rightarrow> int \<Rightarrow> int" where
  "lane_max_total priority max_total raw =
     (if priority = ''bulk'' then max 1 (max_total - BULK_GLOBAL_RESERVE)
      else if priority = ''critical'' then min (max_total + CRITICAL_GLOBAL_BORROW) raw
      else max_total)"

definition lane_agent_cap :: "string \<Rightarrow> int \<Rightarrow> bool \<Rightarrow> int" where
  "lane_agent_cap priority agent_cap adaptive =
     (if priority = ''bulk'' then (if agent_cap \<le> 0 then 0 else max 1 (agent_cap - BULK_POOL_RESERVE))
      else if priority = ''critical'' \<and> \<not> adaptive then agent_cap + CRITICAL_POOL_BORROW
      else agent_cap)"

definition total_rss :: "cap_lease list \<Rightarrow> int" where
  "total_rss ls = sum_list (map cl_mem ls)"

definition over_rss :: "cap_profile \<Rightarrow> int \<Rightarrow> cap_lease list \<Rightarrow> bool" where
  "over_rss prof rss ls \<longleftrightarrow> pf_ram prof \<noteq> 0 \<and> max 0 (pf_ram prof - pf_reserve prof) < total_rss ls + rss"

definition new_cap_lease ::
  "cap_env \<Rightarrow> acquire_args \<Rightarrow> string \<Rightarrow> string \<Rightarrow> string \<Rightarrow> real \<Rightarrow> int \<Rightarrow> cap_lease" where
  "new_cap_lease env a k agent account weight rss = \<lparr>
     cl_id = k, cl_dispatch = aq_dispatch a, cl_agent = agent, cl_account = Some account, cl_effective = None,
     cl_weight = Some weight, cl_controller = aq_controller a, cl_claimant = Some (ce_pid env),
     cl_worker = aq_worker a, cl_pgid = None,
     cl_controller_id = process_start_identity env (aq_controller a),
     cl_claimant_id = process_start_identity env (Some (ce_pid env)),
     cl_worker_id = process_start_identity env (aq_worker a),
     cl_machine = Some (ce_machine env), cl_schema = Some LEASE_SCHEMA, cl_launch = Some ''reserved'',
     cl_mem = rss, cl_state = ''active'', cl_reason = None,
     cl_reserved_at = Some (iso_seconds (ce_now env)),
     cl_deadline_at = Some (iso_seconds (ce_now env + seconds SPAWNING_RESERVATION_S)),
     cl_started_at = Some (iso_seconds (ce_now env)),
     cl_expires_at = Some (iso_seconds (ce_now env + seconds (aq_ttl a))),
     cl_released_at = None, cl_ended_at = None, cl_live_until = None, cl_live_pgid = None,
     cl_unknown_since = None, cl_retained = False\<rparr>"

text \<open>What a request asks for: its account, lane, memory and per-pool cap before adaptation.\<close>

definition request_account :: "acquire_args \<Rightarrow> string" where
  "request_account a = (case filled_or (filled_or (aq_account a) (aq_effective a)) None of
      None \<Rightarrow> ''default'' | Some s \<Rightarrow> if strip s = [] then ''default'' else strip s)"

definition request_priority :: "acquire_args \<Rightarrow> string" where
  "request_priority a = casefold (strip (case filled_or (aq_priority a) None of None \<Rightarrow> ''normal'' | Some p \<Rightarrow> p))"

definition request_mem :: "limits \<Rightarrow> acquire_args \<Rightarrow> int" where
  "request_mem lm a = int_or (aq_mem a) (table_get (lm_rss lm) (normalize_agent (aq_agent a)) DEFAULT_WORST_WORKER_MB)"

definition request_pool :: "acquire_args \<Rightarrow> string" where
  "request_pool a = cap_pool (normalize_agent (aq_agent a))"

definition request_cap :: "limits \<Rightarrow> pressure_entry list \<Rightarrow> acquire_args \<Rightarrow> int \<times> pressure_entry option" where
  "request_cap lm pressure a =
     (let agent = normalize_agent (aq_agent a); pool = request_pool a;
          legacy = table_get (lm_agent_caps lm) pool (table_get (lm_agent_caps lm) agent 2);
          base = int_or (aq_agent_cap a) (account_cap_for lm pool (request_account a) (Some legacy))
      in adaptive_agent_cap agent base pressure)"

text \<open>The ceilings that bind it: slots on the machine and weight on the account.\<close>

definition request_top :: "cap_profile \<Rightarrow> acquire_args \<Rightarrow> int" where
  "request_top prof a = lane_max_total (request_priority a) (int_or (aq_max_total a) (pf_operating prof)) (pf_raw prof)"

definition request_limit :: "limits \<Rightarrow> pressure_entry list \<Rightarrow> acquire_args \<Rightarrow> int" where
  "request_limit lm pressure a =
     lane_agent_cap (request_priority a) (fst (request_cap lm pressure a)) (snd (request_cap lm pressure a) \<noteq> None)"

definition request_weight :: "limits \<Rightarrow> acquire_args \<Rightarrow> real" where
  "request_weight lm a = model_weight lm (request_pool a) (aq_model a)"

definition crowded :: "limits \<Rightarrow> cap_env \<Rightarrow> pressure_entry list \<Rightarrow> acquire_args \<Rightarrow> cap_lease list \<Rightarrow> bool" where
  "crowded lm env pressure a ls \<longleftrightarrow>
     of_int (request_limit lm pressure a) < account_weight env (request_pool a) (request_account a) ls + request_weight lm a"

definition capacity_full :: "limits \<Rightarrow> cap_env \<Rightarrow> cap_profile \<Rightarrow> pressure_entry list \<Rightarrow> acquire_args \<Rightarrow> cap_lease list \<Rightarrow> bool" where
  "capacity_full lm env prof pressure a ls \<longleftrightarrow> request_top prof a \<le> int (length ls)
     \<or> crowded lm env pressure a ls \<or> over_rss prof (request_mem lm a) ls"

text \<open>The state the request is judged on: pruned, and reclaimed when it looked full.\<close>

definition judged_state :: "limits \<Rightarrow> cap_env \<Rightarrow> cap_profile \<Rightarrow> pressure_entry list \<Rightarrow> acquire_args \<Rightarrow> cap_state \<Rightarrow> cap_state" where
  "judged_state lm env prof pressure a data =
     (if capacity_full lm env prof pressure a (active_leases data)
      then snd (reclaim_stale_leases env ''expired'' ''capacity_backstop'' False data) else data)"

text \<open>The body of \<open>cmd_acquire\<close> under the lock. \<open>uuid\<close> is the lease id drawn when none is given.\<close>

definition acquire_op ::
  "limits \<Rightarrow> cap_env \<Rightarrow> cap_profile \<Rightarrow> pressure_entry list \<Rightarrow> acquire_args \<Rightarrow> string \<Rightarrow> acquire_answer cap_op" where
  "acquire_op lm env prof pressure a uuid data0 =
     (let agent = normalize_agent (aq_agent a);
          account = request_account a;
          data = prune_state env data0
      in case cooldown_for data agent (Some account) of
          Some c \<Rightarrow> (AcquireWait (''cooldown:'' @ cd_reason c), None)
        | None \<Rightarrow>
            if request_priority a \<notin> set PRIORITY_LANES then (AcquireError ''unknown priority'', None)
            else
              (let data1 = judged_state lm env prof pressure a data;
                   leases = active_leases data1
               in if request_top prof a \<le> int (length leases) then (AcquireWait ''machine_worker_cap'', None)
                  else if crowded lm env pressure a leases then
                    (AcquireWait (if snd (request_cap lm pressure a) \<noteq> None then ''adaptive_rate_pressure''
                       else if account \<noteq> ''default'' \<or> map_of (table_get (lm_account_caps lm) (request_pool a) []) account \<noteq> None
                       then ''account_worker_cap'' else ''agent_worker_cap''), None)
                  else if over_rss prof (request_mem lm a) leases then (AcquireWait ''rss_budget'', None)
                  else
                    (let k = (case filled_or (aq_lease_id a) None of None \<Rightarrow> uuid | Some s \<Rightarrow> s);
                         l = new_cap_lease env a k agent account (request_weight lm a) (request_mem lm a)
                     in (AcquireAllow l, Some (put_lease k l data1)))))"

definition capacity_unreadable :: acquire_answer where
  "capacity_unreadable = AcquireWait ''capacity_state_unreadable''"

definition cmd_acquire ::
  "limits \<Rightarrow> host \<Rightarrow> cap_env \<Rightarrow> pressure_entry list \<Rightarrow> acquire_args \<Rightarrow> string \<Rightarrow> capacity_file \<Rightarrow> acquire_answer \<times> capacity_file" where
  "cmd_acquire lm h env pressure a uuid file =
     (if map_of LEGACY_AGENT_HANDLES (normalize_agent (aq_agent a)) \<noteq> None
      then (AcquireError ''retired agent'', file)
      else case with_state (ce_machine env) (acquire_op lm env (profile lm h (aq_profile a)) pressure a uuid) file of
          (Inl _, file') \<Rightarrow> (capacity_unreadable, file')
        | (Inr r, file') \<Rightarrow> (r, file'))"

section \<open>Cooldowns\<close>

definition cooldown_key :: "string \<Rightarrow> string option \<Rightarrow> string" where
  "cooldown_key agent account = (case named_account account of
      Some a \<Rightarrow> cap_pool (normalize_agent agent) @ ''/'' @ a | None \<Rightarrow> normalize_agent agent)"

definition clear_cooldown_op :: "cap_env \<Rightarrow> string \<Rightarrow> string option \<Rightarrow> unit cap_op" where
  "clear_cooldown_op env agent account data =
     (let data1 = prune_state env data
      in ((), Some (data1\<lparr>cs_cooldowns := AList.delete (cooldown_key agent account) (cs_cooldowns data1)\<rparr>)))"

definition set_cooldown_op :: "cap_env \<Rightarrow> string \<Rightarrow> string option \<Rightarrow> int \<Rightarrow> string \<Rightarrow> unit cap_op" where
  "set_cooldown_op env agent account secs reason data =
     (let data1 = prune_state env data
      in ((), Some (data1\<lparr>cs_cooldowns := AList.update (cooldown_key agent account)
           \<lparr>cd_reason = reason, cd_until = Some (iso_seconds (ce_now env + seconds secs))\<rparr> (cs_cooldowns data1)\<rparr>)))"

section \<open>The slot budget\<close>

record slot_budget =
  sb_unreadable :: bool
  sb_operating :: int
  sb_active :: nat
  sb_global :: int
  sb_by_pool :: "(string \<times> int) list"
  sb_by_account :: "account_row list"
  sb_agent_remaining :: "int option"
  sb_account_remaining :: "real option"

definition row_of :: "string \<Rightarrow> string \<Rightarrow> account_row list \<Rightarrow> account_row option" where
  "row_of vendor account rows = find (\<lambda>r. ar_vendor r = vendor \<and> ar_account r = account) rows"

definition pool_remaining :: "limits \<Rightarrow> pressure_entry list \<Rightarrow> cap_lease list \<Rightarrow> account_row list \<Rightarrow> string \<Rightarrow> int" where
  "pool_remaining lm pressure ls rows pool =
     (let mine = filter (\<lambda>r. ar_vendor r = pool) rows
      in if mine \<noteq> [] then max 0 \<lfloor>sum_list (map ar_remaining mine)\<rfloor>
         else max 0 (fst (adaptive_agent_cap pool (table_get (lm_agent_caps lm) pool 2) pressure)
           - \<lfloor>sum_list (map lease_weight (filter (\<lambda>l. lease_vendor l = pool) ls))\<rfloor>))"

definition launch_slot_budget ::
  "limits \<Rightarrow> cap_env \<Rightarrow> cap_profile \<Rightarrow> pressure_entry list \<Rightarrow> string option \<Rightarrow> string option \<Rightarrow> capacity_file \<Rightarrow> slot_budget" where
  "launch_slot_budget lm env prof pressure agent account file =
     (case load_state (ce_machine env) file of
        Inl _ \<Rightarrow> \<lparr>sb_unreadable = True, sb_operating = pf_operating prof, sb_active = 0, sb_global = 0,
            sb_by_pool = [], sb_by_account = [], sb_agent_remaining = Some 0, sb_account_remaining = None\<rparr>
      | Inr data0 \<Rightarrow>
          (let ls = active_leases (prune_state env data0);
               global = max 0 (pf_operating prof - int (length ls));
               acct = filled_or account None;
               who = filled_or agent None;
               rows0 = account_capacity_rows lm env pressure ls;
               rows = (case (who, acct) of
                   (Some g, Some a) \<Rightarrow> if row_of (cap_pool (normalize_agent g)) a rows0 \<noteq> None then rows0
                      else rows0 @ [account_row_for lm env pressure [] (cap_pool (normalize_agent g), a)]
                 | _ \<Rightarrow> rows0);
               pools = remdups (filter (\<lambda>p. p \<noteq> []) (map fst (lm_agent_caps lm) @ map lease_vendor ls @ map fst (lm_account_caps lm)));
               by_pool = map (\<lambda>p. (p, pool_remaining lm pressure ls rows p)) pools
           in \<lparr>sb_unreadable = False, sb_operating = pf_operating prof, sb_active = length ls, sb_global = global,
               sb_by_pool = by_pool, sb_by_account = rows,
               sb_agent_remaining = (case who of None \<Rightarrow> None
                 | Some g \<Rightarrow> let pool = cap_pool (normalize_agent g)
                     in Some (case acct of
                          Some a \<Rightarrow> min global (case row_of pool a rows of None \<Rightarrow> 0 | Some r \<Rightarrow> \<lfloor>ar_remaining r\<rfloor>)
                        | None \<Rightarrow> min global (table_get by_pool pool global))),
               sb_account_remaining = (case (who, acct) of
                   (Some g, Some a) \<Rightarrow> Some (case row_of (cap_pool (normalize_agent g)) a rows of None \<Rightarrow> 0 | Some r \<Rightarrow> ar_remaining r)
                 | _ \<Rightarrow> None)\<rparr>))"

section \<open>The bounded wait\<close>

definition CAPACITY_WAIT_DEFAULTS_S :: "(string \<times> real) list" where
  "CAPACITY_WAIT_DEFAULTS_S = [(''bulk'', 900), (''normal'', 600), (''critical'', 120)]"

definition resolve_capacity_wait_s :: "string option \<Rightarrow> real option \<Rightarrow> string option \<Rightarrow> real" where
  "resolve_capacity_wait_s lane wait env_override =
     (case wait of Some w \<Rightarrow> max 0 w
      | None \<Rightarrow> (case (case filled_or env_override None of None \<Rightarrow> None | Some s \<Rightarrow> py_float s) of
          Some v \<Rightarrow> max 0 v
        | None \<Rightarrow> table_get CAPACITY_WAIT_DEFAULTS_S
            (casefold (strip (case filled_or lane None of None \<Rightarrow> ''normal'' | Some l \<Rightarrow> l))) 600))"

text \<open>
  One waiting caller: the polling interval and jitter, the monotonic clock after attempt \<open>k\<close> and the
  jitter drawn then.
\<close>

record wait_env =
  we_poll :: real
  we_jitter :: real
  we_clock :: "nat \<Rightarrow> real"
  we_random :: "nat \<Rightarrow> real"

datatype wait_answer = WaitReturned acquire_answer | WaitBudgetExhausted string

definition wait_sleep :: "wait_env \<Rightarrow> nat \<Rightarrow> real \<Rightarrow> real" where
  "wait_sleep w k remaining =
     (let s = we_poll w + (if 0 < we_jitter w then we_random w k else 0)
      in if 0 < remaining then min s remaining else s)"

text \<open>\<open>attempt k\<close> is one run of \<open>cmd_acquire\<close> on the file; \<open>started\<close> the clock when the wait began.\<close>

fun acquire_with_wait_loop ::
  "nat \<Rightarrow> wait_env \<Rightarrow> (nat \<Rightarrow> 's \<Rightarrow> acquire_answer \<times> 's) \<Rightarrow> real option \<Rightarrow> nat \<Rightarrow> 's \<Rightarrow> (wait_answer \<times> 's) option" where
  "acquire_with_wait_loop 0 w attempt deadline k st = None"
| "acquire_with_wait_loop (Suc fuel) w attempt deadline k st =
     (case attempt (Suc k) st of (answer, st') \<Rightarrow>
        (case (answer, deadline) of
           (AcquireWait reason, Some d) \<Rightarrow>
             if we_clock w (Suc k) < d then acquire_with_wait_loop fuel w attempt deadline (Suc k) st'
             else Some (WaitBudgetExhausted reason, st')
         | _ \<Rightarrow> Some (WaitReturned answer, st')))"

definition wait_fuel :: "wait_env \<Rightarrow> real \<Rightarrow> nat" where
  "wait_fuel w budget = nat \<lceil>budget / we_poll w\<rceil> + 3"

definition acquire_with_wait ::
  "wait_env \<Rightarrow> (nat \<Rightarrow> 's \<Rightarrow> acquire_answer \<times> 's) \<Rightarrow> real \<Rightarrow> real \<Rightarrow> 's \<Rightarrow> (wait_answer \<times> 's) option" where
  "acquire_with_wait w attempt wait started st =
     (let budget = max 0 wait
      in acquire_with_wait_loop (wait_fuel w budget) w attempt (if 0 < budget then Some (started + budget) else None) 0 st)"

text \<open>
  The clock of a waiting caller: it does not run backwards and each sleep takes at least the time asked
  for, so two consecutive readings are apart by the sleep, or the deadline has been reached.
\<close>

definition wait_clock_ok :: "wait_env \<Rightarrow> real \<Rightarrow> real \<Rightarrow> bool" where
  "wait_clock_ok w started deadline \<longleftrightarrow> started \<le> we_clock w 1 \<and> (\<forall>k. 0 \<le> we_random w k)
     \<and> (\<forall>k. we_clock w k < deadline \<longrightarrow> we_clock w k + wait_sleep w k (deadline - we_clock w k) \<le> we_clock w (Suc k))"

end
