(* ===== verification/GF_Capacity_Lemmas.thy ===== *)
theory GF_Capacity_Lemmas
  imports GF_Admission "HOL-Library.Multiset"
begin

text \<open>
  The lease table of the capacity state: keyed access, and the load of a state, the multiset of the
  memory reservations of its active leases. Every operation but admission is \<open>lighter\<close>: it leaves a
  sub-multiset of the load and keeps the table well formed. Then what admission itself adds.
\<close>

section \<open>The lease table\<close>

text \<open>Keys are distinct and every lease carries its own key.\<close>

definition ids_ok :: "cap_state \<Rightarrow> bool" where
  "ids_ok data \<longleftrightarrow> distinct (map fst (cs_leases data)) \<and> (\<forall>(k, l) \<in> set (cs_leases data). cl_id l = k)"

lemma lease_of_in: "lease_of k data = Some l \<Longrightarrow> (k, l) \<in> set (cs_leases data)"
  by (simp add: lease_of_def map_of_SomeD)

lemma lease_of_put [simp]: "lease_of k (put_lease k' l data) = (if k = k' then Some l else lease_of k data)"
  by (simp add: lease_of_def put_lease_def update_conv')

lemma lease_of_mapped:
  assumes "cs_leases data' = map (\<lambda>(k, l). (k, f k l)) (cs_leases data)"
  shows "lease_of k data' = map_option (f k) (lease_of k data)"
proof -
  have "map_of (map (\<lambda>(k, l). (k, f k l)) xs) k = map_option (f k) (map_of xs k)" for xs
    by (induction xs) auto
  then show ?thesis by (simp add: lease_of_def assms)
qed

lemma put_machine [simp]: "cs_machine (put_lease k l data) = cs_machine data"
  by (simp add: put_lease_def)

lemma in_update: "x \<in> set (AList.update k v xs) \<Longrightarrow> x = (k, v) \<or> x \<in> set xs"
  by (induction xs) (auto split: if_splits)

lemma ids_ok_put: "ids_ok data \<Longrightarrow> cl_id l = k \<Longrightarrow> ids_ok (put_lease k l data)"
  by (auto simp: ids_ok_def put_lease_def distinct_update dest!: in_update)

lemma ids_ok_map:
  "ids_ok data \<Longrightarrow> cs_leases data' = map (\<lambda>(k, l). (k, f k l)) (cs_leases data) \<Longrightarrow> (\<And>k l. cl_id (f k l) = cl_id l) \<Longrightarrow> ids_ok data'"
  by (auto simp: ids_ok_def comp_def case_prod_unfold)

lemma lease_of_id: "ids_ok data \<Longrightarrow> lease_of k data = Some l \<Longrightarrow> cl_id l = k"
  using lease_of_in by (fastforce simp: ids_ok_def)

lemma mset_update:
  "map_of xs k = Some l \<Longrightarrow>
     \<exists>M. mset (map snd xs) = add_mset l M \<and> mset (map snd (AList.update k v xs)) = add_mset v M"
proof (induction xs)
  case (Cons x xs)
  show ?case
  proof (cases "fst x = k")
    case True
    with Cons.prems show ?thesis by (cases x) auto
  next
    case False
    with Cons obtain M where "mset (map snd xs) = add_mset l M" "mset (map snd (AList.update k v xs)) = add_mset v M"
      by (cases x) auto
    with False show ?thesis by (intro exI [of _ "add_mset (snd x) M"]) (cases x, simp)
  qed
qed simp

lemma mset_insert:
  "map_of xs k = None \<Longrightarrow> mset (map snd (AList.update k v xs)) = add_mset v (mset (map snd xs))"
  by (induction xs) auto

lemma subseteq_add: "A \<subseteq># B \<Longrightarrow> A \<subseteq># add_mset a B"
  by (metis add_mset_add_single mset_subset_eq_add_left subset_mset.order_trans)

section \<open>Load\<close>

text \<open>The memory reservations of the active leases, as a multiset: its size is the slots in use.\<close>

definition load :: "cap_state \<Rightarrow> int multiset" where
  "load data = image_mset cl_mem (mset (active_leases data))"

lemma size_load: "size (load data) = length (active_leases data)"
  by (simp add: load_def)

lemma sum_load: "sum_mset (load data) = total_rss (active_leases data)"
  by (simp add: load_def total_rss_def flip: sum_mset_sum_list)

lemma load_alt: "load data = image_mset cl_mem (filter_mset (\<lambda>l. cl_state l = ''active'') (mset (map snd (cs_leases data))))"
  by (simp add: load_def active_leases_def mset_filter)

definition lighter :: "cap_state \<Rightarrow> cap_state \<Rightarrow> bool" where
  "lighter data data' \<longleftrightarrow> load data' \<subseteq># load data \<and> (ids_ok data \<longrightarrow> ids_ok data')"

lemma lighter_refl [simp]: "lighter data data"
  by (simp add: lighter_def)

lemma lighter_trans: "lighter a b \<Longrightarrow> lighter b c \<Longrightarrow> lighter a c"
  by (auto simp: lighter_def)

lemma lighter_put:
  assumes "lease_of k data = Some l" "cl_id l' = cl_id l" "cl_mem l' = cl_mem l" "cl_state l' = ''active'' \<Longrightarrow> cl_state l = ''active''"
  shows "lighter data (put_lease k l' data)"
proof -
  obtain M where M: "mset (map snd (cs_leases data)) = add_mset l M"
      "mset (map snd (cs_leases (put_lease k l' data))) = add_mset l' M"
    using mset_update [of "cs_leases data" k l l'] assms(1) by (auto simp: put_lease_def lease_of_def)
  have "load (put_lease k l' data) \<subseteq># load data"
    using assms(3,4) unfolding load_alt M by (auto simp: subseteq_add)
  moreover have "ids_ok (put_lease k l' data)" if "ids_ok data"
    using that lease_of_id [OF that assms(1)] assms(2) by (intro ids_ok_put) simp_all
  ultimately show ?thesis by (simp add: lighter_def)
qed

lemma lighter_map:
  assumes "cs_leases data' = map (\<lambda>(k, l). (k, f k l)) (cs_leases data)" "\<And>k l. cl_id (f k l) = cl_id l"
    "\<And>k l. cl_mem (f k l) = cl_mem l" "\<And>k l. cl_state (f k l) = ''active'' \<Longrightarrow> cl_state l = ''active''"
  shows "lighter data data'"
proof -
  have "image_mset cl_mem (mset (filter (\<lambda>l. cl_state l = ''active'') (map snd (map (\<lambda>(k, l). (k, f k l)) xs))))
      \<subseteq># image_mset cl_mem (mset (filter (\<lambda>l. cl_state l = ''active'') (map snd xs)))" for xs
    by (induction xs) (auto simp: assms(3) dest: assms(4) intro: subset_mset.order_trans)
  then have "load data' \<subseteq># load data" by (simp add: load_def active_leases_def assms(1))
  moreover have "ids_ok data \<longrightarrow> ids_ok data'" using ids_ok_map [OF _ assms(1,2)] by blast
  ultimately show ?thesis by (simp add: lighter_def)
qed

lemma lighter_filter:
  assumes "cs_leases data' = List.map_filter (\<lambda>(k, l). map_option (Pair k) (f l)) (cs_leases data)"
    "\<And>l l'. f l = Some l' \<Longrightarrow> cl_id l' = cl_id l \<and> cl_mem l' = cl_mem l \<and> (cl_state l' = ''active'' \<longrightarrow> cl_state l = ''active'')"
  shows "lighter data data'"
proof -
  let ?g = "\<lambda>(k :: string, l). map_option (Pair k) (f l)"
  let ?m = "\<lambda>xs. image_mset cl_mem (mset (filter (\<lambda>l. cl_state l = ''active'') (map snd (xs :: (string \<times> cap_lease) list))))"
  have "?m (List.map_filter ?g xs) \<subseteq># ?m xs" for xs
  proof (induction xs)
    case (Cons x xs)
    obtain k l where x: "x = (k, l)" by (cases x)
    show ?case
    proof (cases "f l")
      case None
      with Cons.IH show ?thesis by (simp add: x subseteq_add)
    next
      case (Some l')
      with Cons.IH assms(2) [OF Some] show ?thesis by (auto simp: x subseteq_add)
    qed
  qed simp
  then have "load data' \<subseteq># load data" by (simp add: load_def active_leases_def assms(1))
  moreover have sub: "\<exists>l. (k, l) \<in> set xs \<and> f l = Some l'" if "(k, l') \<in> set (List.map_filter ?g xs)" for k l' xs
    using that by (induction xs) (auto split: option.splits)
  moreover have dist: "distinct (map fst (List.map_filter ?g xs))" if "distinct (map fst xs)" for xs
    using that
  proof (induction xs)
    case (Cons x xs)
    then show ?case using sub [of _ _ xs] by (cases x; cases "f (snd x)") (force simp: image_iff)+
  qed simp
  moreover have "ids_ok data'" if ok: "ids_ok data"
  proof -
    have "cl_id l' = k" if "(k, l') \<in> set (cs_leases data')" for k l'
    proof -
      from sub [OF that [unfolded assms(1)]] obtain l where "(k, l) \<in> set (cs_leases data)" "f l = Some l'" by blast
      with assms(2) ok show ?thesis by (auto simp: ids_ok_def)
    qed
    with dist ok show ?thesis by (auto simp: ids_ok_def assms(1))
  qed
  ultimately show ?thesis by (simp add: lighter_def)
qed

section \<open>No operation but admission adds load\<close>

lemma lighter_prune: "lighter data (prune_state env data)"
proof (rule lighter_filter [where f = "prune_lease env data"])
  show "cs_leases (prune_state env data) = List.map_filter (\<lambda>(k, l). map_option (Pair k) (prune_lease env data l)) (cs_leases data)"
    by (simp add: prune_state_def)
  show "cl_id l' = cl_id l \<and> cl_mem l' = cl_mem l \<and> (cl_state l' = ''active'' \<longrightarrow> cl_state l = ''active'')"
    if "prune_lease env data l = Some l'" for l l'
    using that by (auto simp: prune_lease_def Let_def split: if_splits option.splits)
qed

lemma retained_stamp_fields [simp]:
  "cl_id (observe_lease env data l) = cl_id l" "cl_mem (observe_lease env data l) = cl_mem l"
  "cl_state (observe_lease env data l) = cl_state l"
  by (simp_all add: observe_lease_def retained_live_scope_stamp_def retention_stamp_def)

lemma lighter_stamp: "lighter data (snd (stale_active_leases env data))"
  by (rule lighter_map [where f = "\<lambda>k. observe_lease env data"]) (simp_all add: stale_active_leases_def)

lemma lighter_reclaim_one: "lighter data (snd (reclaim_one env state reason preserve k data))"
  by (auto simp: reclaim_one_def split: option.splits intro: lighter_put)

lemma lighter_reclaim: "lighter data (snd (reclaim_active_leases env state reason preserve ks data))"
proof (induction ks arbitrary: data)
  case (Cons k ks)
  show ?case
    using lighter_trans [OF lighter_reclaim_one Cons.IH] by (simp add: case_prod_unfold)
qed simp

lemma lighter_reclaim_stale: "lighter data (snd (reclaim_stale_leases env state reason inc data))"
  unfolding reclaim_stale_leases_def Let_def case_prod_unfold
  by (rule lighter_trans [OF lighter_stamp lighter_reclaim])

lemma lighter_judged: "lighter data (judged_state lm env prof pressure a data)"
  by (simp add: judged_state_def lighter_reclaim_stale)

lemma lighter_rows:
  assumes "cs_leases data' = filter P (cs_leases data)"
  shows "lighter data data'"
proof -
  have "image_mset cl_mem (mset (filter (\<lambda>l. cl_state l = ''active'') (map snd (filter P xs))))
      \<subseteq># image_mset cl_mem (mset (filter (\<lambda>l. cl_state l = ''active'') (map snd xs)))" for xs
    by (induction xs) (auto intro: subseteq_add)
  then have "load data' \<subseteq># load data" by (simp add: load_def active_leases_def assms)
  moreover have "ids_ok data \<longrightarrow> ids_ok data'"
    by (auto simp: ids_ok_def assms distinct_map_filter)
  ultimately show ?thesis by (simp add: lighter_def)
qed

text \<open>The state after an operation: what it saved, or what it read.\<close>

definition state_after :: "'a \<times> cap_state option \<Rightarrow> cap_state \<Rightarrow> cap_state" where
  "state_after r data = (case snd r of None \<Rightarrow> data | Some d \<Rightarrow> d)"

lemma lighter_release_stale: "lighter data (state_after (release_stale_op env state reason keep inc data) data)"
proof -
  define d where "d = snd (reclaim_stale_leases env state reason inc (prune_state env data))"
  have "lighter data d" unfolding d_def by (rule lighter_trans [OF lighter_prune lighter_reclaim_stale])
  moreover have "lighter d (d\<lparr>cs_leases := filter P (cs_leases d)\<rparr>)" for P by (rule lighter_rows) simp
  ultimately show ?thesis
    using lighter_trans by (auto simp: release_stale_op_def state_after_def d_def case_prod_unfold)
qed

lemma lighter_release:
  assumes "ra_state a \<noteq> ''active''"
  shows "lighter data (state_after (release_op env a data) data)"
proof -
  have "lighter data (pop_lease k data)" for k
    by (rule lighter_rows [where P = "\<lambda>(k', _). k \<noteq> k'"]) (simp add: pop_lease_def AList.delete_eq)
  then show ?thesis
    using assms by (auto simp: release_op_def Let_def state_after_def split: option.splits intro!: lighter_put)
qed

lemma lighter_release_terminal:
  assumes "state \<noteq> ''active''"
  shows "lighter data (state_after (release_terminal_op env dispatch state data) data)"
proof -
  define hit where "hit = (\<lambda>l. cl_dispatch l = Some dispatch \<and> cl_state l = ''active'' \<and> lease_is_local env data l
             \<and> terminal_worker_gone env l (dispatch_record_for_lease env (Some dispatch)))"
  define d where "d = data\<lparr>cs_leases := map (\<lambda>(k, l). (k, if hit l then l\<lparr>cl_state := state, cl_released_at := Some (iso_seconds (ce_now env)),
              cl_reason := Some ''dispatch_terminal''\<rparr> else l)) (cs_leases data)\<rparr>"
  have "lighter data d"
    by (rule lighter_map [where f = "\<lambda>k l. if hit l then l\<lparr>cl_state := state, cl_released_at := Some (iso_seconds (ce_now env)),
              cl_reason := Some ''dispatch_terminal''\<rparr> else l"]) (auto simp: d_def assms split: if_splits)
  moreover have "state_after (release_terminal_op env dispatch state data) data \<in> {d, data}"
    by (simp add: release_terminal_op_def Let_def state_after_def d_def hit_def [abs_def])
  ultimately show ?thesis by auto
qed

lemma lighter_cooldowns: "cs_leases data' = cs_leases (prune_state env data) \<Longrightarrow> lighter data data'"
  using lighter_prune [of data env] by (simp add: lighter_def load_def active_leases_def ids_ok_def)

lemma lighter_cooldown_ops:
  "lighter data (state_after (set_cooldown_op env agent acct secs why data) data)"
  "lighter data (state_after (clear_cooldown_op env agent acct data) data)"
  by (rule lighter_cooldowns [where env = env], simp add: set_cooldown_op_def clear_cooldown_op_def state_after_def Let_def)+

text \<open>Operations on the bookkeeping of one lease.\<close>

lemma lighter_bookkeeping:
  "lighter data (state_after (extend_active_lease_expiry k us data) data)"
  "lighter data (state_after (attach_worker_to_capacity_lease env k pid pgid data) data)"
  "lighter data (state_after (rebind_capacity_lease_account k acct data) data)"
  "lighter data (state_after (mark_lease_spawning k data) data)"
  "lighter data (state_after (mark_lease_spawn_failed k data) data)"
  "lighter data (state_after (detach_lease_to_worker env k pid data) data)"
  by (auto simp: extend_active_lease_expiry_def attach_worker_to_capacity_lease_def record_attached_worker_def
      rebind_capacity_lease_account_def mark_lease_spawning_def mark_lease_spawn_failed_def detach_lease_to_worker_def
      state_after_def Let_def split: option.splits intro!: lighter_put)

lemma lighter_retain:
  assumes "\<And>l. lease_of k data = Some l \<Longrightarrow> cl_state l = ''active''"
  shows "lighter data (state_after (retain_indeterminate_live_lease env k pgid us data) data)"
  using assms by (auto simp: retain_indeterminate_live_lease_def Let_def state_after_def split: option.splits intro!: lighter_put)

section \<open>Admission\<close>

lemma load_put:
  assumes "cl_state l = ''active''"
  shows "\<exists>A. A \<subseteq># load data \<and> load (put_lease k l data) = add_mset (cl_mem l) A"
proof (cases "lease_of k data")
  case None
  then show ?thesis
    using mset_insert [of "cs_leases data" k l] assms by (simp add: load_alt put_lease_def lease_of_def)
next
  case (Some l0)
  then obtain M where M: "mset (map snd (cs_leases data)) = add_mset l0 M"
      "mset (map snd (cs_leases (put_lease k l data))) = add_mset l M"
    using mset_update [of "cs_leases data" k l0 l] by (auto simp: put_lease_def lease_of_def)
  show ?thesis
    unfolding load_alt M using assms
    by (intro exI [of _ "image_mset cl_mem (filter_mset (\<lambda>l. cl_state l = ''active'') M)"]) (auto intro: subseteq_add)
qed

lemma acquire_AllowD:
  assumes "acquire_op lm env prof pressure a uuid data = (AcquireAllow l, saved)"
  defines "k \<equiv> case filled_or (aq_lease_id a) None of None \<Rightarrow> uuid | Some s \<Rightarrow> s"
    and "d1 \<equiv> judged_state lm env prof pressure a (prune_state env data)"
  shows "saved = Some (put_lease k l d1)"
    "l = new_cap_lease env a k (normalize_agent (aq_agent a)) (request_account a) (request_weight lm a) (request_mem lm a)"
    "request_priority a \<in> set PRIORITY_LANES" "int (length (active_leases d1)) < request_top prof a"
    "\<not> crowded lm env pressure a (active_leases d1)" "\<not> over_rss prof (request_mem lm a) (active_leases d1)"
proof -
  have "cooldown_for (prune_state env data) (normalize_agent (aq_agent a)) (Some (request_account a)) = None"
    using assms(1) unfolding acquire_op_def Let_def
    by (cases "cooldown_for (prune_state env data) (normalize_agent (aq_agent a)) (Some (request_account a))") simp_all
  note run = assms(1) [unfolded acquire_op_def Let_def this option.case, folded k_def d1_def]
  show "saved = Some (put_lease k l d1)"
    "l = new_cap_lease env a k (normalize_agent (aq_agent a)) (request_account a) (request_weight lm a) (request_mem lm a)"
    "request_priority a \<in> set PRIORITY_LANES" "int (length (active_leases d1)) < request_top prof a"
    "\<not> crowded lm env pressure a (active_leases d1)" "\<not> over_rss prof (request_mem lm a) (active_leases d1)"
    using run by (auto split: if_split_asm)
qed

lemma acquire_saved_Allow:
  assumes "acquire_op lm env prof pressure a uuid data = (v, Some data')"
  shows "\<exists>l. v = AcquireAllow l"
proof -
  have "cooldown_for (prune_state env data) (normalize_agent (aq_agent a)) (Some (request_account a)) = None"
    using assms(1) unfolding acquire_op_def Let_def
    by (cases "cooldown_for (prune_state env data) (normalize_agent (aq_agent a)) (Some (request_account a))") simp_all
  from assms(1) [unfolded acquire_op_def Let_def this option.case] show ?thesis
    by (auto split: if_split_asm)
qed

end
