(* ===== verification/GF_Capacity_Props.thy ===== *)
theory GF_Capacity_Props
  imports GF_Capacity_Lemmas
begin

text \<open>
  What capacity accounting promises: admission stays within its ceilings and so does the machine over
  any history; a worker that is not proved dead keeps its slot; a refusal counts only such holders;
  unreadable state refuses; the bounded wait returns.
\<close>

lemma account_weight_mset:
  "account_weight env pool account ls = sum_mset (image_mset lease_weight
     (filter_mset (\<lambda>l. lease_vendor l = pool \<and> lease_account env l = account) (mset ls)))"
  by (simp add: account_weight_def sum_mset_sum_list [symmetric] flip: mset_map mset_filter)

lemma lease_weight_pos: "0 < lease_weight l"
  by (auto simp: lease_weight_def split: option.split)

lemma account_weight_put:
  "account_weight env pool account (active_leases (put_lease k l data))
     \<le> account_weight env pool account (active_leases data) + lease_weight l"
proof -
  let ?w = "\<lambda>M. sum_mset (image_mset lease_weight (filter_mset (\<lambda>l. lease_vendor l = pool \<and> lease_account env l = account)
      (filter_mset (\<lambda>l. cl_state l = ''active'') M)))"
  have w: "account_weight env pool account (active_leases d) = ?w (mset (map snd (cs_leases d)))" for d
    by (simp add: account_weight_mset active_leases_def mset_filter)
  have add: "?w (add_mset x M) \<le> ?w M + lease_weight x" "?w M \<le> ?w (add_mset x M)" for x M
    using lease_weight_pos [of x] by auto
  show ?thesis
  proof (cases "lease_of k data")
    case None
    then have "mset (map snd (cs_leases (put_lease k l data))) = add_mset l (mset (map snd (cs_leases data)))"
      using mset_insert [of "cs_leases data" k l] by (simp add: put_lease_def lease_of_def)
    with add(1) show ?thesis by (simp only: w)
  next
    case (Some l0)
    then obtain M where M: "mset (map snd (cs_leases data)) = add_mset l0 M"
        "mset (map snd (cs_leases (put_lease k l data))) = add_mset l M"
      using mset_update [of "cs_leases data" k l0 l] by (auto simp: put_lease_def lease_of_def)
    show ?thesis unfolding w M using add(1) [of l M] add(2) [of M l0] by linarith
  qed
qed

lemma sum_subset: "A \<subseteq># (B :: int multiset) \<Longrightarrow> (\<And>x. x \<in># B \<Longrightarrow> 0 \<le> x) \<Longrightarrow> sum_mset A \<le> sum_mset B"
proof -
  assume "A \<subseteq># B" "\<And>x. x \<in># B \<Longrightarrow> 0 \<le> x"
  then obtain C where C: "B = A + C" "\<And>x. x \<in># C \<Longrightarrow> 0 \<le> x" by (metis mset_subset_eq_exists_conv union_iff)
  have "0 \<le> sum_mset C" using C(2) by (induction C) auto
  with C(1) show ?thesis by simp
qed

lemma lighter_rss:
  assumes "lighter data data'" "\<forall>m \<in># load data. 0 \<le> m"
  shows "\<forall>m \<in># load data'. 0 \<le> m" "total_rss (active_leases data') \<le> total_rss (active_leases data)"
    "length (active_leases data') \<le> length (active_leases data)"
proof -
  have s: "load data' \<subseteq># load data" using assms(1) by (simp add: lighter_def)
  show "\<forall>m \<in># load data'. 0 \<le> m" using assms(2) mset_subset_eqD [OF s] by blast
  show "total_rss (active_leases data') \<le> total_rss (active_leases data)"
    using sum_subset [OF s] assms(2) by (simp add: sum_load)
  show "length (active_leases data') \<le> length (active_leases data)"
    using size_mset_mono [OF s] by (simp add: size_load)
qed

lemma acquire_ceilings:
  assumes "acquire_op lm env prof pressure a uuid data = (AcquireAllow l, saved)" "\<forall>m \<in># load data. 0 \<le> m"
  shows "\<exists>data'. saved = Some data' \<and> lease_of (cl_id l) data' = Some l \<and> cl_state l = ''active''
     \<and> int (length (active_leases data')) \<le> request_top prof a
     \<and> account_weight env (request_pool a) (request_account a) (active_leases data') \<le> of_int (request_limit lm pressure a)
     \<and> (pf_ram prof \<noteq> 0 \<longrightarrow> total_rss (active_leases data') \<le> max 0 (pf_ram prof - pf_reserve prof))"
proof -
  define k where "k = (case filled_or (aq_lease_id a) None of None \<Rightarrow> uuid | Some s \<Rightarrow> s)"
  define d where "d = judged_state lm env prof pressure a (prune_state env data)"
  note A = acquire_AllowD [OF assms(1), folded k_def d_def]
  have l: "cl_id l = k" "cl_state l = ''active''" "cl_mem l = request_mem lm a" "cl_weight l = Some (request_weight lm a)"
    by (simp_all add: A(2) new_cap_lease_def)
  have w: "lease_weight l = request_weight lm a"
    using model_weight_pos [of lm] by (simp add: lease_weight_def l(4) request_weight_def)
  have "lighter data d" unfolding d_def by (rule lighter_trans [OF lighter_prune lighter_judged])
  note n = lighter_rss(1) [OF this assms(2)]
  let ?d = "put_lease k l d"
  obtain B where B: "B \<subseteq># load d" "load ?d = add_mset (request_mem lm a) B"
    using load_put [of l d k] l by auto
  have "length (active_leases ?d) \<le> Suc (length (active_leases d))"
    using size_mset_mono [OF B(1)] B(2) by (simp flip: size_load)
  with A(4) have top: "int (length (active_leases ?d)) \<le> request_top prof a" by linarith
  have weight: "account_weight env (request_pool a) (request_account a) (active_leases ?d) \<le> of_int (request_limit lm pressure a)"
    using account_weight_put [of env "request_pool a" "request_account a" k l d] A(5) by (simp add: crowded_def w)
  have rss: "total_rss (active_leases ?d) \<le> max 0 (pf_ram prof - pf_reserve prof)" if "pf_ram prof \<noteq> 0"
  proof -
    have le: "total_rss (active_leases d) + request_mem lm a \<le> max 0 (pf_ram prof - pf_reserve prof)"
      using A(6) that unfolding over_rss_def by linarith
    have "total_rss (active_leases ?d) = request_mem lm a + sum_mset B" using B(2) by (simp flip: sum_load)
    moreover have "sum_mset B \<le> total_rss (active_leases d)" using sum_subset [OF B(1)] n by (simp add: sum_load)
    ultimately show ?thesis using le by linarith
  qed
  show ?thesis using A(1) l top weight rss by (intro exI [of _ ?d]) simp
qed


text \<open>
  Admission respects its ceilings. When a request is allowed, the saved state holds its lease, the
  active leases do not exceed the slots of its lane, the weight on its account does not exceed the
  lane's limit for it, and the reserved memory stays within the RAM left after the controller's reserve.
\<close>

lemma acquire_respects_ceilings:
  assumes "acquire_op lm env prof pressure a uuid data = (AcquireAllow l, saved)" "\<forall>m \<in># load data. 0 \<le> m"
  shows "\<exists>data'. saved = Some data' \<and> lease_of (cl_id l) data' = Some l \<and> cl_state l = ''active''
     \<and> int (length (active_leases data')) \<le> request_top prof a
     \<and> account_weight env (request_pool a) (request_account a) (active_leases data') \<le> of_int (request_limit lm pressure a)
     \<and> (pf_ram prof \<noteq> 0 \<longrightarrow> total_rss (active_leases data') \<le> max 0 (pf_ram prof - pf_reserve prof))"
  by (rule acquire_ceilings [OF assms])
section \<open>The machine is never over-committed\<close>

text \<open>
  One committed operation of any process on the state file, all callers using the same profile. The
  environment (clock, probes, ledger) may differ at each step. Excluded are overrides of the machine
  ceiling, negative memory requests, and bringing an ended lease back to \<open>active\<close>.
\<close>

inductive capacity_step :: "limits \<Rightarrow> cap_profile \<Rightarrow> cap_state \<Rightarrow> cap_state \<Rightarrow> bool" for lm prof where
  acquire: "acquire_op lm env prof pressure a uuid data = (v, Some data') \<Longrightarrow> aq_max_total a = None
      \<Longrightarrow> 0 \<le> request_mem lm a \<Longrightarrow> capacity_step lm prof data data'"
| release: "ra_state a \<noteq> ''active'' \<Longrightarrow> capacity_step lm prof data (state_after (release_op env a data) data)"
| release_stale: "capacity_step lm prof data (state_after (release_stale_op env state reason keep inc data) data)"
| release_terminal: "state \<noteq> ''active'' \<Longrightarrow> capacity_step lm prof data (state_after (release_terminal_op env dispatch state data) data)"
| extend: "capacity_step lm prof data (state_after (extend_active_lease_expiry k us data) data)"
| attach: "capacity_step lm prof data (state_after (attach_worker_to_capacity_lease env k pid pgid data) data)"
| rebind: "capacity_step lm prof data (state_after (rebind_capacity_lease_account k acct data) data)"
| spawning: "capacity_step lm prof data (state_after (mark_lease_spawning k data) data)"
| spawn_failed: "capacity_step lm prof data (state_after (mark_lease_spawn_failed k data) data)"
| detach: "capacity_step lm prof data (state_after (detach_lease_to_worker env k pid data) data)"
| retain: "(\<And>l. lease_of k data = Some l \<Longrightarrow> cl_state l = ''active'')
      \<Longrightarrow> capacity_step lm prof data (state_after (retain_indeterminate_live_lease env k pgid us data) data)"
| set_cooldown: "capacity_step lm prof data (state_after (set_cooldown_op env agent acct secs why data) data)"
| clear_cooldown: "capacity_step lm prof data (state_after (clear_cooldown_op env agent acct data) data)"

lemmas lighter_ops = lighter_release lighter_release_stale lighter_release_terminal lighter_bookkeeping lighter_cooldown_ops lighter_retain

definition machine_ok :: "cap_profile \<Rightarrow> cap_state \<Rightarrow> bool" where
  "machine_ok prof data \<longleftrightarrow> ids_ok data \<and> (\<forall>m \<in># load data. 0 \<le> m)
     \<and> int (length (active_leases data)) \<le> max (pf_operating prof) (min (pf_operating prof + CRITICAL_GLOBAL_BORROW) (pf_raw prof))
     \<and> (pf_ram prof \<noteq> 0 \<longrightarrow> total_rss (active_leases data) \<le> max 0 (pf_ram prof - pf_reserve prof))"

lemma machine_ok_lighter: "machine_ok prof data \<Longrightarrow> lighter data data' \<Longrightarrow> machine_ok prof data'"
  using lighter_rss [of data data'] by (auto simp: machine_ok_def lighter_def)

lemma lane_max_total_le: "1 \<le> m \<Longrightarrow> lane_max_total p m raw \<le> max m (min (m + CRITICAL_GLOBAL_BORROW) raw)"
  by (auto simp: lane_max_total_def BULK_GLOBAL_RESERVE_def)

lemma capacity_step_ok:
  assumes "capacity_step lm prof data data'" "machine_ok prof data" "1 \<le> pf_operating prof"
  shows "machine_ok prof data'"
  using assms(1)
proof cases
  case (acquire env pressure a uuid v)
  then obtain l where run: "acquire_op lm env prof pressure a uuid data = (AcquireAllow l, Some data')"
    using acquire_saved_Allow by blast
  define k where "k = (case filled_or (aq_lease_id a) None of None \<Rightarrow> uuid | Some s \<Rightarrow> s)"
  define d where "d = judged_state lm env prof pressure a (prune_state env data)"
  note A = acquire_AllowD [OF run, folded k_def d_def]
  have d: "machine_ok prof d"
    unfolding d_def by (rule machine_ok_lighter [OF assms(2) lighter_trans [OF lighter_prune lighter_judged]])
  have l: "cl_state l = ''active''" "cl_mem l = request_mem lm a" "cl_id l = k" by (simp_all add: A(2) new_cap_lease_def)
  have eq: "data' = put_lease k l d" using A(1) by simp
  have ids: "ids_ok data'" unfolding eq using d l(3) by (intro ids_ok_put) (simp_all add: machine_ok_def)
  obtain B where B: "B \<subseteq># load d" "load data' = add_mset (request_mem lm a) B"
    using load_put [OF l(1), of d k] by (auto simp: eq l(2))
  have mems: "\<forall>m \<in># load data'. 0 \<le> m"
    using B d acquire(3) mset_subset_eqD [OF B(1)] by (auto simp: machine_ok_def)
  have "\<forall>m \<in># load data. 0 \<le> m" using assms(2) by (simp add: machine_ok_def)
  from acquire_ceilings [OF run this]
  have "int (length (active_leases data')) \<le> request_top prof a"
    "pf_ram prof \<noteq> 0 \<longrightarrow> total_rss (active_leases data') \<le> max 0 (pf_ram prof - pf_reserve prof)" by auto
  moreover have "request_top prof a \<le> max (pf_operating prof) (min (pf_operating prof + CRITICAL_GLOBAL_BORROW) (pf_raw prof))"
    using lane_max_total_le [OF assms(3)] by (simp add: request_top_def acquire(2) int_or_def)
  ultimately show ?thesis using ids mems unfolding machine_ok_def by linarith
qed (simp_all add: machine_ok_lighter [OF assms(2)] lighter_ops)

lemma operating_cap_bounds:
  "1 \<le> operating_cap_for_ram lm h ram raw" "1 \<le> raw \<Longrightarrow> operating_cap_for_ram lm h ram raw \<le> raw"
proof -
  have "\<exists>n. operating_cap_for_ram lm h ram raw = max 1 (min raw n)"
    unfolding operating_cap_for_ram_def
    by (cases "case filled_or (ho_max_total_env h) None of None \<Rightarrow> None | Some s \<Rightarrow> py_int (JStr s)"; cases "lm_operating_total lm") auto
  then show "1 \<le> operating_cap_for_ram lm h ram raw" "1 \<le> raw \<Longrightarrow> operating_cap_for_ram lm h ram raw \<le> raw" by auto
qed

lemma profile_bounds: "1 \<le> pf_operating (profile lm h pa)" "pf_operating (profile lm h pa) \<le> pf_raw (profile lm h pa)"
proof -
  have "1 \<le> pf_raw (profile lm h pa)" by (simp add: profile_def Let_def)
  then have "1 \<le> pf_operating (profile lm h pa) \<and> pf_operating (profile lm h pa) \<le> pf_raw (profile lm h pa)"
    using operating_cap_bounds unfolding profile_def Let_def
    by (cases "pa_max_total pa") (simp_all del: max.bounded_iff min.bounded_iff, auto)
  then show "1 \<le> pf_operating (profile lm h pa)" "pf_operating (profile lm h pa) \<le> pf_raw (profile lm h pa)" by blast+
qed

lemma capacity_reachable:
  assumes "(capacity_step lm prof)\<^sup>*\<^sup>* data data'" "machine_ok prof data" "1 \<le> pf_operating prof"
  shows "machine_ok prof data'"
  using assms by (induction rule: rtranclp_induct) (auto intro: capacity_step_ok)


section \<open>A live worker keeps its slot\<close>

text \<open>
  A lease is held when its worker, with a recorded identity, is not proved dead: the probe does not
  report it absent, and its start token is not seen to differ.
\<close>

definition worker_held :: "cap_env \<Rightarrow> cap_lease \<Rightarrow> bool" where
  "worker_held env l \<longleftrightarrow> cl_state l = ''active'' \<and> cl_worker l \<noteq> None \<and> cl_worker_id l \<noteq> None
     \<and> fst (worker_identity_liveness env l None) \<noteq> Dead"

lemma held_active: "worker_held env l \<Longrightarrow> cl_state l = ''active''"
  by (simp add: worker_held_def)

lemma pid_generation_cong:
  "cl_worker_id l' = cl_worker_id l \<Longrightarrow> cl_worker_id l \<noteq> None \<Longrightarrow> cl_worker l' = cl_worker l
    \<Longrightarrow> pid_generation_matches env (cl_worker l) l' = pid_generation_matches env (cl_worker l) l"
  by (simp add: pid_generation_matches_def lease_identity_for_pid_def)

lemma liveness_cong:
  assumes "cl_worker_id l' = cl_worker_id l" "cl_worker_id l \<noteq> None" "cl_worker l' = cl_worker l"
  shows "worker_identity_liveness env l' None = worker_identity_liveness env l None"
  unfolding worker_identity_liveness_def worker_lease_view_def Let_def option.case assms(3) pid_generation_cong [OF assms] by (rule refl)

lemma view_keeps_worker:
  assumes "cl_worker l \<noteq> None" "cl_worker_id l \<noteq> None"
  shows "cl_worker (worker_lease_view l r) = cl_worker l" "cl_worker_id (worker_lease_view l r) = cl_worker_id l"
  using assms by (auto simp: worker_lease_view_def or_else_def split: option.split)

lemma held_view:
  "worker_held env l \<Longrightarrow> fst (worker_identity_liveness env (worker_lease_view l r) None) \<noteq> Dead"
  using liveness_cong [of "worker_lease_view l r" l env] view_keeps_worker [of l r] by (simp add: worker_held_def)

lemma held_not_gone: "worker_held env l \<Longrightarrow> \<not> terminal_worker_gone env l r"
  using held_view [of env l r] view_keeps_worker [of l r] by (simp add: terminal_worker_gone_def worker_held_def)

lemma held_not_prelaunch: "worker_held env l \<Longrightarrow> \<not> reclaimable_prelaunch_lease env l r"
  by (auto simp: worker_held_def reclaimable_prelaunch_lease_def)

lemma held_not_stale:
  assumes "worker_held env l"
  shows "\<not> lease_is_stale env data l"
proof -
  let ?r = "dispatch_record_for_lease env (cl_dispatch l)"
  have "cl_worker (worker_lease_view l ?r) \<noteq> None"
    using view_keeps_worker(1) [of l ?r] assms by (simp add: worker_held_def)
  moreover have "\<not> (case ?r of None \<Rightarrow> False | Some r \<Rightarrow> reclaimable_prelaunch_lease env l ?r
              \<or> (terminal_key r \<in> TERMINAL_STATES \<and> terminal_worker_gone env l ?r))"
    using held_not_gone [OF assms] held_not_prelaunch [OF assms] by (simp split: option.split)
  ultimately show ?thesis
    using held_view [OF assms] by (auto simp: lease_is_stale_def Let_def)
qed

lemma active_not_terminal: "''active'' \<notin> TERMINAL_LEASE_STATES"
  by code_simp

lemma held_not_pruned: "worker_held env l \<Longrightarrow> prune_lease env data l = Some l"
  using active_not_terminal
  by (auto simp: prune_lease_def Let_def lease_pids_dead_def worker_held_def split: option.split)

lemma held_claimant_known: "worker_held env l \<Longrightarrow> pre_attach_claimant_liveness env l \<noteq> None"
  by (auto simp: worker_held_def pre_attach_claimant_liveness_def)

text \<open>The lease is still there, up to the clock of its first unprobeable observation.\<close>

definition spared :: "string \<Rightarrow> cap_lease \<Rightarrow> cap_state \<Rightarrow> bool" where
  "spared k l data \<longleftrightarrow> (\<exists>t. lease_of k data = Some (l\<lparr>cl_unknown_since := t\<rparr>))"

lemma held_unstamped: "worker_held env (l\<lparr>cl_unknown_since := t\<rparr>) = worker_held env l"
  using liveness_cong [of "l\<lparr>cl_unknown_since := t\<rparr>" l env] by (auto simp: worker_held_def)

lemma spared_self: "lease_of k data = Some l \<Longrightarrow> spared k l data"
  by (auto simp: spared_def intro: exI [of _ "cl_unknown_since l"])

lemma spared_stamped: "spared k (l\<lparr>cl_unknown_since := t\<rparr>) data = spared k l data"
  by (simp add: spared_def)

lemma spared_kept: "spared k l data \<Longrightarrow> lease_of k data' = lease_of k data \<Longrightarrow> spared k l data'"
  by (simp add: spared_def)

lemma lease_of_filter:
  "lease_of k data = Some l \<Longrightarrow> P (k, l) \<Longrightarrow> cs_leases data' = filter P (cs_leases data) \<Longrightarrow> lease_of k data' = Some l"
proof -
  have "map_of xs k = Some l \<Longrightarrow> P (k, l) \<Longrightarrow> map_of (filter P xs) k = Some l" for xs
    by (induction xs) (auto split: if_splits)
  then show "lease_of k data = Some l \<Longrightarrow> P (k, l) \<Longrightarrow> cs_leases data' = filter P (cs_leases data) \<Longrightarrow> ?thesis"
    by (simp add: lease_of_def)
qed

lemma prune_spares:
  assumes "lease_of k data = Some l" "worker_held env l"
  shows "lease_of k (prune_state env data) = Some l"
proof -
  have "map_of (List.map_filter (\<lambda>(k, l). map_option (Pair k) (prune_lease env data l)) xs) k = Some l"
    if "map_of xs k = Some l" for xs
    using that held_not_pruned [OF assms(2), of data] by (induction xs) (auto split: if_splits option.splits)
  with assms(1) show ?thesis by (simp add: lease_of_def prune_state_def)
qed

lemma prune_spares': "spared k l data \<Longrightarrow> worker_held env l \<Longrightarrow> spared k l (prune_state env data)"
  unfolding spared_def using prune_spares held_unstamped by blast

lemma reclaim_skips: "k \<notin> set ks \<Longrightarrow> lease_of k (snd (reclaim_active_leases env state reason preserve ks data)) = lease_of k data"
proof (induction ks arbitrary: data)
  case (Cons k' ks)
  have "lease_of k (snd (reclaim_one env state reason preserve k' data)) = lease_of k data"
    using Cons.prems by (auto simp: reclaim_one_def split: option.split)
  with Cons show ?case by (simp add: case_prod_unfold)
qed simp

lemma reclaimed_ids: "set (fst (reclaim_active_leases env state reason preserve ks data)) \<subseteq> set ks"
proof (induction ks arbitrary: data)
  case (Cons k ks)
  have "set (fst (reclaim_one env state reason preserve k data)) \<subseteq> {k}"
    by (auto simp: reclaim_one_def split: option.split)
  with Cons.IH show ?case by (fastforce simp: case_prod_unfold)
qed simp

lemma active_in: "l \<in> set (active_leases data) \<Longrightarrow> \<exists>k. (k, l) \<in> set (cs_leases data)"
  by (force simp: active_leases_def)

lemma unique_lease:
  assumes "ids_ok data" "lease_of k data = Some l" "l' \<in> set (active_leases data)" "cl_id l' = k"
  shows "l' = l"
proof -
  from active_in [OF assms(3)] obtain k' where k': "(k', l') \<in> set (cs_leases data)" by blast
  with assms(1,4) have "k' = k" by (auto simp: ids_ok_def)
  with k' assms(1,2) show ?thesis by (simp add: ids_ok_def lease_of_def)
qed

lemma reclaim_stale_spares:
  assumes "ids_ok data" "spared k l data" "worker_held env l"
  shows "spared k l (snd (reclaim_stale_leases env state reason inc data))"
    "k \<notin> set (fst (reclaim_stale_leases env state reason inc data))"
proof -
  obtain t where l0: "lease_of k data = Some (l\<lparr>cl_unknown_since := t\<rparr>)" using assms(2) by (auto simp: spared_def)
  let ?l = "l\<lparr>cl_unknown_since := t\<rparr>"
  have held: "worker_held env ?l" using assms(3) by (simp add: held_unstamped)
  define d where "d = snd (stale_active_leases env data)"
  define stale where "stale = fst (stale_active_leases env data)"
  define extra where "extra = (if inc then filter (\<lambda>l. cl_id l \<noteq> [] \<and> cl_id l \<notin> set (map cl_id stale)) (unknown_claimant_leases env d) else [])"
  have d: "lease_of k d = Some (observe_lease env data ?l)"
    using lease_of_mapped [of d "\<lambda>k. observe_lease env data" data k] l0 by (simp add: d_def stale_active_leases_def)
  have ids: "ids_ok d" using lighter_stamp [of data env] assms(1) by (simp add: d_def lighter_def)
  have stamp: "\<exists>t. observe_lease env data ?l = l\<lparr>cl_unknown_since := t\<rparr>"
    by (auto simp: observe_lease_def retained_live_scope_stamp_def retention_stamp_def)
  then have held': "worker_held env (observe_lease env data ?l)" using assms(3) held_unstamped by metis
  have "k \<notin> cl_id ` set stale"
  proof
    assume "k \<in> cl_id ` set stale"
    then obtain l' where l': "l' \<in> set (active_leases data)" "lease_is_stale env data l'" "cl_id l' = k"
      by (auto simp: stale_def stale_active_leases_def)
    from unique_lease [OF assms(1) l0 l'(1,3)] l'(2) held_not_stale [OF held] show False by simp
  qed
  moreover have "k \<notin> cl_id ` set extra"
  proof
    assume "k \<in> cl_id ` set extra"
    then obtain l' where l': "l' \<in> set (active_leases d)" "pre_attach_claimant_liveness env l' = None" "cl_id l' = k"
      by (auto simp: extra_def unknown_claimant_leases_def split: if_splits)
    from unique_lease [OF ids d l'(1,3)] l'(2) held_claimant_known [OF held'] show False by simp
  qed
  ultimately have k: "k \<notin> set (map cl_id (stale @ extra))" by auto
  have eq: "\<exists>preserve. reclaim_stale_leases env state reason inc data
      = reclaim_active_leases env state reason preserve (map cl_id (stale @ extra)) d"
    unfolding reclaim_stale_leases_def Let_def case_prod_unfold stale_def [symmetric] d_def [symmetric] extra_def by blast
  with reclaim_skips [OF k] d stamp show "spared k l (snd (reclaim_stale_leases env state reason inc data))"
    unfolding spared_def by metis
  from eq obtain p where p: "reclaim_stale_leases env state reason inc data
      = reclaim_active_leases env state reason p (map cl_id (stale @ extra)) d" by blast
  from reclaimed_ids [of env state reason p "map cl_id (stale @ extra)" d] k show "k \<notin> set (fst (reclaim_stale_leases env state reason inc data))"
    unfolding p by blast
qed

text \<open>
  What any process may do about a lease that is not its own: pruning and reclaim on every path, the
  terminal hook of any dispatch, admission of another lease, cooldowns, and releases that neither come
  from the owner nor are an operator's override of an unknown worker.
\<close>

inductive foreign_step :: "limits \<Rightarrow> cap_env \<Rightarrow> cap_state \<Rightarrow> cap_state \<Rightarrow> bool" for lm env where
  acquire: "acquire_op lm env prof pressure a uuid data = (v, Some data')
      \<Longrightarrow> lease_of (case filled_or (aq_lease_id a) None of None \<Rightarrow> uuid | Some s \<Rightarrow> s) data = None \<Longrightarrow> foreign_step lm env data data'"
| release_stale: "foreign_step lm env data (state_after (release_stale_op env state reason keep inc data) data)"
| release_terminal: "state \<noteq> ''active'' \<Longrightarrow> foreign_step lm env data (state_after (release_terminal_op env dispatch state data) data)"
| set_cooldown: "foreign_step lm env data (state_after (set_cooldown_op env agent acct secs why data) data)"
| clear_cooldown: "foreign_step lm env data (state_after (clear_cooldown_op env agent acct data) data)"
| release: "(\<And>l. lease_of (ra_lease a) data = Some l \<Longrightarrow>
        (if ra_operator a then fst (worker_identity_liveness env l (dispatch_record_for_lease env (cl_dispatch l))) \<noteq> Unknown
         else \<not> release_caller_owns_lease env l (case cl_dispatch l of None \<Rightarrow> None | Some d \<Rightarrow> if d = [] then None else ce_read_record env d)))
      \<Longrightarrow> ra_state a \<noteq> ''active'' \<Longrightarrow> foreign_step lm env data (state_after (release_op env a data) data)"

lemma release_spares:
  assumes "lease_of k data = Some l" "worker_held env l"
    "\<And>l. lease_of (ra_lease a) data = Some l \<Longrightarrow>
        (if ra_operator a then fst (worker_identity_liveness env l (dispatch_record_for_lease env (cl_dispatch l))) \<noteq> Unknown
         else \<not> release_caller_owns_lease env l (case cl_dispatch l of None \<Rightarrow> None | Some d \<Rightarrow> if d = [] then None else ce_read_record env d))"
  shows "lease_of k (state_after (release_op env a data) data) = Some l"
proof (cases "ra_lease a = k")
  case True
  note own = assms(3) [unfolded True, OF assms(1)]
  have "snd (release_op env a data) = None"
    using own held_not_gone [OF assms(2)] assms(1) True
    by (simp add: release_op_def Let_def split: if_split_asm)
  with assms(1) show ?thesis by (simp add: state_after_def)
next
  case False
  have "lease_of k (pop_lease (ra_lease a) data) = lease_of k data"
    using False by (simp add: lease_of_def pop_lease_def delete_conv')
  moreover have "snd (release_op env a data) \<in> {None, Some (pop_lease (ra_lease a) data)} \<union> range (\<lambda>l. Some (put_lease (ra_lease a) l data))"
    by (auto simp: release_op_def Let_def split: option.split)
  ultimately show ?thesis using False assms(1) by (auto simp: state_after_def)
qed

lemma release_terminal_spares:
  assumes "lease_of k data = Some l" "worker_held env l"
  shows "lease_of k (state_after (release_terminal_op env dispatch state data) data) = Some l"
proof -
  define hit where "hit = (\<lambda>l. cl_dispatch l = Some dispatch \<and> cl_state l = ''active'' \<and> lease_is_local env data l
             \<and> terminal_worker_gone env l (dispatch_record_for_lease env (Some dispatch)))"
  define f where "f = (\<lambda>(k :: string) l. if hit l then l\<lparr>cl_state := state, cl_released_at := Some (iso_seconds (ce_now env)),
              cl_reason := Some ''dispatch_terminal''\<rparr> else l)"
  define d where "d = data\<lparr>cs_leases := map (\<lambda>(k, l). (k, f k l)) (cs_leases data)\<rparr>"
  have "lease_of k d = Some (f k l)"
    using lease_of_mapped [of d f data k] assms(1) by (simp add: d_def)
  then have "lease_of k d = Some l" using held_not_gone [OF assms(2)] by (simp add: f_def hit_def)
  moreover have "state_after (release_terminal_op env dispatch state data) data \<in> {d, data}"
    by (simp add: release_terminal_op_def Let_def state_after_def d_def f_def hit_def [abs_def])
  ultimately show ?thesis using assms(1) by auto
qed

lemma release_stale_spares:
  assumes "ids_ok data" "spared k l data" "worker_held env l"
  shows "spared k l (state_after (release_stale_op env state reason keep inc data) data)"
proof -
  have ids: "ids_ok (prune_state env data)" using lighter_prune assms(1) by (simp add: lighter_def)
  note S = reclaim_stale_spares [OF ids prune_spares' [OF assms(2,3)] assms(3), of state reason inc]
  define released where "released = fst (reclaim_stale_leases env state reason inc (prune_state env data))"
  define d where "d = snd (reclaim_stale_leases env state reason inc (prune_state env data))"
  define P where "P = (\<lambda>(k, l :: cap_lease). \<not> (k \<in> set released \<and> \<not> cl_retained l))"
  have "state_after (release_stale_op env state reason keep inc data) data = (if keep then d else d\<lparr>cs_leases := filter P (cs_leases d)\<rparr>)"
    by (simp add: release_stale_op_def state_after_def d_def P_def released_def case_prod_unfold)
  moreover have "spared k l (d\<lparr>cs_leases := filter P (cs_leases d)\<rparr>)"
  proof -
    obtain t where t: "lease_of k d = Some (l\<lparr>cl_unknown_since := t\<rparr>)" using S(1) by (auto simp: spared_def d_def)
    have "P (k, l\<lparr>cl_unknown_since := t\<rparr>)" using S(2) by (simp add: P_def released_def)
    from lease_of_filter [of k d _ P "d\<lparr>cs_leases := filter P (cs_leases d)\<rparr>", OF t this] show ?thesis by (auto simp: spared_def)
  qed
  ultimately show ?thesis using S(1) by (simp add: d_def)
qed

lemma acquire_spares:
  assumes "ids_ok data" "spared k l data" "worker_held env l" "acquire_op lm env prof pressure a uuid data = (v, Some data')"
    "lease_of (case filled_or (aq_lease_id a) None of None \<Rightarrow> uuid | Some s \<Rightarrow> s) data = None"
  shows "spared k l data'"
proof -
  obtain l' where "v = AcquireAllow l'" using acquire_saved_Allow [OF assms(4)] by blast
  note A = acquire_AllowD(1) [OF assms(4) [unfolded this]]
  have ids: "ids_ok (prune_state env data)" using lighter_prune assms(1) by (simp add: lighter_def)
  have "spared k l (judged_state lm env prof pressure a (prune_state env data))"
    using reclaim_stale_spares(1) [OF ids prune_spares' [OF assms(2,3)] assms(3)] prune_spares' [OF assms(2,3)]
    by (simp add: judged_state_def)
  moreover have "k \<noteq> (case filled_or (aq_lease_id a) None of None \<Rightarrow> uuid | Some s \<Rightarrow> s)"
    using assms(2,5) by (auto simp: spared_def)
  ultimately show ?thesis using A by (simp add: spared_def)
qed

lemma cooldowns_spare:
  assumes "spared k l data" "worker_held env l"
  shows "spared k l (state_after (set_cooldown_op env agent acct secs why data) data)"
    "spared k l (state_after (clear_cooldown_op env agent acct data) data)"
  using prune_spares' [OF assms]
  by (simp_all add: set_cooldown_op_def clear_cooldown_op_def state_after_def Let_def spared_def lease_of_def)

lemma foreign_step_spares:
  assumes "foreign_step lm env data data'" "ids_ok data" "spared k l data" "worker_held env l"
  shows "spared k l data' \<and> ids_ok data'"
proof
  from assms(3) obtain t where t: "lease_of k data = Some (l\<lparr>cl_unknown_since := t\<rparr>)" by (auto simp: spared_def)
  note T = t assms(4) [folded held_unstamped [where env = env and l = l and t = t]]
  from assms(1) show "spared k l data'"
  proof cases
    case (acquire prof pressure a uuid v)
    then show ?thesis using acquire_spares assms(2-4) by blast
  next
    case (release a)
    then show ?thesis using spared_self [OF release_spares [OF T]] by (simp add: spared_stamped)
  next
    case release_terminal
    then show ?thesis using spared_self [OF release_terminal_spares [OF T]] by (simp add: spared_stamped)
  next
    case release_stale
    then show ?thesis using release_stale_spares [OF assms(2-4)] by simp
  qed (simp_all add: cooldowns_spare [OF assms(3,4)])
  from assms(1) show "ids_ok data'"
  proof cases
    case (acquire prof pressure a uuid v)
    then obtain l' where "v = AcquireAllow l'" using acquire_saved_Allow by blast
    with acquire(1) have A: "acquire_op lm env prof pressure a uuid data = (AcquireAllow l', Some data')" by simp
    have "ids_ok (judged_state lm env prof pressure a (prune_state env data))"
      using lighter_trans [OF lighter_prune lighter_judged] assms(2) by (auto simp: lighter_def)
    then show ?thesis using acquire_AllowD(1,2) [OF A] by (simp add: ids_ok_put new_cap_lease_def)
  next
    case (release a)
    then show ?thesis using lighter_release assms(2) by (simp add: lighter_def)
  next
    case (release_terminal state dispatch)
    then show ?thesis using lighter_release_terminal assms(2) by (simp add: lighter_def)
  qed (use assms(2) lighter_release_stale lighter_cooldown_ops in \<open>auto simp: lighter_def\<close>)
qed


section \<open>A refusal counts only holders not proved gone\<close>

lemma update_as_map:
  "distinct (map fst xs) \<Longrightarrow> map_of xs k = Some v \<Longrightarrow> AList.update k w xs = map (\<lambda>(k', v'). (k', if k' = k then w else v')) xs"
proof (induction xs)
  case (Cons x xs)
  have "map (\<lambda>(k', v'). (k', if k' = k then w else v')) xs = xs" if "k \<notin> fst ` set xs"
    using that by (induction xs) auto
  with Cons show ?case by (cases x) auto
qed simp

definition reclaimed_lease :: "cap_env \<Rightarrow> string \<Rightarrow> string \<Rightarrow> string set \<Rightarrow> string \<Rightarrow> cap_lease \<Rightarrow> cap_lease" where
  "reclaimed_lease env state reason preserve k l = (if cl_state l \<noteq> ''active'' then l else l\<lparr>
     cl_state := (if k \<in> preserve then ''released'' else state),
     cl_reason := Some (if k \<in> preserve then ''orphaned_prelaunch_claimant'' else reason),
     cl_retained := (if k \<in> preserve then True else cl_retained l),
     cl_released_at := Some (iso_seconds (ce_now env))\<rparr>)"

lemma reclaim_one_map:
  assumes "ids_ok data" "k \<noteq> []"
  shows "cs_leases (snd (reclaim_one env state reason preserve k data))
     = map (\<lambda>(k', l). (k', if k' = k then reclaimed_lease env state reason preserve k l else l)) (cs_leases data)"
proof -
  have d: "distinct (map fst (cs_leases data))" using assms(1) by (simp add: ids_ok_def)
  have miss: "map (\<lambda>(k', l). (k', if k' = k then f l else l)) xs = xs" if "\<And>l. (k, l) \<in> set xs \<Longrightarrow> f l = l" for xs and f :: "cap_lease \<Rightarrow> cap_lease"
    using that by (induction xs) auto
  show ?thesis
  proof (cases "lease_of k data")
    case None
    then have "cs_leases (snd (reclaim_one env state reason preserve k data)) = cs_leases data"
      by (simp add: reclaim_one_def)
    moreover have "\<And>l. (k, l) \<notin> set (cs_leases data)" using None d by (auto simp: lease_of_def map_of_eq_None_iff image_iff)
    ultimately show ?thesis by (subst miss) simp_all
  next
    case (Some l)
    have only: "l' = l" if "(k, l') \<in> set (cs_leases data)" for l' using that Some d by (simp add: lease_of_def)
    show ?thesis
    proof (cases "cl_state l = ''active''")
      case False
      then have "cs_leases (snd (reclaim_one env state reason preserve k data)) = cs_leases data"
        by (simp add: reclaim_one_def Some)
      with False only show ?thesis by (subst miss) (auto simp: reclaimed_lease_def)
    next
      case True
      have "cs_leases (snd (reclaim_one env state reason preserve k data))
          = AList.update k (reclaimed_lease env state reason preserve k l) (cs_leases data)"
        using assms(2) True by (simp add: reclaim_one_def Some put_lease_def reclaimed_lease_def)
      also have "\<dots> = map (\<lambda>(k', l'). (k', if k' = k then reclaimed_lease env state reason preserve k l else l')) (cs_leases data)"
        using update_as_map [OF d] Some by (simp add: lease_of_def)
      also have "\<dots> = map (\<lambda>(k', l). (k', if k' = k then reclaimed_lease env state reason preserve k l else l)) (cs_leases data)"
        using only by auto
      finally show ?thesis .
    qed
  qed
qed

lemma reclaim_map:
  assumes "ids_ok data" "[] \<notin> set ks"
  shows "\<exists>f. cs_leases (snd (reclaim_active_leases env state reason preserve ks data)) = map (\<lambda>(k, l). (k, f k l)) (cs_leases data)
     \<and> (\<forall>k l. cl_state (f k l) = ''active'' \<longleftrightarrow> cl_state l = ''active'' \<and> (k \<notin> set ks \<or> (state = ''active'' \<and> k \<notin> preserve)))"
  using assms
proof (induction ks arbitrary: data)
  case Nil
  show ?case by (intro exI [of _ "\<lambda>_ l. l"]) simp
next
  case (Cons k ks)
  let ?d = "snd (reclaim_one env state reason preserve k data)"
  have "ids_ok ?d" using lighter_reclaim_one Cons.prems(1) by (auto simp: lighter_def)
  moreover have "[] \<notin> set ks" using Cons.prems(2) by simp
  ultimately obtain f where f: "cs_leases (snd (reclaim_active_leases env state reason preserve ks ?d)) = map (\<lambda>(k, l). (k, f k l)) (cs_leases ?d)"
    "\<And>k l. cl_state (f k l) = ''active'' \<longleftrightarrow> cl_state l = ''active'' \<and> (k \<notin> set ks \<or> (state = ''active'' \<and> k \<notin> preserve))"
    using Cons.IH [of ?d] by blast
  note one = reclaim_one_map [OF Cons.prems(1), of k env state reason preserve]
  show ?case
  proof (intro exI [of _ "\<lambda>k' l. f k' (if k' = k then reclaimed_lease env state reason preserve k l else l)"] conjI allI)
    show "cs_leases (snd (reclaim_active_leases env state reason preserve (k # ks) data))
        = map (\<lambda>(k', l). (k', f k' (if k' = k then reclaimed_lease env state reason preserve k l else l))) (cs_leases data)"
      using f(1) one Cons.prems(2) by (auto simp: case_prod_unfold)
  qed (auto simp: f(2) reclaimed_lease_def)
qed


lemma reclaim_stale_counts:
  assumes "ids_ok data" "lease_of [] data = None" "state \<noteq> ''active''"
  shows "length (active_leases (snd (reclaim_stale_leases env state reason False data)))
     = length (filter (\<lambda>l. \<not> lease_is_stale env data l) (active_leases data))"
proof -
  define d where "d = snd (stale_active_leases env data)"
  define ks where "ks = map cl_id (filter (lease_is_stale env data) (active_leases data))"
  have ids: "ids_ok d" using lighter_stamp assms(1) by (auto simp: lighter_def d_def)
  have rows: "cl_id l = k \<and> k \<noteq> []" if "(k, l) \<in> set (cs_leases data)" for k l
    using that assms(1,2) by (auto simp: ids_ok_def lease_of_def map_of_eq_None_iff image_iff)
  have mem: "k \<in> set ks \<longleftrightarrow> lease_is_stale env data l"
    if "(k, l) \<in> set (cs_leases data)" "cl_state l = ''active''" for k l
  proof
    assume "k \<in> set ks"
    then obtain l' where "l' \<in> set (active_leases data)" "lease_is_stale env data l'" "cl_id l' = k" by (auto simp: ks_def)
    moreover have "lease_of k data = Some l" using that(1) assms(1) by (simp add: lease_of_def ids_ok_def)
    ultimately show "lease_is_stale env data l" using unique_lease assms(1) by blast
  next
    assume "lease_is_stale env data l"
    moreover have "l \<in> set (active_leases data)" using that by (force simp: active_leases_def)
    ultimately show "k \<in> set ks" using rows [OF that(1)] by (force simp: ks_def)
  qed
  have "[] \<notin> set ks" using rows by (force simp: ks_def dest: active_in)
  moreover obtain preserve where R: "reclaim_stale_leases env state reason False data = reclaim_active_leases env state reason preserve ks d"
    by (auto simp: reclaim_stale_leases_def Let_def case_prod_unfold d_def ks_def stale_active_leases_def)
  ultimately obtain f where f: "cs_leases (snd (reclaim_stale_leases env state reason False data)) = map (\<lambda>(k, l). (k, f k l)) (cs_leases d)"
    "\<And>k l. cl_state (f k l) = ''active'' \<longleftrightarrow> cl_state l = ''active'' \<and> k \<notin> set ks"
    using reclaim_map [OF ids, of ks env state reason preserve] assms(3) by auto
  have len: "length (filter (\<lambda>l. cl_state l = ''active'') (map snd (map (\<lambda>(k, l). (k, f k l)) (map (\<lambda>(k, l). (k, observe_lease env data l)) xs))))
      = length (filter (\<lambda>l. \<not> lease_is_stale env data l) (filter (\<lambda>l. cl_state l = ''active'') (map snd xs)))"
    if "set xs \<subseteq> set (cs_leases data)" for xs
    using that
  proof (induction xs)
    case (Cons x xs)
    obtain k l where x: "x = (k, l)" by (cases x)
    with Cons.prems have "(k, l) \<in> set (cs_leases data)" by simp
    from mem [OF this] Cons show ?case by (auto simp: x f(2))
  qed simp
  show ?thesis
    using len [OF subset_refl] by (simp add: active_leases_def f(1) d_def stale_active_leases_def)
qed

lemma full_refusal:
  assumes "acquire_op lm env prof pressure a uuid data = (AcquireWait ''machine_worker_cap'', saved)"
  defines "d \<equiv> prune_state env data"
  shows "saved = None" "request_top prof a \<le> int (length (active_leases (judged_state lm env prof pressure a d)))"
    "capacity_full lm env prof pressure a (active_leases d)"
proof -
  have none: "cooldown_for d (normalize_agent (aq_agent a)) (Some (request_account a)) = None"
    using assms(1) unfolding acquire_op_def Let_def d_def
    by (cases "cooldown_for (prune_state env data) (normalize_agent (aq_agent a)) (Some (request_account a))") simp_all
  note run = assms(1) [unfolded acquire_op_def Let_def, folded d_def, unfolded none option.case]
  show "saved = None" and top: "request_top prof a \<le> int (length (active_leases (judged_state lm env prof pressure a d)))"
    using run by (auto split: if_split_asm)
  show "capacity_full lm env prof pressure a (active_leases d)"
  proof (rule ccontr)
    assume "\<not> ?thesis"
    moreover from this have "judged_state lm env prof pressure a d = d" by (simp add: judged_state_def)
    ultimately show False using top by (simp add: capacity_full_def)
  qed
qed

text \<open>
  A request is refused for want of a machine slot only by holders that are not proved gone: when the
  answer is \<open>machine_worker_cap\<close>, the active leases for which no evidence of the end of their worker can be
  read already fill the slots of the request's lane, and the refusal saves nothing.
\<close>

lemma refusal_counts_only_unproven:
  assumes "acquire_op lm env prof pressure a uuid data = (AcquireWait ''machine_worker_cap'', saved)"
    "ids_ok data" "lease_of [] data = None"
  shows "saved = None \<and> request_top prof a \<le> int (length (filter (\<lambda>l. \<not> lease_is_stale env (prune_state env data) l)
     (active_leases (prune_state env data))))"
proof -
  let ?d = "prune_state env data"
  have ids: "ids_ok ?d" using lighter_prune assms(2) by (auto simp: lighter_def)
  have "map_of (List.map_filter (\<lambda>(k, l). map_option (Pair k) (g l)) xs) k = None" if "map_of xs k = None"
    for xs :: "(string \<times> cap_lease) list" and k and g :: "cap_lease \<Rightarrow> cap_lease option"
    using that by (induction xs) (auto split: if_splits option.splits)
  then have "lease_of [] ?d = None" using assms(3) by (simp add: lease_of_def prune_state_def)
  from reclaim_stale_counts [OF ids this, of "''expired''" env "''capacity_backstop''"] full_refusal [OF assms(1)]
  show ?thesis by (simp add: judged_state_def)
qed

section \<open>Unreadable state and the bounded wait\<close>

text \<open>
  Admission fails closed. Only an allowed request writes the state file, and it never replaces an
  unreadable one: whenever the answer is not an allowance, and always when the file cannot be read, the
  file is left exactly as it was.
\<close>

lemma acquire_fails_closed:
  "case cmd_acquire lm h env pressure a uuid file of (answer, file') \<Rightarrow>
     (if \<exists>l. answer = AcquireAllow l then file \<noteq> BadFile \<and> (\<exists>data'. file' = GoodFile data') else file' = file)"
proof -
  have saved: "snd (acquire_op lm env prof pressure a uuid data) = None"
    if "\<not> (\<exists>l. fst (acquire_op lm env prof pressure a uuid data) = AcquireAllow l)" for prof data
    using that acquire_saved_Allow [of lm env prof pressure a uuid data]
    by (cases "acquire_op lm env prof pressure a uuid data"; cases "snd (acquire_op lm env prof pressure a uuid data)") auto
  have allowed: "\<exists>d. snd (acquire_op lm env prof pressure a uuid data) = Some d"
    if "fst (acquire_op lm env prof pressure a uuid data) = AcquireAllow l" for prof data l
    using that acquire_AllowD(1) [of lm env prof pressure a uuid data l] by (metis prod.collapse)
  show ?thesis
  proof (cases "load_state (ce_machine env) file")
    case (Inl x)
    then show ?thesis by (simp add: cmd_acquire_def with_state_def capacity_unreadable_def)
  next
    case (Inr data)
    then have "file \<noteq> BadFile" by (auto simp: load_state_def)
    moreover obtain v s where "acquire_op lm env (profile lm h (aq_profile a)) pressure a uuid data = (v, s)" by force
    ultimately show ?thesis
      using Inr saved [of "profile lm h (aq_profile a)" data] allowed [of "profile lm h (aq_profile a)" data]
      by (auto simp: cmd_acquire_def with_state_def split: option.splits)
  qed
qed

lemma wait_loop_returns:
  assumes clock: "\<And>k. we_clock w k < d \<Longrightarrow> we_clock w k + wait_sleep w k (d - we_clock w k) \<le> we_clock w (Suc k)"
    and random: "\<And>k. 0 \<le> we_random w k" and poll: "0 < we_poll w"
    and gap: "d - we_clock w (Suc k) \<le> of_nat n * we_poll w" and fuel: "n < fuel"
  shows "\<exists>v st'. acquire_with_wait_loop fuel w attempt (Some d) k st = Some (v, st') \<and> (\<forall>r. v \<noteq> WaitReturned (AcquireWait r))"
  using gap fuel
proof (induction n arbitrary: fuel k st)
  case 0
  then obtain f where f: "fuel = Suc f" by (cases fuel) auto
  have "\<not> we_clock w (Suc k) < d" using 0 by simp
  then show ?case by (auto simp: f case_prod_unfold split: acquire_answer.split)
next
  case (Suc n)
  then obtain f where f: "fuel = Suc f" "n < f" by (cases fuel) auto
  show ?case
  proof (cases "we_clock w (Suc k) < d")
    case False
    then show ?thesis by (auto simp: f case_prod_unfold split: acquire_answer.split)
  next
    case True
    define m where "m = real n * we_poll w"
    have "0 \<le> m" using poll by (simp add: m_def)
    moreover have "d - we_clock w (Suc k) \<le> we_poll w + m" using Suc.prems(1) by (simp add: m_def algebra_simps)
    moreover have "min (we_poll w) (d - we_clock w (Suc k)) \<le> wait_sleep w (Suc k) (d - we_clock w (Suc k))"
      using True random [of "Suc k"] by (auto simp: wait_sleep_def Let_def min_le_iff_disj)
    ultimately have "d - we_clock w (Suc (Suc k)) \<le> real n * we_poll w"
      using clock [OF True] unfolding m_def [symmetric] by linarith
    from Suc.IH [OF this f(2)] show ?thesis
      using True by (simp add: f(1) case_prod_unfold split: acquire_answer.split)
  qed
qed


definition sample_env :: "int \<Rightarrow> cap_env" where
  "sample_env now = \<lparr>ce_now = now, ce_machine = ''m'', ce_pid = 7, ce_alive = \<lambda>p. if p = 11 then None else Some (p = 7),
     ce_group = \<lambda>_. None, ce_identity = \<lambda>p. Some \<lparr>pi_pid = Some p, pi_token = Some ''t''\<rparr>,
     ce_read_record = \<lambda>_. None, ce_read_status = \<lambda>_. None\<rparr>"

definition sample_acquire :: "string \<Rightarrow> int \<Rightarrow> string \<Rightarrow> acquire_args" where
  "sample_acquire k worker lane = \<lparr>aq_profile = \<lparr>pa_ram = None, pa_reserve = None, pa_worst = None, pa_hard_cap = None, pa_max_total = None\<rparr>,
     aq_agent = ''codex'', aq_mem = Some 600, aq_account = None, aq_effective = None, aq_model = None, aq_max_total = None,
     aq_agent_cap = Some 4, aq_priority = Some lane, aq_lease_id = Some k, aq_dispatch = Some k, aq_controller = None,
     aq_worker = Some worker, aq_ttl = 60\<rparr>"

definition sample_host :: host where "sample_host = \<lparr>ho_ram = 7000, ho_max_total_env = None\<rparr>"
definition sample_profile :: cap_profile where
  "sample_profile = profile (limits_of []) sample_host (aq_profile (sample_acquire ''a'' 11 ''normal''))"

definition empty_state :: cap_state where "empty_state = \<lparr>cs_machine = Some ''m'', cs_leases = [], cs_cooldowns = []\<rparr>"

definition one_lease :: cap_state where
  "one_lease = \<lparr>cs_machine = Some ''m'', cs_leases = [(''a'', new_cap_lease (sample_env 1000000) (sample_acquire ''a'' 11 ''normal'')
     ''a'' ''codex'' ''default'' 1 600)], cs_cooldowns = []\<rparr>"


lemma sample_admitted: "acquire_op (limits_of []) (sample_env 1000000) sample_profile [] (sample_acquire ''a'' 11 ''normal'') ''u'' empty_state
  = (AcquireAllow (snd (hd (cs_leases one_lease))), Some one_lease)"
  by code_simp

lemma acquire_respects_ceilings_witness:
  "int (length (active_leases one_lease)) \<le> request_top sample_profile (sample_acquire ''a'' 11 ''normal'')
   \<and> total_rss (active_leases one_lease) \<le> 4952"
proof -
  have ram: "pf_ram sample_profile \<noteq> 0" "max 0 (pf_ram sample_profile - pf_reserve sample_profile) = 4952" by code_simp+
  have "\<forall>m \<in># load empty_state. 0 \<le> m" by (simp add: load_def active_leases_def empty_state_def)
  from acquire_respects_ceilings [OF sample_admitted this] ram show ?thesis by simp
qed



lemma refusal_counts_only_unproven_witness:
  "request_top sample_profile (sample_acquire ''b'' 7 ''normal'')
     \<le> int (length (filter (\<lambda>l. \<not> lease_is_stale (sample_env 1000000) (prune_state (sample_env 1000000) one_lease) l)
     (active_leases (prune_state (sample_env 1000000) one_lease))))"
proof -
  have run: "acquire_op (limits_of []) (sample_env 1000000) sample_profile [] (sample_acquire ''b'' 7 ''normal'') ''u'' one_lease
    = (AcquireWait ''machine_worker_cap'', None)" by code_simp
  have ids: "ids_ok one_lease" "lease_of [] one_lease = None" by code_simp+
  from refusal_counts_only_unproven [OF run ids] show ?thesis by simp
qed


text \<open>
  A small machine gives its last slot to bulk work. With an operating cap of three or less the bulk
  lane's ceiling is one slot, not zero, and a pool cap of one leaves it that one slot, so bulk work is
  admitted to the last machine slot and to the last slot of its pool.
\<close>

lemma bulk_takes_the_last_slot:
  "lane_max_total ''bulk'' 1 raw = 1 \<and> lane_max_total ''bulk'' 2 raw = 1 \<and> lane_max_total ''bulk'' 3 raw = 1
   \<and> lane_agent_cap ''bulk'' 1 adaptive = 1
   \<and> pf_operating sample_profile = 1
   \<and> (\<exists>l saved. acquire_op (limits_of []) (sample_env 1000000) sample_profile [] (sample_acquire ''a'' 11 ''bulk'') ''u'' empty_state
        = (AcquireAllow l, saved))"
proof -
  have "\<exists>l. fst (acquire_op (limits_of []) (sample_env 1000000) sample_profile [] (sample_acquire ''a'' 11 ''bulk'') ''u'' empty_state)
      = AcquireAllow l \<and> cl_id l = ''a''"
    by (rule exI [of _ "snd (hd (cs_leases one_lease))"]) code_simp
  moreover have "pf_operating sample_profile = 1" by code_simp
  ultimately show ?thesis
    by (auto simp: lane_max_total_def lane_agent_cap_def BULK_GLOBAL_RESERVE_def BULK_POOL_RESERVE_def prod_eq_iff)
qed

end
