(* ===== verification/GF_Time_Roundtrip.thy ===== *)
theory GF_Time_Roundtrip
  imports GF_Delivery GF_Capacity
begin

text \<open>
  The timestamps the journal and the capacity state file exchange. Both are written with
  \<open>isoformat\<close> and read back with \<open>fromisoformat\<close> on every later operation, so the deadlines and
  renewal times the other theories compare are the instants that were written. The lemmas invert the
  calendar of \<open>ord2ymd\<close>, the padded digits and the clock, and end in one round trip per writer.
\<close>

section \<open>The calendar\<close>

lemma month_scan_bounds:
  "month_scan ls k n = (m, r) \<Longrightarrow> 0 \<le> n \<Longrightarrow> n < sum_list ls \<Longrightarrow>
     k \<le> m \<and> m < k + length ls \<and> sum_list (take (m - k) ls) + r = n \<and> 0 \<le> r \<and> r < ls ! (m - k)"
proof (induction ls arbitrary: k n)
  case (Cons l ls)
  show ?case
  proof (cases "n < l")
    case True
    with Cons.prems show ?thesis by simp
  next
    case False
    with Cons.prems have "month_scan ls (Suc k) (n - l) = (m, r)" "0 \<le> n - l" "n - l < sum_list ls" by simp_all
    from Cons.IH [OF this] have IH: "Suc k \<le> m" "m < Suc k + length ls" "sum_list (take (m - Suc k) ls) + r = n - l"
      "0 \<le> r" "r < ls ! (m - Suc k)" by blast+
    then have "m - k = Suc (m - Suc k)" by simp
    with IH show ?thesis by simp
  qed
qed simp

lemma year_length: "sum_list (month_lengths y) = (if leap_year y then 366 else 365)"
  by (simp add: month_lengths_def)

lemma year_day:
  assumes "month_scan (month_lengths y) 1 n = (m, r)" "0 \<le> n" "n < 365" "1 \<le> y" "y \<le> 9999"
  shows "valid_date y m (r + 1) \<and> ymd2ord y m (r + 1) = days_before_year y + n + 1"
proof -
  have "n < sum_list (month_lengths y)" using assms(3) by (simp add: year_length)
  from month_scan_bounds [OF assms(1,2) this] assms(4,5) show ?thesis
    by (auto simp: valid_date_def ymd2ord_def days_before_month_def days_in_month_def) (simp add: month_lengths_def)
qed

lemma before_year_cycles:
  assumes "0 \<le> b" "b \<le> 3" "0 \<le> c" "c \<le> 24" "0 \<le> d" "d \<le> (3 :: int)"
  shows "days_before_year (400 * a + 1 + 100 * b + 4 * c + d) = 146097 * a + 36524 * b + 1461 * c + 365 * d"
proof -
  have "(400 * a + 100 * b + 4 * c + d) div 4 = 100 * a + 25 * b + c"
    using assms by (intro int_div_pos_eq [where r = "d"]) simp_all
  moreover have "(400 * a + 100 * b + 4 * c + d) div 100 = 4 * a + b"
    using assms by (intro int_div_pos_eq [where r = "4 * c + d"]) simp_all
  moreover have "(400 * a + 100 * b + 4 * c + d) div 400 = a"
    using assms by (intro int_div_pos_eq [where r = "100 * b + 4 * c + d"]) simp_all
  ultimately show ?thesis by (simp add: days_before_year_def algebra_simps)
qed

lemma dec_31: "leap_year y \<Longrightarrow> 1 \<le> y \<Longrightarrow> y \<le> 9999 \<Longrightarrow> valid_date y 12 31 \<and> ymd2ord y 12 31 = days_before_year y + 366"
  by (simp add: valid_date_def ymd2ord_def days_before_month_def days_in_month_def month_lengths_def)

lemma ord2ymd_valid:
  assumes "1 \<le> n" "n \<le> 3652059" "ord2ymd n = (y, m, d)"
  shows "valid_date y m d \<and> ymd2ord y m d = n"
proof -
  define a where "a = (n - 1) div 146097"
  define n1 where "n1 = (n - 1) mod 146097"
  define b where "b = n1 div 36524"
  define n2 where "n2 = n1 mod 36524"
  define c where "c = n2 div 1461"
  define n3 where "n3 = n2 mod 1461"
  define e where "e = n3 div 365"
  define k where "k = n3 mod 365"
  have n: "n - 1 = 146097 * a + n1" "n1 = 36524 * b + n2" "n2 = 1461 * c + n3" "n3 = 365 * e + k"
    by (simp_all add: a_def n1_def b_def n2_def c_def n3_def e_def k_def)
  have bd: "0 \<le> a" "0 \<le> n1" "n1 < 146097" "0 \<le> n2" "n2 < 36524" "0 \<le> n3" "n3 < 1461" "0 \<le> k" "k < 365"
    "0 \<le> b" "0 \<le> c" "0 \<le> e"
    using assms(1) by (simp_all add: a_def n1_def b_def n2_def c_def n3_def e_def k_def pos_imp_zdiv_nonneg_iff)
  have up: "b \<le> 4" "c \<le> 24" "e \<le> 4" using n bd by linarith+
  define Y where "Y = a * 400 + 1 + b * 100 + c * 4 + e"
  have run: "ord2ymd n = (if e = 4 \<or> b = 4 then (Y - 1, 12, 31) else case month_scan (month_lengths Y) 1 k of (m, r) \<Rightarrow> (Y, m, r + 1))"
    unfolding ord2ymd_def Let_def Y_def a_def n1_def b_def n2_def c_def n3_def e_def k_def by (simp only:)
  have top: "146097 * a + 36524 * b + 1461 * c + 365 * e + k \<le> 3652058" using n assms(2) by linarith
  show ?thesis
  proof (cases "e = 4 \<or> b = 4")
    case False
    then have lt: "b \<le> 3" "e \<le> 3" using up by linarith+
    have Y: "1 \<le> Y" "Y \<le> 9999"
    proof -
      show "1 \<le> Y" using bd by (simp add: Y_def)
      have "a \<le> 24" using top bd by linarith
      then show "Y \<le> 9999" using top bd lt up(2) unfolding Y_def by linarith
    qed
    have "days_before_year Y = 146097 * a + 36524 * b + 1461 * c + 365 * e"
      using before_year_cycles [of b c e a] bd lt up by (simp add: Y_def algebra_simps)
    moreover obtain m' r where ms: "month_scan (month_lengths Y) 1 k = (m', r)" by force
    ultimately show ?thesis
      using year_day [OF ms bd(8,9) Y] run assms(3) False n by simp
  next
    case True
    then have r: "y = Y - 1" "m = 12" "d = 31" using run assms(3) by auto
    have "days_before_year y + 366 = n \<and> leap_year y \<and> 1 \<le> y \<and> y \<le> 9999"
    proof (cases "b = 4")
      case True
      then have z: "c = 0" "e = 0" "k = 0" using n bd by linarith+
      have y: "y = 400 * a + 1 + 100 * 3 + 4 * 24 + 3" using r(1) True z by (simp add: Y_def)
      have "days_before_year y = 146097 * a + 36524 * 3 + 1461 * 24 + 365 * 3"
        unfolding y by (rule before_year_cycles) simp_all
      moreover have "y = 400 * (a + 1)" unfolding y by simp
      then have "leap_year y" unfolding leap_year_def by simp
      moreover have "y \<le> 9999" using top True z unfolding y by linarith
      ultimately show ?thesis using n True z bd by (simp add: y)
    next
      case False
      then have e4: "e = 4" and lt: "b \<le> 3" using \<open>e = 4 \<or> b = 4\<close> up by linarith+
      then have k: "k = 0" and c: "c \<le> 23" using n bd by linarith+
      have y: "y = 400 * a + 1 + 100 * b + 4 * c + 3" using r(1) e4 by (simp add: Y_def)
      have "days_before_year y = 146097 * a + 36524 * b + 1461 * c + 365 * 3"
        unfolding y by (rule before_year_cycles) (use bd lt c in simp_all)
      moreover have "y mod 100 = 4 * (c + 1)" unfolding y
        using bd lt c by (intro int_mod_pos_eq [where q = "4 * a + b"]) simp_all
      then have "leap_year y" unfolding leap_year_def using bd lt c y by simp
      moreover have "a \<le> 24" using top bd by linarith
      then have "y \<le> 9999" using top bd lt c e4 unfolding y by linarith
      ultimately show ?thesis using n e4 k bd by (simp add: y)
    qed
    with dec_31 [of y] r show ?thesis by auto
  qed
qed

section \<open>The written text reads back\<close>

lemma pad_digits_chars: "c \<in> set (pad_digits n v) \<Longrightarrow> ascii_digit c"
  by (induction n arbitrary: v) (auto simp: ascii_digit_pad)

lemma not_ascii_digit [simp]: "\<not> ascii_digit CHR ''-''" "\<not> ascii_digit CHR ''+''" "\<not> ascii_digit CHR ''Z''"
  by (simp_all add: ascii_digit_def)

lemma pad_digits_no_sign [simp]:
  "CHR ''-'' \<notin> set (pad_digits n v)" "CHR ''+'' \<notin> set (pad_digits n v)" "CHR ''Z'' \<notin> set (pad_digits n v)"
  using pad_digits_chars not_ascii_digit by blast+

lemma replace_Z_same: "CHR ''Z'' \<notin> set s \<Longrightarrow> replace_Z s = s"
  by (induction s) (auto simp: replace_Z_def)

lemma split_tz_utc:
  assumes "CHR ''-'' \<notin> set b" "CHR ''+'' \<notin> set b"
  shows "split_tz (b @ ''+00:00'') = (b, ''+00:00'')"
proof -
  have *: "takeWhile (\<lambda>c. c \<noteq> CHR ''+'') (b @ CHR ''+'' # r) = b \<and> dropWhile (\<lambda>c. c \<noteq> CHR ''+'') (b @ CHR ''+'' # r) = CHR ''+'' # r"
    for r using assms(2) by (induction b) auto
  from assms * show ?thesis by (simp add: split_tz_def)
qed

lemma parse_time_utc:
  assumes "CHR ''-'' \<notin> set b" "CHR ''+'' \<notin> set b"
  shows "parse_time (b @ ''+00:00'') = map_option (\<lambda>us. (us, Some 0)) (parse_hms b)"
proof -
  have "parse_offset ''+00:00'' = Some (Some 0)" by code_simp
  with split_tz_utc [OF assms] show ?thesis by (simp add: parse_time_def split: option.split)
qed

lemma clock_parts:
  assumes "0 \<le> secs" "secs < (86400 :: int)"
  shows "0 \<le> secs div 3600" "secs div 3600 < 24" "secs div 3600 * 60 + secs div 60 mod 60 = secs div 60"
    "secs div 60 * 60 + secs mod 60 = secs"
proof -
  show "0 \<le> secs div 3600" using assms by (simp add: pos_imp_zdiv_nonneg_iff)
  show "secs div 3600 < 24" using assms by simp
  have "secs div 3600 = secs div 60 div 60" by (simp add: zdiv_zmult2_eq [symmetric])
  then show "secs div 3600 * 60 + secs div 60 mod 60 = secs div 60" by simp
  show "secs div 60 * 60 + secs mod 60 = secs" by simp
qed

lemma parse_iso_clock:
  assumes "0 \<le> secs" "secs < 86400" "parse_fraction fr = Some us"
  shows "parse_hms (iso_clock secs @ fr) = Some (secs * us_per_s + us)"
proof -
  note cp = clock_parts [OF assms(1,2)]
  have b: "nat (secs div 3600) < 10 ^ 2" "nat (secs div 60 mod 60) < 10 ^ 2" "nat (secs mod 60) < 10 ^ 2"
    using cp by (simp_all add: nat_less_iff)
  have "clock_us (int (nat (secs div 3600))) (int (nat (secs div 60 mod 60))) (int (nat (secs mod 60))) us = Some (secs * us_per_s + us)"
    using cp by (simp add: clock_us_def)
  then show ?thesis
    by (simp only: parse_hms_def iso_clock_def append.assoc append_Cons append_Nil fixed_digits_pad [OF b(1)]
        fixed_digits_pad [OF b(2)] fixed_digits_pad [OF b(3)] option.case prod.case expect_def list.case
        if_True if_False list.distinct assms(3) simp_thms)
qed

lemma parse_iso_date:
  assumes "1 \<le> n" "n \<le> 3652059"
  shows "parse_date (iso_date n) = Some (n, []) \<and> length (iso_date n) = 10"
proof -
  obtain y m d where o: "ord2ymd n = (y, m, d)" by (metis prod_cases3)
  from ord2ymd_valid [OF assms o] have v: "valid_date y m d" "ymd2ord y m d = n" by blast+
  have len: "days_in_month y m \<le> 31"
    using v(1) unfolding valid_date_def days_in_month_def month_lengths_def
    by (auto simp: nth_Cons' )
  have b: "nat y < 10 ^ 4" "m < 10 ^ 2" "nat d < 10 ^ 2" "0 \<le> y" "0 \<le> d"
    using v(1) len unfolding valid_date_def by auto
  have "fixed_digits 2 (pad_digits 2 (nat d)) = Some (int (nat d), [])"
    using fixed_digits_pad [OF b(3), of "[]"] by simp
  then show ?thesis
    using v b by (simp add: iso_date_def o parse_date_def fixed_digits_pad expect_def)
qed

text \<open>The common shape of \<open>iso_seconds\<close> and \<open>iso_micros\<close>: date, clock, fraction, UTC offset.\<close>

definition iso_text :: "int \<Rightarrow> string \<Rightarrow> string" where
  "iso_text t fr = iso_date (t div us_per_day) @ ''T'' @ (iso_clock (t mod us_per_day div us_per_s) @ fr) @ ''+00:00''"

lemma day_split:
  "t div us_per_day * us_per_day + (t mod us_per_day div us_per_s * us_per_s + us) = t - t mod us_per_s + us"
proof -
  have "t mod us_per_day mod us_per_s = t mod us_per_s"
    unfolding us_per_day_def by (rule mod_mod_cancel) simp
  then have "t mod us_per_day div us_per_s * us_per_s = t mod us_per_day - t mod us_per_s"
    by (simp add: minus_mod_eq_div_mult [symmetric])
  then show ?thesis by (simp add: minus_mod_eq_div_mult [symmetric])
qed

lemma second_of_day: "0 \<le> t mod us_per_day div us_per_s" "t mod us_per_day div us_per_s < 86400"
proof -
  have r: "0 \<le> t mod us_per_day" "t mod us_per_day < 86400 * us_per_s" by (simp_all add: us_per_day_def us_per_s_def)
  then show "0 \<le> t mod us_per_day div us_per_s" by (simp add: us_per_s_def pos_imp_zdiv_nonneg_iff)
  show "t mod us_per_day div us_per_s < 86400" using r(2) by (simp add: us_per_s_def)
qed

lemma iso_text_reads:
  assumes day: "1 \<le> t div us_per_day" "t div us_per_day \<le> 3652059"
    and fr: "parse_fraction fr = Some us" "CHR ''-'' \<notin> set fr" "CHR ''+'' \<notin> set fr" "CHR ''Z'' \<notin> set fr"
  shows "fromisoformat (replace_Z (iso_text t fr)) = Some \<lparr>dt_local = t - t mod us_per_s + us, dt_offset = Some 0\<rparr>"
proof -
  let ?s = "t mod us_per_day div us_per_s" and ?n = "t div us_per_day"
  have z: "CHR ''Z'' \<notin> set (iso_text t fr)"
    using fr(4) by (auto simp: iso_text_def iso_date_def iso_clock_def split: prod.splits)
  note s = second_of_day [of t]
  have "parse_time ((iso_clock ?s @ fr) @ ''+00:00'') = Some (?s * us_per_s + us, Some 0)"
    using parse_time_utc [of "iso_clock ?s @ fr"] fr parse_iso_clock [OF s fr(1)]
    by (simp add: iso_clock_def)
  moreover have "?n * us_per_day + (?s * us_per_s + us) = t - t mod us_per_s + us"
    by (rule day_split)
  ultimately show ?thesis
    using parse_iso_date [OF day] unfolding replace_Z_same [OF z] by (simp add: fromisoformat_def iso_text_def)
qed

text \<open>
  Written timestamps read back. For every instant of the calendar (years 1 to 9999),
  \<open>_parse_utc\<close> of the journal reads the microsecond text as that instant, and \<open>parse_iso\<close> of the
  capacity file reads the second text as that instant rounded down to its second.
\<close>

lemma iso_round_trip:
  assumes "1 \<le> t div us_per_day" "t div us_per_day \<le> 3652059"
  shows "parse_utc (iso_micros t) = Inr (Some t) \<and> parse_iso (Some (iso_seconds t)) = Some (t - t mod us_per_s)"
proof -
  have u: "nat (t mod us_per_s) < 10 ^ 6" "0 \<le> t mod us_per_s" by (simp_all add: us_per_s_def nat_less_iff)
  then have "parse_fraction (''.'' @ pad_digits 6 (nat (t mod us_per_s))) = Some (t mod us_per_s)"
    by (simp add: parse_fraction_def digits_value_pad)
  from iso_text_reads [OF assms this]
  have m: "fromisoformat (replace_Z (iso_micros t)) = Some \<lparr>dt_local = t, dt_offset = Some 0\<rparr>"
    by (simp add: iso_text_def iso_micros_def)
  have "fromisoformat (replace_Z (iso_seconds t)) = Some \<lparr>dt_local = t - t mod us_per_s, dt_offset = Some 0\<rparr>"
    using iso_text_reads [OF assms, of "[]" 0] by (simp add: parse_fraction_def iso_text_def iso_seconds_def)
  moreover have "iso_seconds t \<noteq> []" by (simp add: iso_seconds_def)
  ultimately show ?thesis
    using m assms by (simp add: parse_utc_def parse_iso_def utc_instant_def Let_def)
qed

lemma iso_round_trip_witness:
  "parse_utc (iso_micros 63900000000123456) = Inr (Some 63900000000123456)"
  using iso_round_trip [of 63900000000123456] by (simp add: us_per_day_def us_per_s_def)

end
