(* ===== verification/GF_Tasks.thy ===== *)
theory GF_Tasks
  imports GF_Limits GF_Leases
begin

text \<open>
  The task store (\<open>goalflight_task.py\<close>): items as JSON objects, what a line of \<open>tasks.jsonl\<close> must be,
  ids and their sequence file, the derived status of an item, the blockers and the reviews that gate
  it, and the commands that change a store. Under the store lock an operation is a function of the
  store. The clock reading, the actor, SHA-1, the rendered views and the ledger records are parameters;
  file text is modelled at the level of its decoded JSON. The default configuration, with the
  dashboard mirror off and no legacy in-tree store, is the one modelled.
\<close>

section \<open>Results\<close>

text \<open>
  \<open>TaskError\<close> is the user-facing refusal, \<open>Uncaught\<close> any other exception; \<open>Crashed\<close> is a process that
  died before it could answer.
\<close>

datatype task_exn = TaskError | Uncaught | Crashed

type_synonym 'a tres = "task_exn + 'a"

definition and_then :: "'a tres \<Rightarrow> ('a \<Rightarrow> 'b tres) \<Rightarrow> 'b tres" where
  "and_then r f = (case r of Inl x \<Rightarrow> Inl x | Inr v \<Rightarrow> f v)"

definition require :: "bool \<Rightarrow> unit tres" where
  "require b = (if b then Inr () else Inl TaskError)"

fun each :: "('a \<Rightarrow> 'b tres) \<Rightarrow> 'a list \<Rightarrow> 'b list tres" where
  "each f [] = Inr []"
| "each f (x # xs) = and_then (f x) (\<lambda>y. and_then (each f xs) (\<lambda>ys. Inr (y # ys)))"

section \<open>Strings\<close>

fun split_commas :: "string \<Rightarrow> string list" where
  "split_commas [] = [[]]"
| "split_commas (c # cs) = (if c = CHR '','' then [] # split_commas cs
     else case split_commas cs of [] \<Rightarrow> [[c]] | p # ps \<Rightarrow> (c # p) # ps)"

text \<open>\<open>_split_csv\<close>.\<close>

definition split_csv :: "string list \<Rightarrow> string list" where
  "split_csv vs = filter (\<lambda>p. p \<noteq> []) (map strip (concat (map split_commas vs)))"

text \<open>First occurrences, in order: the loop of \<open>_dedupe_strs\<close>.\<close>

definition dedupe :: "'a list \<Rightarrow> 'a list" where
  "dedupe xs = rev (remdups (rev xs))"

fun dedupe_onto :: "string list \<Rightarrow> json list \<Rightarrow> string list" where
  "dedupe_onto out [] = out"
| "dedupe_onto out (v # vs) =
     (if v = JNull \<or> v = JStr [] \<or> py_str v \<in> set out then dedupe_onto out vs else dedupe_onto (out @ [py_str v]) vs)"

definition dedupe_strs :: "json list \<Rightarrow> string list" where
  "dedupe_strs vs = dedupe_onto [] vs"

definition strs :: "string list \<Rightarrow> json" where
  "strs xs = JList (map JStr xs)"

text \<open>\<open>_norm_key\<close>: stripped, lower case, runs of white space folded.\<close>

fun fold_spaces :: "string \<Rightarrow> string" where
  "fold_spaces [] = []"
| "fold_spaces (c # cs) = (if py_space c then
      (case cs of [] \<Rightarrow> '' '' | d # ds \<Rightarrow> if py_space d then fold_spaces cs else CHR '' '' # fold_spaces cs)
     else c # fold_spaces cs)"

definition norm_key :: "string \<Rightarrow> string" where
  "norm_key s = fold_spaces (casefold (strip s))"

section \<open>Lanes\<close>

definition RESERVED_LANES :: "string list" where "RESERVED_LANES = [''deferred'', ''held'']"

fun one_insertion :: "string \<Rightarrow> string \<Rightarrow> nat \<Rightarrow> bool" where
  "one_insertion [] long edits = True"
| "one_insertion short [] edits = True"
| "one_insertion (a # short) (b # long) edits =
     (if a = b then one_insertion short long edits
      else if 1 \<le> edits then False else one_insertion (a # short) long (Suc edits))"

definition is_insert_delete_near_miss :: "string \<Rightarrow> string \<Rightarrow> bool" where
  "is_insert_delete_near_miss l r \<longleftrightarrow> l \<noteq> r \<and> (length l = Suc (length r) \<or> length r = Suc (length l))
     \<and> (if length l < length r then one_insertion l r 0 else one_insertion r l 0)"

definition is_transpose_near_miss :: "string \<Rightarrow> string \<Rightarrow> bool" where
  "is_transpose_near_miss l r \<longleftrightarrow> l \<noteq> r \<and> length l = length r
     \<and> (case filter (\<lambda>i. l ! i \<noteq> r ! i) [0..<length l] of
          [i, j] \<Rightarrow> j = Suc i \<and> l ! i = r ! j \<and> l ! j = r ! i
        | _ \<Rightarrow> False)"

definition reserved_lane_near_miss :: "string \<Rightarrow> string option" where
  "reserved_lane_near_miss lane =
     (let raw = strip lane; value = casefold raw
      in if raw \<in> set RESERVED_LANES then None
         else if value \<in> set RESERVED_LANES then Some value
         else find (\<lambda>r. is_insert_delete_near_miss value r \<or> is_transpose_near_miss value r) RESERVED_LANES)"

definition validate_lane_arg :: "string option \<Rightarrow> unit tres" where
  "validate_lane_arg lane = (case lane of None \<Rightarrow> Inr ()
     | Some l \<Rightarrow> if l = [] then Inr () else require (reserved_lane_near_miss l = None))"

section \<open>Items and the file\<close>

definition ITEM_SCHEMA_VERSION :: int where "ITEM_SCHEMA_VERSION = 1"

definition setdefault :: "string \<Rightarrow> json \<Rightarrow> dict \<Rightarrow> dict" where
  "setdefault k v d = (if has_key d k then d else jput k v d)"

definition is_list :: "json \<Rightarrow> bool" where
  "is_list v \<longleftrightarrow> (case v of JList _ \<Rightarrow> True | _ \<Rightarrow> False)"

definition list_of :: "json \<Rightarrow> json list" where
  "list_of v = (case v of JList xs \<Rightarrow> xs | _ \<Rightarrow> [])"

definition item_id :: "dict \<Rightarrow> string" where
  "item_id i = (case jget i ''id'' of JStr s \<Rightarrow> s | _ \<Rightarrow> [])"

definition good_version :: "json \<Rightarrow> bool" where
  "good_version v \<longleftrightarrow> (case int_value v of None \<Rightarrow> False | Some n \<Rightarrow> 1 \<le> n)"

definition migrate_item_for_read :: "dict \<Rightarrow> dict" where
  "migrate_item_for_read i =
     (let legacy = (\<not> has_key i ''schema_version'');
          i1 = (if good_version (jget i ''schema_version'') then i else jput ''schema_version'' (JInt ITEM_SCHEMA_VERSION) i);
          i2 = setdefault ''done'' (JBool False) (setdefault ''links'' (JList []) (setdefault ''blocked_by'' (JList []) i1))
      in if legacy \<and> jget i2 ''done'' = JBool True \<and> \<not> has_key i2 ''done_reviewed''
         then jput ''done_reviewed'' (JBool True) i2 else i2)"

text \<open>The checks both directions share, given the ids seen so far.\<close>

definition head_ok :: "string list \<Rightarrow> dict \<Rightarrow> bool" where
  "head_ok seen i \<longleftrightarrow> is_str (jget i ''id'') \<and> item_id i \<noteq> [] \<and> \<not> has_key i ''status''
     \<and> (has_key i ''lane'' \<longrightarrow> is_str (jget i ''lane'')) \<and> item_id i \<notin> set seen"

definition parse_line :: "string list \<Rightarrow> json option \<Rightarrow> dict tres" where
  "parse_line seen line = (case line of
      Some (JObj i) \<Rightarrow>
        (let m = migrate_item_for_read i
         in if head_ok seen i \<and> is_list (jget m ''blocked_by'') \<and> (has_key m ''dispatches'' \<longrightarrow> is_list (jget m ''dispatches''))
            then Inr m else Inl TaskError)
    | _ \<Rightarrow> Inl TaskError)"

fun parse_from :: "string list \<Rightarrow> json option list \<Rightarrow> dict list tres" where
  "parse_from seen [] = Inr []"
| "parse_from seen (l # ls) = and_then (parse_line seen l) (\<lambda>i.
     and_then (parse_from (item_id i # seen) ls) (\<lambda>is. Inr (i # is)))"

text \<open>\<open>_parse_jsonl\<close>: an absent file has no items. \<open>None\<close> as a line is text that is not JSON.\<close>

definition parse_jsonl :: "json option list option \<Rightarrow> dict list tres" where
  "parse_jsonl f = (case f of None \<Rightarrow> Inr [] | Some ls \<Rightarrow> parse_from [] ls)"

definition validate_item :: "string list \<Rightarrow> dict \<Rightarrow> dict tres" where
  "validate_item seen i =
     (if \<not> head_ok seen i then Inl TaskError
      else let legacy = (\<not> has_key i ''schema_version'');
               i1 = setdefault ''done'' (JBool False) (setdefault ''links'' (JList []) (setdefault ''blocked_by'' (JList []) i));
               i2 = (if legacy \<and> jget i1 ''done'' = JBool True \<and> \<not> has_key i1 ''done_reviewed''
                     then jput ''done_reviewed'' (JBool True) i1 else i1);
               i3 = setdefault ''schema_version'' (JInt ITEM_SCHEMA_VERSION) i2
        in if is_list (jget i3 ''blocked_by'') \<and> is_list (jget i3 ''links'') \<and> good_version (jget i3 ''schema_version'')
              \<and> (has_key i3 ''dispatches'' \<longrightarrow> is_list (jget i3 ''dispatches''))
           then Inr i3 else Inl TaskError)"

text \<open>\<open>_validate_items_for_write\<close>, with the defaults it fills in.\<close>

fun validate_from :: "string list \<Rightarrow> dict list \<Rightarrow> dict list tres" where
  "validate_from seen [] = Inr []"
| "validate_from seen (i # is) = and_then (validate_item seen i) (\<lambda>j.
     and_then (validate_from (item_id j # seen) is) (\<lambda>js. Inr (j # js)))"

definition validate_items_for_write :: "dict list \<Rightarrow> dict list tres" where
  "validate_items_for_write items = validate_from [] items"

definition find_item :: "string \<Rightarrow> dict list \<Rightarrow> dict option" where
  "find_item k items = find (\<lambda>i. item_id i = k) items"

definition change_item :: "string \<Rightarrow> (dict \<Rightarrow> dict) \<Rightarrow> dict list \<Rightarrow> dict list" where
  "change_item k f items = map (\<lambda>i. if item_id i = k then f i else i) items"

section \<open>Dispatch evidence\<close>

definition TASK_DISPATCH_STATES :: "string set" where
  "TASK_DISPATCH_STATES = {''working'', ''worker-finished'', ''worker-failed'', ''worker-inconclusive''}"

text \<open>\<open>datetime.min\<close> in UTC. Instants that leave the calendar when moved to UTC are not modelled.\<close>

definition time_min :: int where "time_min = us_per_day"

definition parse_time :: "json \<Rightarrow> int" where
  "parse_time v = (case v of
      JStr s \<Rightarrow> if s = [] then time_min
        else (case fromisoformat (replace_Z s) of None \<Rightarrow> time_min | Some d \<Rightarrow> utc_instant d)
    | _ \<Rightarrow> time_min)"

fun first_time :: "dict \<Rightarrow> string list \<Rightarrow> int" where
  "first_time r [] = time_min"
| "first_time r (k # ks) = (if parse_time (jget r k) \<noteq> time_min then parse_time (jget r k) else first_time r ks)"

definition record_sort_time :: "dict \<Rightarrow> int" where
  "record_sort_time r = first_time r [''ts'', ''updated_at'', ''ended_at'', ''started_at'']"

definition record_terminal_state :: "dict \<Rightarrow> string tres" where
  "record_terminal_state r = (case jget r ''terminal_state'' of
      JStr (c # cs) \<Rightarrow> Inr (c # cs)
    | _ \<Rightarrow> (case terminal_state_for (jget r ''state'') (py_or (jget r ''reason'') (jget r ''error'')) of
        Inl _ \<Rightarrow> Inl Uncaught | Inr s \<Rightarrow> Inr s))"

definition record_task_ids :: "dict \<Rightarrow> string list" where
  "record_task_ids r =
     (let plural = (case jget r ''task_ids'' of JList xs \<Rightarrow> xs | JStr s \<Rightarrow> [JStr s] | _ \<Rightarrow> []);
          values = (case jget r ''task_id'' of JStr s \<Rightarrow> JStr s # plural | _ \<Rightarrow> plural)
      in dedupe (split_csv (concat (map (\<lambda>v. case v of JStr s \<Rightarrow> [s] | _ \<Rightarrow> []) values))))"

text \<open>
  \<open>goalflight_ledger.classify\<close>, given what \<open>identity_matches\<close> says of the record's process. A state that
  is terminal is its own class, so it is text.
\<close>

definition detached_controller_dead :: "dict \<Rightarrow> bool" where
  "detached_controller_dead r \<longleftrightarrow> truthy (jget r ''detached'')
     \<and> (jget r ''state'' = JStr ''controller_dead''
        \<or> (jget r ''state'' = JStr ''orphaned'' \<and> py_or (jget r ''reason'') (jget r ''error'') = JStr ''controller_dead''))"

definition classify :: "(dict \<Rightarrow> bool \<times> string) \<Rightarrow> dict \<Rightarrow> string" where
  "classify matches r =
     (let state = (if has_key r ''state'' then jget r ''state'' else JStr ''running''); (ok, reason) = matches r
      in if detached_controller_dead r then
           (if reason = ''identity_indeterminate'' then reason
            else if ok then ''expected_live''
            else if reason = ''dead'' then ''worker_dead''
            else if reason = ''no_pid'' then ''unknown_no_pid''
            else ''stale_'' @ reason)
         else if is_terminal_state state then py_str state
         else if state = JStr ''queued'' \<or> state = JStr ''waiting_capacity'' then ''queued_capacity''
         else if reason = ''identity_indeterminate'' then reason
         else if ok then ''expected_live''
         else if state = JStr ''watcher_stopped'' then ''watcher_stopped''
         else if reason = ''no_pid'' then ''unknown_no_pid''
         else ''stale_'' @ reason)"

definition dispatch_status_from_record :: "(dict \<Rightarrow> string) \<Rightarrow> bool \<Rightarrow> dict \<Rightarrow> string option tres" where
  "dispatch_status_from_record cls live r =
     (let raw = jget r ''state''; normalized = normalize_dispatch_state raw
      in if is_str raw \<and> py_str raw \<in> TASK_DISPATCH_STATES then Inr (Some (py_str raw))
         else and_then (record_terminal_state r) (\<lambda>terminal.
           Inr (if terminal = ''complete'' \<or> normalized = Some ''complete'' then Some ''worker-finished''
             else if terminal \<notin> {[], ''unknown''} then Some ''worker-failed''
             else if is_str raw \<and> startswith (py_str raw) ''blocked'' then Some ''worker-failed''
             else if live then
               (if normalized \<in> {Some ''waiting'', Some ''starting'', Some ''running'', Some ''running_quiet''}
                   \<or> str_in raw {''queued'', ''waiting_capacity'', ''handshaking''}
                then (if startswith (cls r) ''stale_'' \<or> cls r \<in> {''unknown_no_pid'', ''watcher_stopped''}
                      then Some ''worker-failed'' else Some ''working'')
                else Some ''worker-failed'')
             else None)))"

text \<open>\<open>sorted(xs, key=f)[-1]\<close>: the last of those with the greatest key.\<close>

definition latest_by :: "('a \<Rightarrow> int) \<Rightarrow> 'a list \<Rightarrow> 'a option" where
  "latest_by f xs = (case xs of [] \<Rightarrow> None | _ \<Rightarrow> Some (last (sort_key f xs)))"

definition objs :: "json list \<Rightarrow> dict list" where
  "objs vs = concat (map (\<lambda>v. case v of JObj d \<Rightarrow> [d] | _ \<Rightarrow> []) vs)"

definition item_dispatches :: "dict \<Rightarrow> dict list tres" where
  "item_dispatches i = (if \<not> has_key i ''dispatches'' then Inr []
     else case jget i ''dispatches'' of JList vs \<Rightarrow> Inr (objs vs) | _ \<Rightarrow> Inl TaskError)"

text \<open>A crumb is judged with \<open>live=False\<close>, where no classification is read.\<close>

definition crumb_status :: "dict \<Rightarrow> string option tres" where
  "crumb_status c = dispatch_status_from_record (\<lambda>_. []) False c"

definition latest_dispatch_breadcrumb :: "dict \<Rightarrow> dict option tres" where
  "latest_dispatch_breadcrumb i = and_then (item_dispatches i) (\<lambda>ds.
     and_then (each crumb_status ds) (\<lambda>ss.
       Inr (latest_by record_sort_time (map fst (filter (\<lambda>(d, s). s \<noteq> None) (zip ds ss))))))"

definition latest_review_breadcrumb :: "dict \<Rightarrow> dict option tres" where
  "latest_review_breadcrumb i = and_then (item_dispatches i) (\<lambda>ds.
     Inr (latest_by record_sort_time (filter (\<lambda>c. jget c ''role'' = JStr ''review'') ds)))"

section \<open>Derived status\<close>

definition is_done_reviewed :: "dict \<Rightarrow> bool" where
  "is_done_reviewed i \<longleftrightarrow> jget i ''done_reviewed'' = JBool True
     \<or> (jget i ''kind'' = JStr ''decision'' \<and> jget i ''done'' = JBool True)"

definition blocker_gates :: "dict list \<Rightarrow> string \<Rightarrow> bool" where
  "blocker_gates items b \<longleftrightarrow> (case find_item b items of None \<Rightarrow> True | Some row \<Rightarrow> \<not> is_done_reviewed row)"

definition unsatisfied_blockers :: "dict list \<Rightarrow> dict \<Rightarrow> string list tres" where
  "unsatisfied_blockers items i = (case jget i ''blocked_by'' of
      JNull \<Rightarrow> Inr []
    | JList bs \<Rightarrow> Inr (filter (blocker_gates items) (dedupe (map py_str bs)))
    | _ \<Rightarrow> Inl TaskError)"

definition done_time :: "dict \<Rightarrow> int" where
  "done_time i = record_sort_time [(''ts'', py_or (py_or (jget i ''done_at'') (jget i ''closed_at'')) (jget i ''created_at''))]"

definition derive_status :: "(dict \<Rightarrow> string) \<Rightarrow> dict list \<Rightarrow> dict list \<Rightarrow> dict \<Rightarrow> string tres" where
  "derive_status cls live_records items i =
     (if is_done_reviewed i then Inr ''done-reviewed''
      else and_then (each (dispatch_status_from_record cls True) live_records) (\<lambda>ss.
        and_then (latest_dispatch_breadcrumb i) (\<lambda>crumb.
          and_then (case crumb of None \<Rightarrow> Inr None | Some c \<Rightarrow> crumb_status c) (\<lambda>cs.
            (let live = concat (map (\<lambda>(r, s). case s of None \<Rightarrow> [] | Some st \<Rightarrow> [(record_sort_time r, st)]) (zip live_records ss));
                 own = (case (crumb, cs) of (Some c, Some st) \<Rightarrow> [(record_sort_time c, st)] | _ \<Rightarrow> []);
                 closed = (if jget i ''done'' = JBool True then [(done_time i, ''awaiting-review'')] else [])
             in case latest_by fst (live @ own @ closed) of
                  Some (_, st) \<Rightarrow> Inr (if st = ''worker-finished'' then ''awaiting-review'' else st)
                | None \<Rightarrow>
                    if jget i ''kind'' = JStr ''decision'' then Inr ''decision''
                    else and_then (unsatisfied_blockers items i) (\<lambda>u. Inr (if u \<noteq> [] then ''waiting'' else ''pending''))))))) "

definition STATUS_LABELS :: "string set" where
  "STATUS_LABELS = {''pending'', ''working'', ''awaiting-review'', ''decision'', ''waiting'', ''done-reviewed'',
     ''worker-inconclusive'', ''worker-failed''}"

text \<open>
  \<open>derived_rows_for_items\<close>: \<open>records\<close> are the ledger rows of this project that name a task. Crumbs of
  superseded dispatches are dropped from the row.
\<close>

definition superseded_ids :: "dict list \<Rightarrow> string set" where
  "superseded_ids records = set (map (\<lambda>r. py_str (jget r ''dispatch_id''))
     (filter (\<lambda>r. truthy (jget r ''superseded_by'') \<and> truthy (jget r ''dispatch_id'')) records))"

definition live_records_of :: "dict list \<Rightarrow> string \<Rightarrow> dict list" where
  "live_records_of records k = filter (\<lambda>r. \<not> truthy (jget r ''superseded_by'') \<and> k \<in> set (record_task_ids r)) records"

definition drop_superseded :: "string set \<Rightarrow> dict \<Rightarrow> dict" where
  "drop_superseded gone i = (case jget i ''dispatches'' of
      JList vs \<Rightarrow> if gone = {} then i else jput ''dispatches'' (JList (filter (\<lambda>v. case v of
          JObj c \<Rightarrow> (if truthy (jget c ''dispatch_id'') then py_str (jget c ''dispatch_id'') else []) \<notin> gone
        | _ \<Rightarrow> True) vs)) i
    | _ \<Rightarrow> i)"

definition derived_row :: "(dict \<Rightarrow> string) \<Rightarrow> dict list \<Rightarrow> dict list \<Rightarrow> dict \<Rightarrow> dict tres" where
  "derived_row cls records items i =
     (let row = drop_superseded (superseded_ids records) i
      in and_then (derive_status cls (live_records_of records (item_id i)) items row) (\<lambda>s.
           Inr (jput ''derived_status'' (JStr s) row)))"

definition derived_rows_for_items :: "(dict \<Rightarrow> string) \<Rightarrow> dict list \<Rightarrow> dict list \<Rightarrow> dict list tres" where
  "derived_rows_for_items cls records items = each (derived_row cls records items) items"

definition row_kind :: "dict \<Rightarrow> json" where
  "row_kind row = (if has_key row ''kind'' then jget row ''kind'' else JStr ''task'')"

definition in_frontier :: "dict \<Rightarrow> bool tres" where
  "in_frontier row =
     (if str_in (row_kind row) {''task'', ''bug''} \<and> jget row ''derived_status'' = JStr ''pending''
         \<and> \<not> str_in (jget row ''lane'') (set RESERVED_LANES)
      then and_then (latest_dispatch_breadcrumb row) (\<lambda>c. Inr (c = None)) else Inr False)"

definition next_frontier :: "(dict \<Rightarrow> string) \<Rightarrow> dict list \<Rightarrow> dict list \<Rightarrow> dict list tres" where
  "next_frontier cls records items = and_then (derived_rows_for_items cls records items) (\<lambda>rows.
     and_then (each in_frontier rows) (\<lambda>bs. Inr (map fst (filter snd (zip rows bs)))))"

end
