(* ===== verification/GF_Task_Store.thy ===== *)
theory GF_Task_Store
  imports GF_Tasks
begin

text \<open>
  The store on disk and the commands that change it (class \<open>TaskStore\<close> and the \<open>_cmd_\<close> functions of
  \<open>goalflight_task.py\<close>). Every mutation repairs an interrupted publish, snapshots the last good file,
  edits the items and publishes them with their views; a publish is a list of steps, so that a crash
  between two of them is a state of the model.
\<close>

section \<open>The store\<close>

text \<open>\<open>.task-seq\<close>: absent or blank, one number, a JSON value, or text that is neither.\<close>

datatype seq_file = NoSeq | SeqDigits nat | SeqJson json | SeqGarbage

record task_store =
  ts_lines :: "json option list option"
  ts_seq :: seq_file
  ts_marker :: bool
  ts_views :: "(string \<times> string) list"
  ts_backups :: "json option list list"

text \<open>
  How a publish ends: every replacement is made, the process dies after some of its steps, or a
  replacement raises \<open>OSError\<close>.
\<close>

datatype publish_fate = Completes | Dies nat | ReplaceFails nat

record task_env =
  te_now :: string
  te_actor :: string
  te_root :: string
  te_view :: "dict list \<Rightarrow> string \<Rightarrow> string"
  te_fate :: publish_fate
  te_records :: "dict list"
  te_matches :: "dict \<Rightarrow> bool \<times> string"
  te_sha1 :: "string \<Rightarrow> string"
  te_dumps :: "json \<Rightarrow> string"
  te_resolve :: "string \<Rightarrow> string option"

type_synonym 'a task_op = "task_store \<Rightarrow> 'a tres \<times> task_store"

definition op_bind :: "'a task_op \<Rightarrow> ('a \<Rightarrow> 'b task_op) \<Rightarrow> 'b task_op" where
  "op_bind m f st = (case m st of (Inl x, st') \<Rightarrow> (Inl x, st') | (Inr v, st') \<Rightarrow> f v st')"

definition op_res :: "'a tres \<Rightarrow> 'a task_op" where
  "op_res r st = (r, st)"

definition task_items :: "task_store \<Rightarrow> dict list tres" where
  "task_items st = parse_jsonl (ts_lines st)"

section \<open>Publishing\<close>

text \<open>
  A publish replaces \<open>tasks.jsonl\<close> and the four Markdown views rendered from the items, under a marker
  file. Targets whose bytes would not change are left out.
\<close>

definition VIEW_NAMES :: "string list" where
  "VIEW_NAMES = [''task-decomposition.md'', ''tasks-done.md'', ''bug-backlog.md'', ''bugs-done.md'']"

datatype publish_step = SetMarker | PutTasks "dict list" | PutView string string | ClearMarker

fun apply_step :: "publish_step \<Rightarrow> task_store \<Rightarrow> task_store" where
  "apply_step SetMarker st = st\<lparr>ts_marker := True\<rparr>"
| "apply_step (PutTasks items) st = st\<lparr>ts_lines := Some (map (\<lambda>i. Some (JObj i)) items)\<rparr>"
| "apply_step (PutView v text) st = st\<lparr>ts_views := AList.update v text (ts_views st)\<rparr>"
| "apply_step ClearMarker st = st\<lparr>ts_marker := False\<rparr>"

definition changed_steps :: "task_env \<Rightarrow> dict list \<Rightarrow> task_store \<Rightarrow> publish_step list" where
  "changed_steps env items st =
     (if ts_lines st = Some (map (\<lambda>i. Some (JObj i)) items) then [] else [PutTasks items])
     @ map (\<lambda>v. PutView v (te_view env items v)) (filter (\<lambda>v. map_of (ts_views st) v \<noteq> Some (te_view env items v)) VIEW_NAMES)"

definition publish_plan :: "task_env \<Rightarrow> dict list \<Rightarrow> task_store \<Rightarrow> publish_step list" where
  "publish_plan env items st = (if changed_steps env items st = [] then [ClearMarker]
     else SetMarker # changed_steps env items st @ [ClearMarker])"

text \<open>A failed replacement puts the old bytes of every target back and clears the marker.\<close>

definition save_items_atomic :: "task_env \<Rightarrow> dict list \<Rightarrow> unit task_op" where
  "save_items_atomic env items st = (case validate_items_for_write items of
      Inl x \<Rightarrow> (Inl x, st)
    | Inr items' \<Rightarrow>
        (let plan = publish_plan env items' st in
         case te_fate env of
           Dies n \<Rightarrow> (Inl Crashed, fold apply_step (take n plan) st)
         | ReplaceFails n \<Rightarrow> if plan = [ClearMarker] then (Inr (), st\<lparr>ts_marker := False\<rparr>) else (Inl Uncaught, st\<lparr>ts_marker := False\<rparr>)
         | Completes \<Rightarrow> (Inr (), fold apply_step plan st)))"

text \<open>The repair republishes everything from \<open>tasks.jsonl\<close>; it has no rollback.\<close>

definition repair_plan :: "task_env \<Rightarrow> dict list \<Rightarrow> publish_step list" where
  "repair_plan env items = PutTasks items # map (\<lambda>v. PutView v (te_view env items v)) VIEW_NAMES @ [ClearMarker]"

definition recover_interrupted_publish :: "task_env \<Rightarrow> unit task_op" where
  "recover_interrupted_publish env st =
     (if \<not> ts_marker st then (Inr (), st)
      else if ts_lines st = None then (Inl TaskError, st)
      else case and_then (task_items st) validate_items_for_write of
          Inl x \<Rightarrow> (Inl x, st)
        | Inr items \<Rightarrow> (case te_fate env of
            Dies n \<Rightarrow> (Inl Crashed, fold apply_step (take n (repair_plan env items)) st)
          | ReplaceFails n \<Rightarrow> (Inl Uncaught, fold apply_step (take (min n (length VIEW_NAMES)) (repair_plan env items)) st)
          | Completes \<Rightarrow> (Inr (), fold apply_step (repair_plan env items) st)))"

definition snapshot_last_good :: "bool \<Rightarrow> unit task_op" where
  "snapshot_last_good require_valid st = (case ts_lines st of
      None \<Rightarrow> (Inr (), st)
    | Some ls \<Rightarrow> (case and_then (task_items st) validate_items_for_write of
          Inl x \<Rightarrow> (if require_valid then Inl x else Inr (), st)
        | Inr _ \<Rightarrow> (Inr (), st\<lparr>ts_backups := take 20 (ls # ts_backups st)\<rparr>)))"

definition mutate_items :: "task_env \<Rightarrow> bool \<Rightarrow> (dict list \<Rightarrow> ('a \<times> dict list) task_op) \<Rightarrow> 'a task_op" where
  "mutate_items env require_valid update =
     op_bind (recover_interrupted_publish env) (\<lambda>_.
     op_bind (snapshot_last_good require_valid) (\<lambda>_.
     op_bind (\<lambda>st. (task_items st, st)) (\<lambda>items.
     op_bind (update items) (\<lambda>(v, items').
     op_bind (save_items_atomic env items') (\<lambda>_. op_res (Inr v))))))"

definition edit :: "(dict list \<Rightarrow> ('a \<times> dict list) tres) \<Rightarrow> dict list \<Rightarrow> ('a \<times> dict list) task_op" where
  "edit f items = op_res (f items)"

section \<open>Ids\<close>

definition VALID_FAMILIES :: "string list" where "VALID_FAMILIES = [''t'', ''b'', ''d'', ''q'', ''ADR'']"

definition FAMILY_PREFIX_BY_KIND :: "(string \<times> string) list" where
  "FAMILY_PREFIX_BY_KIND = [(''task'', ''t''), (''bug'', ''b''), (''decision'', ''d'')]"

definition read_seq :: "seq_file \<Rightarrow> (string \<times> int) list tres" where
  "read_seq f = (case f of
      NoSeq \<Rightarrow> Inr []
    | SeqDigits n \<Rightarrow> Inr [(''t'', int n)]
    | SeqJson (JObj d) \<Rightarrow> each (\<lambda>(k, v). if k \<in> set VALID_FAMILIES then
          (case int_value v of Some n \<Rightarrow> if 0 \<le> n then Inr (k, n) else Inl TaskError | None \<Rightarrow> Inl TaskError) else Inl TaskError) d
    | _ \<Rightarrow> Inl TaskError)"

definition digits :: "string \<Rightarrow> bool" where
  "digits s \<longleftrightarrow> s \<noteq> [] \<and> list_all ascii_digit s"

text \<open>The number of an id of the family, if it has one.\<close>

definition id_number :: "string \<Rightarrow> string \<Rightarrow> int option" where
  "id_number family k = (let p = family @ ''-'' in if startswith k p \<and> digits (drop (length p) k)
     then digits_value (drop (length p) k) 0 else None)"

definition max_existing_sequence :: "string \<Rightarrow> dict list \<Rightarrow> int" where
  "max_existing_sequence family items =
     foldr (\<lambda>i m. case id_number family (item_id i) of None \<Rightarrow> m | Some n \<Rightarrow> max m n) items 0"

text \<open>\<open>f"{n:03d}"\<close>.\<close>

definition pad3 :: "int \<Rightarrow> string" where
  "pad3 n = (let s = show_nat (nat n) in replicate (3 - length s) CHR ''0'' @ s)"

definition seq_number :: "(string \<times> int) list \<Rightarrow> string \<Rightarrow> int" where
  "seq_number seq family = (case map_of seq family of None \<Rightarrow> 0 | Some n \<Rightarrow> n)"

definition reserve_id :: "string \<Rightarrow> string task_op" where
  "reserve_id family st =
     (if family \<notin> set VALID_FAMILIES then (Inl TaskError, st)
      else case read_seq (ts_seq st) of Inl x \<Rightarrow> (Inl x, st)
        | Inr seq \<Rightarrow> (case task_items st of Inl x \<Rightarrow> (Inl x, st)
          | Inr items \<Rightarrow>
              (let n = max (seq_number seq family) (max_existing_sequence family items) + 1
               in (Inr (family @ ''-'' @ pad3 n),
                   st\<lparr>ts_seq := SeqJson (JObj (map (\<lambda>(k, v). (k, JInt v)) (AList.update family n seq)))\<rparr>))))"

section \<open>Edits of one item\<close>

definition blank :: "json \<Rightarrow> bool" where
  "blank v \<longleftrightarrow> v = JNull \<or> v = JList [] \<or> v = JObj []"

definition blank_or_empty :: "json \<Rightarrow> bool" where
  "blank_or_empty v \<longleftrightarrow> blank v \<or> v = JStr []"

definition audit_entry :: "task_env \<Rightarrow> string \<Rightarrow> dict \<Rightarrow> dict" where
  "audit_entry env action extra = [(''at'', JStr (te_now env)), (''actor'', JStr (te_actor env)), (''action'', JStr action)]
     @ filter (\<lambda>(k, v). \<not> blank v) extra"

definition push :: "string \<Rightarrow> json \<Rightarrow> dict \<Rightarrow> dict tres" where
  "push k v i = (let i1 = setdefault k (JList []) i in case jget i1 k of
      JList xs \<Rightarrow> Inr (jput k (JList (xs @ [v])) i1) | _ \<Rightarrow> Inl TaskError)"

definition append_audit :: "task_env \<Rightarrow> string \<Rightarrow> dict \<Rightarrow> dict \<Rightarrow> dict tres" where
  "append_audit env action extra i = push ''audit'' (JObj (audit_entry env action extra)) i"

definition on_item :: "string \<Rightarrow> (dict \<Rightarrow> dict tres) \<Rightarrow> dict list \<Rightarrow> dict list tres" where
  "on_item k f items = (case find_item k items of
      None \<Rightarrow> Inl TaskError
    | Some i \<Rightarrow> and_then (f i) (\<lambda>i'. Inr (change_item k (\<lambda>_. i') items)))"

definition opt_str :: "string option \<Rightarrow> json" where
  "opt_str v = (case v of None \<Rightarrow> JNull | Some s \<Rightarrow> JStr s)"

definition str_or_null :: "json \<Rightarrow> json" where
  "str_or_null v = (if is_str v then v else JNull)"

definition edit_one :: "task_env \<Rightarrow> bool \<Rightarrow> string \<Rightarrow> (dict \<Rightarrow> dict tres) \<Rightarrow> unit task_op" where
  "edit_one env require_valid k f = mutate_items env require_valid
     (edit (\<lambda>items. and_then (on_item k f items) (\<lambda>items'. Inr ((), items'))))"

definition block_item :: "task_env \<Rightarrow> string list \<Rightarrow> dict \<Rightarrow> dict tres" where
  "block_item env blockers i = (let i1 = setdefault ''blocked_by'' (JList []) i in case jget i1 ''blocked_by'' of
      JList bs \<Rightarrow> append_audit env ''block'' [(''on'', strs blockers)]
        (jput ''blocked_by'' (JList (fold (\<lambda>b acc. if JStr b \<in> set acc then acc else acc @ [JStr b]) blockers bs)) i1)
    | _ \<Rightarrow> Inl TaskError)"

definition cmd_block :: "task_env \<Rightarrow> string \<Rightarrow> string list \<Rightarrow> unit task_op" where
  "cmd_block env k on = (if split_csv on = [] then op_res (Inl TaskError)
     else edit_one env True k (block_item env (split_csv on)))"

definition unblock_item :: "task_env \<Rightarrow> string list \<Rightarrow> dict \<Rightarrow> dict tres" where
  "unblock_item env remove i = (let i1 = setdefault ''blocked_by'' (JList []) i in case jget i1 ''blocked_by'' of
      JList bs \<Rightarrow> append_audit env ''unblock'' [(''on'', if remove = [] then JNull else strs (sort (remdups remove)))]
        (jput ''blocked_by'' (JList (if remove = [] then [] else filter (\<lambda>v. v \<notin> JStr ` set remove) bs)) i1)
    | _ \<Rightarrow> Inl TaskError)"

definition cmd_unblock :: "task_env \<Rightarrow> string \<Rightarrow> string list \<Rightarrow> unit task_op" where
  "cmd_unblock env k on = edit_one env True k (unblock_item env (split_csv on))"

definition set_item_lane :: "task_env \<Rightarrow> string \<Rightarrow> dict \<Rightarrow> dict tres" where
  "set_item_lane env lane i = and_then (validate_lane_arg (Some lane)) (\<lambda>_.
     append_audit env ''lane'' [(''old_lane'', str_or_null (jget i ''lane'')), (''lane'', JStr lane)] (jput ''lane'' (JStr lane) i))"

definition cmd_lane :: "task_env \<Rightarrow> string \<Rightarrow> string \<Rightarrow> unit task_op" where
  "cmd_lane env k lane = op_bind (op_res (validate_lane_arg (Some lane))) (\<lambda>_. edit_one env True k (set_item_lane env lane))"

definition set_item_prompt_path :: "task_env \<Rightarrow> string \<Rightarrow> dict \<Rightarrow> dict tres" where
  "set_item_prompt_path env path i = (case te_resolve env path of
      None \<Rightarrow> Inl TaskError
    | Some p \<Rightarrow> append_audit env ''set-prompt-path''
        [(''old_prompt_path'', str_or_null (jget i ''prompt_path'')), (''prompt_path'', JStr p)] (jput ''prompt_path'' (JStr p) i))"

definition cmd_set_prompt_path :: "task_env \<Rightarrow> string \<Rightarrow> string \<Rightarrow> unit task_op" where
  "cmd_set_prompt_path env k path = edit_one env True k (set_item_prompt_path env path)"

definition validate_set_blockers :: "dict list \<Rightarrow> string \<Rightarrow> string list \<Rightarrow> unit tres" where
  "validate_set_blockers items k blockers =
     require (list_all (\<lambda>b. b \<noteq> k \<and> b \<in> set (map item_id items)) blockers)"

definition set_item_blocked_by :: "task_env \<Rightarrow> string list \<Rightarrow> dict \<Rightarrow> dict tres" where
  "set_item_blocked_by env blockers i = (let i1 = setdefault ''blocked_by'' (JList []) i in case jget i1 ''blocked_by'' of
      JList old \<Rightarrow> append_audit env ''set-blocked-by'' [(''old_blocked_by'', JList old), (''blocked_by'', strs blockers)]
        (jput ''blocked_by'' (strs blockers) i1)
    | _ \<Rightarrow> Inl TaskError)"

definition given :: "'x option \<Rightarrow> ('x \<Rightarrow> dict \<Rightarrow> dict tres) \<Rightarrow> dict \<Rightarrow> dict tres" where
  "given v f i = (case v of None \<Rightarrow> Inr i | Some x \<Rightarrow> f x i)"

definition cmd_set :: "task_env \<Rightarrow> string \<Rightarrow> string option \<Rightarrow> string option \<Rightarrow> string list option \<Rightarrow> unit task_op" where
  "cmd_set env k path lane blocked =
     (let blockers = map_option (\<lambda>b. dedupe_strs (map JStr (split_csv b))) blocked
      in if path = None \<and> lane = None \<and> blocked = None then op_res (Inl TaskError)
         else op_bind (op_res (validate_lane_arg lane)) (\<lambda>_. mutate_items env True (edit (\<lambda>items.
           case find_item k items of None \<Rightarrow> Inl TaskError
           | Some _ \<Rightarrow> and_then (case blockers of None \<Rightarrow> Inr () | Some bs \<Rightarrow> validate_set_blockers items k bs) (\<lambda>_.
               and_then (on_item k (\<lambda>i. and_then (given path (set_item_prompt_path env) i) (\<lambda>i1.
                   and_then (given lane (set_item_lane env) i1) (given blockers (set_item_blocked_by env)))) items)
                 (\<lambda>items'. Inr ((), items')))))))"

definition note_entry :: "task_env \<Rightarrow> string \<Rightarrow> json" where
  "note_entry env text = JObj [(''at'', JStr (te_now env)), (''actor'', JStr (te_actor env)), (''text'', JStr text)]"

definition add_note :: "task_env \<Rightarrow> string \<Rightarrow> dict \<Rightarrow> dict tres" where
  "add_note env text i = and_then (push ''notes'' (note_entry env text) i) (append_audit env ''append'' [])"

fun on_items :: "(dict \<Rightarrow> dict tres) \<Rightarrow> string list \<Rightarrow> dict list \<Rightarrow> dict list tres" where
  "on_items f [] items = Inr items"
| "on_items f (k # ks) items = and_then (on_item k f items) (on_items f ks)"

definition cmd_append :: "task_env \<Rightarrow> string \<Rightarrow> string \<Rightarrow> string list task_op" where
  "cmd_append env item_ids note =
     (let ids = split_csv [item_ids]
      in if ids = [] \<or> \<not> distinct ids then op_res (Inl TaskError)
         else mutate_items env True (edit (\<lambda>items. and_then (on_items (add_note env note) ids items) (\<lambda>items'. Inr (ids, items')))))"

end
