(* ===== verification/GF_Task_Commands.thy ===== *)
theory GF_Task_Commands
  imports GF_Task_Store
begin

text \<open>
  The commands that file, close and review items: \<open>new\<close> and \<open>capture\<close>, \<open>done\<close>, \<open>review\<close> with the bugs it
  files, \<open>accept\<close>, \<open>sync\<close>, and the two entries the dispatcher calls, a dispatch breadcrumb and a
  reopening for redispatch. A command reads the clock once.
\<close>

section \<open>New items\<close>

fun join_on :: "string \<Rightarrow> string list \<Rightarrow> string" where
  "join_on sep [] = []"
| "join_on sep [p] = p"
| "join_on sep (p # ps) = p @ sep @ join_on sep ps"

text \<open>\<open>_short_hash\<close>: \<open>te_sha1\<close> is the first sixteen hex digits of the SHA-1 of a text.\<close>

definition short_hash :: "task_env \<Rightarrow> string list \<Rightarrow> string" where
  "short_hash env parts = te_sha1 env (join_on [CHR 0x1F] parts)"

text \<open>The options of \<open>new\<close> and \<open>capture\<close>; \<open>na_fields\<close> has acceptance, prompt, prompt path, pattern, severity and source.\<close>

record new_args =
  na_kind :: string
  na_title :: string
  na_family :: "string option"
  na_lane :: "string option"
  na_blocked_by :: "string list"
  na_links :: "string list"
  na_tags :: "string list"
  na_fields :: dict
  na_allow_duplicate :: bool

definition make_item :: "task_env \<Rightarrow> string \<Rightarrow> string \<Rightarrow> string \<Rightarrow> string list \<Rightarrow> string list \<Rightarrow> string list \<Rightarrow> string option \<Rightarrow> dict" where
  "make_item env k kind title blocked links tags lane =
     [(''schema_version'', JInt ITEM_SCHEMA_VERSION), (''id'', JStr k), (''kind'', JStr kind), (''title'', JStr title),
      (''blocked_by'', strs (dedupe_strs (map JStr blocked))), (''links'', strs (dedupe_strs (map JStr links))),
      (''done'', JBool False), (''tags'', strs (dedupe_strs (map JStr tags))), (''created_at'', JStr (te_now env)),
      (''created_by'', JStr (te_actor env)), (''audit'', JList [JObj (audit_entry env ''new'' [])])]
     @ (case lane of None \<Rightarrow> [] | Some l \<Rightarrow> [(''lane'', JStr l)])"

definition NEW_FIELDS :: "string list" where
  "NEW_FIELDS = [''acceptance'', ''prompt'', ''prompt_path'', ''pattern'', ''severity'', ''source'']"

definition put_fields :: "dict \<Rightarrow> string list \<Rightarrow> dict \<Rightarrow> dict" where
  "put_fields given_fields ks i = fold (\<lambda>k j. if blank_or_empty (jget given_fields k) then j else jput k (jget given_fields k) j) ks i"

definition new_item :: "task_env \<Rightarrow> new_args \<Rightarrow> string option \<Rightarrow> string \<Rightarrow> dict" where
  "new_item env a capture_key k =
     (let i = put_fields (na_fields a) NEW_FIELDS (make_item env k (na_kind a) (na_title a) (split_csv (na_blocked_by a))
                (split_csv (na_links a)) (split_csv (na_tags a)) (na_lane a))
      in case capture_key of None \<Rightarrow> i | Some c \<Rightarrow> jput ''capture_key'' (JStr c) i)"

definition append_item :: "task_env \<Rightarrow> new_args \<Rightarrow> string option \<Rightarrow> string \<Rightarrow> dict list \<Rightarrow> dict list tres" where
  "append_item env a capture_key k items =
     (if k \<in> set (map item_id items) then Inl TaskError else Inr (items @ [new_item env a capture_key k]))"

definition new_family :: "new_args \<Rightarrow> string tres" where
  "new_family a = (case na_family a of Some (c # cs) \<Rightarrow> Inr (c # cs)
     | _ \<Rightarrow> (case map_of FAMILY_PREFIX_BY_KIND (na_kind a) of None \<Rightarrow> Inl Uncaught | Some f \<Rightarrow> Inr f))"

text \<open>\<open>_create_item\<close> without a capture key: the id is reserved before the mutation.\<close>

definition cmd_new :: "task_env \<Rightarrow> new_args \<Rightarrow> string task_op" where
  "cmd_new env a =
     op_bind (op_res (validate_lane_arg (na_lane a))) (\<lambda>_.
     op_bind (op_res (new_family a)) (\<lambda>family.
     op_bind (reserve_id family) (\<lambda>k.
       mutate_items env True (edit (\<lambda>items. and_then (append_item env a None k items) (\<lambda>items'. Inr (k, items')))))))"

section \<open>Capture\<close>

definition capture_content_key :: "task_env \<Rightarrow> new_args \<Rightarrow> string" where
  "capture_content_key env a = ''capture:'' @ short_hash env [na_kind a, (case na_lane a of None \<Rightarrow> [] | Some l \<Rightarrow> l),
     (if truthy (jget (na_fields a) ''severity'') then py_str (jget (na_fields a) ''severity'') else []), te_root env, norm_key (na_title a)]"

definition merge_list_field :: "string \<times> string list \<Rightarrow> dict \<times> string list \<Rightarrow> dict \<times> string list" where
  "merge_list_field f r = (case f of (k, incoming) \<Rightarrow> case r of (i, changed) \<Rightarrow>
     (if incoming = [] then r
      else let existing = list_of (jget i k); merged = map JStr (dedupe_strs (existing @ map JStr incoming))
           in if merged = existing then r else (jput k (JList merged) i, changed @ [k])))"

definition merge_scalar_field :: "dict \<Rightarrow> string \<Rightarrow> dict \<times> string list \<Rightarrow> dict \<times> string list" where
  "merge_scalar_field given_fields k r = (case r of (i, changed) \<Rightarrow>
     (if blank_or_empty (jget given_fields k) \<or> jget i k = jget given_fields k then r
      else (jput k (jget given_fields k) i, changed @ [k])))"

definition merge_capture_annotations :: "new_args \<Rightarrow> dict \<Rightarrow> dict \<times> string list" where
  "merge_capture_annotations a i =
     fold (merge_scalar_field (na_fields a)) [''acceptance'', ''prompt'', ''prompt_path'', ''pattern'']
       (fold merge_list_field [(''blocked_by'', split_csv (na_blocked_by a)), (''links'', split_csv (na_links a)),
          (''tags'', split_csv (na_tags a))] (i, []))"

definition captured_as :: "string \<Rightarrow> dict list \<Rightarrow> dict option" where
  "captured_as key items = find (\<lambda>i. \<not> truthy (jget i ''done'') \<and> jget i ''capture_key'' = JStr key) items"

record capture_result =
  cr_id :: string
  cr_minted :: bool
  cr_merged :: "string list"

definition capture_into :: "task_env \<Rightarrow> new_args \<Rightarrow> string \<Rightarrow> string \<Rightarrow> dict list \<Rightarrow> capture_result task_op" where
  "capture_into env a key family items =
     (case (if na_allow_duplicate a then None else captured_as key items) of
        Some i \<Rightarrow>
          (let (i', merged) = merge_capture_annotations a i; answer = \<lparr>cr_id = item_id i, cr_minted = False, cr_merged = merged\<rparr>
           in if merged = [] then op_res (Inr answer)
              else op_bind (op_res (append_audit env ''capture-merge'' [(''fields'', strs merged)] i')) (\<lambda>j.
                   op_bind (save_items_atomic env (change_item (item_id i) (\<lambda>_. j) items)) (\<lambda>_. op_res (Inr answer))))
      | None \<Rightarrow>
          op_bind (reserve_id family) (\<lambda>k.
          op_bind (op_res (append_item env a (Some key) k items)) (\<lambda>items'.
          op_bind (save_items_atomic env items') (\<lambda>_. op_res (Inr \<lparr>cr_id = k, cr_minted = True, cr_merged = []\<rparr>)))))"

definition create_captured :: "task_env \<Rightarrow> new_args \<Rightarrow> string \<Rightarrow> capture_result task_op" where
  "create_captured env a key =
     op_bind (op_res (validate_lane_arg (na_lane a))) (\<lambda>_.
     op_bind (op_res (new_family a)) (\<lambda>family.
     op_bind (recover_interrupted_publish env) (\<lambda>_.
     op_bind (snapshot_last_good True) (\<lambda>_.
     op_bind (\<lambda>st. (task_items st, st)) (capture_into env a key family)))))"

text \<open>\<open>_cmd_capture\<close>: a severity makes a bug, the lane defaults to the backlog, the source to the directory.\<close>

definition capture_defaults :: "string \<Rightarrow> string option \<Rightarrow> new_args \<Rightarrow> new_args" where
  "capture_defaults cwd kind a = a\<lparr>
     na_kind := (case kind of Some k \<Rightarrow> k | None \<Rightarrow> if truthy (jget (na_fields a) ''severity'') then ''bug'' else ''task''),
     na_lane := (case na_lane a of Some (c # cs) \<Rightarrow> Some (c # cs) | _ \<Rightarrow> Some ''deferred''),
     na_fields := (if truthy (jget (na_fields a) ''source'') then na_fields a else jput ''source'' (JStr cwd) (na_fields a))\<rparr>"

definition cmd_capture :: "task_env \<Rightarrow> string \<Rightarrow> string option \<Rightarrow> new_args \<Rightarrow> capture_result task_op" where
  "cmd_capture env cwd kind a = (let b = capture_defaults cwd kind a in create_captured env b (capture_content_key env b))"

section \<open>Done\<close>

definition done_item :: "task_env \<Rightarrow> string \<Rightarrow> string \<Rightarrow> dict \<Rightarrow> dict tres" where
  "done_item env resolution note i =
     and_then (if strip note = [] then Inr i else add_note env (strip note) i) (\<lambda>i1.
       append_audit env ''done'' [(''resolution'', JStr resolution)]
         (jput ''resolution'' (JStr resolution)
           (setdefault ''closed_by'' (JStr (te_actor env)) (setdefault ''closed_at'' (JStr (te_now env))
             (jput ''done_by'' (JStr (te_actor env)) (jput ''done_at'' (JStr (te_now env)) (jput ''done'' (JBool True) i1)))))))"

definition done_update :: "task_env \<Rightarrow> string \<Rightarrow> bool \<Rightarrow> string \<Rightarrow> string \<Rightarrow> dict list \<Rightarrow> dict list tres" where
  "done_update env k force resolution note items = (case find_item k items of
      None \<Rightarrow> Inl TaskError
    | Some i \<Rightarrow> if jget i ''done'' = JBool True then Inl TaskError
        else and_then (unsatisfied_blockers items i) (\<lambda>open_blockers.
          if open_blockers \<noteq> [] \<and> \<not> force then Inl TaskError
          else on_item k (done_item env resolution note) items))"

definition cmd_done :: "task_env \<Rightarrow> string \<Rightarrow> bool \<Rightarrow> string \<Rightarrow> string \<Rightarrow> unit task_op" where
  "cmd_done env k force resolution note = mutate_items env True
     (edit (\<lambda>items. and_then (done_update env k force resolution note items) (\<lambda>items'. Inr ((), items'))))"

section \<open>Review\<close>

record review_args =
  rv_item :: string
  rv_dispatch :: string
  rv_verdict :: string
  rv_findings :: json
  rv_bugs :: "string list"
  rv_pattern :: json
  rv_tags :: "string list"
  rv_severity :: json

definition without_blanks :: "dict \<Rightarrow> dict" where
  "without_blanks d = filter (\<lambda>(k, v). \<not> blank_or_empty v) d"

definition review_crumb :: "task_env \<Rightarrow> review_args \<Rightarrow> dict" where
  "review_crumb env a = without_blanks [(''dispatch_id'', JStr (rv_dispatch a)), (''role'', JStr ''review''),
     (''verdict'', JStr (rv_verdict a)), (''findings_ref'', rv_findings a), (''ts'', JStr (te_now env))]"

definition review_item :: "task_env \<Rightarrow> review_args \<Rightarrow> dict \<Rightarrow> dict tres" where
  "review_item env a i = and_then (push ''dispatches'' (JObj (review_crumb env a)) i)
     (append_audit env ''review'' [(''dispatch_id'', JStr (rv_dispatch a)), (''verdict'', JStr (rv_verdict a)), (''findings_ref'', rv_findings a)])"

definition str_or_blank :: "json \<Rightarrow> string" where
  "str_or_blank v = py_str (py_or v (JStr []))"

definition breadcrumb_key :: "task_env \<Rightarrow> dict \<Rightarrow> string" where
  "breadcrumb_key env c = join_on ''|'' [str_or_blank (jget c ''dispatch_id''), str_or_blank (jget c ''state''),
     str_or_blank (jget c ''ts''), (case jget c ''marker'' of JObj m \<Rightarrow> te_dumps env (JObj m) | v \<Rightarrow> str_or_blank v)]"

definition review_bug_key :: "task_env \<Rightarrow> review_args \<Rightarrow> string \<Rightarrow> string" where
  "review_bug_key env a title = ''review-bug:'' @ short_hash env [rv_item a, rv_dispatch a, norm_key title]"

definition unless_blank :: "string \<Rightarrow> json \<Rightarrow> dict \<Rightarrow> dict" where
  "unless_blank k v i = (if truthy v then jput k v i else i)"

definition review_bug :: "task_env \<Rightarrow> review_args \<Rightarrow> string \<Rightarrow> string \<Rightarrow> dict tres" where
  "review_bug env a title k =
     append_audit env ''review-bug-capture'' [(''review_dispatch_id'', JStr (rv_dispatch a)), (''pattern'', rv_pattern a)]
       (unless_blank ''review_findings_ref'' (rv_findings a)
         (jput ''review_bug_key'' (JStr (review_bug_key env a title))
           (jput ''review_breadcrumb_key'' (JStr (breadcrumb_key env (review_crumb env a)))
             (jput ''review_dispatch_id'' (JStr (rv_dispatch a)) (jput ''review_item_id'' (JStr (rv_item a))
               (unless_blank ''severity'' (rv_severity a) (jput ''pattern'' (rv_pattern a) (jput ''source'' (JStr ''review'')
                 (make_item env k ''bug'' title [] (rv_item a # (if truthy (rv_findings a) then [py_str (rv_findings a)] else []))
                   ([''review-finding'', py_str (rv_pattern a)] @ split_csv (rv_tags a)) None)))))))))"

definition known_bug :: "string \<Rightarrow> dict list \<Rightarrow> bool" where
  "known_bug key items \<longleftrightarrow> list_ex (\<lambda>i. jget i ''review_bug_key'' = JStr key) items"

text \<open>One bug per title whose key is not known yet; the ids created are returned with the items.\<close>

fun file_bugs :: "task_env \<Rightarrow> review_args \<Rightarrow> string list \<Rightarrow> dict list \<Rightarrow> (string list \<times> dict list) task_op" where
  "file_bugs env a [] items = op_res (Inr ([], items))"
| "file_bugs env a (title # titles) items =
     (if known_bug (review_bug_key env a title) items then file_bugs env a titles items
      else op_bind (reserve_id ''b'') (\<lambda>k.
           op_bind (op_res (review_bug env a title k)) (\<lambda>bug.
           op_bind (file_bugs env a titles (items @ [bug])) (\<lambda>(ks, items'). op_res (Inr (k # ks, items'))))))"

definition review_titles :: "review_args \<Rightarrow> string list" where
  "review_titles a = dedupe_strs (map JStr (rv_bugs a))"

definition cmd_review :: "task_env \<Rightarrow> review_args \<Rightarrow> string list task_op" where
  "cmd_review env a =
     (if review_titles a \<noteq> [] \<and> (rv_verdict a \<noteq> ''findings'' \<or> \<not> truthy (rv_pattern a)) then op_res (Inl TaskError)
      else mutate_items env False (\<lambda>items. op_bind (op_res (on_item (rv_item a) (review_item env a) items))
             (file_bugs env a (review_titles a))))"

section \<open>Accept\<close>

definition accept_item :: "task_env \<Rightarrow> dict \<Rightarrow> dict \<Rightarrow> dict tres" where
  "accept_item env crumb i =
     append_audit env ''accept'' [(''review_dispatch_id'', jget crumb ''dispatch_id'')]
       (unless_blank ''accepted_review_findings_ref'' (jget crumb ''findings_ref'')
         (jput ''accepted_review_dispatch_id'' (jget crumb ''dispatch_id'')
           (jput ''closed_by'' (JStr (te_actor env)) (jput ''closed_at'' (JStr (te_now env))
             (jput ''done_reviewed_by'' (JStr (te_actor env)) (jput ''done_reviewed_at'' (JStr (te_now env))
               (jput ''done_reviewed'' (JBool True) (jput ''done'' (JBool True) i))))))))"

definition accept_update :: "task_env \<Rightarrow> string \<Rightarrow> dict list \<Rightarrow> dict list tres" where
  "accept_update env k items =
     and_then (derived_rows_for_items (classify (te_matches env)) (te_records env) items) (\<lambda>rows.
       case find_item k rows of
         None \<Rightarrow> Inl TaskError
       | Some row \<Rightarrow>
           if is_done_reviewed row \<or> jget row ''derived_status'' \<noteq> JStr ''awaiting-review'' then Inl TaskError
           else and_then (latest_review_breadcrumb row) (\<lambda>review. case review of
               None \<Rightarrow> Inl TaskError
             | Some c \<Rightarrow> if jget c ''verdict'' \<noteq> JStr ''clean'' then Inl TaskError else on_item k (accept_item env c) items))"

definition cmd_accept :: "task_env \<Rightarrow> string \<Rightarrow> unit task_op" where
  "cmd_accept env k = mutate_items env False (edit (\<lambda>items. and_then (accept_update env k items) (\<lambda>items'. Inr ((), items'))))"

section \<open>Dispatch breadcrumbs\<close>

definition clean_ids :: "json list \<Rightarrow> string list" where
  "clean_ids vs = dedupe (concat (map (\<lambda>v. case v of JStr (c # cs) \<Rightarrow> [c # cs] | _ \<Rightarrow> []) vs))"

definition add_crumb :: "task_env \<Rightarrow> string \<Rightarrow> json \<Rightarrow> dict \<Rightarrow> dict \<Rightarrow> dict tres" where
  "add_crumb env action dispatch crumb i = and_then (push ''dispatches'' (JObj crumb) i)
     (append_audit env action [(''dispatch_id'', dispatch), (''state'', jget crumb ''state'')])"

definition append_dispatch_breadcrumbs :: "task_env \<Rightarrow> json list \<Rightarrow> dict \<Rightarrow> nat task_op" where
  "append_dispatch_breadcrumbs env task_ids crumb =
     (let ids = clean_ids task_ids in
      if ids = [] then op_res (Inr 0)
      else if \<not> (is_str (jget crumb ''dispatch_id'') \<and> truthy (jget crumb ''dispatch_id'')) \<or> \<not> str_in (jget crumb ''state'') TASK_DISPATCH_STATES
      then op_res (Inl TaskError)
      else mutate_items env False (edit (\<lambda>items. and_then
             (on_items (add_crumb env ''dispatch-breadcrumb'' (jget crumb ''dispatch_id'') (setdefault ''ts'' (JStr (te_now env)) (without_blanks crumb))) ids items)
             (\<lambda>items'. Inr (length ids, items')))))"

definition REOPEN_KEYS :: "string list" where
  "REOPEN_KEYS = [''done_at'', ''done_by'', ''done_reviewed'', ''done_reviewed_at'', ''done_reviewed_by'', ''reviewed_by'',
     ''closed_at'', ''closed_by'', ''resolution'', ''accepted_review_dispatch_id'', ''accepted_review_findings_ref'']"

definition without_keys :: "string list \<Rightarrow> dict \<Rightarrow> dict" where
  "without_keys ks i = filter (\<lambda>(k, v). k \<notin> set ks) i"

definition completed :: "dict \<Rightarrow> bool" where
  "completed i \<longleftrightarrow> jget i ''done'' = JBool True \<or> jget i ''done_reviewed'' = JBool True"

definition reopen_item :: "task_env \<Rightarrow> string \<Rightarrow> string \<Rightarrow> dict \<Rightarrow> dict tres" where
  "reopen_item env dispatch reason i = (if \<not> completed i then Inr i
     else append_audit env ''redispatch-reopen'' [(''dispatch_id'', JStr dispatch), (''reason'', JStr reason)]
       (without_keys REOPEN_KEYS (jput ''done'' (JBool False) i)))"

definition reopened_count :: "string list \<Rightarrow> dict list \<Rightarrow> nat" where
  "reopened_count ids items = length (filter (\<lambda>k. case find_item k items of None \<Rightarrow> False | Some i \<Rightarrow> completed i) ids)"

definition reopen_for_redispatch :: "task_env \<Rightarrow> json list \<Rightarrow> string \<Rightarrow> string \<Rightarrow> nat task_op" where
  "reopen_for_redispatch env task_ids dispatch reason =
     (let ids = clean_ids task_ids in
      if ids = [] then op_res (Inr 0)
      else if dispatch = [] then op_res (Inl TaskError)
      else mutate_items env True (edit (\<lambda>items.
             if list_ex (\<lambda>k. find_item k items = None) ids then Inl TaskError
             else and_then (on_items (reopen_item env dispatch reason) ids items) (\<lambda>items'. Inr (reopened_count ids items, items')))))"

text \<open>The crumb of a ledger record: \<open>_breadcrumb_from_record\<close>.\<close>

definition SNAPSHOT_KEYS :: "string list" where
  "SNAPSHOT_KEYS = [''dispatch_id'', ''agent'', ''shape'', ''state'', ''terminal_state'', ''reason'', ''outcome'', ''worker_pid'',
     ''worker_alive'', ''worker_still_alive'', ''stdout_path'', ''stderr_path'', ''status_path'', ''updated_at'', ''started_at'', ''ended_at'']"

definition status_snapshot_from_record :: "dict \<Rightarrow> dict" where
  "status_snapshot_from_record r = without_blanks (map (\<lambda>k. (k, jget r k)) SNAPSHOT_KEYS)"

definition breadcrumb_from_record :: "task_env \<Rightarrow> dict \<Rightarrow> dict tres" where
  "breadcrumb_from_record env r =
     and_then (dispatch_status_from_record (classify (te_matches env)) True r) (\<lambda>live.
     and_then (case live of Some s \<Rightarrow> Inr (Some s) | None \<Rightarrow> dispatch_status_from_record (classify (te_matches env)) False r) (\<lambda>state.
     and_then (record_terminal_state r) (\<lambda>terminal.
       Inr (without_blanks
         [(''dispatch_id'', jget r ''dispatch_id''), (''agent'', jget r ''agent''), (''log'', py_or (jget r ''stdout_path'') (jget r ''log'')),
          (''stdout_path'', jget r ''stdout_path''), (''stderr_path'', jget r ''stderr_path''), (''status_path'', jget r ''status_path''),
          (''started_at'', jget r ''started_at''), (''ended_at'', jget r ''ended_at''),
          (''state'', case state of Some s \<Rightarrow> JStr s | None \<Rightarrow> jget r ''state''),
          (''ts'', py_or (py_or (py_or (jget r ''ended_at'') (jget r ''updated_at'')) (jget r ''started_at'')) (JStr (te_now env))),
          (''terminal_state'', JStr terminal), (''marker'', jget r ''marker''), (''worker_pid'', jget r ''worker_pid''),
          (''hostname'', jget r ''hostname''),
          (''last_worker_state'', py_or (jget r ''last_worker_state'') (JObj (status_snapshot_from_record r)))]))))"

text \<open>One record on one item: nothing when the item is unknown or already has a crumb of that key.\<close>

definition sync_crumb :: "task_env \<Rightarrow> json \<Rightarrow> dict \<Rightarrow> string \<Rightarrow> nat \<times> dict list \<Rightarrow> (nat \<times> dict list) tres" where
  "sync_crumb env dispatch crumb k r = (case r of (n, items) \<Rightarrow> (case find_item k items of
      None \<Rightarrow> Inr (n, items)
    | Some i \<Rightarrow> (case jget (setdefault ''dispatches'' (JList []) i) ''dispatches'' of
        JList ds \<Rightarrow>
          if breadcrumb_key env crumb \<in> set (map (breadcrumb_key env) (objs ds))
          then Inr (n, items)
          else and_then (on_item k (add_crumb env ''dispatch-sync'' dispatch crumb) items) (\<lambda>items'. Inr (Suc n, items'))
      | _ \<Rightarrow> Inl TaskError)))"

fun each_in_turn :: "('a \<Rightarrow> 'b \<Rightarrow> 'b tres) \<Rightarrow> 'a list \<Rightarrow> 'b \<Rightarrow> 'b tres" where
  "each_in_turn f [] s = Inr s"
| "each_in_turn f (x # xs) s = and_then (f x s) (each_in_turn f xs)"

definition sync_record :: "task_env \<Rightarrow> dict \<Rightarrow> nat \<times> dict list \<Rightarrow> (nat \<times> dict list) tres" where
  "sync_record env r s = (if \<not> is_str (jget r ''dispatch_id'') then Inr s
     else and_then (breadcrumb_from_record env r) (\<lambda>crumb. each_in_turn (sync_crumb env (jget r ''dispatch_id'') crumb) (record_task_ids r) s))"

definition sync_dispatch_breadcrumbs :: "task_env \<Rightarrow> dict list \<Rightarrow> (nat \<times> dict list) tres" where
  "sync_dispatch_breadcrumbs env items =
     each_in_turn (sync_record env) (filter (\<lambda>r. \<not> truthy (jget r ''superseded_by'')) (te_records env)) (0, items)"

definition cmd_sync :: "task_env \<Rightarrow> nat task_op" where
  "cmd_sync env = mutate_items env False (edit (sync_dispatch_breadcrumbs env))"

end
