(* ===== verification/GF_Task_Lemmas.thy ===== *)
theory GF_Task_Lemmas
  imports GF_Task_Commands "HOL-Library.Sublist"
begin

text \<open>
  What every command of the task store has in common. An item may only grow: it keeps its id, its
  audit trail and its dispatch history are extended at the end, and if it was properly reviewed it
  stays so. The locale \<open>item_update\<close> is the contract of the function a mutation runs on the items;
  whatever becomes of the publish, a mutation whose function meets it lets the store only grow.
\<close>

section \<open>Results and dictionaries\<close>

lemma and_then_Inr: "and_then r f = Inr v \<longleftrightarrow> (\<exists>u. r = Inr u \<and> f u = Inr v)"
  by (cases r) (simp_all add: and_then_def)

lemma and_then_simps [simp]: "and_then (Inr u) f = f u" "and_then (Inl x) f = Inl x"
  by (simp_all add: and_then_def)

lemma jget_setdefault: "jget (setdefault k v d) k' = (if k' = k \<and> \<not> has_key d k then v else jget d k')"
  by (simp add: setdefault_def)

lemma has_key_setdefault [simp]: "has_key (setdefault k v d) k' \<longleftrightarrow> k' = k \<or> has_key d k'"
  by (auto simp: setdefault_def)

lemma jget_no_key: "\<not> has_key d k \<Longrightarrow> jget d k = JNull"
  by (simp add: has_key_def jget_def)

lemma map_of_without: "map_of (without_keys ks d) k = (if k \<in> set ks then None else map_of d k)"
  by (induction d) (auto simp: without_keys_def)

lemma jget_without [simp]: "jget (without_keys ks d) k = (if k \<in> set ks then JNull else jget d k)"
  by (simp add: jget_def map_of_without)

lemma has_key_without [simp]: "has_key (without_keys ks d) k \<longleftrightarrow> k \<notin> set ks \<and> has_key d k"
  by (simp add: has_key_def map_of_without)

lemma list_of_simps [simp]: "list_of (JList xs) = xs" "list_of JNull = []"
  by (simp_all add: list_of_def)

section \<open>Growth of an item\<close>

definition audit_of :: "dict \<Rightarrow> json list" where
  "audit_of i = list_of (jget i ''audit'')"

definition crumbs_of :: "dict \<Rightarrow> json list" where
  "crumbs_of i = list_of (jget i ''dispatches'')"

text \<open>A clean review of the dispatch the item was accepted for.\<close>

definition clean_review :: "json \<Rightarrow> dict \<Rightarrow> bool" where
  "clean_review dispatch c \<longleftrightarrow> jget c ''role'' = JStr ''review'' \<and> jget c ''verdict'' = JStr ''clean''
     \<and> jget c ''dispatch_id'' = dispatch"

definition reviewed_ok :: "dict \<Rightarrow> bool" where
  "reviewed_ok i \<longleftrightarrow> has_key i ''schema_version'' \<and> (jget i ''done_reviewed'' = JBool True \<longrightarrow>
     jget i ''done'' = JBool True \<and> list_ex (clean_review (jget i ''accepted_review_dispatch_id'')) (objs (crumbs_of i)))"

definition grows :: "dict \<Rightarrow> dict \<Rightarrow> bool" where
  "grows i j \<longleftrightarrow> item_id j = item_id i \<and> prefix (audit_of i) (audit_of j) \<and> prefix (crumbs_of i) (crumbs_of j)
     \<and> (reviewed_ok i \<longrightarrow> reviewed_ok j)"

lemma grows_refl [simp]: "grows i i"
  by (simp add: grows_def)

lemma grows_trans: "grows i j \<Longrightarrow> grows j k \<Longrightarrow> grows i k"
  unfolding grows_def by (metis prefix_order.trans)

definition protected :: "string set" where
  "protected = {''id'', ''audit'', ''dispatches'', ''done'', ''done_reviewed'', ''accepted_review_dispatch_id''}"

lemma objs_append [simp]: "objs (xs @ ys) = objs xs @ objs ys"
  by (simp add: objs_def)

lemma prefix_objs: "prefix xs ys \<Longrightarrow> list_ex P (objs xs) \<Longrightarrow> list_ex P (objs ys)"
  by (auto simp: prefix_def)

lemma same_reading_grows:
  assumes "\<And>k. k \<in> protected \<Longrightarrow> jget j k = jget i k" "has_key i ''schema_version'' \<Longrightarrow> has_key j ''schema_version''"
  shows "grows i j"
  using assms by (simp add: grows_def protected_def item_id_def audit_of_def crumbs_of_def reviewed_ok_def)

lemma grows_put: "k \<notin> protected \<Longrightarrow> grows i (jput k v i)"
  by (rule same_reading_grows) auto

lemma grows_setdefault: "k \<notin> protected \<Longrightarrow> grows i (setdefault k v i)"
  by (simp add: setdefault_def grows_put)

lemma grows_done: "grows i (jput ''done'' (JBool True) i)"
  by (simp add: grows_def item_id_def audit_of_def crumbs_of_def reviewed_ok_def)

lemma grows_default_done: "grows i (setdefault ''done'' (JBool False) i)"
  by (auto simp: setdefault_def grows_def item_id_def audit_of_def crumbs_of_def reviewed_ok_def jget_no_key)

lemma push_Inr:
  "push k v i = Inr j \<longleftrightarrow> (jget i k = JNull \<and> \<not> has_key i k \<or> (\<exists>xs. jget i k = JList xs))
     \<and> j = jput k (JList (list_of (jget i k) @ [v])) (setdefault k (JList []) i)"
  by (auto simp: push_def jget_setdefault jget_no_key Let_def split: json.splits if_splits)

lemma grows_push_note: "k \<notin> protected \<Longrightarrow> push k v i = Inr j \<Longrightarrow> grows i j"
  by (auto simp: push_Inr intro: grows_trans grows_put grows_setdefault)

lemma grows_audit: "append_audit env action extra i = Inr j \<Longrightarrow> grows i j"
  by (auto simp: append_audit_def push_Inr grows_def item_id_def audit_of_def crumbs_of_def reviewed_ok_def jget_setdefault)

lemma grows_push_crumb: "push ''dispatches'' c i = Inr j \<Longrightarrow> grows i j"
  by (auto simp: push_Inr grows_def item_id_def audit_of_def crumbs_of_def reviewed_ok_def jget_setdefault)

section \<open>Growth of a list of items\<close>

definition items_grow :: "dict list \<Rightarrow> dict list \<Rightarrow> bool" where
  "items_grow is js \<longleftrightarrow> (\<forall>i\<in>set is. \<exists>j\<in>set js. grows i j) \<and> (\<forall>j\<in>set js. (\<exists>i\<in>set is. grows i j) \<or> reviewed_ok j)"

lemma items_grow_refl [simp]: "items_grow is is"
  unfolding items_grow_def using grows_refl by blast

lemma items_grow_trans: "items_grow is js \<Longrightarrow> items_grow js ks \<Longrightarrow> items_grow is ks"
  unfolding items_grow_def by (meson grows_trans grows_def)

lemma items_grow_pointwise: "list_all2 grows is js \<Longrightarrow> items_grow is js"
  unfolding items_grow_def list_all2_conv_all_nth by (metis in_set_conv_nth)

lemma items_grow_new: "reviewed_ok j \<Longrightarrow> items_grow is (is @ [j])"
  by (simp add: items_grow_def) (blast intro: grows_refl)

lemma items_grow_change: "(\<And>i. i \<in> set is \<Longrightarrow> item_id i = k \<Longrightarrow> grows i (f i)) \<Longrightarrow> items_grow is (change_item k f is)"
  by (rule items_grow_pointwise) (auto simp: change_item_def list_all2_conv_all_nth)

text \<open>An edit of one item by name. The ids of a store are distinct, so the change hits the row that was read.\<close>

lemma find_item_Some: "find_item k is = Some i \<Longrightarrow> i \<in> set is \<and> item_id i = k"
  by (auto simp: find_item_def find_Some_iff)

definition distinct_ids :: "dict list \<Rightarrow> bool" where
  "distinct_ids is \<longleftrightarrow> distinct (map item_id is)"

lemma distinct_ids_unique: "distinct_ids is \<Longrightarrow> i \<in> set is \<Longrightarrow> j \<in> set is \<Longrightarrow> item_id i = item_id j \<Longrightarrow> i = j"
  unfolding distinct_ids_def by (meson distinct_map inj_onD)

lemma on_item_grows_at:
  assumes "on_item k f is = Inr js" "distinct_ids is" "\<And>i j. i \<in> set is \<Longrightarrow> item_id i = k \<Longrightarrow> f i = Inr j \<Longrightarrow> grows i j"
  shows "items_grow is js \<and> distinct_ids js \<and> map item_id js = map item_id is"
proof -
  from assms(1) obtain i i' where f: "find_item k is = Some i" "f i = Inr i'" "js = change_item k (\<lambda>_. i') is"
    by (auto simp: on_item_def and_then_Inr split: option.splits)
  from find_item_Some [OF f(1)] have i: "i \<in> set is" "item_id i = k" by blast+
  with assms(3) f(2) have g: "grows i i'" by blast
  have "items_grow is js" unfolding f(3)
    by (rule items_grow_change) (use distinct_ids_unique [OF assms(2) i(1)] i g in auto)
  moreover have "map item_id js = map item_id is"
    using g i by (auto simp: f(3) change_item_def grows_def)
  ultimately show ?thesis using assms(2) by (simp add: distinct_ids_def)
qed

lemma on_item_grows:
  "on_item k f is = Inr js \<Longrightarrow> distinct_ids is \<Longrightarrow> (\<And>i j. f i = Inr j \<Longrightarrow> grows i j) \<Longrightarrow>
     items_grow is js \<and> distinct_ids js \<and> map item_id js = map item_id is"
  by (rule on_item_grows_at)

lemma on_items_grows:
  assumes "on_items f ks is = Inr js" "distinct_ids is" "\<And>i j. f i = Inr j \<Longrightarrow> grows i j"
  shows "items_grow is js \<and> distinct_ids js"
  using assms(1,2)
proof (induction ks arbitrary: "is")
  case (Cons k ks)
  then obtain ms where m: "on_item k f is = Inr ms" "on_items f ks ms = Inr js"
    by (auto simp: and_then_Inr)
  from on_item_grows [OF m(1) Cons.prems(2) assms(3)] have "items_grow is ms" "distinct_ids ms" by blast+
  with Cons.IH [OF m(2)] show ?case using items_grow_trans by blast
qed simp

section \<open>Reading and validating\<close>

lemma grows_migrate: "grows i (migrate_item_for_read i)"
proof -
  define i1 where "i1 = (if good_version (jget i ''schema_version'') then i else jput ''schema_version'' (JInt ITEM_SCHEMA_VERSION) i)"
  define i2 where "i2 = setdefault ''done'' (JBool False) (setdefault ''links'' (JList []) (setdefault ''blocked_by'' (JList []) i1))"
  have "grows i i1" by (simp add: i1_def grows_put protected_def)
  moreover have "grows i1 i2" unfolding i2_def
    by (intro grows_trans [OF grows_trans [OF grows_setdefault grows_setdefault] grows_default_done]) (simp_all add: protected_def)
  ultimately have g: "grows i i2" by (rule grows_trans)
  show ?thesis
  proof (cases "has_key i ''schema_version''")
    case True
    with g show ?thesis by (simp add: migrate_item_for_read_def i1_def i2_def Let_def)
  next
    case False
    then have "\<not> reviewed_ok i" by (simp add: reviewed_ok_def)
    with g show ?thesis
      by (auto simp: migrate_item_for_read_def i1_def [symmetric] i2_def [symmetric] Let_def grows_def item_id_def audit_of_def crumbs_of_def)
  qed
qed

lemma validate_item_grows:
  assumes "validate_item seen i = Inr j"
  shows "grows i j \<and> item_id i \<notin> set seen"
proof -
  define i1 where "i1 = setdefault ''done'' (JBool False) (setdefault ''links'' (JList []) (setdefault ''blocked_by'' (JList []) i))"
  define i2 where "i2 = (if \<not> has_key i ''schema_version'' \<and> jget i1 ''done'' = JBool True \<and> \<not> has_key i1 ''done_reviewed''
     then jput ''done_reviewed'' (JBool True) i1 else i1)"
  have j: "j = setdefault ''schema_version'' (JInt ITEM_SCHEMA_VERSION) i2" "head_ok seen i"
    using assms by (simp_all add: validate_item_def i1_def [symmetric] i2_def [symmetric] Let_def split: if_splits)
  have g: "grows i i1" unfolding i1_def
    by (intro grows_trans [OF grows_trans [OF grows_setdefault grows_setdefault] grows_default_done]) (simp_all add: protected_def)
  have "grows i i2"
  proof (cases "has_key i ''schema_version''")
    case False
    then have "\<not> reviewed_ok i" by (simp add: reviewed_ok_def)
    with g show ?thesis by (auto simp: i2_def grows_def item_id_def audit_of_def crumbs_of_def)
  qed (use g in \<open>simp add: i2_def\<close>)
  moreover have "grows i2 j" unfolding j(1) by (rule grows_setdefault) (simp add: protected_def)
  ultimately show ?thesis using j(2) grows_trans by (auto simp: head_ok_def)
qed

lemma validate_from_grows:
  "validate_from seen is = Inr js \<Longrightarrow> list_all2 grows is js \<and> distinct (map item_id js) \<and> set (map item_id js) \<inter> set seen = {}"
proof (induction "is" arbitrary: seen js)
  case (Cons i "is")
  then obtain j js' where j: "validate_item seen i = Inr j" "validate_from (item_id j # seen) is = Inr js'" "js = j # js'"
    by (auto simp: and_then_Inr)
  from validate_item_grows [OF j(1)] have g: "grows i j" "item_id i \<notin> set seen" by blast+
  from Cons.IH [OF j(2)] g show ?case by (auto simp: j(3) grows_def)
qed simp

lemma validate_grows:
  "validate_items_for_write is = Inr js \<Longrightarrow> list_all2 grows is js \<and> distinct_ids js"
  using validate_from_grows [of "[]" "is" js] by (simp add: validate_items_for_write_def distinct_ids_def)

definition line_items :: "json option list \<Rightarrow> dict list" where
  "line_items ls = concat (map (\<lambda>l. case l of Some (JObj i) \<Rightarrow> [i] | _ \<Rightarrow> []) ls)"

definition stored_items :: "task_store \<Rightarrow> dict list" where
  "stored_items st = (case ts_lines st of None \<Rightarrow> [] | Some ls \<Rightarrow> line_items ls)"

lemma line_items_objs [simp]: "line_items (map (\<lambda>i. Some (JObj i)) items) = items"
  by (induction items) (simp_all add: line_items_def)

lemma parse_line_grows:
  "parse_line seen l = Inr m \<Longrightarrow> \<exists>i. l = Some (JObj i) \<and> m = migrate_item_for_read i \<and> item_id m \<notin> set seen"
  using grows_migrate by (auto simp: parse_line_def head_ok_def grows_def Let_def split: option.splits json.splits if_splits)

lemma parse_from_grows:
  "parse_from seen ls = Inr js \<Longrightarrow>
     list_all2 grows (line_items ls) js \<and> distinct (map item_id js) \<and> set (map item_id js) \<inter> set seen = {}"
proof (induction ls arbitrary: seen js)
  case (Cons l ls)
  then obtain m js' where m: "parse_line seen l = Inr m" "parse_from (item_id m # seen) ls = Inr js'" "js = m # js'"
    by (auto simp: and_then_Inr)
  from parse_line_grows [OF m(1)] obtain i where i: "l = Some (JObj i)" "m = migrate_item_for_read i" "item_id m \<notin> set seen" by blast
  from Cons.IH [OF m(2)] i grows_migrate [of i] show ?case by (auto simp: m(3) line_items_def)
qed (simp add: line_items_def)

lemma task_items_grow:
  assumes "task_items st = Inr items"
  shows "items_grow (stored_items st) items \<and> distinct_ids items"
proof (cases "ts_lines st")
  case None
  with assms show ?thesis by (simp add: task_items_def parse_jsonl_def stored_items_def distinct_ids_def)
next
  case (Some ls)
  with assms have "parse_from [] ls = Inr items" by (simp add: task_items_def parse_jsonl_def)
  from parse_from_grows [OF this] Some show ?thesis
    by (simp add: stored_items_def distinct_ids_def items_grow_pointwise)
qed

section \<open>Growth of a store\<close>

text \<open>The sequence numbers of all families only rise.\<close>

definition seq_rises :: "seq_file \<Rightarrow> seq_file \<Rightarrow> bool" where
  "seq_rises q q' \<longleftrightarrow> (\<forall>s. read_seq q = Inr s \<longrightarrow> (\<exists>s'. read_seq q' = Inr s' \<and> (\<forall>f. seq_number s f \<le> seq_number s' f)))"

lemma seq_rises_refl [simp]: "seq_rises q q"
  by (auto simp: seq_rises_def)

lemma seq_rises_trans: "seq_rises p q \<Longrightarrow> seq_rises q r \<Longrightarrow> seq_rises p r"
  unfolding seq_rises_def by (meson order_trans)

definition store_grows :: "task_store \<Rightarrow> task_store \<Rightarrow> bool" where
  "store_grows st st' \<longleftrightarrow> items_grow (stored_items st) (stored_items st') \<and> seq_rises (ts_seq st) (ts_seq st')"

lemma store_grows_refl [simp]: "store_grows st st"
  by (simp add: store_grows_def)

lemma store_grows_trans: "store_grows a b \<Longrightarrow> store_grows b c \<Longrightarrow> store_grows a c"
  unfolding store_grows_def using items_grow_trans seq_rises_trans by blast

lemma same_file_grows: "ts_lines st' = ts_lines st \<Longrightarrow> seq_rises (ts_seq st) (ts_seq st') \<Longrightarrow> store_grows st st'"
  by (simp add: store_grows_def stored_items_def)

text \<open>Any prefix of a plan that publishes one list of items leaves either the old file or that list.\<close>

definition puts_only :: "dict list \<Rightarrow> publish_step list \<Rightarrow> bool" where
  "puts_only items plan \<longleftrightarrow> (\<forall>js. PutTasks js \<in> set plan \<longrightarrow> js = items)"

lemma fold_steps:
  "puts_only items plan \<Longrightarrow>
     (ts_lines (fold apply_step plan st) = ts_lines st \<or> stored_items (fold apply_step plan st) = items)
     \<and> ts_seq (fold apply_step plan st) = ts_seq st"
proof (induction plan arbitrary: st)
  case (Cons s plan)
  then have p: "puts_only items plan" by (simp add: puts_only_def)
  have one: "(ts_lines (apply_step s st) = ts_lines st \<or> stored_items (apply_step s st) = items) \<and> ts_seq (apply_step s st) = ts_seq st"
    using Cons.prems by (cases s) (simp_all add: puts_only_def stored_items_def)
  have same: "stored_items a = stored_items b" if "ts_lines a = ts_lines b" for a b :: task_store
    using that by (simp add: stored_items_def)
  from Cons.IH [OF p, of "apply_step s st"] one same show ?case by (metis fold_simps(2))
qed simp

lemma puts_only_take: "puts_only items plan \<Longrightarrow> puts_only items (take n plan)"
  using set_take_subset [of n plan] by (auto simp: puts_only_def)

lemma puts_only_plans [simp]: "puts_only items (publish_plan env items st)" "puts_only items (repair_plan env items)"
  by (auto simp: puts_only_def publish_plan_def repair_plan_def changed_steps_def)

lemma steps_grow:
  assumes "items_grow (stored_items st) items" "puts_only items plan"
  shows "store_grows st (fold apply_step plan st)"
  using fold_steps [OF assms(2), of st] assms(1) by (auto simp: store_grows_def stored_items_def)

lemma save_grows:
  assumes "items_grow (stored_items st) items" "save_items_atomic env items st = (r, st')"
  shows "store_grows st st'"
proof (cases "validate_items_for_write items")
  case (Inr js)
  from validate_grows [OF Inr] assms(1) have js: "items_grow (stored_items st) js"
    using items_grow_pointwise items_grow_trans by blast
  have "store_grows st (fold apply_step plan st)" if "puts_only js plan" for plan
    by (rule steps_grow [OF js that])
  then show ?thesis
    using assms(2) Inr by (auto simp: save_items_atomic_def Let_def puts_only_take same_file_grows split: publish_fate.splits if_splits)
qed (use assms(2) in \<open>simp add: save_items_atomic_def\<close>)

lemma recover_grows: "store_grows st (snd (recover_interrupted_publish env st))"
proof (cases "and_then (task_items st) validate_items_for_write")
  case (Inr js)
  then obtain "is" where i: "task_items st = Inr is" "validate_items_for_write is = Inr js" by (auto simp: and_then_Inr)
  have js: "items_grow (stored_items st) js"
    using task_items_grow [OF i(1)] validate_grows [OF i(2)] items_grow_pointwise items_grow_trans by blast
  have "store_grows st (fold apply_step plan st)" if "puts_only js plan" for plan
    by (rule steps_grow [OF js that])
  then show ?thesis
    using Inr by (auto simp: recover_interrupted_publish_def puts_only_take split: publish_fate.splits)
qed (simp add: recover_interrupted_publish_def)

lemma snapshot_same: "ts_lines (snd (snapshot_last_good rv st)) = ts_lines st \<and> ts_seq (snd (snapshot_last_good rv st)) = ts_seq st
    \<and> ts_marker (snd (snapshot_last_good rv st)) = ts_marker st \<and> ts_views (snd (snapshot_last_good rv st)) = ts_views st"
  by (auto simp: snapshot_last_good_def split: option.split sum.split)

section \<open>The contract of an update\<close>

lemma op_bind_grows:
  assumes "store_grows st (snd (m st))" "\<And>v st'. m st = (Inr v, st') \<Longrightarrow> store_grows st' (snd (f v st'))"
  shows "store_grows st (snd (op_bind m f st))"
proof (cases "m st")
  case (Pair r st')
  then show ?thesis using assms store_grows_trans by (cases r) (auto simp: op_bind_def)
qed

lemma op_res_grows [simp]: "store_grows st (snd (op_res r st))"
  by (simp add: op_res_def)

locale item_update =
  fixes update :: "dict list \<Rightarrow> ('a \<times> dict list) task_op"
  assumes keeps_file: "update items st = (r, st') \<Longrightarrow> ts_lines st' = ts_lines st \<and> seq_rises (ts_seq st) (ts_seq st')"
    and only_grows: "update items st = (Inr (v, items'), st') \<Longrightarrow> distinct_ids items \<Longrightarrow> items_grow items items'"
begin

lemma update_grows: "store_grows st (snd (update items st))"
  by (cases "update items st") (simp add: same_file_grows keeps_file)

lemma mutation_grows: "store_grows st (snd (mutate_items env rv update st))"
  unfolding mutate_items_def
proof (intro op_bind_grows)
  fix u st1 v st2
  show "store_grows st1 (snd (snapshot_last_good rv st1))"
    by (rule same_file_grows) (simp_all add: snapshot_same)
next
  fix st2 items st3 p st4
  assume "(task_items st2, st2) = (Inr items, st3)" "update items st3 = (Inr p, st4)"
  moreover obtain w items' where p: "p = (w, items')" by force
  ultimately have i: "task_items st3 = Inr items" and u: "update items st3 = (Inr (w, items'), st4)" by auto
  have "items_grow (stored_items st3) items'"
    using task_items_grow [OF i] only_grows [OF u] items_grow_trans by blast
  then have g: "items_grow (stored_items st4) items'" using keeps_file [OF u] by (simp add: stored_items_def)
  obtain r st5 where "save_items_atomic env items' st4 = (r, st5)" by force
  with save_grows [OF g this]
  show "store_grows st4 (snd ((case p of (v, items') \<Rightarrow> op_bind (save_items_atomic env items') (\<lambda>_. op_res (Inr v))) st4))"
    unfolding p prod.case by (intro op_bind_grows) (simp_all add: op_res_def)
qed (auto simp: recover_grows update_grows)

end

end
