(* ===== verification/GF_Task_Growth.thy ===== *)
theory GF_Task_Growth
  imports GF_Task_Lemmas GF_Delivery_Lemmas
begin

text \<open>
  Every command of the task store meets the contract of \<open>item_update\<close> or is built from steps that let
  the store grow. The identifiers come from the sequence file: its numbers only rise, and an id names
  its family and its number.
\<close>

section \<open>Sequence numbers\<close>

lemma each_Inr: "each f xs = Inr ys \<longleftrightarrow> list_all2 (\<lambda>x y. f x = Inr y) xs ys"
  by (induction xs arbitrary: ys) (auto simp: and_then_Inr list_all2_Cons1)

definition seq_valid :: "(string \<times> int) list \<Rightarrow> bool" where
  "seq_valid s \<longleftrightarrow> (\<forall>p\<in>set s. fst p \<in> set VALID_FAMILIES \<and> 0 \<le> snd p)"

lemma seq_valid_simps [simp]: "seq_valid []" "seq_valid (p # s) \<longleftrightarrow> fst p \<in> set VALID_FAMILIES \<and> 0 \<le> snd p \<and> seq_valid s"
  by (auto simp: seq_valid_def)

lemma each_valid:
  "each (\<lambda>(k, v). if k \<in> set VALID_FAMILIES then
          (case int_value v of Some n \<Rightarrow> if 0 \<le> n then Inr (k, n) else Inl TaskError | None \<Rightarrow> Inl TaskError) else Inl TaskError) d = Inr s
   \<Longrightarrow> seq_valid s"
  by (induction d arbitrary: s) (auto simp: and_then_Inr split: if_splits option.splits)

lemma read_seq_valid: "read_seq q = Inr s \<Longrightarrow> seq_valid s"
proof (cases q)
  case (SeqJson v)
  moreover assume "read_seq q = Inr s"
  ultimately show ?thesis by (cases v) (simp_all add: read_seq_def each_valid)
qed (auto simp: read_seq_def VALID_FAMILIES_def)

lemma read_seq_written: "seq_valid s \<Longrightarrow> read_seq (SeqJson (JObj (map (\<lambda>(k, v). (k, JInt v)) s))) = Inr s"
  by (induction s) (auto simp: read_seq_def int_value_def)

lemma seq_number_update: "seq_number (AList.update f n s) g = (if g = f then n else seq_number s g)"
  by (simp add: seq_number_def update_conv')

lemma seq_valid_update: "seq_valid s \<Longrightarrow> f \<in> set VALID_FAMILIES \<Longrightarrow> 0 \<le> n \<Longrightarrow> seq_valid (AList.update f n s)"
  by (induction s) auto

lemma reserve_id_Inr:
  assumes "reserve_id family st = (Inr k, st')"
  obtains seq items n where "read_seq (ts_seq st) = Inr seq" "task_items st = Inr items"
    "n = max (seq_number seq family) (max_existing_sequence family items) + 1" "k = family @ ''-'' @ pad3 n"
    "read_seq (ts_seq st') = Inr (AList.update family n seq)" "ts_lines st' = ts_lines st" "family \<in> set VALID_FAMILIES" "1 \<le> n"
proof -
  have f: "family \<in> set VALID_FAMILIES"
    using assms by (cases "family \<in> set VALID_FAMILIES") (simp_all add: reserve_id_def)
  obtain seq where r: "read_seq (ts_seq st) = Inr seq"
    using assms f by (cases "read_seq (ts_seq st)") (simp_all add: reserve_id_def)
  obtain items where i: "task_items st = Inr items"
    using assms f r by (cases "task_items st") (simp_all add: reserve_id_def)
  note s = f r i
  define n where "n = max (seq_number seq family) (max_existing_sequence family items) + 1"
  have "0 \<le> max_existing_sequence family items" unfolding max_existing_sequence_def
    by (induction items) (auto split: option.split)
  then have n: "1 \<le> n" by (simp add: n_def)
  moreover have "read_seq (SeqJson (JObj (map (\<lambda>(k, v). (k, JInt v)) (AList.update family n seq)))) = Inr (AList.update family n seq)"
    using read_seq_written seq_valid_update [OF read_seq_valid [OF s(2)] s(1)] n by simp
  moreover have "k = family @ ''-'' @ pad3 n" "st' = st\<lparr>ts_seq := SeqJson (JObj (map (\<lambda>(k, v). (k, JInt v)) (AList.update family n seq)))\<rparr>"
    using assms s by (simp_all add: reserve_id_def n_def [symmetric] Let_def)
  ultimately show ?thesis using that [OF s(2,3) n_def] s(1) by simp
qed

lemma reserve_id_keeps: "reserve_id family st = (r, st') \<Longrightarrow> ts_lines st' = ts_lines st \<and> seq_rises (ts_seq st) (ts_seq st')"
proof (cases r)
  case (Inr k)
  moreover assume "reserve_id family st = (r, st')"
  ultimately obtain seq items n where k: "read_seq (ts_seq st) = Inr seq"
    "n = max (seq_number seq family) (max_existing_sequence family items) + 1"
    "read_seq (ts_seq st') = Inr (AList.update family n seq)" "ts_lines st' = ts_lines st"
    using reserve_id_Inr by metis
  then show ?thesis by (auto simp: seq_rises_def seq_number_update)
qed (auto simp: reserve_id_def Let_def split: if_splits sum.splits)

section \<open>Ids\<close>

lemma digits_value_all: "digits_value s acc = Some v \<Longrightarrow> list_all ascii_digit s"
  by (induction s arbitrary: acc) (auto split: if_splits)

lemma digits_value_zeros: "digits_value (replicate k CHR ''0'' @ s) 0 = digits_value s 0"
  by (induction k) (simp_all add: ascii_digit_def)

lemma pad3_value: "0 \<le> n \<Longrightarrow> digits_value (pad3 n) 0 = Some n"
  by (simp add: pad3_def Let_def digits_value_zeros show_nat_value)

lemma id_number_reserved:
  assumes "0 \<le> n"
  shows "id_number f (f @ ''-'' @ pad3 n) = Some n"
proof -
  have v: "digits_value (pad3 n) 0 = Some n" using assms by (rule pad3_value)
  have "show_nat (nat n) \<noteq> []" using show_nat_value [of "nat n"] by (subst show_nat.simps) simp
  then have "digits (pad3 n)" using digits_value_all [OF v] by (simp add: digits_def pad3_def Let_def)
  moreover have "startswith ((f @ ''-'') @ pad3 n) (f @ ''-'')" by (rule startswith_append)
  ultimately show ?thesis using v by (simp add: id_number_def Let_def)
qed

lemma family_of_id:
  assumes "f \<in> set VALID_FAMILIES" "g \<in> set VALID_FAMILIES" "f @ ''-'' @ s = g @ ''-'' @ t"
  shows "f = g"
  using assms by (auto simp: VALID_FAMILIES_def)

lemma max_existing_bound:
  "i \<in> set items \<Longrightarrow> id_number f (item_id i) = Some n \<Longrightarrow> n \<le> max_existing_sequence f items"
  unfolding max_existing_sequence_def by (induction items) (auto split: option.split)

section \<open>Edits\<close>

lemma edit_update:
  assumes "\<And>items v items'. f items = Inr (v, items') \<Longrightarrow> distinct_ids items \<Longrightarrow> items_grow items items'"
  shows "item_update (edit f)"
  by unfold_locales (auto simp: edit_def op_res_def intro: assms)

lemma edit_one_update:
  assumes "\<And>i j. f i = Inr j \<Longrightarrow> grows i j"
  shows "item_update (edit (\<lambda>items. and_then (on_item k f items) (\<lambda>items'. Inr ((), items'))))"
  by (rule edit_update) (auto simp: and_then_Inr dest!: on_item_grows intro: assms)

lemma edit_one_grows: "(\<And>i j. f i = Inr j \<Longrightarrow> grows i j) \<Longrightarrow> store_grows st (snd (edit_one env rv k f st))"
  unfolding edit_one_def by (rule item_update.mutation_grows [OF edit_one_update])

lemma grows_list_default:
  assumes "(case jget (setdefault k (JList []) i) k of JList bs \<Rightarrow> g bs | _ \<Rightarrow> Inl TaskError) = Inr j" "k \<notin> protected"
    "\<And>bs. g bs = Inr j \<Longrightarrow> grows (setdefault k (JList []) i) j"
  shows "grows i j"
proof -
  from assms(1) obtain bs where "g bs = Inr j" by (auto split: json.splits)
  from assms(3) [OF this] grows_setdefault [OF assms(2)] show ?thesis using grows_trans by blast
qed

lemma grows_put_audit: "append_audit env action extra (jput k v i) = Inr j \<Longrightarrow> k \<notin> protected \<Longrightarrow> grows i j"
  using grows_trans [OF grows_put grows_audit] by blast

lemma grows_block: "block_item env bs i = Inr j \<Longrightarrow> grows i j"
  unfolding block_item_def Let_def by (erule grows_list_default) (auto simp: protected_def dest: grows_put_audit)

lemma grows_unblock: "unblock_item env bs i = Inr j \<Longrightarrow> grows i j"
  unfolding unblock_item_def Let_def by (erule grows_list_default) (auto simp: protected_def dest: grows_put_audit)

lemma grows_set_blocked_by: "set_item_blocked_by env bs i = Inr j \<Longrightarrow> grows i j"
  unfolding set_item_blocked_by_def Let_def by (erule grows_list_default) (auto simp: protected_def dest: grows_put_audit)

lemma grows_lane: "set_item_lane env lane i = Inr j \<Longrightarrow> grows i j"
  by (auto simp: set_item_lane_def and_then_Inr protected_def dest: grows_put_audit)

lemma grows_prompt_path: "set_item_prompt_path env path i = Inr j \<Longrightarrow> grows i j"
  by (auto simp: set_item_prompt_path_def protected_def dest: grows_put_audit split: option.splits)

lemma grows_given: "(\<And>x j. f x i = Inr j \<Longrightarrow> grows i j) \<Longrightarrow> given v f i = Inr j \<Longrightarrow> grows i j"
  by (cases v) (simp_all add: given_def)

lemma grows_add_note: "add_note env text i = Inr j \<Longrightarrow> grows i j"
  using grows_push_note [of "''notes''"] grows_audit grows_trans by (auto simp: add_note_def and_then_Inr protected_def) blast

lemma grows_done_item:
  assumes "done_item env res note i = Inr j"
  shows "grows i j"
proof -
  from assms obtain i1 where i1: "(if strip note = [] then Inr i else add_note env (strip note) i) = Inr i1"
    and j: "append_audit env ''done'' [(''resolution'', JStr res)]
         (jput ''resolution'' (JStr res)
           (setdefault ''closed_by'' (JStr (te_actor env)) (setdefault ''closed_at'' (JStr (te_now env))
             (jput ''done_by'' (JStr (te_actor env)) (jput ''done_at'' (JStr (te_now env)) (jput ''done'' (JBool True) i1)))))) = Inr j"
    by (auto simp: done_item_def and_then_Inr)
  have "grows i i1" using i1 grows_add_note by (auto split: if_splits)
  also have "grows i1 (setdefault ''closed_by'' (JStr (te_actor env)) (setdefault ''closed_at'' (JStr (te_now env))
             (jput ''done_by'' (JStr (te_actor env)) (jput ''done_at'' (JStr (te_now env)) (jput ''done'' (JBool True) i1)))))"
    by (intro grows_trans [OF grows_trans [OF grows_trans [OF grows_trans [OF grows_done grows_put] grows_put] grows_setdefault] grows_setdefault])
      (simp_all add: protected_def)
  also (grows_trans) have "grows \<dots> j" by (rule grows_put_audit [OF j]) (simp add: protected_def)
  finally (grows_trans) show ?thesis .
qed

lemma grows_review_item: "review_item env a i = Inr j \<Longrightarrow> grows i j"
  unfolding review_item_def and_then_Inr using grows_trans [OF grows_push_crumb grows_audit] by blast

lemma grows_add_crumb: "add_crumb env action dispatch c i = Inr j \<Longrightarrow> grows i j"
  unfolding add_crumb_def and_then_Inr using grows_trans [OF grows_push_crumb grows_audit] by blast

lemma grows_reopen: "reopen_item env dispatch reason i = Inr j \<Longrightarrow> grows i j"
proof (cases "completed i")
  case True
  assume "reopen_item env dispatch reason i = Inr j"
  with True have "append_audit env ''redispatch-reopen'' [(''dispatch_id'', JStr dispatch), (''reason'', JStr reason)]
     (without_keys REOPEN_KEYS (jput ''done'' (JBool False) i)) = Inr j" by (simp add: reopen_item_def)
  moreover have "grows i (without_keys REOPEN_KEYS (jput ''done'' (JBool False) i))"
    by (simp add: grows_def item_id_def audit_of_def crumbs_of_def reviewed_ok_def REOPEN_KEYS_def)
  ultimately show ?thesis using grows_trans grows_audit by blast
qed (simp add: reopen_item_def)

section \<open>Accept\<close>

lemma latest_by_in: "latest_by f xs = Some c \<Longrightarrow> c \<in> set xs"
proof (cases xs)
  case (Cons a l)
  moreover assume "latest_by f xs = Some c"
  ultimately have "c = last (sort_key f xs)" by (simp only: latest_by_def list.case option.inject)
  moreover have "length (sort_key f xs) = Suc (length l)" unfolding length_sort Cons by simp
  ultimately have "c \<in> set (sort_key f xs)" by (metis Zero_not_Suc last_in_set list.size(3))
  then show ?thesis by (simp only: set_sort)
qed (simp add: latest_by_def)

lemma objs_filter: "set (objs (filter P vs)) \<subseteq> set (objs vs)"
  by (auto simp: objs_def)

lemma item_dispatches_objs: "item_dispatches i = Inr ds \<Longrightarrow> ds = objs (crumbs_of i)"
  by (auto simp: item_dispatches_def crumbs_of_def jget_no_key objs_def split: if_splits json.splits)

lemma drop_superseded_sub: "set (objs (crumbs_of (drop_superseded gone i))) \<subseteq> set (objs (crumbs_of i))"
  unfolding drop_superseded_def crumbs_of_def by (auto simp: objs_def split: json.splits)

lemma crumbs_of_status [simp]: "crumbs_of (jput ''derived_status'' v i) = crumbs_of i"
  by (simp add: crumbs_of_def)

lemma item_id_drop [simp]: "item_id (drop_superseded gone i) = item_id i"
  by (auto simp: drop_superseded_def item_id_def split: json.split)

lemma jget_drop: "k \<noteq> ''dispatches'' \<Longrightarrow> jget (drop_superseded gone i) k = jget i k"
  by (auto simp: drop_superseded_def split: json.split)

lemma derived_row_Inr:
  "derived_row cls records items i = Inr row \<longleftrightarrow>
     (\<exists>s. derive_status cls (live_records_of records (item_id i)) items (drop_superseded (superseded_ids records) i) = Inr s
        \<and> row = jput ''derived_status'' (JStr s) (drop_superseded (superseded_ids records) i))"
  by (auto simp: derived_row_def and_then_Inr Let_def)

lemma derived_row_of:
  assumes "derived_rows_for_items cls records items = Inr rows" "row \<in> set rows"
  shows "\<exists>i\<in>set items. derived_row cls records items i = Inr row \<and> item_id row = item_id i"
proof -
  from assms obtain n where n: "n < length rows" "row = rows ! n" "list_all2 (\<lambda>i row. derived_row cls records items i = Inr row) items rows"
    by (auto simp: derived_rows_for_items_def each_Inr in_set_conv_nth)
  then have "derived_row cls records items (items ! n) = Inr row" "n < length items"
    by (auto simp: list_all2_conv_all_nth)
  moreover from this have "item_id row = item_id (items ! n)"
    by (auto simp: derived_row_Inr item_id_def jget_drop)
  ultimately show ?thesis using nth_mem by blast
qed

lemma accept_update_Inr:
  assumes "accept_update env k items = Inr items'"
  shows "\<exists>rows row c. derived_rows_for_items (classify (te_matches env)) (te_records env) items = Inr rows
     \<and> find_item k rows = Some row \<and> \<not> is_done_reviewed row \<and> jget row ''derived_status'' = JStr ''awaiting-review''
     \<and> latest_review_breadcrumb row = Inr (Some c) \<and> jget c ''verdict'' = JStr ''clean''
     \<and> on_item k (accept_item env c) items = Inr items'"
proof -
  from assms obtain rows where rows: "derived_rows_for_items (classify (te_matches env)) (te_records env) items = Inr rows"
    by (cases "derived_rows_for_items (classify (te_matches env)) (te_records env) items") (simp_all add: accept_update_def)
  with assms obtain row where row: "find_item k rows = Some row"
    by (cases "find_item k rows") (simp_all add: accept_update_def)
  with assms rows have st: "\<not> is_done_reviewed row \<and> jget row ''derived_status'' = JStr ''awaiting-review''"
    by (simp add: accept_update_def split: if_split_asm)
  with assms rows row obtain c where c: "latest_review_breadcrumb row = Inr (Some c)"
    by (auto simp: accept_update_def and_then_Inr split: option.split_asm)
  with assms rows row st show ?thesis by (auto simp: accept_update_def split: if_split_asm)
qed

lemma accept_update_grows:
  assumes "accept_update env k items = Inr items'" "distinct_ids items"
  shows "items_grow items items'"
proof -
  from accept_update_Inr [OF assms(1)] obtain rows row c where r: "derived_rows_for_items (classify (te_matches env)) (te_records env) items = Inr rows"
      "find_item k rows = Some row" "latest_review_breadcrumb row = Inr (Some c)" "jget c ''verdict'' = JStr ''clean''"
      "on_item k (accept_item env c) items = Inr items'" by blast
  from find_item_Some [OF r(2)] have row: "row \<in> set rows" "item_id row = k" by blast+
  from derived_row_of [OF r(1) row(1)] obtain i where i: "i \<in> set items" "item_id i = k"
      "derived_row (classify (te_matches env)) (te_records env) items i = Inr row" using row(2) by auto
  from r(3) have "c \<in> set (objs (crumbs_of row))" "jget c ''role'' = JStr ''review''"
    by (auto simp: latest_review_breadcrumb_def and_then_Inr dest!: latest_by_in item_dispatches_objs)
  moreover have "set (objs (crumbs_of row)) \<subseteq> set (objs (crumbs_of i))"
    using i(3) by (auto simp: derived_row_Inr dest: subsetD [OF drop_superseded_sub])
  ultimately have clean: "list_ex (clean_review (jget c ''dispatch_id'')) (objs (crumbs_of i))"
    using r(4) by (auto simp: clean_review_def list_ex_iff)
  have "grows j j'" if "j \<in> set items" "item_id j = k" "accept_item env c j = Inr j'" for j j'
  proof -
    have "j = i" using distinct_ids_unique [OF assms(2) that(1) i(1)] that(2) i(2) by simp
    define m where "m = unless_blank ''accepted_review_findings_ref'' (jget c ''findings_ref'')
         (jput ''accepted_review_dispatch_id'' (jget c ''dispatch_id'')
           (jput ''closed_by'' (JStr (te_actor env)) (jput ''closed_at'' (JStr (te_now env))
             (jput ''done_reviewed_by'' (JStr (te_actor env)) (jput ''done_reviewed_at'' (JStr (te_now env))
               (jput ''done_reviewed'' (JBool True) (jput ''done'' (JBool True) i)))))))"
    have "grows i m" using clean
      by (simp add: m_def unless_blank_def grows_def item_id_def audit_of_def crumbs_of_def reviewed_ok_def)
    moreover have "grows m j'" using that(3) by (intro grows_audit) (simp add: accept_item_def \<open>j = i\<close> m_def)
    ultimately show ?thesis unfolding \<open>j = i\<close> by (rule grows_trans)
  qed
  then have "items_grow items items'"
    using on_item_grows_at [OF r(5) assms(2)] by blast
  then show ?thesis .
qed

section \<open>New items\<close>

lemma jget_put_fields: "k \<notin> set ks \<Longrightarrow> jget (put_fields g ks i) k = jget i k \<and> has_key (put_fields g ks i) k = has_key i k"
  unfolding put_fields_def by (induction ks arbitrary: i) auto

lemma make_item_ok: "has_key (make_item env k kind title b l t lane) ''schema_version''"
    "jget (make_item env k kind title b l t lane) ''done_reviewed'' = JNull"
    "jget (make_item env k kind title b l t lane) ''id'' = JStr k"
  by (simp_all add: make_item_def has_key_def jget_def split: option.split)

lemma new_item_ok: "reviewed_ok (new_item env a key k) \<and> item_id (new_item env a key k) = k"
  by (simp add: new_item_def Let_def reviewed_ok_def item_id_def NEW_FIELDS_def jget_put_fields make_item_ok split: option.split)

lemma append_item_grows:
  "append_item env a key k items = Inr items' \<Longrightarrow> items' = items @ [new_item env a key k] \<and> k \<notin> set (map item_id items) \<and> items_grow items items'"
  using new_item_ok by (auto simp: append_item_def items_grow_new split: if_splits)

lemma grows_merge_fields:
  assumes "k \<notin> protected" "grows i (fst r)"
  shows "grows i (fst (merge_list_field (k, vs) r))" "grows i (fst (merge_scalar_field g k r))"
  using assms grows_trans [OF assms(2) grows_put [OF assms(1)]]
  by (auto simp: merge_list_field_def merge_scalar_field_def Let_def split: prod.split)

lemma grows_merge_capture: "grows i (fst (merge_capture_annotations a i))"
  unfolding merge_capture_annotations_def fold_simps
  by (intro grows_merge_fields) (simp_all add: protected_def)

section \<open>Bugs of a review\<close>

lemma review_bug_ok: "review_bug env a title k = Inr b \<Longrightarrow> reviewed_ok b"
  unfolding review_bug_def
  by (drule grows_audit) (simp add: grows_def reviewed_ok_def unless_blank_def make_item_ok)

lemma file_bugs_keeps:
  "file_bugs env a titles items st = (r, st') \<Longrightarrow> ts_lines st' = ts_lines st \<and> seq_rises (ts_seq st) (ts_seq st')"
proof (induction titles arbitrary: items st r st')
  case (Cons t ts)
  show ?case
  proof (cases "known_bug (review_bug_key env a t) items")
    case False
    obtain r1 st1 where s1: "reserve_id ''b'' st = (r1, st1)" by force
    note k1 = reserve_id_keeps [OF s1]
    show ?thesis
    proof (cases "\<exists>k b. r1 = Inr k \<and> review_bug env a t k = Inr b")
      case True
      then obtain k b where kb: "r1 = Inr k" "review_bug env a t k = Inr b" by blast
      obtain r2 st2 where s2: "file_bugs env a ts (items @ [b]) st1 = (r2, st2)" by force
      from Cons.IH [OF s2] k1 have "ts_lines st2 = ts_lines st \<and> seq_rises (ts_seq st) (ts_seq st2)"
        using seq_rises_trans by auto
      moreover have "st' = st2" using Cons.prems False s1 s2 kb
        by (auto simp: op_bind_def op_res_def split: sum.splits)
      ultimately show ?thesis by simp
    next
      case no: False
      then have "st' = st1" using Cons.prems False s1
        by (cases r1) (auto simp: op_bind_def op_res_def split: sum.splits)
      then show ?thesis using k1 by simp
    qed
  qed (use Cons in simp)
qed (simp add: op_res_def)

lemma file_bugs_grows:
  "file_bugs env a titles items st = (Inr (ks, items'), st') \<Longrightarrow> items_grow items items'"
proof (induction titles arbitrary: items st ks)
  case (Cons t ts)
  show ?case
  proof (cases "known_bug (review_bug_key env a t) items")
    case False
    with Cons.prems obtain k b st1 ks' where kb: "review_bug env a t k = Inr b" "file_bugs env a ts (items @ [b]) st1 = (Inr (ks', items'), st')"
      by (auto simp: op_bind_def op_res_def split: sum.splits prod.splits)
    from Cons.IH [OF kb(2)] items_grow_new [OF review_bug_ok [OF kb(1)]] show ?thesis using items_grow_trans by blast
  qed (use Cons in simp)
qed (simp add: op_res_def)

section \<open>Synchronisation with the ledger\<close>

lemma each_in_turn_inv:
  assumes "each_in_turn f xs s = Inr s'" "P s" "\<And>x s s'. f x s = Inr s' \<Longrightarrow> P s \<Longrightarrow> P s'"
  shows "P s'"
  using assms(1,2) by (induction xs arbitrary: s) (auto simp: and_then_Inr dest: assms(3))

lemma sync_crumb_grows:
  assumes "sync_crumb env d c k (n, items) = Inr (n', items')" "distinct_ids items"
  shows "items_grow items items' \<and> distinct_ids items'"
  using assms on_item_grows [OF _ assms(2) grows_add_crumb]
  by (auto simp: sync_crumb_def and_then_Inr split: option.splits json.splits if_splits)

lemma sync_grows:
  assumes "sync_dispatch_breadcrumbs env items = Inr (n, items')" "distinct_ids items"
  shows "items_grow items items'"
proof -
  define P where "P = (\<lambda>s :: nat \<times> dict list. items_grow items (snd s) \<and> distinct_ids (snd s))"
  have crumb: "P s'" if "sync_crumb env d c k s = Inr s'" "P s" for d c k s s'
    using that sync_crumb_grows [of env d c k "fst s" "snd s" "fst s'" "snd s'"] items_grow_trans by (auto simp: P_def)
  have row: "P s'" if "sync_record env r s = Inr s'" "P s" for r s s'
    using that crumb by (auto simp: sync_record_def and_then_Inr split: if_splits elim: each_in_turn_inv)
  have "P (n, items')"
    by (rule each_in_turn_inv [OF assms(1) [unfolded sync_dispatch_breadcrumbs_def]]) (use assms(2) row in \<open>auto simp: P_def\<close>)
  then show ?thesis by (simp add: P_def)
qed

end
