(* ===== verification/GF_Task_Props.thy ===== *)
theory GF_Task_Props
  imports GF_Task_Growth
begin

text \<open>
  Histories of the task store: the commands in any order, each with its own clock, actor, ledger and
  fate of its publish. The contract \<open>item_update\<close> is interpreted on the edit of every command, so all
  of them let the store only grow, whether they answer, refuse or die half way.
\<close>

section \<open>The commands meet the contract\<close>

interpretation blocking: item_update "edit (\<lambda>items. and_then (on_item k (block_item env bs) items) (\<lambda>items'. Inr ((), items')))" for env bs k
  by (rule edit_one_update) (rule grows_block)

interpretation unblocking: item_update "edit (\<lambda>items. and_then (on_item k (unblock_item env bs) items) (\<lambda>items'. Inr ((), items')))" for env bs k
  by (rule edit_one_update) (rule grows_unblock)

interpretation laning: item_update "edit (\<lambda>items. and_then (on_item k (set_item_lane env lane) items) (\<lambda>items'. Inr ((), items')))" for env lane k
  by (rule edit_one_update) (rule grows_lane)

interpretation prompting: item_update "edit (\<lambda>items. and_then (on_item k (set_item_prompt_path env path) items) (\<lambda>items'. Inr ((), items')))" for env path k
  by (rule edit_one_update) (rule grows_prompt_path)

definition set_edit :: "task_env \<Rightarrow> string \<Rightarrow> string option \<Rightarrow> string option \<Rightarrow> string list option \<Rightarrow> dict list \<Rightarrow> (unit \<times> dict list) tres" where
  "set_edit env k path lane blockers items = (case find_item k items of None \<Rightarrow> Inl TaskError
     | Some _ \<Rightarrow> and_then (case blockers of None \<Rightarrow> Inr () | Some bs \<Rightarrow> validate_set_blockers items k bs) (\<lambda>_.
         and_then (on_item k (\<lambda>i. and_then (given path (set_item_prompt_path env) i) (\<lambda>i1.
             and_then (given lane (set_item_lane env) i1) (given blockers (set_item_blocked_by env)))) items)
           (\<lambda>items'. Inr ((), items'))))"

interpretation setting: item_update "edit (set_edit env k path lane blockers)" for env k path lane blockers
proof (rule edit_update)
  fix items v items'
  assume e: "set_edit env k path lane blockers items = Inr (v, items')" and d: "distinct_ids items"
  let ?f = "\<lambda>i. and_then (given path (set_item_prompt_path env) i) (\<lambda>i1.
      and_then (given lane (set_item_lane env) i1) (given blockers (set_item_blocked_by env)))"
  have "grows i j" if f: "?f i = Inr j" for i j
  proof -
    from f obtain i1 i2 where i: "given path (set_item_prompt_path env) i = Inr i1" "given lane (set_item_lane env) i1 = Inr i2"
      "given blockers (set_item_blocked_by env) i2 = Inr j" by (auto simp: and_then_Inr)
    have "grows i i1" by (rule grows_given [OF grows_prompt_path i(1)])
    also have "grows i1 i2" by (rule grows_given [OF grows_lane i(2)])
    also (grows_trans) have "grows i2 j" by (rule grows_given [OF grows_set_blocked_by i(3)])
    finally (grows_trans) show ?thesis .
  qed
  moreover have "on_item k ?f items = Inr items'"
    using e by (auto simp: set_edit_def and_then_Inr split: option.splits)
  ultimately show "items_grow items items'" using on_item_grows [OF _ d] by blast
qed

interpretation noting: item_update "edit (\<lambda>items. and_then (on_items (add_note env body) ids items) (\<lambda>items'. Inr (ids, items')))" for env body ids
  by (rule edit_update) (auto simp: and_then_Inr dest!: on_items_grows intro: grows_add_note)

lemma done_update_Inr:
  assumes "done_update env k force resolution note items = Inr items'"
  shows "\<exists>i us. find_item k items = Some i \<and> jget i ''done'' \<noteq> JBool True \<and> unsatisfied_blockers items i = Inr us
     \<and> (us = [] \<or> force) \<and> on_item k (done_item env resolution note) items = Inr items'"
  using assms by (auto simp: done_update_def and_then_Inr split: option.splits if_splits)

interpretation closing: item_update "edit (\<lambda>items. and_then (done_update env k force resolution body items) (\<lambda>items'. Inr ((), items')))"
  for env k force resolution body
  by (rule edit_update) (auto simp: and_then_Inr dest!: done_update_Inr on_item_grows intro: grows_done_item)

interpretation accepting: item_update "edit (\<lambda>items. and_then (accept_update env k items) (\<lambda>items'. Inr ((), items')))" for env k
  by (rule edit_update) (auto simp: and_then_Inr intro: accept_update_grows)

interpretation crumbing: item_update "edit (\<lambda>items. and_then (on_items (add_crumb env action d c) ids items) (\<lambda>items'. Inr (n, items')))"
  for env action d c ids and n :: nat
  by (rule edit_update) (auto simp: and_then_Inr dest!: on_items_grows intro: grows_add_crumb)

interpretation reopening: item_update "edit (\<lambda>items. if list_ex (\<lambda>k. find_item k items = None) ids then Inl TaskError
     else and_then (on_items (reopen_item env dispatch reason) ids items) (\<lambda>items'. Inr (reopened_count ids items, items')))"
  for env dispatch reason ids
  by (rule edit_update) (auto simp: and_then_Inr dest!: on_items_grows intro: grows_reopen split: if_splits)

interpretation syncing: item_update "edit (sync_dispatch_breadcrumbs env)" for env
  by (rule edit_update) (rule sync_grows)

interpretation filing: item_update "edit (\<lambda>items. and_then (append_item env a None k items) (\<lambda>items'. Inr (k, items')))" for env a k
  by (rule edit_update) (auto simp: and_then_Inr dest: append_item_grows)

interpretation reviewing: item_update "\<lambda>items. op_bind (op_res (on_item k (review_item env a) items)) (file_bugs env a titles)" for env a k titles
proof
  fix items st r st' 
  assume "op_bind (op_res (on_item k (review_item env a) items)) (file_bugs env a titles) st = (r, st')"
  then show "ts_lines st' = ts_lines st \<and> seq_rises (ts_seq st) (ts_seq st')"
    using file_bugs_keeps by (auto simp: op_bind_def op_res_def split: sum.splits)
next
  fix items st v items' st'
  assume "op_bind (op_res (on_item k (review_item env a) items)) (file_bugs env a titles) st = (Inr (v, items'), st')" and d: "distinct_ids items"
  then obtain ms where ms: "on_item k (review_item env a) items = Inr ms" "file_bugs env a titles ms st = (Inr (v, items'), st')"
    by (auto simp: op_bind_def op_res_def split: sum.splits)
  have "items_grow items ms" using on_item_grows [OF ms(1) d] grows_review_item by blast
  with file_bugs_grows [OF ms(2)] show "items_grow items items'" using items_grow_trans by blast
qed

section \<open>Growth of every command\<close>

lemma reserve_id_grows: "store_grows st (snd (reserve_id family st))"
  by (cases "reserve_id family st") (simp add: same_file_grows reserve_id_keeps)

lemma cmd_set_eq: "cmd_set env k path lane blocked =
    (if path = None \<and> lane = None \<and> blocked = None then op_res (Inl TaskError)
     else op_bind (op_res (validate_lane_arg lane)) (\<lambda>_. mutate_items env True
       (edit (set_edit env k path lane (map_option (\<lambda>b. dedupe_strs (map JStr (split_csv b))) blocked)))))"
  unfolding cmd_set_def set_edit_def [abs_def] Let_def ..

lemma capture_into_grows:
  assumes "task_items st = Inr items"
  shows "store_grows st (snd (capture_into env a key family items st))"
proof (cases "if na_allow_duplicate a then None else captured_as key items")
  case None
  have save: "store_grows st1 (snd (save_items_atomic env items' st1))"
    if "append_item env a (Some key) k items = Inr items'" "ts_lines st1 = ts_lines st" for k items' st1
  proof -
    have "items_grow (stored_items st1) items'"
      using task_items_grow [OF assms] append_item_grows [OF that(1)] that(2) items_grow_trans by (auto simp: stored_items_def)
    then show ?thesis using save_grows by (metis prod.collapse)
  qed
  show ?thesis unfolding capture_into_def None option.case
    by (intro op_bind_grows) (auto simp: reserve_id_grows op_res_def intro!: save dest: reserve_id_keeps)
next
  case (Some i)
  then have i: "i \<in> set items" by (auto simp: captured_as_def find_Some_iff split: if_splits)
  obtain j merged where m: "merge_capture_annotations a i = (j, merged)" by force
  have save: "store_grows st (snd (save_items_atomic env (change_item (item_id i) (\<lambda>_. j') items) st))"
    if "append_audit env ''capture-merge'' [(''fields'', strs merged)] j = Inr j'" for j'
  proof -
    have "grows i j'" using grows_merge_capture [of i a] m grows_audit [OF that] grows_trans by auto
    then have "items_grow items (change_item (item_id i) (\<lambda>_. j') items)"
      using distinct_ids_unique task_items_grow [OF assms] i by (intro items_grow_change) blast
    then have "items_grow (stored_items st) (change_item (item_id i) (\<lambda>_. j') items)"
      using task_items_grow [OF assms] items_grow_trans by blast
    then show ?thesis using save_grows by (metis prod.collapse)
  qed
  show ?thesis unfolding capture_into_def Some option.case m Let_def prod.case
    by (auto intro!: op_bind_grows save simp: op_res_def)
qed

lemma snapshot_grows: "store_grows st (snd (snapshot_last_good rv st))"
  by (rule same_file_grows) (simp_all add: snapshot_same)

lemma create_captured_grows: "store_grows st (snd (create_captured env a key st))"
  unfolding create_captured_def
  by (intro op_bind_grows) (auto simp: recover_grows snapshot_grows op_res_def intro: capture_into_grows)

lemma cmd_new_grows: "store_grows st (snd (cmd_new env a st))"
  unfolding cmd_new_def by (intro op_bind_grows) (auto simp: reserve_id_grows filing.mutation_grows op_res_def)

text \<open>One step of a history: any command, with whatever answer.\<close>

inductive task_step :: "task_store \<Rightarrow> task_store \<Rightarrow> bool" where
  new: "cmd_new env a st = (r1, st') \<Longrightarrow> task_step st st'"
| capture: "cmd_capture env cwd kind a st = (r2, st') \<Longrightarrow> task_step st st'"
| block: "cmd_block env k on st = (r3, st') \<Longrightarrow> task_step st st'"
| unblock: "cmd_unblock env k on st = (r3, st') \<Longrightarrow> task_step st st'"
| lane: "cmd_lane env k lane st = (r3, st') \<Longrightarrow> task_step st st'"
| prompt_path: "cmd_set_prompt_path env k path st = (r3, st') \<Longrightarrow> task_step st st'"
| set: "cmd_set env k opath olane oblocked st = (r3, st') \<Longrightarrow> task_step st st'"
| noted: "cmd_append env ids body st = (r4, st') \<Longrightarrow> task_step st st'"
| closed: "cmd_done env k force resolution body st = (r3, st') \<Longrightarrow> task_step st st'"
| review: "cmd_review env rv st = (r4, st') \<Longrightarrow> task_step st st'"
| accept: "cmd_accept env k st = (r3, st') \<Longrightarrow> task_step st st'"
| crumb: "append_dispatch_breadcrumbs env task_ids c st = (r5, st') \<Longrightarrow> task_step st st'"
| reopen: "reopen_for_redispatch env task_ids dispatch reason st = (r5, st') \<Longrightarrow> task_step st st'"
| sync: "cmd_sync env st = (r5, st') \<Longrightarrow> task_step st st'"

lemma task_step_grows: "task_step st st' \<Longrightarrow> store_grows st st'"
proof (induction rule: task_step.induct)
  case (new env a st r st')
  then show ?case using cmd_new_grows [of st env a] by simp
next
  case (capture env cwd kind a st r st')
  then show ?case using create_captured_grows [of st env] by (simp add: cmd_capture_def Let_def) (metis snd_conv)
next
  case (block env k on st r st')
  have "store_grows st (snd (cmd_block env k on st))"
    unfolding cmd_block_def edit_one_def by (simp add: blocking.mutation_grows)
  then show ?case using block by simp
next
  case (unblock env k on st r st')
  have "store_grows st (snd (cmd_unblock env k on st))"
    unfolding cmd_unblock_def edit_one_def by (rule unblocking.mutation_grows)
  then show ?case using unblock by simp
next
  case (lane env k lane st r st')
  have "store_grows st (snd (cmd_lane env k lane st))"
    unfolding cmd_lane_def edit_one_def by (intro op_bind_grows op_res_grows laning.mutation_grows)
  then show ?case using lane by simp
next
  case (prompt_path env k path st r st')
  have "store_grows st (snd (cmd_set_prompt_path env k path st))"
    unfolding cmd_set_prompt_path_def edit_one_def by (rule prompting.mutation_grows)
  then show ?case using prompt_path by simp
next
  case (set env k path lane blocked st r st')
  have "store_grows st (snd (cmd_set env k path lane blocked st))"
    unfolding cmd_set_eq by (auto intro!: op_bind_grows simp: setting.mutation_grows)
  then show ?case using set by simp
next
  case (noted env ids body st r st')
  have "store_grows st (snd (cmd_append env ids body st))"
    unfolding cmd_append_def Let_def by (simp add: noting.mutation_grows)
  then show ?case using noted by simp
next
  case (closed env k force resolution body st r st')
  have "store_grows st (snd (cmd_done env k force resolution body st))"
    unfolding cmd_done_def by (rule closing.mutation_grows)
  then show ?case using closed by simp
next
  case (review env rv st r st')
  have "store_grows st (snd (cmd_review env rv st))"
    unfolding cmd_review_def by (simp add: reviewing.mutation_grows)
  then show ?case using review by simp
next
  case (accept env k st r st')
  have "store_grows st (snd (cmd_accept env k st))"
    unfolding cmd_accept_def by (rule accepting.mutation_grows)
  then show ?case using accept by simp
next
  case (crumb env task_ids c st r st')
  have "store_grows st (snd (append_dispatch_breadcrumbs env task_ids c st))"
    unfolding append_dispatch_breadcrumbs_def Let_def by (simp add: crumbing.mutation_grows)
  then show ?case using crumb by simp
next
  case (reopen env task_ids dispatch reason st r st')
  have "store_grows st (snd (reopen_for_redispatch env task_ids dispatch reason st))"
    unfolding reopen_for_redispatch_def Let_def by (simp add: reopening.mutation_grows)
  then show ?case using reopen by simp
next
  case (sync env st r st')
  have "store_grows st (snd (cmd_sync env st))" unfolding cmd_sync_def by (rule syncing.mutation_grows)
  then show ?case using sync by simp
qed

lemma task_steps_grow: "task_step\<^sup>*\<^sup>* st st' \<Longrightarrow> store_grows st st'"
  by (induction rule: rtranclp_induct) (auto intro: store_grows_trans task_step_grows)

section \<open>What histories preserve\<close>

text \<open>A store, an environment and commands for the witnesses.\<close>

definition sample_task_env :: task_env where
  "sample_task_env = \<lparr>te_now = ''2026-01-01T00:00:00+00:00'', te_actor = ''controller'', te_root = ''/p'',
     te_view = (\<lambda>items v. if items = [] then [] else v), te_fate = Completes, te_records = [],
     te_matches = (\<lambda>_. (False, ''dead'')), te_sha1 = id, te_dumps = (\<lambda>_. []), te_resolve = Some\<rparr>"

definition empty_store :: task_store where
  "empty_store = \<lparr>ts_lines = None, ts_seq = NoSeq, ts_marker = False, ts_views = [], ts_backups = []\<rparr>"

definition sample_new :: new_args where
  "sample_new = \<lparr>na_kind = ''task'', na_title = ''fix it'', na_family = None, na_lane = None, na_blocked_by = [],
     na_links = [], na_tags = [], na_fields = [], na_allow_duplicate = False\<rparr>"

definition sample_review :: review_args where
  "sample_review = \<lparr>rv_item = ''t-001'', rv_dispatch = ''d1'', rv_verdict = ''clean'', rv_findings = JNull, rv_bugs = [],
     rv_pattern = JNull, rv_tags = [], rv_severity = JNull\<rparr>"

definition one_item_store :: task_store where
  "one_item_store = snd (cmd_new sample_task_env sample_new empty_store)"

definition reviewed_store :: task_store where
  "reviewed_store = snd (cmd_accept sample_task_env ''t-001'' (snd (cmd_review sample_task_env sample_review
     (snd (cmd_done sample_task_env ''t-001'' False ''done'' [] one_item_store)))))"

lemma reviewed_store_steps: "task_step\<^sup>*\<^sup>* one_item_store reviewed_store"
proof -
  define st1 where "st1 = snd (cmd_done sample_task_env ''t-001'' False ''done'' [] one_item_store)"
  define st2 where "st2 = snd (cmd_review sample_task_env sample_review st1)"
  have a: "task_step one_item_store st1" unfolding st1_def by (rule task_step.closed) (rule prod.collapse [symmetric])
  have b: "task_step st1 st2" unfolding st2_def by (rule task_step.review) (rule prod.collapse [symmetric])
  have c: "task_step st2 reviewed_store" unfolding reviewed_store_def st1_def [symmetric] st2_def [symmetric]
    by (rule task_step.accept) (rule prod.collapse [symmetric])
  from a b c show ?thesis by (meson converse_rtranclp_into_rtranclp r_into_rtranclp)
qed

text \<open>
  C10. Nothing recorded about a task is lost or rewritten. Along every history of commands, with any
  refusals and any crashes or failures of a publish, each stored item keeps its id, its audit trail and
  its dispatch history only grow at the end.
\<close>

theorem task_history_append_only:
  assumes "task_step\<^sup>*\<^sup>* st st'" "i \<in> set (stored_items st)"
  shows "\<exists>j. j \<in> set (stored_items st') \<and> item_id j = item_id i \<and> prefix (audit_of i) (audit_of j)
     \<and> prefix (crumbs_of i) (crumbs_of j)"
  using task_steps_grow [OF assms(1)] assms(2) by (auto simp: store_grows_def items_grow_def grows_def)

theorem task_history_append_only_witness:
  "\<exists>j. j \<in> set (stored_items reviewed_store) \<and> item_id j = ''t-001'' \<and> prefix (audit_of (hd (stored_items one_item_store))) (audit_of j)"
proof -
  have "stored_items one_item_store \<noteq> []" "item_id (hd (stored_items one_item_store)) = ''t-001''" by code_simp+
  with task_history_append_only [OF reviewed_store_steps, of "hd (stored_items one_item_store)"] show ?thesis by auto
qed

text \<open>
  C8. Done-reviewed means reviewed. If it holds at first, then after every history of commands and
  crashes each item marked done-reviewed is done and carries a review of verdict clean for the very
  dispatch it was accepted for.
\<close>

theorem done_reviewed_has_clean_review:
  assumes "task_step\<^sup>*\<^sup>* st st'" "list_all reviewed_ok (stored_items st)"
  shows "list_all reviewed_ok (stored_items st')"
  using task_steps_grow [OF assms(1)] assms(2)
  by (fastforce simp: store_grows_def items_grow_def grows_def list_all_iff)

theorem done_reviewed_has_clean_review_witness:
  "list_all reviewed_ok (stored_items reviewed_store) \<and> map (\<lambda>i. jget i ''done_reviewed'') (stored_items reviewed_store) = [JBool True]"
proof -
  have "list_all reviewed_ok (stored_items one_item_store)" by code_simp
  moreover have "map (\<lambda>i. jget i ''done_reviewed'') (stored_items reviewed_store) = [JBool True]" by code_simp
  ultimately show ?thesis using done_reviewed_has_clean_review [OF reviewed_store_steps] by blast
qed

lemma reserved_id_fresh:
  assumes "reserve_id f st = (Inr k, st')" "task_items st = Inr items"
  shows "k \<notin> set (map item_id items)"
proof
  assume "k \<in> set (map item_id items)"
  then obtain i where i: "i \<in> set items" "item_id i = k" by auto
  from reserve_id_Inr [OF assms(1)] assms(2) obtain seq n where n: "n = max (seq_number seq f) (max_existing_sequence f items) + 1"
    "k = f @ ''-'' @ pad3 n" "1 \<le> n" by (metis sum.inject(2))
  then have "id_number f (item_id i) = Some n" using i id_number_reserved by simp
  from max_existing_bound [OF i(1) this] n(1) show False by simp
qed

text \<open>
  C27. Ids are never issued twice. A reserved id is carried by no stored item, and after any history of
  commands and crashes no later reservation, of whatever family, returns it again.
\<close>

theorem task_ids_never_reused:
  assumes "reserve_id f st = (Inr k, st1)" "task_step\<^sup>*\<^sup>* st1 st2" "reserve_id g st2 = (Inr k', st3)"
  shows "k \<noteq> k' \<and> k \<notin> item_id ` set (stored_items st)"
proof
  from reserve_id_Inr [OF assms(1)] obtain seq items n where a: "task_items st = Inr items" "k = f @ ''-'' @ pad3 n" "1 \<le> n"
    "read_seq (ts_seq st1) = Inr (AList.update f n seq)" "f \<in> set VALID_FAMILIES" by metis
  from reserve_id_Inr [OF assms(3)] obtain seq' items' n' where b: "read_seq (ts_seq st2) = Inr seq'"
    "n' = max (seq_number seq' g) (max_existing_sequence g items') + 1" "k' = g @ ''-'' @ pad3 n'" "1 \<le> n'" "g \<in> set VALID_FAMILIES" by metis
  have "n \<le> seq_number seq' f"
    using task_steps_grow [OF assms(2)] a(4) b(1) by (auto simp: store_grows_def seq_rises_def seq_number_update dest: spec [of _ f])
  show "k \<noteq> k'"
  proof
    assume "k = k'"
    then have "f = g" using family_of_id [OF a(5) b(5)] a(2) b(3) by simp
    then have "Some n = Some n'" using id_number_reserved [of n f] id_number_reserved [of n' f] a b \<open>k = k'\<close> by simp
    with \<open>n \<le> seq_number seq' f\<close> b(2) \<open>f = g\<close> show False by simp
  qed
  have "item_id ` set (stored_items st) \<subseteq> set (map item_id items)"
  proof
    fix x assume "x \<in> item_id ` set (stored_items st)"
    then obtain i where i: "i \<in> set (stored_items st)" "x = item_id i" by blast
    then obtain j where "j \<in> set items" "grows i j" using task_items_grow [OF a(1)] unfolding items_grow_def by blast
    then show "x \<in> set (map item_id items)" using i(2) by (simp add: grows_def) (metis imageI)
  qed
  then show "k \<notin> item_id ` set (stored_items st)" using reserved_id_fresh [OF assms(1) a(1)] by blast
qed

theorem task_ids_never_reused_witness:
  "reserve_id ''t'' one_item_store = (Inr ''t-002'', snd (reserve_id ''t'' one_item_store)) \<and> (''t-002'' :: string) \<noteq> ''t-003''"
proof -
  have r: "reserve_id ''t'' one_item_store = (Inr ''t-002'', snd (reserve_id ''t'' one_item_store))"
    "reserve_id ''t'' (snd (reserve_id ''t'' one_item_store)) = (Inr ''t-003'', snd (reserve_id ''t'' (snd (reserve_id ''t'' one_item_store))))"
    by code_simp+
  from task_ids_never_reused [OF r(1) rtranclp.rtrancl_refl r(2)] r(1) show ?thesis by simp
qed

end
