(* ===== verification/GF_Task_Publish.thy ===== *)
theory GF_Task_Publish
  imports GF_Task_Props
begin

text \<open>
  Publishing and reading back. What validation lets through is written and read back unchanged; a
  publish that dies between two replacements is completed by the next mutation from the task file it
  finds; and the first publish of a store has a gap in which it cannot be.
\<close>

section \<open>What validation lets through\<close>

lemma setdefault_has [simp]: "has_key d k \<Longrightarrow> setdefault k v d = d"
  by (simp add: setdefault_def)

definition stable :: "dict \<Rightarrow> bool" where
  "stable i \<longleftrightarrow> has_key i ''schema_version'' \<and> good_version (jget i ''schema_version'') \<and> has_key i ''blocked_by''
     \<and> is_list (jget i ''blocked_by'') \<and> has_key i ''links'' \<and> is_list (jget i ''links'') \<and> has_key i ''done''
     \<and> (has_key i ''dispatches'' \<longrightarrow> is_list (jget i ''dispatches''))"

lemma validate_stable: "stable i \<Longrightarrow> head_ok seen i \<Longrightarrow> validate_item seen i = Inr i"
  by (simp add: validate_item_def stable_def Let_def)

lemma parse_stable: "stable i \<Longrightarrow> head_ok seen i \<Longrightarrow> parse_line seen (Some (JObj i)) = Inr i"
  by (simp add: parse_line_def migrate_item_for_read_def stable_def Let_def)

lemma validated_is_stable:
  assumes "validate_item seen i = Inr j"
  shows "stable j \<and> head_ok seen j"
proof -
  define i1 where "i1 = setdefault ''done'' (JBool False) (setdefault ''links'' (JList []) (setdefault ''blocked_by'' (JList []) i))"
  define i2 where "i2 = (if \<not> has_key i ''schema_version'' \<and> jget i1 ''done'' = JBool True \<and> \<not> has_key i1 ''done_reviewed''
     then jput ''done_reviewed'' (JBool True) i1 else i1)"
  define i3 where "i3 = setdefault ''schema_version'' (JInt ITEM_SCHEMA_VERSION) i2"
  have "validate_item seen i = (if \<not> head_ok seen i then Inl TaskError
     else if is_list (jget i3 ''blocked_by'') \<and> is_list (jget i3 ''links'') \<and> good_version (jget i3 ''schema_version'')
              \<and> (has_key i3 ''dispatches'' \<longrightarrow> is_list (jget i3 ''dispatches'')) then Inr i3 else Inl TaskError)"
    unfolding validate_item_def Let_def i1_def [symmetric] i2_def [symmetric] i3_def [symmetric] ..
  with assms have j: "j = i3" and h: "head_ok seen i"
    and ok: "is_list (jget j ''blocked_by'')" "is_list (jget j ''links'')" "good_version (jget j ''schema_version'')"
      "has_key j ''dispatches'' \<longrightarrow> is_list (jget j ''dispatches'')"
    by (metis sum.distinct(1) sum.inject(2))+
  note j = j [unfolded i3_def]
  have keys: "has_key j ''schema_version''" "has_key j ''blocked_by''" "has_key j ''links''" "has_key j ''done''"
    by (simp_all add: j i2_def i1_def)
  have same: "jget j k = jget i k \<and> has_key j k = has_key i k" if "k \<in> {''id'', ''status'', ''lane''}" for k
    using that unfolding j i2_def i1_def by (elim insertE emptyE) (simp_all add: jget_setdefault)
  have "head_ok seen j" using h same [of "''id''"] same [of "''status''"] same [of "''lane''"] by (simp add: head_ok_def item_id_def)
  then show ?thesis unfolding stable_def using keys ok by blast
qed

fun written_ok :: "string list \<Rightarrow> dict list \<Rightarrow> bool" where
  "written_ok seen [] = True"
| "written_ok seen (i # is) = (stable i \<and> head_ok seen i \<and> written_ok (item_id i # seen) is)"

lemma validated_written_ok: "validate_from seen is = Inr js \<Longrightarrow> written_ok seen js"
  by (induction "is" arbitrary: seen js) (auto simp: and_then_Inr dest!: validated_is_stable)

lemma written_ok_reads:
  "written_ok seen js \<Longrightarrow> parse_from seen (map (\<lambda>i. Some (JObj i)) js) = Inr js \<and> validate_from seen js = Inr js"
  by (induction js arbitrary: seen) (simp_all add: parse_stable validate_stable)

text \<open>A store whose task file holds exactly the valid items \<open>items\<close>.\<close>

definition holds :: "dict list \<Rightarrow> task_store \<Rightarrow> bool" where
  "holds items st \<longleftrightarrow> ts_lines st = Some (map (\<lambda>i. Some (JObj i)) items) \<and> written_ok [] items"

lemma holds_reads: "holds items st \<Longrightarrow> task_items st = Inr items \<and> validate_items_for_write items = Inr items \<and> ts_lines st \<noteq> None"
  using written_ok_reads [of "[]" items] by (simp add: holds_def task_items_def parse_jsonl_def validate_items_for_write_def)

section \<open>Plans\<close>

lemma fold_views:
  "ts_lines (fold apply_step (map (\<lambda>v. PutView v (f v)) vs) st) = ts_lines st"
  "ts_marker (fold apply_step (map (\<lambda>v. PutView v (f v)) vs) st) = ts_marker st"
  "map_of (ts_views (fold apply_step (map (\<lambda>v. PutView v (f v)) vs) st)) w = (if w \<in> set vs then Some (f w) else map_of (ts_views st) w)"
  by (induction vs arbitrary: st) (auto simp: update_conv')

definition rendered :: "task_env \<Rightarrow> dict list \<Rightarrow> task_store \<Rightarrow> bool" where
  "rendered env items st \<longleftrightarrow> list_all (\<lambda>v. map_of (ts_views st) v = Some (te_view env items v)) VIEW_NAMES"

text \<open>A store at rest: a valid task file, the views rendered from it, no marker.\<close>

definition at_rest :: "task_env \<Rightarrow> dict list \<Rightarrow> task_store \<Rightarrow> bool" where
  "at_rest env items st \<longleftrightarrow> holds items st \<and> rendered env items st \<and> \<not> ts_marker st"

lemma published:
  assumes "written_ok [] items"
  shows "at_rest env items (fold apply_step (publish_plan env items st) st)"
proof -
  let ?vs = "filter (\<lambda>v. map_of (ts_views st) v \<noteq> Some (te_view env items v)) VIEW_NAMES"
  have *: "changed_steps env items st = (if ts_lines st = Some (map (\<lambda>i. Some (JObj i)) items) then [] else [PutTasks items])
      @ map (\<lambda>v. PutView v (te_view env items v)) ?vs" by (simp add: changed_steps_def)
  show ?thesis
  proof (cases "changed_steps env items st = []")
    case True
    then have "ts_lines st = Some (map (\<lambda>i. Some (JObj i)) items)" "\<forall>v\<in>set VIEW_NAMES. map_of (ts_views st) v = Some (te_view env items v)"
      unfolding * by (auto simp: filter_empty_conv split: if_splits)
    then show ?thesis using assms True by (simp add: publish_plan_def at_rest_def holds_def rendered_def list_all_iff)
  next
    case False
    then show ?thesis using assms
      by (auto simp: publish_plan_def * at_rest_def holds_def rendered_def list_all_iff fold_views)
  qed
qed

lemma repaired:
  assumes "written_ok [] items"
  shows "at_rest env items (fold apply_step (repair_plan env items) st)"
  using assms by (simp add: repair_plan_def at_rest_def holds_def rendered_def list_all_iff fold_views)

text \<open>A prefix of a publish of \<open>items\<close> over a store that holds \<open>old\<close> leaves one of the two.\<close>

lemma prefix_holds:
  assumes "holds old st" "written_ok [] items" "puts_only items plan"
  shows "\<exists>now \<in> {old, items}. holds now (fold apply_step plan st)"
  using assms
proof (induction plan arbitrary: st old)
  case (Cons s plan)
  then have p: "puts_only items plan" by (simp add: puts_only_def)
  have "\<exists>now \<in> {old, items}. holds now (apply_step s st)"
    using Cons.prems by (cases s) (auto simp: puts_only_def holds_def)
  with Cons.IH [OF _ Cons.prems(2) p] show ?case by auto
qed auto

text \<open>With the marker set the repair runs to rest; a publish only skips the marker when it does nothing.\<close>

lemma repair_completes:
  assumes "holds items st" "te_fate env = Completes" "ts_marker st"
  shows "\<exists>st'. recover_interrupted_publish env st = (Inr (), st') \<and> at_rest env items st'"
  using assms holds_reads [OF assms(1)] repaired
  by (simp add: recover_interrupted_publish_def holds_def)

lemma marker_until_cleared:
  "ClearMarker \<notin> set plan \<Longrightarrow> ts_marker st \<Longrightarrow> ts_marker (fold apply_step plan st)"
proof (induction plan arbitrary: st)
  case (Cons s plan)
  then show ?case by (cases s) auto
qed simp

lemma cut_publish:
  assumes "at_rest env old st" "written_ok [] items"
  shows "\<exists>st'. st' = fold apply_step (take n (publish_plan env items st)) st \<and> (at_rest env old st' \<or> at_rest env items st'
    \<or> ts_marker st' \<and> (\<exists>now \<in> {old, items}. holds now st'))"
proof -
  let ?c = "changed_steps env items st" and ?st' = "fold apply_step (take n (publish_plan env items st)) st"
  have h: "\<exists>now \<in> {old, items}. holds now ?st'"
    using assms by (intro prefix_holds puts_only_take puts_only_plans(1)) (auto simp: at_rest_def)
  consider "n = 0" | "length (publish_plan env items st) \<le> n" | "0 < n" "n < length (publish_plan env items st)" by linarith
  then show ?thesis
  proof cases
    case 2
    then show ?thesis using published [OF assms(2), of env st] by simp
  next
    case 3
    then have c: "?c \<noteq> []" by (auto simp: publish_plan_def split: if_splits)
    with 3 obtain m where m: "n = Suc m" "m \<le> length ?c" by (cases n) (auto simp: publish_plan_def)
    then have t: "take n (publish_plan env items st) = SetMarker # take m ?c" using c by (simp add: publish_plan_def)
    have "ClearMarker \<notin> set (take m ?c)" using set_take_subset [of m ?c] by (auto simp: changed_steps_def)
    then have "ts_marker ?st'" unfolding t by (simp add: marker_until_cleared)
    with h show ?thesis by blast
  qed (use assms in simp)
qed

text \<open>
  C9. Publishing survives a crash. Whatever happens to a save over a store at rest, whether it
  completes, dies after any of its replacements, or has a replacement fail, the next mutation's repair succeeds
  and leaves a store at rest: the task file holds the old items or the new ones, never a mixture, and the
  four views are rendered from the file that is there.
\<close>

theorem publish_crash_safe:
  assumes "at_rest env old st" "save_items_atomic env items st = (r, st1)" "te_fate env2 = Completes"
  shows "\<exists>st2 now e. recover_interrupted_publish env2 st1 = (Inr (), st2) \<and> at_rest e now st2 \<and> e \<in> {env, env2}
     \<and> (now = old \<or> validate_items_for_write items = Inr now)"
proof (cases "validate_items_for_write items")
  case (Inl x)
  then have "st1 = st" using assms(2) by (simp add: save_items_atomic_def)
  then show ?thesis using assms(1) by (auto simp: recover_interrupted_publish_def at_rest_def)
next
  case (Inr js)
  then have w: "written_ok [] js" using validated_written_ok by (simp add: validate_items_for_write_def)
  have rest: "\<exists>st2 now e. recover_interrupted_publish env2 st' = (Inr (), st2) \<and> at_rest e now st2 \<and> e \<in> {env, env2} \<and> (now = old \<or> now = js)"
    if "at_rest env old st' \<or> at_rest env js st' \<or> ts_marker st' \<and> (\<exists>now \<in> {old, js}. holds now st')" for st'
  proof (cases "at_rest env old st' \<or> at_rest env js st'")
    case True
    then have "recover_interrupted_publish env2 st' = (Inr (), st')" by (auto simp: recover_interrupted_publish_def at_rest_def)
    with True show ?thesis by blast
  next
    case False
    with that obtain now where "ts_marker st'" "now \<in> {old, js}" "holds now st'" by blast
    with repair_completes [OF _ assms(3)] show ?thesis by blast
  qed
  have "at_rest env old st1 \<or> at_rest env js st1 \<or> ts_marker st1 \<and> (\<exists>now \<in> {old, js}. holds now st1)"
  proof (cases "te_fate env")
    case Completes
    then show ?thesis using assms(2) Inr published [OF w, of env st] by (simp add: save_items_atomic_def Let_def)
  next
    case (Dies n)
    then show ?thesis using assms(2) Inr cut_publish [OF assms(1) w, of n] by (simp add: save_items_atomic_def Let_def)
  next
    case (ReplaceFails n)
    then have "st1 = st\<lparr>ts_marker := False\<rparr>" using assms(2) Inr by (simp add: save_items_atomic_def Let_def split: if_splits)
    then show ?thesis using assms(1) by (simp add: at_rest_def holds_def rendered_def)
  qed
  from rest [OF this] Inr show ?thesis by auto
qed

theorem publish_crash_safe_witness:
  "\<exists>st2 now e. recover_interrupted_publish sample_task_env
       (snd (save_items_atomic (sample_task_env\<lparr>te_fate := Dies 2\<rparr>) [] one_item_store)) = (Inr (), st2)
     \<and> at_rest e now st2 \<and> (now = stored_items one_item_store \<or> now = [])"
proof -
  let ?e = "sample_task_env\<lparr>te_fate := Dies 2\<rparr>"
  have "ts_lines one_item_store = Some (map (\<lambda>i. Some (JObj i)) (stored_items one_item_store)) \<and> \<not> ts_marker one_item_store"
    by code_simp
  moreover have "validate_items_for_write (stored_items one_item_store) = Inr (stored_items one_item_store)" by code_simp
  then have "written_ok [] (stored_items one_item_store)"
    using validated_written_ok by (simp add: validate_items_for_write_def)
  moreover have "list_all (\<lambda>v. map_of (ts_views one_item_store) v = Some (te_view sample_task_env (stored_items one_item_store) v)) VIEW_NAMES"
    by code_simp
  ultimately have "at_rest ?e (stored_items one_item_store) one_item_store"
    by (simp add: at_rest_def holds_def rendered_def)
  from publish_crash_safe [OF this prod.collapse [symmetric], of sample_task_env "[]"]
  show ?thesis by (auto simp: sample_task_env_def validate_items_for_write_def)
qed

lemma validate_never_crashes: "validate_from seen is \<noteq> Inl Crashed"
proof (induction "is" arbitrary: seen)
  case (Cons i "is")
  show ?case using Cons by (cases "validate_item seen i"; cases "validate_from (item_id (projr (validate_item seen i)) # seen) is")
    (auto simp: validate_item_def Let_def split: if_splits)
qed simp

text \<open>
  The first publish has a gap. When the first save of a store dies after writing its marker and
  before the task file exists, every later mutation, whatever its clock, update or fate, refuses with
  \<open>TaskError\<close> and changes nothing: the repair wants a task file that was never written.
\<close>

lemma first_publish_gap:
  assumes "ts_lines st = None" "te_fate env = Dies 1" "save_items_atomic env items st = (Inl Crashed, st1)"
  shows "ts_marker st1 \<and> mutate_items env2 rv update st1 = (Inl TaskError, st1)"
proof (cases "validate_items_for_write items")
  case (Inr js)
  have "changed_steps env js st \<noteq> []" by (simp add: changed_steps_def assms(1))
  then have "take 1 (publish_plan env js st) = [SetMarker]" by (simp add: publish_plan_def)
  then have "st1 = st\<lparr>ts_marker := True\<rparr>" using assms(2,3) Inr by (simp add: save_items_atomic_def Let_def)
  then show ?thesis using assms(1) by (simp add: mutate_items_def op_bind_def recover_interrupted_publish_def)
qed (use assms(3) in \<open>simp add: save_items_atomic_def validate_items_for_write_def validate_never_crashes\<close>)

lemma first_publish_gap_witness:
  "mutate_items sample_task_env True (edit (\<lambda>items. Inr ((), items)))
     (snd (save_items_atomic (sample_task_env\<lparr>te_fate := Dies 1\<rparr>) [] empty_store))
   = (Inl TaskError, snd (save_items_atomic (sample_task_env\<lparr>te_fate := Dies 1\<rparr>) [] empty_store))"
proof -
  have "save_items_atomic (sample_task_env\<lparr>te_fate := Dies 1\<rparr>) [] empty_store
    = (Inl Crashed, snd (save_items_atomic (sample_task_env\<lparr>te_fate := Dies 1\<rparr>) [] empty_store))" by code_simp
  from first_publish_gap [OF _ _ this, of sample_task_env True "edit (\<lambda>items. Inr ((), items))"] show ?thesis
    by (simp add: empty_store_def)
qed

end
