(* ===== verification/GF_Task_Status.thy ===== *)
theory GF_Task_Status
  imports GF_Task_Publish
begin

text \<open>
  The derived status of an item and what is decided from it: the labels it can take, the frontier of
  dispatchable work, and the guard of \<open>done\<close>.
\<close>

section \<open>Labels\<close>

lemma dispatch_status_in:
  "dispatch_status_from_record cls live r = Inr (Some s) \<Longrightarrow> s \<in> TASK_DISPATCH_STATES"
  by (auto simp: dispatch_status_from_record_def and_then_Inr TASK_DISPATCH_STATES_def Let_def split: if_split_asm)

lemma latest_by_None: "latest_by f xs = None \<longleftrightarrow> xs = []"
  by (cases xs) (simp_all add: latest_by_def)

lemma each_in: "each f xs = Inr ys \<Longrightarrow> y \<in> set ys \<Longrightarrow> \<exists>x\<in>set xs. f x = Inr y"
  by (fastforce simp: each_Inr list_all2_conv_all_nth in_set_conv_nth)

lemma each_zip: "each f xs = Inr ys \<Longrightarrow> (x, y) \<in> set (zip xs ys) \<Longrightarrow> x \<in> set xs \<and> f x = Inr y"
  by (auto simp: each_Inr list_all2_conv_all_nth set_zip)

lemma each_total: "each f xs = Inr ys \<Longrightarrow> x \<in> set xs \<Longrightarrow> \<exists>y. (x, y) \<in> set (zip xs ys) \<and> f x = Inr y"
  by (fastforce simp: each_Inr list_all2_conv_all_nth in_set_conv_nth set_zip)

text \<open>The evidence \<open>derive_status\<close> weighs (live records, the latest crumb, completion) and the label it gives.\<close>

definition status_evidence :: "dict list \<Rightarrow> string option list \<Rightarrow> dict option \<Rightarrow> string option \<Rightarrow> dict \<Rightarrow> (int \<times> string) list" where
  "status_evidence live ss crumb cs i =
     concat (map (\<lambda>(r, s). case s of None \<Rightarrow> [] | Some st \<Rightarrow> [(record_sort_time r, st)]) (zip live ss))
     @ (case (crumb, cs) of (Some c, Some st) \<Rightarrow> [(record_sort_time c, st)] | _ \<Rightarrow> [])
     @ (if jget i ''done'' = JBool True then [(done_time i, ''awaiting-review'')] else [])"

definition label_of :: "dict list \<Rightarrow> dict \<Rightarrow> (int \<times> string) option \<Rightarrow> string tres" where
  "label_of items i latest = (case latest of
      Some (_, st) \<Rightarrow> Inr (if st = ''worker-finished'' then ''awaiting-review'' else st)
    | None \<Rightarrow>
        if jget i ''kind'' = JStr ''decision'' then Inr ''decision''
        else and_then (unsatisfied_blockers items i) (\<lambda>u. Inr (if u \<noteq> [] then ''waiting'' else ''pending'')))"

lemma derive_status_parts:
  "derive_status cls live items i =
     (if is_done_reviewed i then Inr ''done-reviewed''
      else and_then (each (dispatch_status_from_record cls True) live) (\<lambda>ss.
        and_then (latest_dispatch_breadcrumb i) (\<lambda>crumb.
          and_then (case crumb of None \<Rightarrow> Inr None | Some c \<Rightarrow> crumb_status c) (\<lambda>cs.
            label_of items i (latest_by fst (status_evidence live ss crumb cs i))))))"
  by (simp add: derive_status_def label_of_def status_evidence_def Let_def)

lemma crumb_has_status:
  assumes "latest_dispatch_breadcrumb i = Inr (Some c)"
  shows "\<exists>st. crumb_status c = Inr (Some st)"
proof -
  from assms obtain ds ss where e: "each crumb_status ds = Inr ss"
    and l: "latest_by record_sort_time (map fst (filter (\<lambda>(d, s). s \<noteq> None) (zip ds ss))) = Some c"
    by (auto simp: latest_dispatch_breadcrumb_def and_then_Inr)
  from latest_by_in [OF l] obtain x where "(c, Some x) \<in> set (zip ds ss)" by auto
  with each_zip [OF e] show ?thesis by blast
qed

lemma evidence_labels:
  assumes "derive_status cls live items i = Inr s" "\<not> is_done_reviewed i"
  shows "s \<in> TASK_DISPATCH_STATES - {''worker-finished''} \<union> {''awaiting-review'', ''decision'', ''waiting'', ''pending''}"
    and "s = ''pending'' \<Longrightarrow> unsatisfied_blockers items i = Inr [] \<and> jget i ''done'' \<noteq> JBool True
      \<and> latest_dispatch_breadcrumb i = Inr None \<and> list_all (\<lambda>r. dispatch_status_from_record cls True r = Inr None) live"
proof -
  from assms obtain ss crumb cs where e: "each (dispatch_status_from_record cls True) live = Inr ss"
    "latest_dispatch_breadcrumb i = Inr crumb" "(case crumb of None \<Rightarrow> Inr None | Some c \<Rightarrow> crumb_status c) = Inr cs"
    and s: "label_of items i (latest_by fst (status_evidence live ss crumb cs i)) = Inr s"
    by (auto simp: derive_status_parts and_then_Inr)
  define evidence where "evidence = status_evidence live ss crumb cs i"
  note ev = evidence_def [unfolded status_evidence_def] and s = s [folded evidence_def]
  have in_states: "st \<in> TASK_DISPATCH_STATES \<union> {''awaiting-review''}" if st: "(t, st) \<in> set evidence" for t st
  proof -
    have "st \<in> TASK_DISPATCH_STATES" if "(r, Some st) \<in> set (zip live ss)" for r
      using each_zip [OF e(1) that] dispatch_status_in by blast
    moreover have "st \<in> TASK_DISPATCH_STATES" if "crumb = Some c" "cs = Some st" for c
      using e(3) that dispatch_status_in by (simp add: crumb_status_def)
    ultimately show ?thesis using st unfolding ev by (auto split: option.split_asm if_split_asm)
  qed
  show "s \<in> TASK_DISPATCH_STATES - {''worker-finished''} \<union> {''awaiting-review'', ''decision'', ''waiting'', ''pending''}"
  proof (cases "latest_by fst evidence")
    case None
    then show ?thesis using s by (auto simp: label_of_def and_then_Inr split: if_split_asm)
  next
    case (Some p)
    obtain t st where p: "p = (t, st)" by force
    show ?thesis using s Some in_states [of t st] latest_by_in [OF Some] unfolding p by (auto simp: label_of_def split: if_split_asm)
  qed
  show "unsatisfied_blockers items i = Inr [] \<and> jget i ''done'' \<noteq> JBool True
      \<and> latest_dispatch_breadcrumb i = Inr None \<and> list_all (\<lambda>r. dispatch_status_from_record cls True r = Inr None) live"
    if "s = ''pending''"
  proof (cases "latest_by fst evidence")
    case (Some p)
    obtain t st where p: "p = (t, st)" by force
    show ?thesis using s Some in_states [of t st] latest_by_in [OF Some] that unfolding p
      by (auto simp: label_of_def TASK_DISPATCH_STATES_def split: if_split_asm)
  next
    case None
    then have nil: "evidence = []" by (simp add: latest_by_None)
    have "dispatch_status_from_record cls True r = Inr None" if r: "r \<in> set live" for r
    proof -
      from each_total [OF e(1) r] obtain y where y: "(r, y) \<in> set (zip live ss)" "dispatch_status_from_record cls True r = Inr y" by blast
      then show ?thesis using nil unfolding ev by (cases y) fastforce+
    qed
    moreover have "crumb = None"
      using nil crumb_has_status [of i] e(2,3) unfolding ev by (cases crumb) auto
    ultimately show ?thesis using s None nil e(2) that unfolding ev by (auto simp: list_all_iff label_of_def and_then_Inr split: if_split_asm)
  qed
qed

text \<open>
  What a derived status says. It is one of the eight labels; it is \<open>done-reviewed\<close> exactly when the
  item is; and it is \<open>pending\<close> only if no live record and no breadcrumb shows a dispatch, the item is not
  done and no blocker gates it.
\<close>

lemma derived_status_meaning:
  assumes "derive_status cls live items i = Inr s"
  shows "s \<in> STATUS_LABELS \<and> (s = ''done-reviewed'' \<longleftrightarrow> is_done_reviewed i)
     \<and> (s \<noteq> ''pending'' \<or> unsatisfied_blockers items i = Inr [] \<and> jget i ''done'' \<noteq> JBool True
          \<and> latest_dispatch_breadcrumb i = Inr None \<and> list_all (\<lambda>r. dispatch_status_from_record cls True r = Inr None) live)"
proof (cases "is_done_reviewed i")
  case True
  then have "s = ''done-reviewed''" using assms by (simp add: derive_status_def)
  then show ?thesis using True by (simp add: STATUS_LABELS_def)
next
  case False
  from evidence_labels [OF assms False] False show ?thesis
    by (auto simp: STATUS_LABELS_def TASK_DISPATCH_STATES_def)
qed

lemma derived_status_meaning_witness:
  "derive_status (\<lambda>_. []) [] [] (hd (stored_items one_item_store)) = Inr ''pending'' \<and> (''pending'' :: string) \<in> STATUS_LABELS"
proof -
  have d: "derive_status (\<lambda>_. []) [] [] (hd (stored_items one_item_store)) = Inr ''pending''" by code_simp
  from derived_status_meaning [OF d] d show ?thesis by simp
qed

section \<open>The frontier\<close>

lemma blockers_satisfied:
  assumes "unsatisfied_blockers items i = Inr []" "b \<in> set (list_of (jget i ''blocked_by''))"
  shows "\<exists>r. find_item (py_str b) items = Some r \<and> is_done_reviewed r"
proof (cases "jget i ''blocked_by''")
  case (JList bs)
  then have "py_str b \<in> set (dedupe (map py_str bs))" using assms(2) by (simp add: dedupe_def)
  then have "\<not> blocker_gates items (py_str b)" using assms(1) JList by (simp add: unsatisfied_blockers_def filter_empty_conv)
  then show ?thesis by (auto simp: blocker_gates_def split: option.splits)
qed (use assms in \<open>auto simp: unsatisfied_blockers_def list_of_def\<close>)

text \<open>
  C28. The frontier holds only dispatchable work: each of its rows stands for a task or bug of the store
  outside the reserved lanes that is not done, all of whose blockers are done-reviewed rows of the store,
  that no current ledger record shows at work, and whose remaining breadcrumbs show no dispatch.
\<close>

theorem frontier_is_dispatchable:
  assumes "next_frontier cls records items = Inr rows" "row \<in> set rows"
  shows "\<exists>i. i \<in> set items \<and> item_id i = item_id row \<and> str_in (row_kind i) {''task'', ''bug''}
     \<and> \<not> str_in (jget i ''lane'') (set RESERVED_LANES) \<and> jget i ''done'' \<noteq> JBool True
     \<and> list_all (\<lambda>b. \<exists>r. find_item (py_str b) items = Some r \<and> is_done_reviewed r) (list_of (jget i ''blocked_by''))
     \<and> list_all (\<lambda>r. dispatch_status_from_record cls True r = Inr None) (live_records_of records (item_id i))
     \<and> latest_dispatch_breadcrumb row = Inr None"
proof -
  from assms obtain all bs where a: "derived_rows_for_items cls records items = Inr all" "each in_frontier all = Inr bs"
      "(row, True) \<in> set (zip all bs)"
    by (auto simp: next_frontier_def and_then_Inr)
  from each_zip [OF a(2,3)] have row: "row \<in> set all" "in_frontier row = Inr True" by blast+
  from derived_row_of [OF a(1) row(1)] obtain i where i: "i \<in> set items" "derived_row cls records items i = Inr row" "item_id row = item_id i" by blast
  let ?d = "drop_superseded (superseded_ids records) i"
  from i(2) obtain s where s: "derive_status cls (live_records_of records (item_id i)) items ?d = Inr s"
      "row = jput ''derived_status'' (JStr s) ?d" by (auto simp: derived_row_Inr)
  from row(2) have f: "str_in (row_kind row) {''task'', ''bug''}" "jget row ''derived_status'' = JStr ''pending''"
      "\<not> str_in (jget row ''lane'') (set RESERVED_LANES)" "latest_dispatch_breadcrumb row = Inr None"
    by (auto simp: in_frontier_def and_then_Inr split: if_split_asm)
  have "s = ''pending''" using f(2) s(2) by simp
  then have nd: "\<not> is_done_reviewed ?d" using s(1) by (auto simp: derive_status_def)
  note p = evidence_labels(2) [OF s(1) nd \<open>s = ''pending''\<close>]
  have same: "jget ?d k = jget i k" if "k \<noteq> ''dispatches''" for k using jget_drop [OF that] .
  have kinds: "row_kind row = row_kind i" unfolding s(2) row_kind_def drop_superseded_def by (simp split: json.split)
  have "unsatisfied_blockers items i = Inr []" using p same [of "''blocked_by''"] by (simp add: unsatisfied_blockers_def)
  then show ?thesis
    using i(1,3) f p kinds same [of "''lane''"] same [of "''done''"] s(2) blockers_satisfied
    by (intro exI [of _ i]) (simp add: list_all_iff)
qed

theorem frontier_is_dispatchable_witness:
  "\<exists>row. next_frontier (\<lambda>_. []) [] (stored_items one_item_store) = Inr [row] \<and> latest_dispatch_breadcrumb row = Inr None"
proof -
  have "case next_frontier (\<lambda>_. []) [] (stored_items one_item_store) of Inl _ \<Rightarrow> False | Inr rows \<Rightarrow> length rows = 1" by code_simp
  then obtain row where r: "next_frontier (\<lambda>_. []) [] (stored_items one_item_store) = Inr [row]"
    by (auto simp: length_Suc_conv split: sum.split_asm)
  from frontier_is_dispatchable [OF r] r show ?thesis by auto
qed

end
