(* ===== verification/GF_Task_Guards.thy ===== *)
theory GF_Task_Guards
  imports GF_Task_Status
begin

text \<open>
  What a mutation that answers has done to the file: the guard of \<open>done\<close>, and the idempotence of
  \<open>capture\<close>, which a caller retries after an ambiguous timeout.
\<close>

section \<open>Answered mutations\<close>

definition full :: "dict \<Rightarrow> bool" where
  "full i \<longleftrightarrow> has_key i ''schema_version'' \<and> has_key i ''blocked_by'' \<and> has_key i ''links'' \<and> has_key i ''done''"

lemma validate_full: "full i \<Longrightarrow> validate_item seen i = Inr j \<Longrightarrow> j = i"
  by (simp add: validate_item_def full_def Let_def split: if_split_asm)

lemma validate_from_full: "list_all full is \<Longrightarrow> validate_from seen is = Inr js \<Longrightarrow> js = is"
  by (induction "is" arbitrary: seen js) (auto simp: and_then_Inr dest: validate_full)

lemma migrate_full: "full (migrate_item_for_read i)"
  by (cases "has_key i ''schema_version''")
    (simp_all add: migrate_item_for_read_def full_def Let_def good_version_def jget_no_key int_value_def)

lemma parsed_full: "parse_from seen ls = Inr items \<Longrightarrow> list_all full items"
  by (induction ls arbitrary: seen items) (auto simp: and_then_Inr migrate_full dest!: parse_line_grows)

lemma task_items_full: "task_items st = Inr items \<Longrightarrow> list_all full items"
  by (auto simp: task_items_def parse_jsonl_def intro: parsed_full split: option.splits)

lemma saved:
  assumes "save_items_atomic env items st = (Inr v, st')" "list_all full items"
  shows "holds items st' \<and> \<not> ts_marker st'"
proof -
  from assms(1) obtain js where js: "validate_items_for_write items = Inr js"
    by (cases "validate_items_for_write items") (simp_all add: save_items_atomic_def)
  with assms(2) have "js = items" using validate_from_full by (simp add: validate_items_for_write_def)
  with js have v: "validate_items_for_write items = Inr items" and w: "written_ok [] items"
    using validated_written_ok by (simp_all add: validate_items_for_write_def)
  note p = published [OF w, of env st]
  show ?thesis
  proof (cases "te_fate env")
    case (ReplaceFails n)
    then have plan: "publish_plan env items st = [ClearMarker]" "st' = st\<lparr>ts_marker := False\<rparr>"
      using assms(1) v by (simp_all add: save_items_atomic_def Let_def split: if_split_asm)
    then show ?thesis using p by (simp add: at_rest_def)
  qed (use assms(1) v p in \<open>auto simp: save_items_atomic_def Let_def at_rest_def\<close>)
qed

lemma answered_mutation:
  assumes "mutate_items env rv (edit f) st = (Inr v, st')" "\<not> ts_marker st"
  shows "\<exists>items items'. task_items st = Inr items \<and> f items = Inr (v, items') \<and> (list_all full items' \<longrightarrow> holds items' st')"
proof -
  obtain st1 where s: "snapshot_last_good rv st = (Inr (), st1)"
    using assms by (cases "snapshot_last_good rv st") (auto simp: mutate_items_def op_bind_def recover_interrupted_publish_def split: sum.split_asm)
  then have same: "task_items st1 = task_items st" using snapshot_same [of rv st] by (simp add: task_items_def)
  obtain items where i: "task_items st = Inr items"
    using assms s same by (cases "task_items st") (simp_all add: mutate_items_def op_bind_def recover_interrupted_publish_def)
  obtain w items' where f: "f items = Inr (w, items')"
    using assms s same i by (cases "f items") (auto simp: mutate_items_def op_bind_def recover_interrupted_publish_def edit_def op_res_def)
  obtain r st2 where sv: "save_items_atomic env items' st1 = (r, st2)" by force
  have "r = Inr () \<and> w = v \<and> st2 = st'"
    using assms s same i f sv by (cases r) (simp_all add: mutate_items_def op_bind_def recover_interrupted_publish_def edit_def op_res_def)
  with i f sv saved show ?thesis by blast
qed

section \<open>Done\<close>

lemma push_full: "push k v i = Inr j \<Longrightarrow> full i \<Longrightarrow> full j"
  by (auto simp: push_Inr full_def)

lemma done_item_facts:
  assumes "done_item env res note i = Inr j" "full i"
  shows "full j \<and> jget j ''done'' = JBool True \<and> jget j ''done_reviewed'' = jget i ''done_reviewed''"
proof -
  have note_facts: "full b \<and> jget b ''done_reviewed'' = jget a ''done_reviewed''" if "push k v a = Inr b" "full a" "k \<in> {''notes'', ''audit''}" for k v a b
    using that push_full [OF that(1,2)] by (auto simp: push_Inr jget_setdefault)
  from assms(1) obtain i1 where i1: "(if strip note = [] then Inr i else add_note env (strip note) i) = Inr i1"
    and j: "append_audit env ''done'' [(''resolution'', JStr res)]
         (jput ''resolution'' (JStr res)
           (setdefault ''closed_by'' (JStr (te_actor env)) (setdefault ''closed_at'' (JStr (te_now env))
             (jput ''done_by'' (JStr (te_actor env)) (jput ''done_at'' (JStr (te_now env)) (jput ''done'' (JBool True) i1)))))) = Inr j"
    by (auto simp: done_item_def and_then_Inr)
  have "full i1 \<and> jget i1 ''done_reviewed'' = jget i ''done_reviewed''"
    using i1 assms(2) note_facts by (auto simp: add_note_def and_then_Inr append_audit_def split: if_split_asm)
  then show ?thesis using j by (auto simp: append_audit_def push_Inr jget_setdefault full_def)
qed

text \<open>
  C29. The guard of \<open>done\<close>. When \<open>done\<close> answers, the item existed and was not done; without \<open>--force\<close>
  every blocker it names is a done-reviewed row of the store. The file then holds the same items in the
  same order, only this one changed: it is done, and no more reviewed than it was.
\<close>

theorem done_needs_reviewed_blockers:
  assumes "cmd_done env k force res note st = (Inr (), st')" "\<not> ts_marker st"
  shows "\<exists>items i items' j. task_items st = Inr items \<and> find_item k items = Some i \<and> jget i ''done'' \<noteq> JBool True
     \<and> (force \<or> list_all (\<lambda>b. \<exists>r. find_item (py_str b) items = Some r \<and> is_done_reviewed r) (list_of (jget i ''blocked_by'')))
     \<and> task_items st' = Inr items' \<and> items' = change_item k (\<lambda>_. j) items \<and> item_id j = k \<and> jget j ''done'' = JBool True
     \<and> jget j ''done_reviewed'' = jget i ''done_reviewed''"
proof -
  from answered_mutation [OF assms(1) [unfolded cmd_done_def] assms(2)] obtain items items' where
    i: "task_items st = Inr items" "done_update env k force res note items = Inr items'" "list_all full items' \<longrightarrow> holds items' st'"
    by (auto simp: and_then_Inr)
  from done_update_Inr [OF i(2)] obtain it us where it: "find_item k items = Some it" "jget it ''done'' \<noteq> JBool True"
    "unsatisfied_blockers items it = Inr us" "us = [] \<or> force" "on_item k (done_item env res note) items = Inr items'" by blast
  from it(1,5) obtain j where j: "done_item env res note it = Inr j" "items' = change_item k (\<lambda>_. j) items"
    by (auto simp: on_item_def and_then_Inr)
  have fi: "full it" using task_items_full [OF i(1)] find_item_Some [OF it(1)] by (simp add: list_all_iff)
  note d = done_item_facts [OF j(1) fi]
  have "list_all full items'" using task_items_full [OF i(1)] d by (auto simp: j(2) change_item_def list_all_iff)
  then have "task_items st' = Inr items'" using i(3) holds_reads by blast
  moreover have "item_id j = k" using grows_done_item [OF j(1)] find_item_Some [OF it(1)] by (simp add: grows_def)
  moreover have "force \<or> list_all (\<lambda>b. \<exists>r. find_item (py_str b) items = Some r \<and> is_done_reviewed r) (list_of (jget it ''blocked_by''))"
    using it(3,4) blockers_satisfied by (auto simp: list_all_iff)
  ultimately show ?thesis using i(1) it(1,2) j(2) d by blast
qed

theorem done_needs_reviewed_blockers_witness:
  "\<exists>items'. task_items (snd (cmd_done sample_task_env ''t-001'' False ''done'' [] one_item_store)) = Inr items'"
proof -
  have "cmd_done sample_task_env ''t-001'' False ''done'' [] one_item_store
     = (Inr (), snd (cmd_done sample_task_env ''t-001'' False ''done'' [] one_item_store))" by code_simp
  moreover have "\<not> ts_marker one_item_store" by code_simp
  ultimately show ?thesis using done_needs_reviewed_blockers by blast
qed

section \<open>Capture\<close>

text \<open>A list field is settled for a filing when the union with its values changes nothing.\<close>

definition union_field :: "string list \<Rightarrow> json \<Rightarrow> json list" where
  "union_field incoming v = map JStr (dedupe_strs (list_of v @ map JStr incoming))"

definition list_settled :: "string list \<Rightarrow> json \<Rightarrow> bool" where
  "list_settled incoming v \<longleftrightarrow> incoming = [] \<or> union_field incoming v = list_of v"

text \<open>Both merges keep the item or record the field they changed.\<close>

lemma fold_recorded:
  assumes "snd (fold g fs r) = []" "\<And>f r. f \<in> set fs \<Longrightarrow> g f r = r \<or> (\<exists>k. snd (g f r) = snd r @ [k])"
  shows "fold g fs r = r \<and> snd r = []"
  using assms
proof (induction fs arbitrary: r)
  case (Cons f fs)
  have "fold g fs (g f r) = g f r \<and> snd (g f r) = []"
    by (rule Cons.IH) (use Cons.prems(1) in simp, rule Cons.prems(2), simp)
  with Cons.prems(2) [of f r] show ?case by force
qed simp

lemma list_field_step:
  "merge_list_field (k, vs) (i, c) = (if list_settled vs (jget i k) then (i, c) else (jput k (JList (union_field vs (jget i k))) i, c @ [k]))"
  unfolding merge_list_field_def prod.case Let_def union_field_def [symmetric] list_settled_def by simp

lemma scalar_field_step:
  "merge_scalar_field g k (i, c) = (if blank_or_empty (jget g k) \<or> jget i k = jget g k then (i, c) else (jput k (jget g k) i, c @ [k]))"
  by (simp add: merge_scalar_field_def)

lemma list_field_recorded: "merge_list_field f r = r \<or> (\<exists>k. snd (merge_list_field f r) = snd r @ [k])"
  by (cases f; cases r) (simp add: list_field_step)

lemma scalar_field_recorded: "merge_scalar_field g k r = r \<or> (\<exists>x. snd (merge_scalar_field g k r) = snd r @ [x])"
  by (cases r) (auto simp: scalar_field_step)

lemma merge_unchanged:
  assumes "merge_capture_annotations a i = (j, [])"
  shows "j = i"
proof -
  let ?r = "fold merge_list_field [(''blocked_by'', split_csv (na_blocked_by a)), (''links'', split_csv (na_links a)),
          (''tags'', split_csv (na_tags a))] (i, [])"
  have "fold (merge_scalar_field (na_fields a)) [''acceptance'', ''prompt'', ''prompt_path'', ''pattern''] ?r = ?r \<and> snd ?r = []"
  proof (rule fold_recorded)
    show "snd (fold (merge_scalar_field (na_fields a)) [''acceptance'', ''prompt'', ''prompt_path'', ''pattern''] ?r) = []"
      using assms by (simp add: merge_capture_annotations_def)
  qed (rule scalar_field_recorded)
  moreover from this have "?r = (i, []) \<and> snd (i, [] :: string list) = []"
    by (intro fold_recorded) (simp del: fold_simps, rule list_field_recorded)
  ultimately show ?thesis using assms by (simp add: merge_capture_annotations_def del: fold_simps)
qed

definition settled :: "new_args \<Rightarrow> dict \<Rightarrow> bool" where
  "settled a i \<longleftrightarrow> list_settled (split_csv (na_blocked_by a)) (jget i ''blocked_by'')
     \<and> list_settled (split_csv (na_links a)) (jget i ''links'') \<and> list_settled (split_csv (na_tags a)) (jget i ''tags'')
     \<and> list_all (\<lambda>k. blank_or_empty (jget (na_fields a) k) \<or> jget i k = jget (na_fields a) k) [''acceptance'', ''prompt'', ''prompt_path'', ''pattern'']"

lemma merge_settled: "settled a i \<Longrightarrow> merge_capture_annotations a i = (i, [])"
  by (simp add: merge_capture_annotations_def settled_def list_field_step scalar_field_step)

definition merged_list :: "string list \<Rightarrow> json \<Rightarrow> json" where
  "merged_list incoming v = (if list_settled incoming v then v else JList (union_field incoming v))"

definition merged_scalar :: "json \<Rightarrow> json \<Rightarrow> json" where
  "merged_scalar given_value v = (if blank_or_empty given_value then v else given_value)"

lemma jget_merge_list: "jget (fst (merge_list_field (k, vs) r)) k' = (if k' = k then merged_list vs (jget (fst r) k) else jget (fst r) k')"
  by (cases r) (simp add: list_field_step merged_list_def)

lemma jget_merge_scalar: "jget (fst (merge_scalar_field g k r)) k' = (if k' = k then merged_scalar (jget g k) (jget (fst r) k) else jget (fst r) k')"
  by (cases r) (simp add: scalar_field_step merged_scalar_def)

lemma dedupe_onto_append: "dedupe_onto out (xs @ ys) = dedupe_onto (dedupe_onto out xs) ys"
  by (induction xs arbitrary: out) simp_all

lemma dedupe_onto_known: "(\<And>y. y \<in> set ys \<Longrightarrow> y = JStr [] \<or> py_str y \<in> set out) \<Longrightarrow> dedupe_onto out ys = out"
  by (induction ys) auto

lemma dedupe_onto_mono: "set out \<subseteq> set (dedupe_onto out vs)"
proof (induction vs arbitrary: out)
  case (Cons v vs)
  from Cons.IH [of out] Cons.IH [of "out @ [py_str v]"] show ?case by auto
qed simp

lemma dedupe_onto_covers: "s \<noteq> [] \<Longrightarrow> JStr s \<in> set vs \<Longrightarrow> s \<in> set (dedupe_onto out vs)"
proof (induction vs arbitrary: out)
  case (Cons v vs)
  show ?case
  proof (cases "v = JStr s")
    case True
    then have p: "py_str v = s" by (simp add: py_str_def)
    from dedupe_onto_mono [of out vs] dedupe_onto_mono [of "out @ [s]" vs] True p Cons.prems(1) show ?thesis by auto
  qed (use Cons in auto)
qed simp

lemma dedupe_onto_shape: "distinct out \<Longrightarrow> distinct (dedupe_onto out vs)"
  by (induction vs arbitrary: out) auto

lemma dedupe_strs_id: "distinct (out @ xs) \<Longrightarrow> [] \<notin> set xs \<Longrightarrow> dedupe_onto out (map JStr xs) = out @ xs"
  by (induction xs arbitrary: out) (auto simp: py_str_def)

lemma dedupe_onto_nonempty: "list_all is_str vs \<Longrightarrow> [] \<notin> set out \<Longrightarrow> [] \<notin> set (dedupe_onto out vs)"
proof (induction vs arbitrary: out)
  case (Cons v vs)
  then obtain s where "v = JStr s" by (cases v) (simp_all add: is_str_def)
  then show ?case using Cons.prems Cons.IH [of out] Cons.IH [of "out @ [s]"] by (auto simp: py_str_def)
qed simp

lemma union_absorbs:
  assumes "list_all is_str E" "d = dedupe_strs (E @ map JStr inc)"
  shows "dedupe_strs (map JStr d @ map JStr inc) = d"
proof -
  have "distinct d" unfolding assms(2) dedupe_strs_def by (rule dedupe_onto_shape) simp
  moreover have "[] \<notin> set d" unfolding assms(2) dedupe_strs_def
    by (rule dedupe_onto_nonempty) (use assms(1) in \<open>auto simp: list_all_iff is_str_def\<close>)
  ultimately have d: "dedupe_onto [] (map JStr d) = d" using dedupe_strs_id [of "[]" d] by simp
  have "dedupe_onto d (map JStr inc) = d"
  proof (rule dedupe_onto_known)
    fix y assume "y \<in> set (map JStr inc)"
    then obtain s where "y = JStr s" "JStr s \<in> set (E @ map JStr inc)" by auto
    then show "y = JStr [] \<or> py_str y \<in> set d"
      using dedupe_onto_covers [of s "E @ map JStr inc" "[]"] unfolding assms(2) dedupe_strs_def
      by (cases "s = []") (simp_all add: py_str_def)
  qed
  with d show ?thesis by (simp add: dedupe_strs_def dedupe_onto_append)
qed

lemma list_settled_merged: "list_all is_str (list_of v) \<Longrightarrow> list_settled inc (merged_list inc v)"
  using union_absorbs [of "list_of v" _ inc] by (simp add: merged_list_def list_settled_def union_field_def)

definition text_lists :: "dict \<Rightarrow> bool" where
  "text_lists i \<longleftrightarrow> list_all (\<lambda>k. list_all is_str (list_of (jget i k))) [''blocked_by'', ''links'', ''tags'']"

lemma settled_merge: "text_lists i \<Longrightarrow> settled a (fst (merge_capture_annotations a i))"
  by (simp add: settled_def merge_capture_annotations_def jget_merge_list jget_merge_scalar list_settled_merged text_lists_def merged_scalar_def)

lemma jget_put_fields_eq:
  "jget (put_fields g ks i) k = (if k \<in> set ks \<and> \<not> blank_or_empty (jget g k) then jget g k else jget i k)"
  unfolding put_fields_def by (induction ks arbitrary: i) auto

lemma settled_new: "settled a (new_item env a key k)"
proof -
  have j: "jget (new_item env a key k) f = jget (make_item env k (na_kind a) (na_title a) (split_csv (na_blocked_by a))
      (split_csv (na_links a)) (split_csv (na_tags a)) (na_lane a)) f" if "f \<in> {''blocked_by'', ''links'', ''tags''}" for f
    using that by (auto simp: new_item_def Let_def jget_put_fields_eq NEW_FIELDS_def split: option.split)
  have m: "jget (make_item env k kind title b l t lane) ''blocked_by'' = strs (dedupe_strs (map JStr b))"
      "jget (make_item env k kind title b l t lane) ''links'' = strs (dedupe_strs (map JStr l))"
      "jget (make_item env k kind title b l t lane) ''tags'' = strs (dedupe_strs (map JStr t))" for kind title b l t lane
    by (simp_all add: make_item_def jget_def split: option.split)
  have f: "list_settled inc (strs (dedupe_strs (map JStr inc)))" for inc
    using union_absorbs [of "[]" _ inc] by (simp add: list_settled_def union_field_def strs_def)
  have g: "blank_or_empty (jget (na_fields a) f) \<or> jget (new_item env a key k) f = jget (na_fields a) f"
    if "f \<in> {''acceptance'', ''prompt'', ''prompt_path'', ''pattern''}" for f
    using that by (auto simp: new_item_def Let_def jget_put_fields_eq NEW_FIELDS_def split: option.split)
  show ?thesis unfolding settled_def using j m f g by simp
qed

lemma find_snoc: "find P (xs @ [x]) = (case find P xs of None \<Rightarrow> if P x then Some x else None | Some y \<Rightarrow> Some y)"
  by (induction xs) auto

lemma captured_new:
  assumes "captured_as key items = None"
  shows "captured_as key (items @ [new_item env a (Some key) k]) = Some (new_item env a (Some key) k)"
proof -
  have "jget (make_item env k kind title b l t lane) ''done'' = JBool False" for kind title b l t lane
    by (simp add: make_item_def jget_def split: option.split)
  then have "\<not> truthy (jget (new_item env a (Some key) k) ''done'')" "jget (new_item env a (Some key) k) ''capture_key'' = JStr key"
    by (simp_all add: new_item_def Let_def jget_put_fields_eq NEW_FIELDS_def)
  then show ?thesis using assms by (simp add: captured_as_def find_snoc)
qed

lemma find_changed:
  assumes "find P items = Some i" "distinct_ids items" "P j"
  shows "find P (change_item (item_id i) (\<lambda>_. j) items) = Some j"
  using assms
proof (induction items)
  case (Cons x xs)
  show ?case
  proof (cases "P x")
    case False
    with Cons.prems have "find P xs = Some i" "distinct_ids xs" by (simp_all add: distinct_ids_def)
    moreover from this have "i \<in> set xs" by (auto simp: find_Some_iff)
    then have "item_id x \<noteq> item_id i" using Cons.prems(2) by (auto simp: distinct_ids_def)
    ultimately show ?thesis using Cons.IH Cons.prems(3) False by (simp add: change_item_def)
  qed (use Cons.prems in \<open>simp add: change_item_def\<close>)
qed simp

lemma recovered: "recover_interrupted_publish env st = (Inr u, st1) \<Longrightarrow> \<not> ts_marker st1"
  by (auto simp: recover_interrupted_publish_def repair_plan_def split: if_split_asm sum.split_asm publish_fate.split_asm)

lemma snapshot_valid:
  assumes "snapshot_last_good True st = (Inr u, st1)" "task_items st = Inr items"
  shows "ts_lines st = None \<or> (\<exists>js. validate_items_for_write items = Inr js)"
  using assms by (cases "validate_items_for_write items") (auto simp: snapshot_last_good_def split: option.split_asm)

text \<open>A store in which a filing is already settled answers with the item and keeps its file.\<close>

lemma capture_settled:
  assumes "\<not> ts_marker st" "task_items st = Inr items" "ts_lines st = None \<or> (\<exists>js. validate_items_for_write items = Inr js)"
    "captured_as key items = Some i" "settled a i" "\<not> na_allow_duplicate a"
    "validate_lane_arg (na_lane a) = Inr ()" "new_family a = Inr family"
  shows "\<exists>st'. create_captured env a key st = (Inr \<lparr>cr_id = item_id i, cr_minted = False, cr_merged = []\<rparr>, st')
    \<and> ts_lines st' = ts_lines st \<and> ts_seq st' = ts_seq st"
proof -
  have "fst (snapshot_last_good True st) = Inr ()"
    using assms(2,3) by (cases "ts_lines st") (auto simp: snapshot_last_good_def)
  then obtain st1 where s: "snapshot_last_good True st = (Inr (), st1)" by (metis prod.collapse)
  then have same: "ts_lines st1 = ts_lines st" "ts_seq st1 = ts_seq st" "task_items st1 = Inr items"
    using snapshot_same [of True st] assms(2) by (simp_all add: task_items_def)
  have "create_captured env a key st = capture_into env a key family items st1"
    using assms(1,7,8) s same(3) by (simp add: create_captured_def op_bind_def op_res_def recover_interrupted_publish_def)
  also have "\<dots> = (Inr \<lparr>cr_id = item_id i, cr_minted = False, cr_merged = []\<rparr>, st1)"
    using assms(4,6) merge_settled [OF assms(5)] by (simp add: capture_into_def op_res_def)
  finally show ?thesis using same by blast
qed

lemma created_parts:
  assumes "create_captured env a key st = (Inr r, st')" "\<not> ts_marker st" "task_items st = Inr items"
  shows "\<exists>family st1. validate_lane_arg (na_lane a) = Inr () \<and> new_family a = Inr family
    \<and> capture_into env a key family items st1 = (Inr r, st') \<and> \<not> ts_marker st1 \<and> ts_lines st1 = ts_lines st
    \<and> (ts_lines st = None \<or> (\<exists>js. validate_items_for_write items = Inr js))"
proof -
  have lane: "validate_lane_arg (na_lane a) = Inr ()"
    using assms(1) by (cases "validate_lane_arg (na_lane a)") (simp_all add: create_captured_def op_bind_def op_res_def)
  obtain family where fam: "new_family a = Inr family"
    using assms(1) lane by (cases "new_family a") (simp_all add: create_captured_def op_bind_def op_res_def)
  obtain q st1 where s: "snapshot_last_good True st = (q, st1)" by force
  have q: "q = Inr ()"
    using assms(1,2) lane fam s by (cases q) (simp_all add: create_captured_def op_bind_def op_res_def recover_interrupted_publish_def)
  have same: "ts_lines st1 = ts_lines st" "\<not> ts_marker st1" "task_items st1 = Inr items"
    using snapshot_same [of True st] s assms(2,3) by (simp_all add: task_items_def)
  have "capture_into env a key family items st1 = (Inr r, st')"
    using assms(1,2) lane fam s q same(3) by (simp add: create_captured_def op_bind_def op_res_def recover_interrupted_publish_def)
  with lane fam same snapshot_valid [OF s [unfolded q] assms(3)] show ?thesis by blast
qed

lemma new_item_full: "full (new_item env a (Some key) k)"
proof -
  have "has_key (make_item env k kind title b l t lane) f" if "f \<in> {''schema_version'', ''blocked_by'', ''links'', ''done''}"
    for kind title b l t lane f
    using that by (auto simp: make_item_def has_key_def)
  then show ?thesis by (simp add: full_def new_item_def Let_def NEW_FIELDS_def jget_put_fields)
qed

text \<open>After a filing that answered, its item is settled in the file.\<close>

lemma capture_into_settles:
  assumes "capture_into env a key family items st = (Inr r, st')" "task_items st = Inr items" "\<not> ts_marker st"
    "list_all text_lists items" "\<not> na_allow_duplicate a" "ts_lines st = None \<or> (\<exists>js. validate_items_for_write items = Inr js)"
  shows "\<exists>items' i. task_items st' = Inr items' \<and> captured_as key items' = Some i \<and> settled a i \<and> item_id i = cr_id r
    \<and> \<not> ts_marker st' \<and> (ts_lines st' = None \<or> (\<exists>js. validate_items_for_write items' = Inr js))"
proof (cases "captured_as key items")
  case None
  from assms(1,5) None obtain k st1 items' st2 where k: "append_item env a (Some key) k items = Inr items'"
      "save_items_atomic env items' st1 = (Inr (), st2)" "st' = st2" "r = \<lparr>cr_id = k, cr_minted = True, cr_merged = []\<rparr>"
    by (auto simp: capture_into_def op_bind_def op_res_def split: sum.split_asm prod.split_asm)
  note n = append_item_grows [OF k(1)]
  have "full (new_item env a (Some key) k)"
    by (rule new_item_full)
  then have "list_all full items'" using task_items_full [OF assms(2)] n by simp
  with saved [OF k(2)] have h: "holds items' st'" "\<not> ts_marker st'" using k(3) by blast+
  then show ?thesis using holds_reads [OF h(1)] captured_new [OF None, of env a k] settled_new n k(4) new_item_ok by fastforce
next
  case (Some i)
  then have i: "i \<in> set items" by (auto simp: captured_as_def find_Some_iff)
  obtain j merged where m: "merge_capture_annotations a i = (j, merged)" by force
  have sj: "settled a j" using settled_merge [of i a] assms(4) i m by (auto simp: list_all_iff)
  show ?thesis
  proof (cases "merged = []")
    case True
    with m merge_unchanged have "j = i" by simp
    then have "st' = st" "cr_id r = item_id i" using assms(1,5) Some m True by (auto simp: capture_into_def op_res_def)
    then show ?thesis using assms(2,3,6) Some sj \<open>j = i\<close> by auto
  next
    case False
    from assms(1,5) Some m False obtain j' st2 where j': "append_audit env ''capture-merge'' [(''fields'', strs merged)] j = Inr j'"
        "save_items_atomic env (change_item (item_id i) (\<lambda>_. j') items) st = (Inr (), st2)" "st' = st2" "cr_id r = item_id i"
      by (auto simp: capture_into_def op_bind_def op_res_def split: sum.split_asm prod.split_asm)
    have ji: "jget j' k = jget j k" if "k \<noteq> ''audit''" for k using j'(1) that by (auto simp: append_audit_def push_Inr jget_setdefault)
    have "fst (merge_capture_annotations a i) = j" using m by simp
    then have jk: "jget j k = jget i k" if "k \<in> {''id'', ''done'', ''capture_key''}" for k
      using that by (auto simp: merge_capture_annotations_def jget_merge_list jget_merge_scalar)
    have "has_key j' k" if "has_key i k" for k
    proof -
      have "has_key (fst (merge_list_field f r)) k" if "has_key (fst r) k" for f r using that by (cases f; cases r) (simp add: list_field_step)
      moreover have "has_key (fst (merge_scalar_field g f r)) k" if "has_key (fst r) k" for g f r using that by (cases r) (simp add: scalar_field_step)
      ultimately have "has_key (fst (merge_capture_annotations a i)) k" using that by (simp add: merge_capture_annotations_def)
      then show ?thesis using m j'(1) by (auto simp: append_audit_def push_Inr)
    qed
    then have fj: "full j'" using task_items_full [OF assms(2)] i by (auto simp: full_def list_all_iff)
    let ?items = "change_item (item_id i) (\<lambda>_. j') items"
    have "list_all full ?items" using fj task_items_full [OF assms(2)] by (auto simp: change_item_def list_all_iff)
    with saved [OF j'(2)] j'(3) have h: "holds ?items st'" "\<not> ts_marker st'" by blast+
    have P: "\<not> truthy (jget j' ''done'') \<and> jget j' ''capture_key'' = JStr key"
      using Some ji jk by (auto simp: captured_as_def find_Some_iff)
    have "distinct_ids items" using task_items_grow [OF assms(2)] by blast
    with find_changed [OF Some [unfolded captured_as_def] _ P] have "captured_as key ?items = Some j'" by (simp add: captured_as_def)
    moreover have "settled a j'" using sj ji by (simp add: settled_def)
    moreover have "item_id j' = item_id i" using ji jk by (simp add: item_id_def)
    ultimately show ?thesis using holds_reads [OF h(1)] h(2) j'(4) by auto
  qed
qed

lemma capture_defaults_field: "k \<noteq> ''source'' \<Longrightarrow> jget (na_fields (capture_defaults cwd kind a)) k = jget (na_fields a) k"
  by (simp add: capture_defaults_def)

text \<open>
  Retrying a capture is silent. After a capture that answered, whether it filed a new item, merged
  annotations or found nothing to do, the same capture run again, at any later time, from any directory
  and by any actor, answers with the same id, files nothing, merges nothing and leaves the task file and
  the sequence numbers as they are.
\<close>

lemma capture_retry_is_silent:
  assumes "cmd_capture env cwd kind a st = (Inr r, st1)" "\<not> na_allow_duplicate a"
    "\<not> ts_marker st" "task_items st = Inr items" "list_all text_lists items"
    "te_root env2 = te_root env" "te_sha1 env2 = te_sha1 env"
  shows "\<exists>st2. cmd_capture env2 cwd2 kind a st1 = (Inr \<lparr>cr_id = cr_id r, cr_minted = False, cr_merged = []\<rparr>, st2)
    \<and> ts_lines st2 = ts_lines st1 \<and> ts_seq st2 = ts_seq st1"
proof -
  let ?b = "capture_defaults cwd kind a" and ?c = "capture_defaults cwd2 kind a"
  have same: "na_kind ?c = na_kind ?b" "na_lane ?c = na_lane ?b" "na_title ?c = na_title ?b" "na_family ?c = na_family ?b"
      "na_allow_duplicate ?b = na_allow_duplicate a" "na_allow_duplicate ?c = na_allow_duplicate a"
      "na_blocked_by ?c = na_blocked_by ?b" "na_links ?c = na_links ?b" "na_tags ?c = na_tags ?b"
    by (simp_all add: capture_defaults_def)
  then have key: "capture_content_key env2 ?c = capture_content_key env ?b" and fam: "new_family ?c = new_family ?b"
    using assms(6,7) by (simp_all add: capture_content_key_def short_hash_def capture_defaults_field)
      (simp only: new_family_def same)
  from created_parts [OF assms(1) [unfolded cmd_capture_def Let_def] assms(3,4)] obtain family st0 where
    f: "validate_lane_arg (na_lane ?b) = Inr ()" "new_family ?b = Inr family"
      "capture_into env ?b (capture_content_key env ?b) family items st0 = (Inr r, st1)" "\<not> ts_marker st0" "ts_lines st0 = ts_lines st"
      "ts_lines st = None \<or> (\<exists>js. validate_items_for_write items = Inr js)" by blast
  have "task_items st0 = Inr items" using f(5) assms(4) by (simp add: task_items_def)
  from capture_into_settles [OF f(3) this f(4) assms(5) _ f(6) [folded f(5)]] same(5) assms(2) obtain items' i where
    s: "task_items st1 = Inr items'" "captured_as (capture_content_key env ?b) items' = Some i" "settled ?b i" "item_id i = cr_id r"
      "\<not> ts_marker st1" "ts_lines st1 = None \<or> (\<exists>js. validate_items_for_write items' = Inr js)" by auto
  have "settled ?c i" using s(3) same by (simp add: settled_def capture_defaults_field)
  from capture_settled [OF s(5,1,6,2) this _ f(1) [folded same(2)] f(2) [folded fam], of env2] same(6) assms(2) s(4)
  show ?thesis unfolding cmd_capture_def Let_def key by auto
qed

lemma capture_retry_is_silent_witness:
  "\<exists>st2. cmd_capture (sample_task_env\<lparr>te_actor := ''worker:d1''\<rparr>) ''/elsewhere'' None sample_new
       (snd (cmd_capture sample_task_env ''/p'' None sample_new one_item_store))
     = (Inr \<lparr>cr_id = ''t-002'', cr_minted = False, cr_merged = []\<rparr>, st2)"
proof -
  have c: "cmd_capture sample_task_env ''/p'' None sample_new one_item_store
    = (Inr \<lparr>cr_id = ''t-002'', cr_minted = True, cr_merged = []\<rparr>, snd (cmd_capture sample_task_env ''/p'' None sample_new one_item_store))"
    by code_simp
  have m: "\<not> ts_marker one_item_store" by code_simp
  have i: "task_items one_item_store = Inr (stored_items one_item_store)" "list_all text_lists (stored_items one_item_store)" by code_simp+
  from capture_retry_is_silent [OF c _ m i, of "sample_task_env\<lparr>te_actor := ''worker:d1''\<rparr>"] show ?thesis by (auto simp: sample_new_def)
qed

end
