(* ===== verification/GF_Text.thy ===== *)
theory GF_Text
  imports GF_Limits
begin

text \<open>
  Texts and their lines: \<open>str.splitlines\<close>, substring search and trimming by a set of characters. A character is
  a code point below 256.
\<close>

definition line_break :: "char \<Rightarrow> bool" where
  "line_break c \<longleftrightarrow> (of_char c :: nat) \<in> {10, 11, 12, 13, 28, 29, 30, 133}"

fun splitlines :: "string \<Rightarrow> string list" where
  "splitlines [] = []"
| "splitlines (c # cs) =
     (if c = CHR 0x0D \<and> startswith cs [CHR 0x0A] then splitlines cs
      else if line_break c then [] # splitlines cs
      else case splitlines cs of [] \<Rightarrow> [[c]] | l # ls \<Rightarrow> (c # l) # ls)"

text \<open>\<open>part in whole\<close>.\<close>

fun contains :: "string \<Rightarrow> string \<Rightarrow> bool" where
  "contains whole part = (startswith whole part \<or> (case whole of [] \<Rightarrow> False | c # cs \<Rightarrow> contains cs part))"

declare contains.simps [simp del]

text \<open>The white space of \<open>\s\<close> and of \<open>str.strip\<close>, with the next-line and no-break characters.\<close>

definition wide_space :: "char \<Rightarrow> bool" where
  "wide_space c \<longleftrightarrow> py_space c \<or> (of_char c :: nat) \<in> {133, 160}"

definition trim :: "(char \<Rightarrow> bool) \<Rightarrow> string \<Rightarrow> string" where
  "trim P s = rev (dropWhile P (rev (dropWhile P s)))"

definition trim_end :: "(char \<Rightarrow> bool) \<Rightarrow> string \<Rightarrow> string" where
  "trim_end P s = rev (dropWhile P (rev s))"

lemma trim_Nil [simp]: "trim P [] = []" "trim_end P [] = []"
  by (simp_all add: trim_def trim_end_def)

end
