(* ===== verification/GF_Task_Text.thy ===== *)
theory GF_Task_Text
  imports GF_Task_Props GF_Text
begin

text \<open>
  The bytes of \<open>tasks.jsonl\<close>: how an item is printed (\<open>json.dumps\<close> with \<open>ensure_ascii=False\<close>), how the file
  is split into lines (\<open>str.splitlines\<close>) and how a line is decoded (\<open>json.loads\<close>). A character stands for a
  code point below 256. Floats, and escapes of code points above 255, are outside this theory.
  The universal newlines of \<open>read_text\<close> change only carriage returns, which end a line here in any case. The decoder
  carries fuel; every call either consumes a character or is followed by one that does, so twice the length
  of the text is enough.
\<close>

section \<open>Printing\<close>

definition QUOTE :: char where "QUOTE = CHR 0x22"
definition BACKSLASH :: char where "BACKSLASH = CHR 0x5C"

definition hex_digit :: "nat \<Rightarrow> char" where
  "hex_digit n = (if n < 10 then char_of (48 + n) else char_of (87 + n))"

definition escape_char :: "char \<Rightarrow> string" where
  "escape_char c = (let n = of_char c :: nat in
     if c = QUOTE then [BACKSLASH, QUOTE]
     else if c = BACKSLASH then [BACKSLASH, BACKSLASH]
     else if n = 8 then [BACKSLASH, CHR ''b'']
     else if n = 9 then [BACKSLASH, CHR ''t'']
     else if n = 10 then [BACKSLASH, CHR ''n'']
     else if n = 12 then [BACKSLASH, CHR ''f'']
     else if n = 13 then [BACKSLASH, CHR ''r'']
     else if n < 32 then [BACKSLASH, CHR ''u'', CHR ''0'', CHR ''0'', hex_digit (n div 16), hex_digit (n mod 16)]
     else [c])"

definition quote :: "string \<Rightarrow> string" where
  "quote s = QUOTE # concat (map escape_char s) @ [QUOTE]"

definition show_int :: "int \<Rightarrow> string" where
  "show_int i = (if i < 0 then ''-'' @ show_nat (nat (- i)) else show_nat (nat i))"

primrec dumps :: "json \<Rightarrow> string" where
  "dumps JNull = ''null''"
| "dumps (JBool b) = (if b then ''true'' else ''false'')"
| "dumps (JInt i) = show_int i"
| "dumps (JFloat r) = []"
| "dumps (JStr s) = quote s"
| "dumps (JList xs) = ''['' @ join_on '','' (map dumps xs) @ '']''"
| "dumps (JObj d) = ''{'' @ join_on '','' (map (\<lambda>(k, t). quote k @ '':'' @ t) (map (map_prod id dumps) d)) @ ''}''"

text \<open>\<open>_items_jsonl\<close>.\<close>

definition items_jsonl :: "dict list \<Rightarrow> string" where
  "items_jsonl items = concat (map (\<lambda>i. dumps (JObj i) @ [CHR 0x0A]) items)"

section \<open>Decoding\<close>

fun skip_ws :: "string \<Rightarrow> string" where
  "skip_ws [] = []"
| "skip_ws (c # cs) = (if c \<in> {CHR 0x20, CHR 0x09, CHR 0x0A, CHR 0x0D} then skip_ws cs else c # cs)"

definition hex_value :: "char \<Rightarrow> nat option" where
  "hex_value c = (let n = of_char c :: nat in
     if 48 \<le> n \<and> n \<le> 57 then Some (n - 48) else if 97 \<le> n \<and> n \<le> 102 then Some (n - 87)
     else if 65 \<le> n \<and> n \<le> 70 then Some (n - 55) else None)"

definition unescape :: "char \<Rightarrow> char option" where
  "unescape c = (if c \<in> {QUOTE, BACKSLASH, CHR ''/''} then Some c
     else map_of [(CHR ''b'', CHR 0x08), (CHR ''f'', CHR 0x0C), (CHR ''n'', CHR 0x0A), (CHR ''r'', CHR 0x0D), (CHR ''t'', CHR 0x09)] c)"

definition code_unit :: "char \<Rightarrow> char \<Rightarrow> char \<Rightarrow> char \<Rightarrow> char option" where
  "code_unit a b c d = (case (hex_value a, hex_value b, hex_value c, hex_value d) of
      (Some w, Some x, Some y, Some z) \<Rightarrow>
        (let n = ((w * 16 + x) * 16 + y) * 16 + z in if n < 256 then Some (char_of n) else None)
    | _ \<Rightarrow> None)"

text \<open>The rest of a string literal after its opening quote; control characters are refused.\<close>

fun scan_string :: "string \<Rightarrow> (string \<times> string) option" where
  "scan_string [] = None"
| "scan_string (c # cs) =
     (if c = QUOTE then Some ([], cs)
      else if c = BACKSLASH then
        (case cs of
           [] \<Rightarrow> None
         | e # es \<Rightarrow>
             if e = CHR ''u'' then
               (case es of
                  h1 # h2 # h3 # h4 # r \<Rightarrow>
                    (case code_unit h1 h2 h3 h4 of None \<Rightarrow> None | Some x \<Rightarrow> map_option (apfst (Cons x)) (scan_string r))
                | _ \<Rightarrow> None)
             else (case unescape e of None \<Rightarrow> None | Some x \<Rightarrow> map_option (apfst (Cons x)) (scan_string es)))
      else if (of_char c :: nat) < 32 then None
      else map_option (apfst (Cons c)) (scan_string cs))"

definition scan_nat :: "string \<Rightarrow> (int \<times> string) option" where
  "scan_nat s = (case s of
      [] \<Rightarrow> None
    | c # cs \<Rightarrow> if c = CHR ''0'' then Some (0, cs)
        else if ascii_digit c then map_option (\<lambda>v. (v, dropWhile ascii_digit s)) (digits_value (takeWhile ascii_digit s) 0)
        else None)"

definition float_follows :: "string \<Rightarrow> bool" where
  "float_follows s \<longleftrightarrow> s \<noteq> [] \<and> hd s \<in> {CHR ''.'', CHR ''e'', CHR ''E''}"

definition scan_number :: "string \<Rightarrow> (json \<times> string) option" where
  "scan_number s = (case (if startswith s ''-'' then map_option (apfst uminus) (scan_nat (tl s)) else scan_nat s) of
      None \<Rightarrow> None | Some (v, r) \<Rightarrow> if float_follows r then None else Some (JInt v, r))"

definition scan_word :: "string \<Rightarrow> json \<Rightarrow> string \<Rightarrow> (json \<times> string) option" where
  "scan_word w v s = (if startswith s w then Some (v, drop (length w) s) else None)"

definition dict_of_pairs :: "(string \<times> json) list \<Rightarrow> dict" where
  "dict_of_pairs ps = fold (\<lambda>(k, v). jput k v) ps []"

fun scan_value :: "nat \<Rightarrow> string \<Rightarrow> (json \<times> string) option"
  and scan_elems :: "nat \<Rightarrow> string \<Rightarrow> (json list \<times> string) option"
  and scan_members :: "nat \<Rightarrow> string \<Rightarrow> ((string \<times> json) list \<times> string) option" where
  "scan_value 0 s = None"
| "scan_value (Suc n) s = (case s of
      [] \<Rightarrow> None
    | c # cs \<Rightarrow>
        if c = QUOTE then map_option (apfst JStr) (scan_string cs)
        else if c = CHR ''{'' then
          (if startswith (skip_ws cs) ''}'' then Some (JObj [], tl (skip_ws cs))
           else map_option (apfst (JObj \<circ> dict_of_pairs)) (scan_members n (skip_ws cs)))
        else if c = CHR ''['' then
          (if startswith (skip_ws cs) '']'' then Some (JList [], tl (skip_ws cs))
           else map_option (apfst JList) (scan_elems n (skip_ws cs)))
        else if c = CHR ''n'' then scan_word ''null'' JNull s
        else if c = CHR ''t'' then scan_word ''true'' (JBool True) s
        else if c = CHR ''f'' then scan_word ''false'' (JBool False) s
        else scan_number s)"
| "scan_elems 0 s = None"
| "scan_elems (Suc n) s = (case scan_value n s of
      None \<Rightarrow> None
    | Some (v, r) \<Rightarrow> (case skip_ws r of
          [] \<Rightarrow> None
        | c # cs \<Rightarrow> if c = CHR '']'' then Some ([v], cs)
            else if c = CHR '','' then map_option (apfst (Cons v)) (scan_elems n (skip_ws cs)) else None))"
| "scan_members 0 s = None"
| "scan_members (Suc n) s = (case s of
      [] \<Rightarrow> None
    | q # qs \<Rightarrow> if q \<noteq> QUOTE then None else (case scan_string qs of
          None \<Rightarrow> None
        | Some (k, r) \<Rightarrow> (case skip_ws r of
              [] \<Rightarrow> None
            | c # cs \<Rightarrow> if c \<noteq> CHR '':'' then None else (case scan_value n (skip_ws cs) of
                  None \<Rightarrow> None
                | Some (v, r') \<Rightarrow> (case skip_ws r' of
                      [] \<Rightarrow> None
                    | e # es \<Rightarrow> if e = CHR ''}'' then Some ([(k, v)], es)
                        else if e = CHR '','' then map_option (apfst (Cons (k, v))) (scan_members n (skip_ws es)) else None)))))"

text \<open>\<open>json.loads\<close> of one line; \<open>None\<close> is the \<open>JSONDecodeError\<close>.\<close>

definition loads :: "string \<Rightarrow> json option" where
  "loads s = (case scan_value (2 * length s) (skip_ws s) of
      None \<Rightarrow> None | Some (v, r) \<Rightarrow> if skip_ws r = [] then Some v else None)"

section \<open>Lines\<close>

text \<open>
  What \<open>_parse_jsonl\<close> decodes of the text: lines of white space only, the no-break space included, are
  skipped.
\<close>

definition blank_line :: "string \<Rightarrow> bool" where
  "blank_line l \<longleftrightarrow> list_all (\<lambda>c. py_space c \<or> c = CHR 0xA0) l"

definition read_lines :: "string \<Rightarrow> json option list" where
  "read_lines text = map loads (filter (\<lambda>l. \<not> blank_line l) (splitlines text))"

section \<open>Printed text is decoded\<close>

lemma hex_back: "n < 16 \<Longrightarrow> hex_value (hex_digit n) = Some n"
  by (cases "n < 10") (simp_all add: hex_digit_def hex_value_def Let_def)

lemma code_unit_low:
  assumes "n < 32"
  shows "code_unit (CHR ''0'') (CHR ''0'') (hex_digit (n div 16)) (hex_digit (n mod 16)) = Some (char_of n)"
proof -
  have z: "hex_value CHR ''0'' = Some 0" by code_simp
  have h: "hex_value (hex_digit (n div 16)) = Some (n div 16)" "hex_value (hex_digit (n mod 16)) = Some (n mod 16)"
    using assms by (intro hex_back; simp)+
  have v: "((0 * 16 + 0) * 16 + n div 16) * 16 + n mod 16 = n" by simp
  have "n < 256" using assms by simp
  then show ?thesis unfolding code_unit_def z h prod.case option.case Let_def v by (simp only: if_True)
qed

lemma control_chars [simp]: "char_of (8 :: nat) = CHR 0x08" "char_of (9 :: nat) = CHR 0x09" "char_of (10 :: nat) = CHR 0x0A"
    "char_of (12 :: nat) = CHR 0x0C" "char_of (13 :: nat) = CHR 0x0D"
  by code_simp+

lemma char_codes [simp]: "(of_char QUOTE :: nat) = 34" "(of_char BACKSLASH :: nat) = 92" "QUOTE \<noteq> BACKSLASH" "BACKSLASH \<noteq> QUOTE"
    "QUOTE \<noteq> CHR ''u''" "BACKSLASH \<noteq> CHR ''u''"
  by (simp_all add: QUOTE_def BACKSLASH_def)

lemma unescape_letters [simp]: "unescape CHR ''b'' = Some CHR 0x08" "unescape CHR ''f'' = Some CHR 0x0C" "unescape CHR ''n'' = Some CHR 0x0A"
    "unescape CHR ''r'' = Some CHR 0x0D" "unescape CHR ''t'' = Some CHR 0x09" "unescape QUOTE = Some QUOTE" "unescape BACKSLASH = Some BACKSLASH"
  by (simp_all add: unescape_def QUOTE_def BACKSLASH_def)

lemma scan_escape: "scan_string (BACKSLASH # e # t) = (if e = CHR ''u'' then
     (case t of h1 # h2 # h3 # h4 # r \<Rightarrow>
          (case code_unit h1 h2 h3 h4 of None \<Rightarrow> None | Some x \<Rightarrow> map_option (apfst (Cons x)) (scan_string r)) | _ \<Rightarrow> None)
   else (case unescape e of None \<Rightarrow> None | Some x \<Rightarrow> map_option (apfst (Cons x)) (scan_string t)))"
  by simp

lemma scan_escaped_char: "scan_string (escape_char c @ t) = map_option (apfst (Cons c)) (scan_string t)"
proof -
  define n where "n = (of_char c :: nat)"
  then have c: "c = char_of n" by simp
  consider "c = QUOTE" | "c = BACKSLASH" | "n \<in> {8, 9, 10, 12, 13}" | "n < 32" "n \<notin> {8, 9, 10, 12, 13}"
    | "32 \<le> n" "c \<noteq> QUOTE" "c \<noteq> BACKSLASH" by linarith
  then show ?thesis
  proof cases
    case 1
    then show ?thesis by (simp add: escape_char_def scan_escape del: scan_string.simps)
  next
    case 2
    then show ?thesis by (simp add: escape_char_def scan_escape del: scan_string.simps)
  next
    case 3
    then have "c \<noteq> QUOTE" "c \<noteq> BACKSLASH" using n_def by auto
    with 3 have "escape_char c = [BACKSLASH, the (map_of [(8, CHR ''b''), (9, CHR ''t''), (10, CHR ''n''), (12, CHR ''f''), (13, CHR ''r'')] n)]"
      by (auto simp: escape_char_def Let_def n_def [symmetric])
    with 3 show ?thesis by (auto simp: scan_escape c simp del: scan_string.simps)
  next
    case 4
    then have q: "c \<noteq> QUOTE" "c \<noteq> BACKSLASH" using n_def by (auto simp: char_codes)
    have "escape_char c = [BACKSLASH, CHR ''u'', CHR ''0'', CHR ''0'', hex_digit (n div 16), hex_digit (n mod 16)]"
      using 4 q by (simp add: escape_char_def Let_def n_def [symmetric])
    then show ?thesis using code_unit_low [OF 4(1)] by (simp add: scan_escape c [symmetric] del: scan_string.simps)
  next
    case 5
    then have "escape_char c = [c]" by (simp add: escape_char_def Let_def n_def [symmetric])
    with 5 show ?thesis by (simp add: n_def [symmetric])
  qed
qed

lemma scan_quoted: "scan_string (concat (map escape_char s) @ QUOTE # t) = Some (s, t)"
  by (induction s) (simp_all add: scan_escaped_char del: scan_string.simps, simp)

text \<open>What may follow a value: nothing a number could swallow.\<close>

definition ends_value :: "string \<Rightarrow> bool" where
  "ends_value t \<longleftrightarrow> t = [] \<or> \<not> ascii_digit (hd t) \<and> hd t \<notin> {CHR ''.'', CHR ''e'', CHR ''E''}"

lemma shown_digits: "list_all ascii_digit (show_nat n) \<and> show_nat n \<noteq> [] \<and> (hd (show_nat n) = CHR ''0'' \<longrightarrow> n = 0)"
proof (induction n rule: show_nat.induct)
  case (1 n)
  have d: "ascii_digit (char_of (48 + n mod 10))" by (rule ascii_digit_pad)
  show ?case
  proof (cases "n < 10")
    case True
    then have "show_nat n = [char_of (48 + n)]" by (simp add: show_nat.simps)
    moreover have "char_of (48 + n) = CHR ''0'' \<longrightarrow> n = 0"
    proof
      assume "char_of (48 + n) = CHR ''0''"
      then have "(of_char (char_of (48 + n) :: char) :: nat) = of_char CHR ''0''" by simp
      then show "n = 0" using True by simp
    qed
    ultimately show ?thesis using d True by simp
  next
    case False
    then have "n div 10 \<noteq> 0" by linarith
    with 1 d False show ?thesis by (simp add: show_nat.simps [of n])
  qed
qed

lemma takeWhile_digits: "list_all P xs \<Longrightarrow> t = [] \<or> \<not> P (hd t) \<Longrightarrow> takeWhile P (xs @ t) = xs \<and> dropWhile P (xs @ t) = t"
  by (induction xs) (cases t; simp)+

lemma scan_shown_nat:
  assumes "ends_value t"
  shows "scan_nat (show_nat n @ t) = Some (int n, t)"
proof -
  from shown_digits [of n] obtain c cs where s: "show_nat n = c # cs" "list_all ascii_digit (c # cs)" "c = CHR ''0'' \<longrightarrow> n = 0"
    by (cases "show_nat n") auto
  show ?thesis
  proof (cases "c = CHR ''0''")
    case True
    then have "n = 0" using s(3) by simp
    then have "cs = []" using s(1) by (simp add: show_nat.simps)
    then show ?thesis using True \<open>n = 0\<close> s(1) by (simp add: scan_nat_def)
  next
    case False
    have "takeWhile ascii_digit (show_nat n @ t) = show_nat n \<and> dropWhile ascii_digit (show_nat n @ t) = t"
      by (rule takeWhile_digits) (use s assms in \<open>auto simp: ends_value_def\<close>)
    then show ?thesis using False s show_nat_value [of n] by (simp add: scan_nat_def)
  qed
qed

lemma scan_shown_int:
  assumes "ends_value t"
  shows "scan_number (show_int i @ t) = Some (JInt i, t)"
proof -
  have f: "\<not> float_follows t" using assms by (auto simp: float_follows_def ends_value_def)
  have "\<not> startswith (show_nat n @ t) ''-''" for n
    using shown_digits [of n] by (cases "show_nat n") (auto simp: startswith_def ascii_digit_def)
  then show ?thesis using scan_shown_nat [OF assms] f
    by (simp add: scan_number_def show_int_def startswith_def)
qed

text \<open>
  The values the store prints faithfully: no floats, no key twice in an object, and no text with the
  line break \<open>U+0085\<close> that printing does not escape.
\<close>

definition no_next_line :: "string \<Rightarrow> bool" where
  "no_next_line s \<longleftrightarrow> CHR 0x85 \<notin> set s"

primrec plain :: "json \<Rightarrow> bool" where
  "plain JNull = True"
| "plain (JBool b) = True"
| "plain (JInt i) = True"
| "plain (JFloat r) = False"
| "plain (JStr s) = no_next_line s"
| "plain (JList xs) = list_all id (map plain xs)"
| "plain (JObj d) = (distinct (map fst d) \<and> list_all no_next_line (map fst d) \<and> list_all snd (map (map_prod id plain) d))"

definition member_text :: "string \<times> json \<Rightarrow> string" where
  "member_text p = quote (fst p) @ '':'' @ dumps (snd p)"

lemma dumps_obj: "dumps (JObj d) = ''{'' @ join_on '','' (map member_text d) @ ''}''"
  by (simp add: member_text_def [abs_def] comp_def case_prod_unfold)

lemma plain_obj: "plain (JObj d) \<longleftrightarrow> distinct (map fst d) \<and> list_all (\<lambda>p. no_next_line (fst p) \<and> plain (snd p)) d"
  by (auto simp: list_all_iff)

definition starts_value :: "string \<Rightarrow> bool" where
  "starts_value s \<longleftrightarrow> s \<noteq> [] \<and> hd s \<notin> {CHR 0x20, CHR 0x09, CHR 0x0A, CHR 0x0D, CHR '']'', CHR ''}''}"

lemma show_int_starts: "\<exists>c cs. show_int i = c # cs \<and> (c = CHR ''-'' \<or> ascii_digit c)"
  using shown_digits [of "nat i"] by (cases "show_nat (nat i)") (auto simp: show_int_def)

lemma dumps_starts: "plain j \<Longrightarrow> starts_value (dumps j)"
proof (cases j)
  case (JInt i)
  obtain c cs where "show_int i = c # cs" "c = CHR ''-'' \<or> ascii_digit c" using show_int_starts by blast
  then show ?thesis unfolding JInt by (auto simp: starts_value_def ascii_digit_def)
qed (simp_all add: starts_value_def quote_def QUOTE_def)

lemma skip_ws_starts: "starts_value s \<Longrightarrow> skip_ws (s @ t) = s @ t"
  by (cases s) (auto simp: starts_value_def)

lemma starts_not_closed:
  assumes "starts_value s"
  shows "\<not> startswith (s @ t) '']''" "\<not> startswith (s @ t) ''}''"
  using assms by (cases s; simp add: starts_value_def startswith_def)+

lemma member_starts: "starts_value (member_text p)"
  by (simp add: starts_value_def member_text_def quote_def QUOTE_def)

lemma join_starts: "starts_value x \<Longrightarrow> starts_value (join_on sep (x # xs))"
  by (cases xs) (auto simp: starts_value_def)

lemma ends_value_punct [simp]: "ends_value (CHR '','' # t)" "ends_value (CHR '']'' # t)" "ends_value (CHR ''}'' # t)" "ends_value []"
  by (simp_all add: ends_value_def ascii_digit_def)

definition decodes :: "json \<Rightarrow> bool" where
  "decodes j \<longleftrightarrow> (\<forall>n t. 2 * length (dumps j) \<le> n \<longrightarrow> ends_value t \<longrightarrow> scan_value n (dumps j @ t) = Some (j, t))"

lemma decodesD: "decodes j \<Longrightarrow> 2 * length (dumps j) \<le> n \<Longrightarrow> ends_value t \<Longrightarrow> scan_value n (dumps j @ t) = Some (j, t)"
  by (simp add: decodes_def)

lemma scan_elems_printed:
  assumes "list_all (\<lambda>x. plain x \<and> decodes x) xs" "xs \<noteq> []" "2 * length (join_on '','' (map dumps xs)) + 1 \<le> n"
  shows "scan_elems n (join_on '','' (map dumps xs) @ CHR '']'' # t) = Some (xs, t)"
  using assms
proof (induction xs arbitrary: n)
  case (Cons x xs)
  then obtain m where m: "n = Suc m" by (cases n) auto
  show ?case
  proof (cases xs)
    case Nil
    then have "scan_value m (dumps x @ CHR '']'' # t) = Some (x, CHR '']'' # t)"
      using Cons.prems by (intro decodesD) (simp_all add: m)
    then show ?thesis by (simp add: m Nil)
  next
    case more: (Cons y ys)
    then have len: "2 * length (dumps x) + 2 + 2 * length (join_on '','' (map dumps xs)) \<le> m" using Cons.prems by (simp add: m)
    let ?r = "join_on '','' (map dumps xs) @ CHR '']'' # t"
    have "scan_value m (dumps x @ CHR '','' # ?r) = Some (x, CHR '','' # ?r)"
      using Cons.prems len by (intro decodesD) simp_all
    moreover have "scan_elems m ?r = Some (xs, t)" using Cons.prems len more by (intro Cons.IH) simp_all
    moreover have "skip_ws ?r = ?r" using Cons.prems more by (intro skip_ws_starts) (simp add: join_starts dumps_starts)
    moreover have "join_on '','' (map dumps (x # xs)) @ CHR '']'' # t = dumps x @ CHR '','' # ?r" by (simp add: more)
    ultimately show ?thesis by (simp add: m)
  qed
qed simp

lemma scan_members_printed:
  assumes "list_all (\<lambda>p. plain (snd p) \<and> decodes (snd p)) d" "d \<noteq> []" "2 * length (join_on '','' (map member_text d)) + 1 \<le> n"
  shows "scan_members n (join_on '','' (map member_text d) @ CHR ''}'' # t) = Some (d, t)"
  using assms
proof (induction d arbitrary: n)
  case (Cons p d)
  then obtain m where m: "n = Suc m" by (cases n) auto
  obtain k v where p: "p = (k, v)" by force
  have pv: "plain v" "decodes v" using Cons.prems(1) by (simp_all add: p)
  have head: "scan_members (Suc m) (member_text p @ r) = (case scan_value m (dumps v @ r) of None \<Rightarrow> None
      | Some (w, r') \<Rightarrow> (case skip_ws r' of [] \<Rightarrow> None
        | e # es \<Rightarrow> if e = CHR ''}'' then Some ([(k, w)], es)
            else if e = CHR '','' then map_option (apfst (Cons (k, w))) (scan_members m (skip_ws es)) else None))" for r
    using skip_ws_starts [OF dumps_starts [OF pv(1)], of r]
    by (simp add: p member_text_def quote_def scan_quoted del: scan_string.simps)
  show ?case
  proof (cases d)
    case Nil
    then have "scan_value m (dumps v @ CHR ''}'' # t) = Some (v, CHR ''}'' # t)"
      using Cons.prems by (intro decodesD [OF pv(2)]) (simp_all add: m p member_text_def)
    then show ?thesis using head [of "CHR ''}'' # t"] by (simp add: m Nil p)
  next
    case more: (Cons q ds)
    have "length (dumps v) \<le> length (member_text p)" by (simp add: p member_text_def)
    moreover have "length (join_on '','' (map member_text (p # d))) = length (member_text p) + 1 + length (join_on '','' (map member_text d))"
      by (simp add: more)
    ultimately have len: "2 * length (dumps v) + 2 + 2 * length (join_on '','' (map member_text d)) \<le> m"
      using Cons.prems(3) unfolding m by linarith
    let ?r = "join_on '','' (map member_text d) @ CHR ''}'' # t"
    have "scan_value m (dumps v @ CHR '','' # ?r) = Some (v, CHR '','' # ?r)"
      using len by (intro decodesD [OF pv(2)]) simp_all
    moreover have "scan_members m ?r = Some (d, t)" using Cons.prems len more by (intro Cons.IH) simp_all
    moreover have "skip_ws ?r = ?r"
      by (intro skip_ws_starts) (simp add: more join_starts member_starts del: join_on.simps)
    moreover have "join_on '','' (map member_text (p # d)) @ CHR ''}'' # t = member_text p @ CHR '','' # ?r" by (simp add: more)
    ultimately show ?thesis using head [of "CHR '','' # ?r"] by (simp add: m p)
  qed
qed simp

lemma dict_of_distinct: "distinct (map fst d) \<Longrightarrow> dict_of_pairs d = d"
proof -
  have upd: "k \<notin> fst ` set acc \<Longrightarrow> jput k v acc = acc @ [(k, v)]" for k v acc
    unfolding jput_def by (induction acc) auto
  have "distinct (map fst (acc @ d)) \<Longrightarrow> fold (\<lambda>(k, v). jput k v) d acc = acc @ d" for acc
  proof (induction d arbitrary: acc)
    case (Cons p d)
    obtain k v where p: "p = (k, v)" by force
    with Cons.prems have "jput k v acc = acc @ [p]" by (intro upd [of k acc v, folded p]) (auto simp: image_iff)
    with Cons p show ?case by simp
  qed simp
  from this [of "[]"] show "distinct (map fst d) \<Longrightarrow> dict_of_pairs d = d" by (simp add: dict_of_pairs_def)
qed

lemma plain_decodes: "plain j \<Longrightarrow> decodes j"
proof (induction j)
  case (JList xs)
  then have all: "list_all (\<lambda>x. plain x \<and> decodes x) xs" by (simp add: list_all_iff)
  show ?case unfolding decodes_def
  proof (intro allI impI)
    fix n t assume n: "2 * length (dumps (JList xs)) \<le> n"
    then obtain m where m: "n = Suc m" by (cases n) auto
    show "scan_value n (dumps (JList xs) @ t) = Some (JList xs, t)"
    proof (cases xs)
      case (Cons y ys)
      then have "starts_value (join_on '','' (map dumps xs))" using all by (simp add: join_starts dumps_starts)
      then have "skip_ws (join_on '','' (map dumps xs) @ CHR '']'' # t) = join_on '','' (map dumps xs) @ CHR '']'' # t"
        "\<not> startswith (join_on '','' (map dumps xs) @ CHR '']'' # t) '']''"
        by (simp_all only: skip_ws_starts starts_not_closed not_False_eq_True)
      then show ?thesis using scan_elems_printed [OF all, of m t] n Cons by (simp add: m QUOTE_def del: scan_elems.simps)
    qed (simp add: m QUOTE_def startswith_def)
  qed
next
  case (JObj d)
  then have all: "list_all (\<lambda>p. plain (snd p) \<and> decodes (snd p)) d" and dist: "distinct (map fst d)"
    by (auto simp: plain_obj list_all_iff simp del: plain.simps)
  show ?case unfolding decodes_def dumps_obj
  proof (intro allI impI)
    fix n t assume n: "2 * length (''{'' @ join_on '','' (map member_text d) @ ''}'') \<le> n"
    then obtain m where m: "n = Suc m" by (cases n) auto
    show "scan_value n ((''{'' @ join_on '','' (map member_text d) @ ''}'') @ t) = Some (JObj d, t)"
    proof (cases d)
      case (Cons p ds)
      then have "starts_value (join_on '','' (map member_text d))" by (simp add: join_starts member_starts)
      then have "skip_ws (join_on '','' (map member_text d) @ CHR ''}'' # t) = join_on '','' (map member_text d) @ CHR ''}'' # t"
        "\<not> startswith (join_on '','' (map member_text d) @ CHR ''}'' # t) ''}''"
        by (simp_all only: skip_ws_starts starts_not_closed not_False_eq_True)
      then show ?thesis using scan_members_printed [OF all, of m t] n Cons dict_of_distinct [OF dist]
        by (simp add: m QUOTE_def del: scan_members.simps)
    qed (simp add: m QUOTE_def startswith_def)
  qed
next
  case (JInt i)
  obtain c cs where c: "show_int i = c # cs" "c = CHR ''-'' \<or> ascii_digit c" using show_int_starts by blast
  then have "c \<notin> {QUOTE, CHR ''{'', CHR ''['', CHR ''n'', CHR ''t'', CHR ''f''}" by (auto simp: QUOTE_def ascii_digit_def)
  then have scan: "scan_value (Suc m) (show_int i @ t) = scan_number (show_int i @ t)" for m t by (simp add: c(1))
  show ?case unfolding decodes_def
  proof (intro allI impI)
    fix n t assume n: "2 * length (dumps (JInt i)) \<le> n" and t: "ends_value t"
    then obtain m where "n = Suc m" using c(1) by (cases n) auto
    then show "scan_value n (dumps (JInt i) @ t) = Some (JInt i, t)"
      using scan scan_shown_int [OF t] by (simp del: scan_value.simps)
  qed
next
  case (JStr s)
  show ?case unfolding decodes_def
  proof (intro allI impI)
    fix n t assume "2 * length (dumps (JStr s)) \<le> n"
    then obtain m where "n = Suc m" by (cases n) (auto simp: quote_def)
    then show "scan_value n (dumps (JStr s) @ t) = Some (JStr s, t)"
      by (simp add: quote_def scan_quoted del: scan_string.simps)
  qed
next
  case JNull
  show ?case unfolding decodes_def
    by (intro allI impI) (case_tac n; simp add: scan_word_def startswith_def QUOTE_def)
next
  case (JBool b)
  show ?case unfolding decodes_def
    by (intro allI impI) (case_tac n; cases b; simp add: scan_word_def startswith_def QUOTE_def)
qed simp

section \<open>One line per item\<close>

lemma no_line_break_iff: "list_all (\<lambda>c. \<not> line_break c) s \<longleftrightarrow> (\<forall>c\<in>set s. \<not> line_break c)"
  by (simp add: list_all_iff)

definition unbroken :: "string \<Rightarrow> bool" where
  "unbroken s \<longleftrightarrow> list_all (\<lambda>c. \<not> line_break c) s"

lemma unbroken_append [simp]: "unbroken (s @ t) \<longleftrightarrow> unbroken s \<and> unbroken t"
  by (simp add: unbroken_def)

lemma unbroken_Cons [simp]: "unbroken (c # t) \<longleftrightarrow> \<not> line_break c \<and> unbroken t"
  by (simp add: unbroken_def)

lemma unbroken_Nil [simp]: "unbroken []"
  by (simp add: unbroken_def)

lemma hex_digit_unbroken: "n < 16 \<Longrightarrow> \<not> line_break (hex_digit n)"
  by (simp add: hex_digit_def line_break_def)

lemma escape_unbroken: "c \<noteq> CHR 0x85 \<Longrightarrow> unbroken (escape_char c)"
proof -
  assume "c \<noteq> CHR 0x85"
  moreover have "c = CHR 0x85" if "(of_char c :: nat) = 133"
  proof -
    have "char_of (of_char c :: nat) = CHR 0x85" unfolding that by code_simp
    then show ?thesis by simp
  qed
  ultimately have n: "(of_char c :: nat) \<noteq> 133" by blast
  show ?thesis
  proof (cases "(of_char c :: nat) < 32")
    case True
    then have "(of_char c :: nat) div 16 < 16" by simp
    then show ?thesis by (auto simp: escape_char_def Let_def hex_digit_unbroken) (use n in \<open>simp_all add: line_break_def\<close>)
  next
    case False
    then have "\<not> line_break c" using n by (simp add: line_break_def)
    moreover have "\<not> line_break QUOTE" "\<not> line_break BACKSLASH" by (simp_all add: line_break_def)
    ultimately show ?thesis using False by (simp add: escape_char_def Let_def)
  qed
qed

lemma quote_unbroken: "no_next_line s \<Longrightarrow> unbroken (quote s)"
proof -
  assume "no_next_line s"
  then have "unbroken (concat (map escape_char s))"
    unfolding no_next_line_def by (induction s) (auto intro: escape_unbroken)
  then show ?thesis by (simp add: quote_def) (simp add: line_break_def)
qed

lemma join_unbroken: "unbroken sep \<Longrightarrow> list_all unbroken ps \<Longrightarrow> unbroken (join_on sep ps)"
  by (induction sep ps rule: join_on.induct) simp_all

lemma show_int_unbroken: "unbroken (show_int i)"
proof -
  have "unbroken (show_nat n)" for n
    using shown_digits [of n] by (auto simp: unbroken_def list_all_iff ascii_digit_def line_break_def)
  then show ?thesis by (simp add: show_int_def) (simp add: line_break_def)
qed

lemma dumps_unbroken: "plain j \<Longrightarrow> unbroken (dumps j)"
proof (induction j)
  case (JList xs)
  then have "list_all unbroken (map dumps xs)" by (auto simp: list_all_iff)
  then show ?case using join_unbroken [of "'','' "] by (simp add: join_unbroken line_break_def)
next
  case (JObj d)
  then have "list_all unbroken (map member_text d)"
    by (auto simp: plain_obj list_all_iff member_text_def quote_unbroken line_break_def simp del: plain.simps)
  then show ?case unfolding dumps_obj by (simp add: join_unbroken line_break_def)
qed (simp_all add: line_break_def show_int_unbroken quote_unbroken)

lemma splitlines_line: "unbroken l \<Longrightarrow> splitlines (l @ CHR 0x0A # t) = l # splitlines t"
proof (induction l)
  case Nil
  show ?case by (simp add: line_break_def)
next
  case (Cons c l)
  then have "c \<noteq> CHR 0x0D" "\<not> line_break c" by (auto simp: line_break_def)
  then show ?case using Cons by simp
qed

lemma loads_dumps: "plain j \<Longrightarrow> loads (dumps j) = Some j"
  using decodesD [OF plain_decodes, of j "2 * length (dumps j)" "[]"] skip_ws_starts [OF dumps_starts, of j "[]"]
  by (simp add: loads_def)

lemma brace_not_blank: "\<not> blank_line (CHR ''{'' # l)"
  by (simp add: blank_line_def py_space_def)

lemma obj_not_blank: "\<not> blank_line (dumps (JObj d))"
  by (simp add: brace_not_blank)

section \<open>A line cut inside a string\<close>

lemma scan_cut_string: "scan_string (concat (map escape_char s)) = None"
  by (induction s) (simp_all add: scan_escaped_char del: scan_string.simps, simp)

definition cut_member :: "string \<Rightarrow> string \<Rightarrow> string" where
  "cut_member key s = quote key @ '':'' @ QUOTE # concat (map escape_char s)"

definition led_by :: "dict \<Rightarrow> string \<Rightarrow> string" where
  "led_by front t = concat (map (\<lambda>p. member_text p @ '','') front) @ t"

lemma led_by_simps [simp]: "led_by [] t = t" "led_by (p # front) t = member_text p @ CHR '','' # led_by front t"
  by (simp_all add: led_by_def)

lemma join_led_by: "join_on '','' (map member_text (front @ p # rest)) = led_by front (join_on '','' (map member_text (p # rest)))"
proof (induction front)
  case (Cons q front)
  show ?case using Cons by (cases "front @ p # rest") (simp_all add: led_by_def)
qed simp

lemma led_by_append: "led_by front (s @ t) = led_by front s @ t"
  by (simp add: led_by_def)

lemma cut_member_starts: "starts_value (led_by front (cut_member key s))"
  by (cases front) (simp_all add: starts_value_def cut_member_def member_text_def quote_def QUOTE_def)

lemma scan_cut_members:
  assumes "list_all (\<lambda>p. plain (snd p)) front" "2 * length (led_by front (cut_member key s)) \<le> n"
  shows "scan_members n (led_by front (cut_member key s)) = None"
  using assms
proof (induction front arbitrary: n)
  case Nil
  have "scan_value m (QUOTE # concat (map escape_char s)) = None" for m
    by (cases m) (simp_all add: scan_cut_string del: scan_string.simps)
  moreover have "skip_ws (QUOTE # t) = QUOTE # t" "skip_ws (CHR '':'' # t) = CHR '':'' # t" for t by (simp_all add: QUOTE_def)
  ultimately show ?case by (cases n) (simp_all add: cut_member_def quote_def scan_quoted del: scan_string.simps skip_ws.simps(2))
next
  case (Cons p front)
  show ?case
  proof (cases n)
    case (Suc m)
    let ?t = "CHR '','' # led_by front (cut_member key s)"
    have pv: "plain (snd p)" using Cons.prems by simp
    have sk: "skip_ws (dumps (snd p) @ ?t) = dumps (snd p) @ ?t" "skip_ws (led_by front (cut_member key s)) = led_by front (cut_member key s)"
      using skip_ws_starts [OF dumps_starts [OF pv]] skip_ws_starts [OF cut_member_starts, of front key s "[]"] by simp_all
    have "scan_members (Suc m) (member_text p @ ?t) = (case scan_value m (dumps (snd p) @ ?t) of None \<Rightarrow> None
      | Some (w, r) \<Rightarrow> (case skip_ws r of [] \<Rightarrow> None
        | e # es \<Rightarrow> if e = CHR ''}'' then Some ([(fst p, w)], es)
            else if e = CHR '','' then map_option (apfst (Cons (fst p, w))) (scan_members m (skip_ws es)) else None))"
      using sk(1) by (simp add: member_text_def quote_def scan_quoted del: scan_string.simps)
    moreover have "length (dumps (snd p)) \<le> length (member_text p)" by (simp add: member_text_def)
    then have len: "2 * length (dumps (snd p)) \<le> m" "2 * length (led_by front (cut_member key s)) \<le> m"
      using Cons.prems(2) unfolding Suc led_by_simps by simp_all
    have "scan_value m (dumps (snd p) @ ?t) = Some (snd p, ?t)"
      by (rule decodesD [OF plain_decodes [OF pv] len(1)]) simp
    moreover have "scan_members m (led_by front (cut_member key s)) = None" using Cons len(2) by simp
    ultimately show ?thesis using sk(2) by (simp add: Suc del: scan_members.simps)
  qed simp
qed

lemma loads_cut_line:
  assumes "list_all (\<lambda>p. plain (snd p)) front"
  shows "loads (CHR ''{'' # led_by front (cut_member key s)) = None"
proof -
  let ?t = "led_by front (cut_member key s)"
  have "skip_ws ?t = ?t" "\<not> startswith ?t ''}''"
    using skip_ws_starts [OF cut_member_starts, of front key s "[]"] starts_not_closed(2) [OF cut_member_starts, of front key s "[]"] by simp_all
  then have "scan_value (Suc m) (CHR ''{'' # ?t) = map_option (apfst (JObj \<circ> dict_of_pairs)) (scan_members m ?t)" for m
    by (simp add: QUOTE_def)
  then show ?thesis using scan_cut_members [OF assms, of key s] by (simp add: loads_def del: scan_members.simps scan_value.simps)
qed

lemma escape_next_line: "escape_char CHR 0x85 = [CHR 0x85]"
  by code_simp

lemma dumps_cut:
  "\<exists>t. dumps (JObj (front @ (key, JStr (s @ CHR 0x85 # u)) # rest)) = CHR ''{'' # led_by front (cut_member key s) @ CHR 0x85 # t"
proof -
  have "\<exists>t. member_text (key, JStr (s @ CHR 0x85 # u)) = cut_member key s @ CHR 0x85 # t"
    by (simp add: member_text_def cut_member_def quote_def escape_next_line)
  moreover have "\<exists>t. join_on '','' (map member_text (p # rest)) = member_text p @ t" for p by (cases rest) auto
  ultimately obtain t where "join_on '','' (map member_text ((key, JStr (s @ CHR 0x85 # u)) # rest)) = cut_member key s @ CHR 0x85 # t"
    by (metis append.assoc append_Cons)
  then show ?thesis unfolding dumps_obj join_led_by by (simp add: led_by_append)
qed

lemma cut_member_unbroken:
  assumes "list_all (\<lambda>p. no_next_line (fst p) \<and> plain (snd p)) front" "no_next_line key" "no_next_line s"
  shows "unbroken (CHR ''{'' # led_by front (cut_member key s))"
proof -
  have lb: "\<not> line_break CHR '':''" "\<not> line_break CHR '',''" "\<not> line_break QUOTE" by (simp_all add: line_break_def)
  have "unbroken (concat (map escape_char s))" using quote_unbroken [OF assms(3)] by (simp add: quote_def)
  then have "unbroken (cut_member key s)" using lb quote_unbroken [OF assms(2)] by (simp add: cut_member_def)
  moreover have "list_all (\<lambda>p. unbroken (member_text p)) front"
    using assms(1) lb by (auto simp: list_all_iff member_text_def quote_unbroken dumps_unbroken)
  ultimately have "unbroken (led_by front (cut_member key s))" using lb by (induction front) simp_all
  then show ?thesis by (simp add: line_break_def)
qed

lemma splitlines_next_line: "unbroken l \<Longrightarrow> splitlines (l @ CHR 0x85 # t) = l # splitlines t"
proof (induction l)
  case Nil
  show ?case by (simp add: line_break_def)
next
  case (Cons c l)
  then have "c \<noteq> CHR 0x0D" "\<not> line_break c" by (auto simp: line_break_def)
  then show ?case using Cons by simp
qed

lemma bad_line_refused: "None \<in> set ls \<Longrightarrow> parse_from seen ls = Inl TaskError"
proof (induction ls arbitrary: seen)
  case (Cons l ls)
  show ?case
  proof (cases "parse_line seen l")
    case (Inl e)
    then have "e = TaskError" by (auto simp: parse_line_def Let_def split: option.splits json.splits if_splits)
    then show ?thesis using Inl by (simp add: and_then_def)
  next
    case (Inr m)
    then have "None \<in> set ls" using Cons.prems by (auto simp: parse_line_def)
    then show ?thesis using Inr Cons.IH by (simp add: and_then_def)
  qed
qed simp

lemma items_lines: "list_all (\<lambda>i. plain (JObj i)) items \<Longrightarrow> splitlines (items_jsonl items @ t) = map (dumps \<circ> JObj) items @ splitlines t"
  by (induction items) (simp_all add: items_jsonl_def splitlines_line dumps_unbroken del: dumps.simps plain.simps)



text \<open>
  A text with U+0085 makes the whole store unreadable: printing leaves that character as it is, reading splits
  the line at it. Whatever well-formed items come before and whatever comes after, the read of the file that was
  just written raises.
\<close>

lemma next_line_makes_store_unreadable:
  assumes "list_all (\<lambda>i. plain (JObj i)) items"
    and "list_all (\<lambda>p. no_next_line (fst p) \<and> plain (snd p)) front" "no_next_line key" "no_next_line s"
  shows "parse_jsonl (Some (read_lines (items_jsonl (items @ (front @ (key, JStr (s @ CHR 0x85 # u)) # rest) # others)))) = Inl TaskError"
proof -
  let ?cut = "CHR ''{'' # led_by front (cut_member key s)"
  obtain t where t: "dumps (JObj (front @ (key, JStr (s @ CHR 0x85 # u)) # rest)) = ?cut @ CHR 0x85 # t"
    using dumps_cut [of front key s u rest] by auto
  have "items_jsonl (items @ (front @ (key, JStr (s @ CHR 0x85 # u)) # rest) # others)
      = items_jsonl items @ ?cut @ CHR 0x85 # t @ CHR 0x0A # items_jsonl others"
    using t by (simp add: items_jsonl_def del: dumps.simps)
  then have "?cut \<in> set (splitlines (items_jsonl (items @ (front @ (key, JStr (s @ CHR 0x85 # u)) # rest) # others)))"
    using items_lines [OF assms(1)] splitlines_next_line [OF cut_member_unbroken [OF assms(2-4)]] by simp
  moreover have "loads ?cut = None" using assms(2) by (intro loads_cut_line) (simp add: list_all_iff)
  ultimately have "None \<in> set (read_lines (items_jsonl (items @ (front @ (key, JStr (s @ CHR 0x85 # u)) # rest) # others)))"
    unfolding read_lines_def using brace_not_blank [of "led_by front (cut_member key s)"] by (force simp: image_iff)
  then show ?thesis by (simp add: parse_jsonl_def bad_line_refused)
qed

lemma next_line_makes_store_unreadable_witness:
  "validate_items_for_write [[(''id'', JStr ''T1''), (''title'', JStr [CHR ''a'', CHR 0x85]), (''blocked_by'', JList []), (''links'', JList []),
       (''done'', JBool False), (''schema_version'', JInt 1)]]
     = Inr [[(''id'', JStr ''T1''), (''title'', JStr [CHR ''a'', CHR 0x85]), (''blocked_by'', JList []), (''links'', JList []),
       (''done'', JBool False), (''schema_version'', JInt 1)]] \<and>
   parse_jsonl (Some (read_lines (items_jsonl ([] @ ([(''id'', JStr ''T1'')] @ (''title'', JStr (''a'' @ CHR 0x85 # [])) #
       [(''blocked_by'', JList []), (''links'', JList []), (''done'', JBool False), (''schema_version'', JInt 1)]) # [])))) = Inl TaskError"
proof
  show "parse_jsonl (Some (read_lines (items_jsonl ([] @ ([(''id'', JStr ''T1'')] @ (''title'', JStr (''a'' @ CHR 0x85 # [])) #
       [(''blocked_by'', JList []), (''links'', JList []), (''done'', JBool False), (''schema_version'', JInt 1)]) # [])))) = Inl TaskError"
    by (rule next_line_makes_store_unreadable) (simp_all add: no_next_line_def)
qed code_simp

end
