(* ===== verification/GF_Markers.thy ===== *)
theory GF_Markers
  imports GF_Text GF_Leases "HOL-Library.Sublist"
begin

text \<open>
  Worker output markers and terminal verdicts (\<open>scripts/goalflight_terminal.py\<close>): Markdown fences, template
  placeholders, the worker's own attention lines, the cause of death a tail proves, and the liveness word of a
  terminal state. The renderer bullet and the typographic apostrophe are code points above 255 and do not occur
  in the texts of this model. The rate-limit signatures are those of \<open>GF_Rate_Signatures\<close>.
\<close>

section \<open>Marker sets\<close>

definition SUCCESS_TERMINAL_MARKERS :: "string list" where "SUCCESS_TERMINAL_MARKERS = [''COMPLETE'', ''READY'', ''RESULT'']"
definition ATTENTION_KINDS :: "string list" where "ATTENTION_KINDS = [''BLOCKED'', ''FAILED'', ''USER-CONFIRM'', ''USER-NEED'']"
definition TEMPLATE_GUARDED_MARKERS :: "string list" where "TEMPLATE_GUARDED_MARKERS = [''BLOCKED'', ''USER-NEED'', ''USER-CONFIRM'']"

definition marker_kind_in :: "string list \<Rightarrow> json \<Rightarrow> bool" where
  "marker_kind_in kinds marker \<longleftrightarrow> (case marker of JObj d \<Rightarrow> (\<exists>k\<in>set kinds. jget d ''kind'' = JStr k) | _ \<Rightarrow> False)"

definition terminal_success_marker_present :: "json \<Rightarrow> bool" where
  "terminal_success_marker_present = marker_kind_in SUCCESS_TERMINAL_MARKERS"

definition terminal_marker_present :: "json \<Rightarrow> bool" where
  "terminal_marker_present = marker_kind_in (SUCCESS_TERMINAL_MARKERS @ ATTENTION_KINDS)"

definition attention_marker_present :: "json \<Rightarrow> bool" where
  "attention_marker_present = marker_kind_in ATTENTION_KINDS"

section \<open>Fences\<close>

text \<open>\<open>FENCE_RUN_RE\<close>: the run of backticks or tildes a line starts with, and what follows it.\<close>

definition fence_run :: "string \<Rightarrow> (char \<times> nat \<times> string) option" where
  "fence_run raw_line = (case dropWhile (\<lambda>c. c \<in> {CHR 0x20, CHR 0x09}) raw_line of
      [] \<Rightarrow> None
    | c # cs \<Rightarrow> let n = length (takeWhile (\<lambda>x. x = c) (c # cs)) in
        if c \<in> {CHR 0x60, CHR ''~''} \<and> 3 \<le> n \<and> CHR 0x0A \<notin> set (drop n (c # cs)) then Some (c, n, drop n (c # cs)) else None)"

text \<open>The tracker: the open delimiter with its length, or none.\<close>

type_synonym fence = "(char \<times> nat) option"

definition blank_text :: "string \<Rightarrow> bool" where
  "blank_text s \<longleftrightarrow> list_all wide_space s"

definition consume_boundary :: "fence \<Rightarrow> string \<Rightarrow> bool \<times> fence" where
  "consume_boundary f raw_line = (case fence_run raw_line of
      None \<Rightarrow> (False, f)
    | Some (c, n, rest) \<Rightarrow> (case f of
          None \<Rightarrow> (True, Some (c, n))
        | Some (d, m) \<Rightarrow> if c = d \<and> m \<le> n \<and> blank_text rest then (True, None) else (False, f)))"

section \<open>Templates\<close>

text \<open>\<open>TEMPLATE_PLACEHOLDER_RE.search\<close>.\<close>

definition placeholder_char :: "char \<Rightarrow> bool" where
  "placeholder_char c \<longleftrightarrow> c \<notin> {CHR ''<'', CHR ''>'', CHR 0x0A, CHR 0x0D}"

fun has_placeholder :: "string \<Rightarrow> bool" where
  "has_placeholder [] = False"
| "has_placeholder (c # cs) = (c = CHR ''<'' \<and> takeWhile placeholder_char cs \<noteq> [] \<and> startswith (dropWhile placeholder_char cs) ''>''
     \<or> has_placeholder cs)"

definition marker_is_template_example :: "string \<Rightarrow> string \<Rightarrow> bool" where
  "marker_is_template_example kind payload \<longleftrightarrow> kind \<in> set TEMPLATE_GUARDED_MARKERS \<and> has_placeholder payload"

section \<open>The worker's own attention line\<close>

definition drop_opt :: "char \<Rightarrow> string \<Rightarrow> string" where
  "drop_opt c s = (if startswith s [c] then tl s else s)"

definition drop_stars :: "string \<Rightarrow> string" where
  "drop_stars s = dropWhile (\<lambda>c. c = CHR ''*'') s"

text \<open>What the decoration \<open>\**!?\**\<close> leaves.\<close>

definition drop_sigil :: "string \<Rightarrow> string" where
  "drop_sigil s = drop_stars (drop_opt CHR ''!'' (drop_stars s))"

definition drop_status :: "string \<Rightarrow> string" where
  "drop_status s = (if startswith s ''STATUS:'' then dropWhile wide_space (drop 7 s) else s)"

definition own_signal_match :: "string \<Rightarrow> (string \<times> string) option" where
  "own_signal_match stripped = (let body = drop_status (drop_sigil (drop_opt CHR 0x60 stripped)) in
     case find (\<lambda>k. startswith body (k @ '':'')) ATTENTION_KINDS of
       None \<Rightarrow> None
     | Some k \<Rightarrow> let payload = drop (length k + 1) body in if CHR 0x0A \<in> set payload then None else Some (k, payload))"

text \<open>\<open>_strip_marker_decoration\<close>.\<close>

function strip_front :: "string \<Rightarrow> string" where
  "strip_front s = (if startswith s ''*'' \<or> startswith s [CHR 0x60] then strip_front (dropWhile wide_space (tl s)) else s)"
  by pat_completeness auto
termination
proof (relation "measure length")
  fix s :: string
  assume "startswith s ''*'' \<or> startswith s [CHR 0x60]"
  then have "s \<noteq> []" by (auto simp: startswith_def)
  moreover have "length (dropWhile wide_space (tl s)) \<le> length (tl s)" by (rule length_dropWhile_le)
  ultimately show "(dropWhile wide_space (tl s), s) \<in> measure length" by (cases s) auto
qed simp

declare strip_front.simps [simp del]

definition strip_marker_decoration :: "string \<Rightarrow> string" where
  "strip_marker_decoration s = rev (strip_front (rev (strip_front (trim wide_space s))))"

record attention =
  an_line :: nat
  an_kind :: string
  an_text :: string

definition parse_own_signal_attention_line :: "bool \<Rightarrow> nat \<Rightarrow> string \<Rightarrow> attention option" where
  "parse_own_signal_attention_line kimi_output line_no raw_line =
     (if raw_line = [] \<or> startswith raw_line [CHR 0x09] then None
      else if startswith raw_line '' '' \<and> \<not> (kimi_output \<and> startswith raw_line ''  '' \<and> \<not> startswith raw_line ''   '') then None
      else case own_signal_match (trim wide_space raw_line) of
          None \<Rightarrow> None
        | Some (kind, payload) \<Rightarrow> if marker_is_template_example kind payload then None
            else Some \<lparr>an_line = line_no, an_kind = kind, an_text = take 1000 (strip_marker_decoration payload)\<rparr>)"

section \<open>The question a worker asked\<close>

text \<open>
  \<open>_has_actionable_user_confirm_marker\<close> of the ACP client. The payload is the shortest non-empty text after which
  only white space and then asterisks are left.
\<close>

definition marker_tail :: "string \<Rightarrow> bool" where
  "marker_tail t \<longleftrightarrow> list_all (\<lambda>c. c = CHR ''*'') (dropWhile wide_space t)"

definition lazy_payload :: "string \<Rightarrow> string" where
  "lazy_payload s = (case find (\<lambda>n. marker_tail (drop n s)) [1..<Suc (length s)] of None \<Rightarrow> [] | Some n \<Rightarrow> take n s)"

definition user_confirm_line :: "string \<Rightarrow> bool" where
  "user_confirm_line line = (let body = drop_sigil (trim wide_space line) in
     if \<not> startswith body ''USER-CONFIRM:'' then False
     else let payload = trim_end (\<lambda>c. c \<in> {CHR ''*'', CHR 0x20, CHR 0x09}) (lazy_payload (dropWhile wide_space (drop_stars (drop 13 body))))
          in payload \<noteq> [] \<and> \<not> marker_is_template_example ''USER-CONFIRM'' payload)"

fun confirm_scan :: "fence \<Rightarrow> string list \<Rightarrow> bool" where
  "confirm_scan f [] = False"
| "confirm_scan f (l # ls) = (case consume_boundary f l of (boundary, f') \<Rightarrow>
     if boundary \<or> f' \<noteq> None then confirm_scan f' ls else user_confirm_line l \<or> confirm_scan f' ls)"

definition has_actionable_user_confirm_marker :: "string \<Rightarrow> bool" where
  "has_actionable_user_confirm_marker t = confirm_scan None (splitlines t)"

section \<open>Cause of death\<close>

definition UPSTREAM_NETWORK_DEATH_SEQUENCE :: "string list" where
  "UPSTREAM_NETWORK_DEATH_SEQUENCE =
     [''failed to lookup address information: nodename nor servname provided'',
      ''stream disconnected before completion'', ''error: reconnecting... 5/5'']"

definition UPSTREAM_NETWORK_DEATH_NOISE :: "string list" where
  "UPSTREAM_NETWORK_DEATH_NOISE =
     [''reconnecting'', ''stream disconnected before completion'', ''failed to lookup address information'', ''falling back from websockets'']"

text \<open>The loop over the lines: the first signature is looked for until found, then the next; what is left after the last.\<close>

fun after_sequence :: "string list \<Rightarrow> string list \<Rightarrow> string list option" where
  "after_sequence [] ls = Some ls"
| "after_sequence (g # gs) [] = None"
| "after_sequence (g # gs) (l # ls) = (if contains l g then after_sequence gs ls else after_sequence (g # gs) ls)"

definition network_noise :: "string \<Rightarrow> bool" where
  "network_noise lowered \<longleftrightarrow> list_ex (contains lowered) UPSTREAM_NETWORK_DEATH_NOISE"

definition network_death :: "string list \<Rightarrow> bool" where
  "network_death lowered = (case after_sequence UPSTREAM_NETWORK_DEATH_SEQUENCE lowered of
      None \<Rightarrow> False | Some rest \<Rightarrow> list_all network_noise rest)"

text \<open>The two provider lines, on the case-folded text.\<close>

definition drop_prefix :: "string \<Rightarrow> string \<Rightarrow> string option" where
  "drop_prefix p s = (if startswith s p then Some (drop (length p) s) else None)"

definition MONTHS :: "string list" where
  "MONTHS = [''jan'', ''feb'', ''mar'', ''apr'', ''may'', ''jun'', ''jul'', ''aug'', ''sep'', ''oct'', ''nov'', ''dec'']"

definition short_number :: "string \<Rightarrow> string option" where
  "short_number s = (let ds = takeWhile ascii_digit s in if 1 \<le> length ds \<and> length ds \<le> 2 then Some (drop (length ds) s) else None)"

definition clock_time :: "string \<Rightarrow> string option" where
  "clock_time s = Option.bind (short_number s) (\<lambda>r. Option.bind (drop_prefix '':'' r) (\<lambda>r.
     if length (takeWhile ascii_digit r) = 2 then
       (let t = dropWhile wide_space (drop 2 r) in
        if startswith t ''am'' \<or> startswith t ''pm'' then Some (drop 2 t) else None)
     else None))"

definition month_day :: "string \<Rightarrow> string option" where
  "month_day s = (if take 3 s \<notin> set MONTHS then None
     else let r = drop 3 s; t = dropWhile wide_space r in
       if r = t then None
       else Option.bind (short_number t) (\<lambda>r. if take 2 r \<in> {''st'', ''nd'', ''rd'', ''th''} then Some (drop 2 r) else None))"

definition end_dot :: "string \<Rightarrow> bool" where
  "end_dot s \<longleftrightarrow> s = [] \<or> s = ''.''"

definition drop_error_prefix :: "string \<Rightarrow> string" where
  "drop_error_prefix s = (case drop_prefix ''error:'' s of None \<Rightarrow> s | Some r \<Rightarrow> dropWhile wide_space r)"

definition capacity_line :: "string \<Rightarrow> bool" where
  "capacity_line s \<longleftrightarrow> startswith s ''error:''
     \<and> drop_error_prefix s = ''selected model is at capacity. please try a different model.''"

definition usage_limit_line :: "string \<Rightarrow> bool" where
  "usage_limit_line s \<longleftrightarrow>
     (case drop_prefix ''you've hit your usage limit. please try again at'' (drop_error_prefix s) of
        None \<Rightarrow> False
      | Some r \<Rightarrow> let t = dropWhile wide_space r in r \<noteq> t
          \<and> ((case clock_time t of None \<Rightarrow> False | Some e \<Rightarrow> end_dot e) \<or> (case month_day t of None \<Rightarrow> False | Some e \<Rightarrow> end_dot e)))"

definition provider_limit_line :: "string \<Rightarrow> bool" where
  "provider_limit_line line \<longleftrightarrow> capacity_line (casefold line) \<or> usage_limit_line (casefold line)"

definition token_count :: "string \<Rightarrow> bool" where
  "token_count s \<longleftrightarrow> s \<noteq> [] \<and> ascii_digit (hd s) \<and> list_all (\<lambda>c. ascii_digit c \<or> c = CHR '','') (tl s)"

definition observed_footer :: "string list \<Rightarrow> bool" where
  "observed_footer rest \<longleftrightarrow> rest = [] \<or> (case rest of [h, n] \<Rightarrow> casefold h \<in> {''tokens used'', ''tokens used:''} \<and> token_count n | _ \<Rightarrow> False)"

definition provider_death :: "string list \<Rightarrow> bool" where
  "provider_death lines \<longleftrightarrow> list_ex provider_limit_line lines
     \<and> observed_footer (rev (takeWhile (\<lambda>l. \<not> provider_limit_line l) (rev lines)))"

datatype death_cause = No_Evidence | Upstream_Network | Provider_Limit

definition death_lines :: "string \<Rightarrow> string list" where
  "death_lines t = filter (\<lambda>l. l \<noteq> []) (map (trim wide_space) (splitlines t))"

definition classify_worker_death_text :: "string \<Rightarrow> death_cause" where
  "classify_worker_death_text t =
     (let lines = death_lines t; network = network_death (map casefold lines); provider = provider_death lines
      in if lines = [] \<or> network = provider then No_Evidence else if network then Upstream_Network else Provider_Limit)"

section \<open>Terminal states\<close>

definition tokens_used_death_footer :: "string list \<Rightarrow> bool" where
  "tokens_used_death_footer lines \<longleftrightarrow> (case rev lines of n # h # _ \<Rightarrow> casefold h = ''tokens used'' \<and> token_count n | _ \<Rightarrow> False)"

definition terminal_liveness_state :: "json \<Rightarrow> string" where
  "terminal_liveness_state state =
     (if state = JStr ''complete'' then ''completed''
      else if is_limit_state state then (case normalize_dispatch_state state of Some s \<Rightarrow> if s = [] then py_str state else s | None \<Rightarrow> py_str state)
      else case state of
          JStr s \<Rightarrow> if s = ''worker_dead'' then ''worker_dead'' else if startswith s ''blocked'' then ''blocked''
            else if s \<in> {''orphaned'', ''controller_dead''} then ''controller_dead''
            else if s \<in> {''idle_timeout'', ''liveness_indeterminate''} then s else if s = [] then ''terminal'' else s
        | _ \<Rightarrow> if truthy state then py_str state else ''terminal'')"

section \<open>Fenced text\<close>

definition closes :: "char \<Rightarrow> nat \<Rightarrow> string \<Rightarrow> bool" where
  "closes c n l \<longleftrightarrow> (case fence_run l of None \<Rightarrow> False | Some (d, m, rest) \<Rightarrow> d = c \<and> n \<le> m \<and> blank_text rest)"

lemma boundary_inside: "consume_boundary (Some (c, n)) l = (if closes c n l then (True, None) else (False, Some (c, n)))"
  by (auto simp: consume_boundary_def closes_def split: option.split)

lemma scan_inside: "list_all (\<lambda>l. \<not> closes c n l) body \<Longrightarrow> confirm_scan (Some (c, n)) (body @ ls) = confirm_scan (Some (c, n)) ls"
  by (induction body) (simp_all add: boundary_inside)

text \<open>
  C31. Whatever a fenced block shows is not a question of the worker: from its opening line to the first line that
  closes it (the same delimiter, at least as long, nothing after it) no line counts, and scanning goes on after it
  as if the block were not there; a block that is never closed hides all that follows.
\<close>

theorem fenced_text_is_ignored:
  assumes "fence_run opening = Some (c, n, r)" "list_all (\<lambda>l. \<not> closes c n l) body"
  shows "\<not> confirm_scan None (opening # body)
     \<and> (\<forall>closing rest. closes c n closing \<longrightarrow> confirm_scan None (opening # body @ closing # rest) = confirm_scan None rest)"
proof -
  have o: "consume_boundary None opening = (True, Some (c, n))" using assms(1) by (simp add: consume_boundary_def)
  then show ?thesis using scan_inside [OF assms(2)] scan_inside [OF assms(2), of "[]"] by (simp add: boundary_inside)
qed

text \<open>A block of four backticks that shows a fence of three and a question.\<close>

definition demo_block :: "string list" where
  "demo_block = [replicate 3 CHR 0x60, ''USER-CONFIRM: drop the table?'', replicate 3 CHR 0x60]"

theorem fenced_text_is_ignored_witness:
  "\<not> confirm_scan None (replicate 4 CHR 0x60 # demo_block) \<and> confirm_scan None demo_block = False
   \<and> confirm_scan None (replicate 4 CHR 0x60 # demo_block @ replicate 4 CHR 0x60 # [''!USER-CONFIRM: drop the table?'']) = confirm_scan None [''!USER-CONFIRM: drop the table?'']
   \<and> confirm_scan None [''!USER-CONFIRM: drop the table?'']"
proof -
  have o: "fence_run (replicate 4 CHR 0x60) = Some (CHR 0x60, 4, [])" by code_simp
  have b: "list_all (\<lambda>l. \<not> closes CHR 0x60 4 l) demo_block" by code_simp
  have c: "closes CHR 0x60 4 (replicate 4 CHR 0x60)" by code_simp
  have "confirm_scan None demo_block = False" by code_simp
  moreover have "confirm_scan None [''!USER-CONFIRM: drop the table?'']" by code_simp
  ultimately show ?thesis using fenced_text_is_ignored [OF o b] c by blast
qed

section \<open>Own lines and relayed lines\<close>

definition signal_head :: "string \<Rightarrow> bool" where
  "signal_head s \<longleftrightarrow> s \<noteq> [] \<and> hd s \<in> {CHR 0x60, CHR ''*'', CHR ''!'', CHR ''S'', CHR ''B'', CHR ''F'', CHR ''U''}"

lemma head_before:
  "c \<in> {CHR 0x60, CHR ''!''} \<Longrightarrow> signal_head (drop_opt c s) \<Longrightarrow> signal_head s"
  "signal_head (drop_stars s) \<Longrightarrow> signal_head s"
  "signal_head (drop_status s) \<Longrightarrow> signal_head s"
  by (cases s; auto simp: signal_head_def drop_opt_def drop_stars_def drop_status_def startswith_def split: if_splits)+

lemma own_signal_head:
  assumes "own_signal_match s = Some (k, payload)"
  shows "k \<in> set ATTENTION_KINDS \<and> s \<noteq> [] \<and> hd s \<in> {CHR 0x60, CHR ''*'', CHR ''!'', CHR ''S'', CHR ''B'', CHR ''F'', CHR ''U''}"
proof -
  define body where "body = drop_status (drop_sigil (drop_opt CHR 0x60 s))"
  have k: "find (\<lambda>k. startswith body (k @ '':'')) ATTENTION_KINDS = Some k"
    using assms by (auto simp: own_signal_match_def Let_def body_def split: option.splits if_splits)
  then have "k \<in> set ATTENTION_KINDS" "startswith body (k @ '':'')" by (auto simp: find_Some_iff)
  then have b: "body \<noteq> []" "hd body \<in> {CHR ''B'', CHR ''F'', CHR ''U''}"
    by (cases body; auto simp: ATTENTION_KINDS_def startswith_def)+
  then have "signal_head (drop_status (drop_sigil (drop_opt CHR 0x60 s)))" by (auto simp: signal_head_def body_def)
  then have "signal_head (drop_sigil (drop_opt CHR 0x60 s))" by (rule head_before(3))
  then have "signal_head (drop_opt CHR ''!'' (drop_stars (drop_opt CHR 0x60 s)))" unfolding drop_sigil_def by (rule head_before(2))
  then have "signal_head (drop_stars (drop_opt CHR 0x60 s))" by (rule head_before(1) [rotated]) simp
  then have "signal_head (drop_opt CHR 0x60 s)" by (rule head_before(2))
  then have "signal_head s" by (rule head_before(1) [rotated]) simp
  with \<open>k \<in> set ATTENTION_KINDS\<close> show ?thesis by (simp add: signal_head_def)
qed

lemma trim_head:
  assumes "s \<noteq> []" "\<not> wide_space (hd s)"
  shows "trim wide_space s \<noteq> [] \<and> hd (trim wide_space s) = hd s"
proof -
  obtain c cs where s: "s = c # cs" "\<not> wide_space c" using assms by (cases s) auto
  then show ?thesis by (auto simp: trim_def dropWhile_append)
qed

text \<open>
  Quoted, listed, numbered, tabulated and indented copies of a marker are not the worker's own signal: a line
  counts only if it starts with a decoration, the status prefix or a marker, or with the renderer's two-space
  continuation, or with white space that is neither a space nor a tab; and what counts is one of the four kinds,
  without an unfilled template in the kinds that have one.
\<close>

lemma own_signal_is_at_line_start:
  assumes "parse_own_signal_attention_line kimi_output n (c # cs) = Some a"
  shows "an_kind a \<in> set ATTENTION_KINDS \<and> length (an_text a) \<le> 1000
     \<and> (c \<in> {CHR 0x60, CHR ''*'', CHR ''!'', CHR ''S'', CHR ''B'', CHR ''F'', CHR ''U''}
        \<or> kimi_output \<and> startswith (c # cs) ''  '' \<and> \<not> startswith (c # cs) ''   ''
        \<or> wide_space c \<and> c \<noteq> CHR 0x20 \<and> c \<noteq> CHR 0x09)"
proof -
  let ?raw = "c # cs"
  obtain k payload where m: "own_signal_match (trim wide_space ?raw) = Some (k, payload)"
    and a: "a = \<lparr>an_line = n, an_kind = k, an_text = take 1000 (strip_marker_decoration payload)\<rparr>"
    and tab: "\<not> startswith ?raw [CHR 0x09]"
    and space: "startswith ?raw '' '' \<longrightarrow> kimi_output \<and> startswith ?raw ''  '' \<and> \<not> startswith ?raw ''   ''"
    using assms by (auto simp: parse_own_signal_attention_line_def split: if_splits option.splits)
  note h = own_signal_head [OF m]
  show ?thesis
  proof (cases "wide_space c")
    case False
    then have "hd (trim wide_space ?raw) = c" using trim_head [of ?raw] by simp
    then show ?thesis using h a by simp
  next
    case True
    then show ?thesis using h a tab space by (auto simp: startswith_def)
  qed
qed

lemma own_signal_is_at_line_start_witness:
  "parse_own_signal_attention_line False 4 ''**BLOCKED:** no access'' = Some \<lparr>an_line = 4, an_kind = ''BLOCKED'', an_text = ''no access''\<rparr>
   \<and> ''BLOCKED'' \<in> set ATTENTION_KINDS \<and> length ''no access'' \<le> 1000
   \<and> parse_own_signal_attention_line False 4 ''> BLOCKED: no access'' = None"
proof -
  have p: "parse_own_signal_attention_line False 4 (CHR ''*'' # ''*BLOCKED:** no access'') = Some \<lparr>an_line = 4, an_kind = ''BLOCKED'', an_text = ''no access''\<rparr>"
    by code_simp
  moreover have "parse_own_signal_attention_line False 4 ''> BLOCKED: no access'' = None" by code_simp
  ultimately show ?thesis using own_signal_is_at_line_start [OF p] by simp
qed

text \<open>A no-break space is such white space: an indentation by it is not noticed.\<close>

lemma no_break_indent_accepted:
  "parse_own_signal_attention_line False 4 (CHR 0xA0 # CHR 0xA0 # ''BLOCKED: no access'') = parse_own_signal_attention_line False 4 ''BLOCKED: no access''"
  by code_simp

section \<open>Network deaths\<close>

lemma after_sequence_sound:
  "after_sequence gs ls = Some rest \<Longrightarrow> \<exists>pre hits. ls = pre @ rest \<and> length hits = length gs \<and> subseq hits pre \<and> list_all2 contains hits gs"
proof (induction gs ls arbitrary: rest rule: after_sequence.induct)
  case (1 ls)
  then show ?case by (intro exI [of _ "[]"]) simp
next
  case (3 g gs l ls)
  show ?case
  proof (cases "contains l g")
    case True
    with 3 obtain pre hits where "ls = pre @ rest" "length hits = length gs" "subseq hits pre" "list_all2 contains hits gs" by auto
    then show ?thesis using True by (intro exI [of _ "l # pre"] exI [of _ "l # hits"]) simp
  next
    case False
    with 3 obtain pre hits where "ls = pre @ rest" "length hits = length (g # gs)" "subseq hits pre" "list_all2 contains hits (g # gs)" by auto
    then show ?thesis by (intro exI [of _ "l # pre"] exI [of _ hits]) auto
  qed
qed simp

lemma after_sequence_skip: "list_all (\<lambda>l. \<not> contains l g) ls \<Longrightarrow> after_sequence (g # gs) (ls @ ms) = after_sequence (g # gs) ms"
  by (induction ls) simp_all

text \<open>
  A death is put down to the network only on evidence that runs to the end of the tail: three distinct lines
  with the three signatures in order, and every line after the last of them more of the same failure; and no
  provider line stands against it.
\<close>

lemma network_verdict_has_evidence:
  assumes "classify_worker_death_text t = Upstream_Network"
  shows "\<exists>pre rest hits. map casefold (death_lines t) = pre @ rest \<and> subseq hits pre
     \<and> list_all2 contains hits UPSTREAM_NETWORK_DEATH_SEQUENCE \<and> list_all network_noise rest \<and> \<not> provider_death (death_lines t)"
proof -
  have "network_death (map casefold (death_lines t))" "\<not> provider_death (death_lines t)"
    using assms by (auto simp: classify_worker_death_text_def Let_def split: if_splits)
  then show ?thesis using after_sequence_sound by (fastforce simp: network_death_def split: option.splits)
qed

definition demo_death :: string where
  "demo_death = ''10:00 failed to lookup address information: nodename nor servname provided'' @ [CHR 0x0A]
     @ ''10:01 stream disconnected before completion: retry'' @ [CHR 0x0A] @ ''ERROR: Reconnecting... 5/5'' @ [CHR 0x0A]"

lemma network_verdict_has_evidence_witness:
  "classify_worker_death_text demo_death = Upstream_Network
   \<and> (\<exists>pre rest hits. map casefold (death_lines demo_death) = pre @ rest \<and> subseq hits pre
     \<and> list_all2 contains hits UPSTREAM_NETWORK_DEATH_SEQUENCE \<and> list_all network_noise rest \<and> \<not> provider_death (death_lines demo_death))"
proof -
  have v: "classify_worker_death_text demo_death = Upstream_Network" by code_simp
  with network_verdict_has_evidence [OF v] show ?thesis by blast
qed

lemma demo_lines:
  "map casefold (death_lines demo_death) =
     [''10:00 failed to lookup address information: nodename nor servname provided'', ''10:01 stream disconnected before completion: retry'',
      ''error: reconnecting... 5/5'']"
  by code_simp

lemma demo_sequence: "after_sequence UPSTREAM_NETWORK_DEATH_SEQUENCE (map casefold (death_lines demo_death) @ ls) = Some ls"
proof -
  have "contains ''10:00 failed to lookup address information: nodename nor servname provided'' ''failed to lookup address information: nodename nor servname provided''"
    "contains ''10:01 stream disconnected before completion: retry'' ''stream disconnected before completion''"
    "contains ''error: reconnecting... 5/5'' ''error: reconnecting... 5/5''"
    by code_simp+
  then show ?thesis unfolding demo_lines UPSTREAM_NETWORK_DEATH_SEQUENCE_def by simp
qed



end
