(* ===== verification/GF_Permits.thy ===== *)
theory GF_Permits
  imports GF_Limits GF_Leases
begin

text \<open>
  The file exchange behind inline permissions (\<open>scripts/goalflight_acp_permits.py\<close>): a worker publishes a
  request file and holds its tool call open, a controller answers with a decision file, optionally after an
  acknowledgement. The directory is the association list of its entries, in listing order; a missing directory
  is an empty one. A write can fail only where the code has a branch for it: on an entry that is a directory.
\<close>

section \<open>The directory\<close>

text \<open>
  A regular file has its decoded object (\<open>None\<close> when its bytes are not JSON), its size and its modification
  time; \<open>Special\<close> stands for a symbolic link, a FIFO or another entry that is not a regular file.
\<close>

datatype node = Regular "json option" nat real | Special | Folder

type_synonym pdir = "(string \<times> node) list"

datatype permit_exn = ValueError | FileSystemError

type_synonym 'a pres = "permit_exn + 'a"

text \<open>The clock and the number of bytes \<open>json.dumps\<close> gives an object.\<close>

record permit_env =
  pe_now :: real
  pe_bytes :: "dict \<Rightarrow> nat"

definition REQUEST_SCHEMA :: string where "REQUEST_SCHEMA = ''goalflight.permission_request.v1''"
definition DECISION_SCHEMA :: string where "DECISION_SCHEMA = ''goalflight.permission_decision.v1''"
definition ACK_SCHEMA :: string where "ACK_SCHEMA = ''goalflight.permission_ack.v1''"
definition REQUEST_SUFFIX :: string where "REQUEST_SUFFIX = ''.request.json''"
definition DECISION_SUFFIX :: string where "DECISION_SUFFIX = ''.decision.json''"
definition ACK_SUFFIX :: string where "ACK_SUFFIX = ''.ack.json''"
definition DECISIONS :: "string list" where "DECISIONS = [''allow'', ''deny'']"
definition MAX_JSON_BYTES :: nat where "MAX_JSON_BYTES = 1048576"

section \<open>Keys\<close>

definition name_char :: "char \<Rightarrow> bool" where
  "name_char c \<longleftrightarrow> ascii_letter c \<or> ascii_digit c \<or> c \<in> set ''_.-''"

text \<open>\<open>_UNSAFE.sub("_", value)\<close>: every run of unsafe characters becomes one underscore.\<close>

fun replace_unsafe :: "bool \<Rightarrow> string \<Rightarrow> string" where
  "replace_unsafe in_run [] = []"
| "replace_unsafe in_run (c # cs) =
     (if name_char c then c # replace_unsafe False cs
      else if in_run then replace_unsafe True cs else CHR ''_'' # replace_unsafe True cs)"

definition strip_chars :: "string \<Rightarrow> string \<Rightarrow> string" where
  "strip_chars chars s = rev (dropWhile (\<lambda>c. c \<in> set chars) (rev (dropWhile (\<lambda>c. c \<in> set chars) s)))"

definition sanitize :: "string \<Rightarrow> string" where
  "sanitize v = (let t = take 100 (strip_chars ''._'' (replace_unsafe False v)) in if t = [] then ''_'' else t)"

text \<open>\<open>make_key\<close>; the eight random hex digits are an argument.\<close>

definition make_key :: "string option \<Rightarrow> string option \<Rightarrow> string \<Rightarrow> string" where
  "make_key session_id tool_call_id uuid =
     (let sid = sanitize (case session_id of None \<Rightarrow> ''nosession'' | Some s \<Rightarrow> if s = [] then ''nosession'' else s);
          tid = (case tool_call_id of None \<Rightarrow> ''tc'' | Some t \<Rightarrow> if t = [] then ''tc'' else sanitize t)
      in sid @ ''.'' @ tid @ ''.'' @ uuid)"

definition request_path :: "string \<Rightarrow> string" where "request_path key = key @ REQUEST_SUFFIX"
definition decision_path :: "string \<Rightarrow> string" where "decision_path key = key @ DECISION_SUFFIX"
definition ack_path :: "string \<Rightarrow> string" where "ack_path key = key @ ACK_SUFFIX"

text \<open>
  \<open>permission_dir\<close>: \<open>allowed_root\<close> tells whether the path of the environment variable lies under an allowed root,
  \<open>allow\<close> whether the override variable is \<open>1\<close>.
\<close>

definition permission_dir :: "string option \<Rightarrow> string option \<Rightarrow> (string \<Rightarrow> bool) \<Rightarrow> bool \<Rightarrow> string \<Rightarrow> string pres" where
  "permission_dir explicit env allowed_root allow dflt =
     (case explicit of Some (c # cs) \<Rightarrow> Inr (c # cs)
      | _ \<Rightarrow> (case env of
            Some (e # es) \<Rightarrow> if allowed_root (e # es) then Inr (e # es) else if allow then Inr (e # es) else Inl ValueError
          | _ \<Rightarrow> Inr dflt))"

section \<open>Reading and writing files\<close>

definition atomic_write_json :: "permit_env \<Rightarrow> string \<Rightarrow> dict \<Rightarrow> pdir \<Rightarrow> unit pres \<times> pdir" where
  "atomic_write_json env name obj d =
     (if map_of d name = Some Folder then (Inl FileSystemError, d)
      else (Inr (), AList.update name (Regular (Some (JObj obj)) (pe_bytes env obj) (pe_now env)) d))"

definition node_json :: "node option \<Rightarrow> dict option" where
  "node_json n = (case n of
      Some (Regular (Some (JObj obj)) bytes t) \<Rightarrow> if MAX_JSON_BYTES < bytes then None else Some obj
    | _ \<Rightarrow> None)"

definition read_json :: "pdir \<Rightarrow> string \<Rightarrow> dict option" where
  "read_json d name = node_json (map_of d name)"

text \<open>\<open>write_request\<close>: the record's own fields win over the stamped ones.\<close>

definition request_payload :: "permit_env \<Rightarrow> dict \<Rightarrow> dict" where
  "request_payload env rc = fold (\<lambda>(k, v). jput k v) rc [(''schema'', JStr REQUEST_SCHEMA), (''created_at'', JFloat (pe_now env))]"

definition write_request :: "permit_env \<Rightarrow> dict \<Rightarrow> pdir \<Rightarrow> unit pres \<times> pdir" where
  "write_request env rc d = (let key = jget rc ''key'' in
     if \<not> truthy key then (Inl ValueError, d)
     else atomic_write_json env (request_path (py_str key)) (request_payload env rc) d)"

text \<open>\<open>read_decision\<close> and the predicate on the object it decodes.\<close>

definition valid_decision :: "json \<Rightarrow> dict \<Rightarrow> bool" where
  "valid_decision key obj \<longleftrightarrow> jget obj ''schema'' = JStr DECISION_SCHEMA \<and> jget obj ''key'' = key
     \<and> (\<exists>v\<in>set DECISIONS. jget obj ''decision'' = JStr v)"

definition node_decision :: "json \<Rightarrow> node option \<Rightarrow> dict option" where
  "node_decision key n = (case node_json n of None \<Rightarrow> None | Some obj \<Rightarrow> if valid_decision key obj then Some obj else None)"

definition read_decision :: "pdir \<Rightarrow> json \<Rightarrow> dict option" where
  "read_decision d key = node_decision key (map_of d (decision_path (py_str key)))"

definition write_ack :: "permit_env \<Rightarrow> string \<Rightarrow> pdir \<Rightarrow> unit pres \<times> pdir" where
  "write_ack env key d = atomic_write_json env (ack_path key)
     [(''schema'', JStr ACK_SCHEMA), (''acked_at'', JFloat (pe_now env)), (''key'', JStr key)] d"

definition read_ack :: "pdir \<Rightarrow> json \<Rightarrow> bool" where
  "read_ack d key = (case read_json d (ack_path (py_str key)) of None \<Rightarrow> False
     | Some obj \<Rightarrow> jget obj ''schema'' = JStr ACK_SCHEMA \<and> jget obj ''key'' = key)"

section \<open>Pending requests\<close>

definition endswith :: "string \<Rightarrow> string \<Rightarrow> bool" where
  "endswith s p \<longleftrightarrow> startswith (rev s) (rev p)"

text \<open>One entry of the listing, \<open>None\<close> when the loop skips it.\<close>

definition pending_entry :: "pdir \<Rightarrow> string \<Rightarrow> dict option" where
  "pending_entry d name =
     (if \<not> endswith name REQUEST_SUFFIX then None
      else case read_json d name of
          None \<Rightarrow> None
        | Some rc \<Rightarrow>
            (let key = (if truthy (jget rc ''key'') then jget rc ''key'' else JStr (take (length name - length REQUEST_SUFFIX) name))
             in if read_decision d key \<noteq> None then None
                else Some (jput ''acked'' (JBool (read_ack d key)) (jput ''key'' key rc))))"

definition created_key :: "dict \<Rightarrow> real \<times> string" where
  "created_key rc = ((case json_float (py_or (jget rc ''created_at'') (JFloat 0)) of None \<Rightarrow> 0 | Some t \<Rightarrow> t), py_str (jget rc ''key''))"

definition list_requests :: "pdir \<Rightarrow> dict list pres" where
  "list_requests d = (let found = List.map_filter (pending_entry d) (map fst d) in
     if list_ex (\<lambda>rc. json_float (py_or (jget rc ''created_at'') (JFloat 0)) = None) found then Inl ValueError
     else Inr (sort_key created_key found))"

section \<open>Decisions\<close>

definition decision_payload :: "permit_env \<Rightarrow> string \<Rightarrow> string \<Rightarrow> string option \<Rightarrow> dict" where
  "decision_payload env key decision option_id =
     [(''schema'', JStr DECISION_SCHEMA), (''key'', JStr key), (''decision'', JStr decision),
      (''option_id'', case option_id of None \<Rightarrow> JNull | Some x \<Rightarrow> JStr x), (''decided_at'', JFloat (pe_now env))]"

text \<open>\<open>write_decision\<close> run on its own: a valid decision stays, an entry that cannot be one is unlinked first.\<close>

definition write_decision :: "permit_env \<Rightarrow> string \<Rightarrow> string \<Rightarrow> string option \<Rightarrow> pdir \<Rightarrow> unit pres \<times> pdir" where
  "write_decision env key decision option_id d =
     (if decision \<notin> set DECISIONS then (Inl ValueError, d)
      else let name = decision_path key;
               new = Regular (Some (JObj (decision_payload env key decision option_id)))
                       (pe_bytes env (decision_payload env key decision option_id)) (pe_now env)
           in case map_of d name of
                Some (Regular j b t) \<Rightarrow>
                  if read_decision d (JStr key) \<noteq> None then (Inr (), d)
                  else (Inr (), AList.update name new (AList.delete name d))
              | Some Special \<Rightarrow> (Inr (), AList.update name new (AList.delete name d))
              | Some Folder \<Rightarrow> (Inr (), d)
              | None \<Rightarrow> (Inr (), AList.update name new d))"

section \<open>Cleaning up\<close>

definition unlink :: "string \<Rightarrow> pdir \<Rightarrow> pdir" where
  "unlink name d = (if map_of d name = Some Folder then d else AList.delete name d)"

definition clear :: "string \<Rightarrow> pdir \<Rightarrow> pdir" where
  "clear key d = unlink (ack_path key) (unlink (decision_path key) (unlink (request_path key) d))"

definition DEFAULT_SWEEP_AGE_S :: real where "DEFAULT_SWEEP_AGE_S = 3600"

definition ipc_name :: "string \<Rightarrow> bool" where
  "ipc_name name \<longleftrightarrow> endswith name REQUEST_SUFFIX \<or> endswith name DECISION_SUFFIX \<or> endswith name ACK_SUFFIX \<or> endswith name ''.tmp''"

text \<open>
  \<open>sweep\<close>. \<open>special_time\<close> is the modification time \<open>stat\<close> reports for an entry that is not a regular file
  (it follows links, and \<open>None\<close> is a dangling one); unlinking a directory fails and is passed over.
\<close>

definition swept :: "permit_env \<Rightarrow> (string \<Rightarrow> real option) \<Rightarrow> real \<Rightarrow> string \<times> node \<Rightarrow> bool" where
  "swept env special_time max_age e \<longleftrightarrow> ipc_name (fst e) \<and>
     (case snd e of
        Regular j b t \<Rightarrow> t < pe_now env - max_age
      | Special \<Rightarrow> (case special_time (fst e) of None \<Rightarrow> False | Some t \<Rightarrow> t < pe_now env - max_age)
      | Folder \<Rightarrow> False)"

definition sweep :: "permit_env \<Rightarrow> (string \<Rightarrow> real option) \<Rightarrow> real \<Rightarrow> pdir \<Rightarrow> nat \<times> pdir" where
  "sweep env special_time max_age d =
     (length (filter (swept env special_time max_age) d), filter (\<lambda>e. \<not> swept env special_time max_age e) d)"

end
