(* ===== verification/GF_Permit_Race.thy ===== *)
theory GF_Permit_Race
  imports GF_Permits
begin

text \<open>
  \<open>write_decision\<close> system call by system call, for several controllers answering one request at once. The
  slot is the entry at the decision path with its inode, so that a write through a file descriptor whose name
  was unlinked does not reach the new entry. A schedule is the list of the writers that take the next step.
\<close>

datatype writer_pc = LStat | ReadBack | UnlinkBad | LStatAgain | UnlinkSpecial | HardLink | CreateExcl | Fill nat | Finished

type_synonym slot = "(nat \<times> node) option"

record race =
  rc_slot :: slot
  rc_fresh :: nat
  rc_writers :: "(dict \<times> writer_pc) list"

definition slot_node :: "slot \<Rightarrow> node option" where
  "slot_node s = map_option snd s"

definition slot_regular :: "slot \<Rightarrow> bool" where
  "slot_regular s \<longleftrightarrow> (case slot_node s of Some (Regular j b t) \<Rightarrow> True | _ \<Rightarrow> False)"

definition slot_unlink :: "slot \<Rightarrow> slot" where
  "slot_unlink s = (if slot_node s = Some Folder then s else None)"

definition payload_node :: "permit_env \<Rightarrow> dict \<Rightarrow> node" where
  "payload_node env obj = Regular (Some (JObj obj)) (pe_bytes env obj) (pe_now env)"

text \<open>
  The next system call of one writer: the new program counter, slot and next free inode. \<open>hardlinks\<close> tells
  whether the file system supports \<open>os.link\<close>.
\<close>

fun writer_step :: "permit_env \<Rightarrow> json \<Rightarrow> bool \<Rightarrow> dict \<Rightarrow> writer_pc \<Rightarrow> slot \<Rightarrow> nat \<Rightarrow> writer_pc \<times> slot \<times> nat" where
  "writer_step env key hardlinks obj LStat s n = (if slot_regular s then ReadBack else LStatAgain, s, n)"
| "writer_step env key hardlinks obj ReadBack s n = (if node_decision key (slot_node s) \<noteq> None then Finished else UnlinkBad, s, n)"
| "writer_step env key hardlinks obj UnlinkBad s n = (LStatAgain, slot_unlink s, n)"
| "writer_step env key hardlinks obj LStatAgain s n = (if slot_node s = Some Special then UnlinkSpecial else HardLink, s, n)"
| "writer_step env key hardlinks obj UnlinkSpecial s n = (HardLink, slot_unlink s, n)"
| "writer_step env key hardlinks obj HardLink s n =
     (if \<not> hardlinks then (CreateExcl, s, n)
      else if s \<noteq> None then (Finished, s, n) else (Finished, Some (n, payload_node env obj), Suc n))"
| "writer_step env key hardlinks obj CreateExcl s n =
     (if s \<noteq> None then (Finished, s, n) else (Fill n, Some (n, Regular None 0 (pe_now env)), Suc n))"
| "writer_step env key hardlinks obj (Fill i) s n =
     (Finished, (case s of Some (j, e) \<Rightarrow> if j = i then Some (j, payload_node env obj) else s | None \<Rightarrow> None), n)"
| "writer_step env key hardlinks obj Finished s n = (Finished, s, n)"

definition race_step :: "permit_env \<Rightarrow> json \<Rightarrow> bool \<Rightarrow> nat \<Rightarrow> race \<Rightarrow> race" where
  "race_step env key hardlinks i r =
     (if i < length (rc_writers r) then
        (case rc_writers r ! i of (obj, pc) \<Rightarrow> (case writer_step env key hardlinks obj pc (rc_slot r) (rc_fresh r) of
           (pc', s', n') \<Rightarrow> r\<lparr>rc_slot := s', rc_fresh := n', rc_writers := (rc_writers r)[i := (obj, pc')]\<rparr>))
      else r)"

definition run_race :: "permit_env \<Rightarrow> json \<Rightarrow> bool \<Rightarrow> nat list \<Rightarrow> race \<Rightarrow> race" where
  "run_race env key hardlinks sched r = fold (race_step env key hardlinks) sched r"

text \<open>What a reader of the decision sees.\<close>

definition visible :: "json \<Rightarrow> race \<Rightarrow> dict option" where
  "visible key r = node_decision key (slot_node (rc_slot r))"

text \<open>Writers about to start, each with an object that reads back as a decision for the key.\<close>

definition starting :: "permit_env \<Rightarrow> json \<Rightarrow> (dict \<times> writer_pc) list \<Rightarrow> bool" where
  "starting env key ws \<longleftrightarrow> list_all (\<lambda>(obj, pc). pc = LStat \<and> node_decision key (Some (payload_node env obj)) = Some obj) ws"

section \<open>One writer alone\<close>

text \<open>What one call of \<open>write_decision\<close> makes of the entry at the decision path.\<close>

lemma payload_node_regular [simp]: "payload_node env obj \<noteq> Folder" "payload_node env obj \<noteq> Special"
  by (simp_all add: payload_node_def)

definition settled_entry :: "permit_env \<Rightarrow> json \<Rightarrow> dict \<Rightarrow> node option \<Rightarrow> node option" where
  "settled_entry env key obj e = (if e = Some Folder \<or> node_decision key e \<noteq> None then e else Some (payload_node env obj))"

lemma not_a_decision [simp]: "node_decision key None = None" "node_decision key (Some Folder) = None"
    "node_decision key (Some Special) = None" "node_decision key (Some (Regular None b t)) = None"
  by (simp_all add: node_decision_def node_json_def)

lemma write_decision_entry:
  assumes "decision \<in> set DECISIONS"
  shows "map_of (snd (write_decision env key decision option_id d)) (decision_path key)
       = settled_entry env (JStr key) (decision_payload env key decision option_id) (map_of d (decision_path key))"
proof (cases "node_decision (JStr key) (map_of d (decision_path key))")
  case None
  then show ?thesis using assms by (simp add: write_decision_def settled_entry_def Let_def read_decision_def py_str_def payload_node_def
      update_conv' split: option.split node.split)
next
  case (Some obj)
  then obtain j b t where "map_of d (decision_path key) = Some (Regular j b t)"
    by (cases "map_of d (decision_path key)"; cases "the (map_of d (decision_path key))") auto
  then show ?thesis using assms Some by (simp add: write_decision_def settled_entry_def read_decision_def py_str_def)
qed

type_synonym turn = "writer_pc \<times> slot \<times> nat"

definition turn_of :: "permit_env \<Rightarrow> json \<Rightarrow> bool \<Rightarrow> dict \<Rightarrow> turn \<Rightarrow> turn" where
  "turn_of env key hardlinks obj t = (case t of (pc, s, n) \<Rightarrow> writer_step env key hardlinks obj pc s n)"

definition lone :: "dict \<Rightarrow> turn \<Rightarrow> race" where
  "lone obj t = (case t of (pc, s, n) \<Rightarrow> \<lparr>rc_slot = s, rc_fresh = n, rc_writers = [(obj, pc)]\<rparr>)"

lemma lone_step: "race_step env key hardlinks 0 (lone obj t) = lone obj (turn_of env key hardlinks obj t)"
  by (simp add: race_step_def lone_def turn_of_def split: prod.split)

lemma lone_run: "run_race env key hardlinks (replicate k 0) (lone obj t) = lone obj ((turn_of env key hardlinks obj ^^ k) t)"
  by (induction k arbitrary: t) (simp_all add: run_race_def lone_step funpow_swap1)

lemma lone_settles:
  "\<exists>s' n'. (turn_of env key hardlinks obj ^^ 9) (LStat, s, n) = (Finished, s', n') \<and> slot_node s' = settled_entry env key obj (slot_node s)"
proof -
  have step: "(turn_of env key hardlinks obj ^^ 9) t = turn_of env key hardlinks obj (turn_of env key hardlinks obj (turn_of env key hardlinks obj
      (turn_of env key hardlinks obj (turn_of env key hardlinks obj (turn_of env key hardlinks obj (turn_of env key hardlinks obj
      (turn_of env key hardlinks obj (turn_of env key hardlinks obj t))))))))" for t
    by (simp add: numeral_eq_Suc)
  consider (absent) "s = None" | (folder) i where "s = Some (i, Folder)" | (special) i where "s = Some (i, Special)"
    | (regular) i j b t where "s = Some (i, Regular j b t)"
    by (cases s) (metis node.exhaust surj_pair)+
  then show ?thesis
    unfolding step
    by cases (cases hardlinks; simp add: turn_of_def settled_entry_def slot_node_def slot_regular_def slot_unlink_def payload_node_def)+
qed


section \<open>Several writers\<close>

text \<open>
  With hard links, and nothing but a decision at the path, no writer ever comes to unlink or to create in place,
  and none has finished while the path is free.
\<close>

definition calm_writer :: "permit_env \<Rightarrow> json \<Rightarrow> slot \<Rightarrow> dict \<times> writer_pc \<Rightarrow> bool" where
  "calm_writer env key s w \<longleftrightarrow> node_decision key (Some (payload_node env (fst w))) = Some (fst w)
     \<and> snd w \<in> {LStat, ReadBack, LStatAgain, HardLink, Finished} \<and> (snd w \<in> {ReadBack, Finished} \<longrightarrow> s \<noteq> None)"

definition calm :: "permit_env \<Rightarrow> json \<Rightarrow> race \<Rightarrow> bool" where
  "calm env key r \<longleftrightarrow> list_all (calm_writer env key (rc_slot r)) (rc_writers r)
     \<and> (rc_slot r = None \<or> node_decision key (slot_node (rc_slot r)) \<noteq> None)"

lemma decision_regular: "node_decision key (slot_node s) \<noteq> None \<Longrightarrow> slot_regular s \<and> slot_node s \<noteq> Some Special"
  by (cases "slot_node s") (auto simp: slot_regular_def node_decision_def node_json_def split: node.splits option.splits)

lemma calm_writer_step:
  assumes "calm_writer env key s (obj, pc)" "s = None \<or> node_decision key (slot_node s) \<noteq> None"
    and "writer_step env key True obj pc s n = (pc', s', n')"
  shows "calm_writer env key s' (obj, pc') \<and> (s' = s \<or> s = None \<and> node_decision key (slot_node s') = Some obj)"
proof (cases s)
  case None
  then show ?thesis using assms(1,3)
    by (cases pc) (auto simp: calm_writer_def slot_node_def slot_regular_def split: if_splits)
next
  case (Some e)
  then have "node_decision key (slot_node s) \<noteq> None" using assms(2) by simp
  with decision_regular [OF this] Some show ?thesis using assms(1,3)
    by (cases pc) (auto simp: calm_writer_def split: if_splits)
qed

lemma calm_step:
  assumes "calm env key r"
  shows "calm env key (race_step env key True i r) \<and>
     (rc_slot (race_step env key True i r) = rc_slot r
      \<or> rc_slot r = None \<and> visible key (race_step env key True i r) \<in> Some ` fst ` set (rc_writers r))
     \<and> map fst (rc_writers (race_step env key True i r)) = map fst (rc_writers r)"
proof (cases "i < length (rc_writers r)")
  case True
  obtain obj pc where w: "rc_writers r ! i = (obj, pc)" by force
  obtain pc' s' n' where st: "writer_step env key True obj pc (rc_slot r) (rc_fresh r) = (pc', s', n')" by (metis surj_pair)
  have r': "race_step env key True i r = r\<lparr>rc_slot := s', rc_fresh := n', rc_writers := (rc_writers r)[i := (obj, pc')]\<rparr>"
    using True w st by (simp add: race_step_def)
  have cw: "calm_writer env key (rc_slot r) (obj, pc)" using assms True w by (auto simp: calm_def list_all_length)
  have step: "calm_writer env key s' (obj, pc')" "s' = rc_slot r \<or> rc_slot r = None \<and> node_decision key (slot_node s') = Some obj"
    using calm_writer_step [OF cw _ st] assms by (simp_all add: calm_def)
  have keep: "calm_writer env key s' w" if "w \<in> set (rc_writers r)" for w
    using that step(2) assms by (auto simp: calm_def list_all_iff calm_writer_def)
  have "list_all (calm_writer env key s') ((rc_writers r)[i := (obj, pc')])"
    using keep step(1) set_update_subset_insert [of "rc_writers r" i "(obj, pc')"] by (auto simp: list_all_iff)
  moreover have "map fst ((rc_writers r)[i := (obj, pc')]) = map fst (rc_writers r)" using w True
    by (metis fst_conv list_update_id map_update nth_map)
  moreover have "obj \<in> fst ` set (rc_writers r)" using w True by (metis fst_conv imageI nth_mem)
  ultimately show ?thesis using step(2) assms by (auto simp: r' calm_def visible_def)
qed (use assms in \<open>simp add: race_step_def\<close>)

text \<open>
  A register that only ever goes from no value to one of the offered values, by steps of any interleaving: what
  a client of the decision file relies on.
\<close>

locale sticky_register =
  fixes inv :: "'s \<Rightarrow> bool" and step :: "'op \<Rightarrow> 's \<Rightarrow> 's" and view :: "'s \<Rightarrow> 'v option" and offered :: "'s \<Rightarrow> 'v set"
  assumes inv_step: "inv s \<Longrightarrow> inv (step i s)"
    and view_step: "inv s \<Longrightarrow> view (step i s) = view s \<or> view s = None \<and> view (step i s) \<in> Some ` offered s"
    and offered_step: "inv s \<Longrightarrow> offered (step i s) = offered s"
begin

lemma run_inv: "inv s \<Longrightarrow> inv (fold step ops s) \<and> offered (fold step ops s) = offered s"
  by (induction ops arbitrary: s) (simp_all add: inv_step offered_step)

lemma stays: "inv s \<Longrightarrow> view s = Some v \<Longrightarrow> view (fold step ops s) = Some v"
proof (induction ops arbitrary: s)
  case (Cons i ops)
  have "view (step i s) = Some v" using view_step [OF Cons.prems(1), of i] Cons.prems(2) by auto
  then show ?case using Cons.IH [OF inv_step [OF Cons.prems(1)]] by simp
qed simp

lemma first_wins: "inv s \<Longrightarrow> view (fold step before s) = Some v \<Longrightarrow> view (fold step (before @ later) s) = Some v"
  using stays [of "fold step before s" v later] run_inv by simp

lemma origin: "inv s \<Longrightarrow> view (fold step ops s) = Some v \<Longrightarrow> view s = Some v \<or> view s = None \<and> v \<in> offered s"
proof (induction ops arbitrary: s)
  case (Cons i ops)
  then have "view (step i s) = Some v \<or> view (step i s) = None \<and> v \<in> offered s"
    using inv_step [of s i] offered_step [of s i] by auto
  then show ?case using view_step [OF Cons.prems(1), of i] by auto
qed simp

end

lemma calm_register: "sticky_register (calm env key) (race_step env key True) (visible key) (\<lambda>r. fst ` set (rc_writers r))"
proof
  fix r i assume calm: "calm env key r"
  note st = calm_step [OF calm, of i]
  show "calm env key (race_step env key True i r)" using st by blast
  show "visible key (race_step env key True i r) = visible key r
      \<or> visible key r = None \<and> visible key (race_step env key True i r) \<in> Some ` fst ` set (rc_writers r)"
    using st by (auto simp: visible_def slot_node_def)
  show "fst ` set (rc_writers (race_step env key True i r)) = fst ` set (rc_writers r)"
    using st by (metis list.set_map)
qed

interpretation answer_file: sticky_register "calm env key" "race_step env key True" "visible key" "\<lambda>r. fst ` set (rc_writers r)" for env key
  by (rule calm_register)

lemma starting_calm:
  assumes "starting env key (rc_writers r)" "rc_slot r = None \<or> visible key r \<noteq> None"
  shows "calm env key r"
  using assms by (auto simp: starting_def calm_def calm_writer_def visible_def list_all_iff)

text \<open>
  C12. The first decision wins under every interleaving. Where the file system has hard links and the decision path
  starts free or with a decision, whatever the schedule of any number of writers: once a reader could see a
  decision, every later reader sees that one; it is one of those the writers brought (or was there before); and
  no writer returns before a decision can be seen.
\<close>

theorem first_decision_wins:
  assumes "starting env key (rc_writers r)" "rc_slot r = None \<or> visible key r \<noteq> None"
  shows "(\<forall>obj. visible key (run_race env key True before r) = Some obj \<longrightarrow>
        visible key (run_race env key True (before @ later) r) = Some obj
        \<and> (visible key r = Some obj \<or> visible key r = None \<and> obj \<in> fst ` set (rc_writers r)))
    \<and> (Finished \<in> snd ` set (rc_writers (run_race env key True before r)) \<longrightarrow> visible key (run_race env key True before r) \<noteq> None)"
proof -
  note calm = starting_calm [OF assms]
  have "visible key (run_race env key True before r) \<noteq> None" if "Finished \<in> snd ` set (rc_writers (run_race env key True before r))"
    using that answer_file.run_inv [OF calm, of before] by (auto simp: run_race_def calm_def calm_writer_def list_all_iff visible_def)
  then show ?thesis using answer_file.first_wins [OF calm] answer_file.origin [OF calm] unfolding run_race_def by blast
qed

text \<open>Two controllers with opposite answers to the request \<open>k\<close>, and a clock that stands still.\<close>

definition demo_permit_env :: permit_env where
  "demo_permit_env = \<lparr>pe_now = 1, pe_bytes = \<lambda>obj. 200\<rparr>"

definition demo_decision :: "string \<Rightarrow> dict" where
  "demo_decision answer = decision_payload demo_permit_env ''k'' answer None"

definition demo_race :: "slot \<Rightarrow> race" where
  "demo_race s = \<lparr>rc_slot = s, rc_fresh = 7, rc_writers = [(demo_decision ''deny'', LStat), (demo_decision ''allow'', LStat)]\<rparr>"

lemma demo_reads_back:
  assumes "answer \<in> set DECISIONS"
  shows "node_decision (JStr ''k'') (Some (payload_node demo_permit_env (demo_decision answer))) = Some (demo_decision answer)"
  using assms by (auto simp: node_decision_def node_json_def payload_node_def demo_permit_env_def MAX_JSON_BYTES_def valid_decision_def
      demo_decision_def decision_payload_def jget_def DECISIONS_def)

lemma demo_starting: "starting demo_permit_env (JStr ''k'') (rc_writers (demo_race s))"
  by (simp add: starting_def demo_race_def demo_reads_back DECISIONS_def)

lemma demo_bad_entry: "node_decision (JStr ''k'') (Some (Regular None b t)) = None"
  by simp

lemmas race_simps = run_race_def race_step_def demo_race_def visible_def slot_node_def slot_regular_def slot_unlink_def

theorem first_decision_wins_witness:
  "visible (JStr ''k'') (run_race demo_permit_env (JStr ''k'') True [0, 1, 0, 1, 1] (demo_race None)) = Some (demo_decision ''allow'') \<and>
   visible (JStr ''k'') (run_race demo_permit_env (JStr ''k'') True ([0, 1, 0, 1, 1] @ [0, 0, 1]) (demo_race None)) = Some (demo_decision ''allow'')"
proof -
  have "visible (JStr ''k'') (run_race demo_permit_env (JStr ''k'') True [0, 1, 0, 1, 1] (demo_race None)) = Some (demo_decision ''allow'')"
    by (simp add: race_simps demo_reads_back DECISIONS_def)
  then show ?thesis
    using first_decision_wins [of demo_permit_env "JStr ''k''" "demo_race None" "[0, 1, 0, 1, 1]" "[0, 0, 1]", OF demo_starting]
    by (simp add: demo_race_def)
qed



end
