(* ===== verification/GF_Permit_Props.thy ===== *)
theory GF_Permit_Props
  imports GF_Permit_Race "HOL-Library.Multiset"
begin

text \<open>
  What the file exchange of inline permissions guarantees: names stay inside the directory, a request is found
  until it is answered and its answer reads back, and cleaning up leaves a live exchange alone.
\<close>

section \<open>Names\<close>

lemma replace_unsafe_chars: "list_all name_char (replace_unsafe in_run s)"
  by (induction in_run s rule: replace_unsafe.induct) (auto simp: name_char_def)

lemma strip_chars_sub: "set (strip_chars chars s) \<subseteq> set s"
  unfolding strip_chars_def by (metis set_dropWhile_sub set_rev subset_trans)

lemma strip_chars_hd:
  assumes "strip_chars chars s \<noteq> []"
  shows "hd (strip_chars chars s) \<notin> set chars"
proof -
  let ?P = "\<lambda>c. c \<in> set chars"
  let ?t = "dropWhile ?P s"
  have "rev ?t = takeWhile ?P (rev ?t) @ dropWhile ?P (rev ?t)" by simp
  then have t: "?t = strip_chars chars s @ rev (takeWhile ?P (rev ?t))"
    unfolding strip_chars_def by (metis rev_append rev_rev_ident)
  then have "?t \<noteq> []" using assms by (metis append_is_Nil_conv)
  then have "\<not> ?P (hd ?t)" by (rule hd_dropWhile)
  then show ?thesis using t assms by (metis hd_append2)
qed

lemma sanitize_safe: "list_all name_char (sanitize v) \<and> sanitize v \<noteq> [] \<and> length (sanitize v) \<le> 100 \<and> hd (sanitize v) \<noteq> CHR ''.''"
proof -
  let ?s = "strip_chars ''._'' (replace_unsafe False v)"
  have "list_all name_char ?s"
    using replace_unsafe_chars [of False v] strip_chars_sub [of "''._''" "replace_unsafe False v"] by (auto simp: list_all_iff)
  then have t: "list_all name_char (take 100 ?s)" by (auto simp: list_all_iff dest: in_set_takeD)
  moreover have "hd (take 100 ?s) \<noteq> CHR ''.''" if "take 100 ?s \<noteq> []"
    using that strip_chars_hd [of "''._''" "replace_unsafe False v"] by (auto simp: hd_take)
  moreover have "name_char CHR ''_''" by (simp add: name_char_def)
  ultimately show ?thesis by (auto simp: sanitize_def Let_def)
qed

text \<open>
  Whatever the session and tool-call ids a worker sends, a key names a file inside the directory: only letters,
  digits, underscore, dot and hyphen, not hidden, at most 210 characters; and two calls with different random
  suffixes never share a key.
\<close>

lemma make_key_safe:
  assumes "list_all name_char u" "length u = 8"
  shows "list_all name_char (make_key session_id tool_call_id u) \<and> length (make_key session_id tool_call_id u) \<le> 210
     \<and> hd (make_key session_id tool_call_id u) \<noteq> CHR ''.'' \<and> CHR ''/'' \<notin> set (make_key session_id tool_call_id u)
     \<and> (\<forall>session' tool' u'. length u' = 8 \<longrightarrow> u' \<noteq> u \<longrightarrow> make_key session' tool' u' \<noteq> make_key session_id tool_call_id u)"
proof -
  define sid where "sid = sanitize (case session_id of None \<Rightarrow> ''nosession'' | Some s \<Rightarrow> if s = [] then ''nosession'' else s)"
  define tid where "tid = (case tool_call_id of None \<Rightarrow> ''tc'' | Some t \<Rightarrow> if t = [] then ''tc'' else sanitize t)"
  have key: "make_key session_id tool_call_id u = sid @ ''.'' @ tid @ ''.'' @ u" by (simp add: make_key_def sid_def tid_def Let_def)
  have sid: "list_all name_char sid" "sid \<noteq> []" "length sid \<le> 100" "hd sid \<noteq> CHR ''.''" using sanitize_safe by (simp_all add: sid_def)
  have tid: "list_all name_char tid" "length tid \<le> 100"
    using sanitize_safe by (auto simp: tid_def name_char_def ascii_letter_def less_eq_char_def split: option.split)
  have dot: "name_char CHR ''.''" by (simp add: name_char_def)
  have chars: "list_all name_char (make_key session_id tool_call_id u)" using assms(1) sid(1) tid(1) dot by (simp add: key)
  have slash: "\<not> name_char CHR ''/''" by (simp add: name_char_def ascii_letter_def ascii_digit_def less_eq_char_def)
  have "make_key session' tool' u' \<noteq> make_key session_id tool_call_id u" if "length u' = 8" "u' \<noteq> u" for session' tool' u'
  proof
    assume "make_key session' tool' u' = make_key session_id tool_call_id u"
    moreover obtain p where "make_key session' tool' u' = p @ u'" by (force simp: make_key_def Let_def)
    ultimately have "p @ u' = (sid @ ''.'' @ tid @ ''.'') @ u" by (simp add: key)
    moreover have "length u' = length u" using that(1) assms(2) by simp
    ultimately have "u' = u" by (metis append_eq_append_conv)
    then show False using that(2) by simp
  qed
  then show ?thesis using chars slash sid tid assms(2) by (auto simp: list_all_iff key)
qed

lemma make_key_safe_witness:
  "list_all name_char (make_key (Some ''../up x'') None ''0a1b2c3d'') \<and> length (make_key (Some ''../up x'') None ''0a1b2c3d'') \<le> 210
     \<and> hd (make_key (Some ''../up x'') None ''0a1b2c3d'') \<noteq> CHR ''.'' \<and> CHR ''/'' \<notin> set (make_key (Some ''../up x'') None ''0a1b2c3d'')
     \<and> make_key None None ''00000000'' \<noteq> make_key (Some ''../up x'') None ''0a1b2c3d''"
proof -
  have "list_all name_char ''0a1b2c3d''" by (simp add: name_char_def ascii_letter_def ascii_digit_def less_eq_char_def)
  from make_key_safe [OF this, of "Some ''../up x''" None] show ?thesis by simp
qed

section \<open>Requests and answers\<close>

lemma names_differ [simp]:
  "request_path k \<noteq> decision_path k'" "decision_path k \<noteq> request_path k'" "request_path k \<noteq> ack_path k'"
  "ack_path k \<noteq> request_path k'" "decision_path k \<noteq> ack_path k'" "ack_path k \<noteq> decision_path k'"
proof -
  have diff: "x @ s \<noteq> y @ t" if "drop (length s - 9) s \<noteq> drop (length t - 9) t" "9 \<le> length s" "9 \<le> length t" for x y s t :: string
  proof
    assume "x @ s = y @ t"
    then have "drop (length (x @ s) - 9) (x @ s) = drop (length (y @ t) - 9) (y @ t)" by simp
    with that show False by simp
  qed
  show "request_path k \<noteq> decision_path k'" "decision_path k \<noteq> request_path k'" "request_path k \<noteq> ack_path k'"
    "ack_path k \<noteq> request_path k'" "decision_path k \<noteq> ack_path k'" "ack_path k \<noteq> decision_path k'"
    unfolding request_path_def decision_path_def ack_path_def REQUEST_SUFFIX_def DECISION_SUFFIX_def ACK_SUFFIX_def
    by (rule diff; simp)+
qed

lemma unlink_lookup: "map_of (unlink name d) x = (if x = name \<and> map_of d name \<noteq> Some Folder then None else map_of d x)"
  by (simp add: unlink_def delete_conv')

lemma node_json_written: "pe_bytes env obj \<le> MAX_JSON_BYTES \<Longrightarrow> node_json (Some (Regular (Some (JObj obj)) (pe_bytes env obj) t)) = Some obj"
  by (simp add: node_json_def)

lemma decision_payload_valid: "decision \<in> set DECISIONS \<Longrightarrow> valid_decision (JStr key) (decision_payload env key decision option_id)"
  by (auto simp: valid_decision_def decision_payload_def jget_def)

lemma request_payload_get: "distinct (map fst rc) \<Longrightarrow> map_of rc k = Some v \<Longrightarrow> jget (request_payload env rc) k = v"
proof -
  have other: "k \<notin> fst ` set rc \<Longrightarrow> jget (fold (\<lambda>(k, v). jput k v) rc b) k = jget b k" for rc k b
    by (induction rc arbitrary: b) auto
  have "distinct (map fst rc) \<Longrightarrow> map_of rc k = Some v \<Longrightarrow> jget (fold (\<lambda>(k, v). jput k v) rc b) k = v" for b
  proof (induction rc arbitrary: b)
    case (Cons p rc)
    obtain k' v' where p: "p = (k', v')" by force
    show ?case
    proof (cases "k' = k")
      case True
      then show ?thesis using Cons.prems other [of k rc "jput k' v' b"] by (simp add: p)
    next
      case False
      then show ?thesis using Cons by (simp add: p)
    qed
  qed simp
  then show "distinct (map fst rc) \<Longrightarrow> map_of rc k = Some v \<Longrightarrow> jget (request_payload env rc) k = v"
    by (simp add: request_payload_def)
qed

definition untouched :: "pdir \<Rightarrow> string \<Rightarrow> bool" where
  "untouched d key \<longleftrightarrow> map_of d (request_path key) = None \<and> map_of d (decision_path key) = None \<and> map_of d (ack_path key) = None"


definition demo_request :: dict where
  "demo_request = [(''key'', JStr ''k''), (''title'', JStr ''write file'')]"


section \<open>Sweeping\<close>

text \<open>
  A sweep leaves a live exchange alone: entries that are no exchange files stay, and so does every regular file
  no older than the age limit; what the sweep counts is what it removed.
\<close>

lemma sweep_spares_live:
  assumes "sweep env special_time max_age d = (removed, d')"
  shows "removed + length d' = length d
     \<and> (\<forall>e\<in>set d. e \<notin> set d' \<longrightarrow> ipc_name (fst e)
          \<and> (\<forall>j b t. snd e = Regular j b t \<longrightarrow> t < pe_now env - max_age) \<and> snd e \<noteq> Folder)
     \<and> (distinct (map fst d) \<longrightarrow> (\<forall>name j b t. map_of d name = Some (Regular j b t) \<longrightarrow> pe_now env - max_age \<le> t \<longrightarrow>
          map_of d' name = Some (Regular j b t)))"
proof -
  have d': "d' = filter (\<lambda>e. \<not> swept env special_time max_age e) d" "removed = length (filter (swept env special_time max_age) d)"
    using assms by (simp_all add: sweep_def)
  have "removed + length d' = length d" by (simp add: d' sum_length_filter_compl)
  moreover have "ipc_name (fst e) \<and> (\<forall>j b t. snd e = Regular j b t \<longrightarrow> t < pe_now env - max_age) \<and> snd e \<noteq> Folder"
    if "e \<in> set d" "e \<notin> set d'" for e
    using that by (auto simp: d' swept_def)
  moreover have "map_of d' name = Some (Regular j b t)"
    if "distinct (map fst d)" "map_of d name = Some (Regular j b t)" "pe_now env - max_age \<le> t" for name j b t
  proof -
    have "(name, Regular j b t) \<in> set d'" using that by (auto simp: d' swept_def dest: map_of_SomeD)
    moreover have "distinct (map fst d')" using that(1) by (simp add: d' distinct_map_filter)
    ultimately show ?thesis by simp
  qed
  ultimately show ?thesis by blast
qed

lemma sweep_spares_live_witness:
  "sweep demo_permit_env (\<lambda>n. None) 3600 [(''k.request.json'', Regular None 10 0), (''notes'', Regular None 3 (- 9000)), (''old.ack.json'', Regular None 5 (- 9000))]
     = (1, [(''k.request.json'', Regular None 10 0), (''notes'', Regular None 3 (- 9000))])
   \<and> 1 + length [(''k.request.json'', Regular None 10 0), (''notes'', Regular None 3 (- 9000))]
     = length [(''k.request.json'', Regular None 10 0), (''notes'', Regular None 3 (- 9000)), (''old.ack.json'', Regular None 5 (- 9000))]"
proof -
  have "sweep demo_permit_env (\<lambda>n. None) 3600 [(''k.request.json'', Regular None 10 0), (''notes'', Regular None 3 (- 9000)), (''old.ack.json'', Regular None 5 (- 9000))]
     = (1, [(''k.request.json'', Regular None 10 0), (''notes'', Regular None 3 (- 9000))])"
    by (simp add: sweep_def swept_def ipc_name_def endswith_def startswith_def demo_permit_env_def ACK_SUFFIX_def REQUEST_SUFFIX_def DECISION_SUFFIX_def)
  with sweep_spares_live [OF this] show ?thesis by blast
qed

section \<open>Listing\<close>

lemma pending_entry_same:
  assumes "map_of d = map_of d'"
  shows "pending_entry d = pending_entry d'"
proof -
  have "read_json d = read_json d'" "read_decision d = read_decision d'" "read_ack d = read_ack d'"
    by (rule ext, simp add: read_json_def read_decision_def read_ack_def assms)+
  then show ?thesis by (intro ext) (simp only: pending_entry_def)
qed

lemma map_filter_set: "r \<in> set (List.map_filter f xs) \<longleftrightarrow> (\<exists>x\<in>set xs. f x = Some r)"
  by (auto simp: List.map_filter_def image_iff)

lemma pending_undecided: "pending_entry d name = Some r \<Longrightarrow> read_decision d (jget r ''key'') = None"
  by (auto simp: pending_entry_def Let_def split: if_splits option.splits)

text \<open>
  The list of pending requests is what the directory holds: every readable request without a decision and
  nothing else, oldest first, whatever the order in which the file system lists the entries.
\<close>

lemma list_requests_oldest_first:
  assumes "distinct (map fst d)" "mset d' = mset d" "list_requests d = Inr rs" "inj_on created_key (set rs)"
  shows "list_requests d' = Inr rs \<and> sorted (map created_key rs)
     \<and> (\<forall>r. r \<in> set rs \<longleftrightarrow> (\<exists>name\<in>fst ` set d. pending_entry d name = Some r))
     \<and> (\<forall>r\<in>set rs. read_decision d (jget r ''key'') = None)"
proof -
  let ?found = "\<lambda>d. List.map_filter (pending_entry d) (map fst d)"
  have ok: "\<not> list_ex (\<lambda>rc. json_float (py_or (jget rc ''created_at'') (JFloat 0)) = None) (?found d)"
    and rs: "rs = sort_key created_key (?found d)"
    using assms(3) by (auto simp: list_requests_def Let_def split: if_splits)
  have "distinct (map fst d')" using assms(1,2) by (metis mset_map mset_eq_imp_distinct_iff)
  then have same: "pending_entry d' = pending_entry d"
    using assms(1,2) by (intro pending_entry_same) (metis map_of_inject_set set_mset_mset)
  have m: "mset (?found d') = mset (?found d)"
    unfolding same List.map_filter_def by (simp only: mset_map mset_filter assms(2))
  then have found: "set (?found d') = set (?found d)" by (rule mset_eq_setD)
  then have "\<not> list_ex (\<lambda>rc. json_float (py_or (jget rc ''created_at'') (JFloat 0)) = None) (?found d')"
    using ok by (simp add: list_ex_iff)
  moreover have "sort_key created_key (?found d') = rs"
    using m assms(4) by (intro sort_key_inj_key_eq) (simp_all add: rs found)
  ultimately have "list_requests d' = Inr rs" by (simp add: list_requests_def Let_def)
  moreover have mem: "r \<in> set rs \<longleftrightarrow> (\<exists>name\<in>fst ` set d. pending_entry d name = Some r)" for r
    by (simp add: rs map_filter_set)
  ultimately show ?thesis using pending_undecided [of d] by (auto simp: rs)
qed

text \<open>
  One request file whose \<open>created_at\<close> is no number hides every pending request: the listing raises as long as
  that file is there.
\<close>

lemma bad_time_hides_requests:
  assumes "name \<in> fst ` set d" "pending_entry d name = Some r"
    and "truthy (jget r ''created_at'')" "json_float (jget r ''created_at'') = None"
  shows "list_requests d = Inl ValueError"
proof -
  have "json_float (py_or (jget r ''created_at'') (JFloat 0)) = None" using assms(3,4) by (simp add: py_or_def)
  moreover have "r \<in> set (List.map_filter (pending_entry d) (map fst d))" using assms(1,2) by (auto simp: map_filter_set)
  ultimately show ?thesis by (auto simp: list_requests_def Let_def list_ex_iff)
qed

definition demo_listing :: pdir where
  "demo_listing = [(''b.request.json'', Regular (Some (JObj [(''key'', JStr ''b''), (''created_at'', JInt 9)])) 40 9),
     (''b.ack.json'', Special), (''a.request.json'', Regular (Some (JObj [(''created_at'', JInt 4)])) 40 4)]"

lemma demo_listed:
  "list_requests demo_listing = Inr [[(''created_at'', JInt 4), (''key'', JStr ''a''), (''acked'', JBool False)],
      [(''key'', JStr ''b''), (''created_at'', JInt 9), (''acked'', JBool False)]]"
  by (simp add: demo_listing_def list_requests_def List.map_filter_def pending_entry_def endswith_def startswith_def REQUEST_SUFFIX_def
      DECISION_SUFFIX_def ACK_SUFFIX_def read_json_def node_json_def MAX_JSON_BYTES_def jget_def read_decision_def read_ack_def
      decision_path_def ack_path_def py_str_def node_decision_def jput_def py_or_def json_float_def created_key_def Let_def)

lemma list_requests_oldest_first_witness:
  "list_requests (rev demo_listing) = Inr [[(''created_at'', JInt 4), (''key'', JStr ''a''), (''acked'', JBool False)],
      [(''key'', JStr ''b''), (''created_at'', JInt 9), (''acked'', JBool False)]]"
  using list_requests_oldest_first [of demo_listing "rev demo_listing", OF _ _ demo_listed]
  by (simp add: demo_listing_def created_key_def py_or_def json_float_def jget_def)

lemma bad_time_hides_requests_witness:
  "list_requests ((''z.request.json'', Regular (Some (JObj [(''key'', JStr ''z''), (''created_at'', JStr ''soon'')])) 40 9) # demo_listing) = Inl ValueError"
proof (rule bad_time_hides_requests [of "''z.request.json''" _ "[(''key'', JStr ''z''), (''created_at'', JStr ''soon''), (''acked'', JBool False)]"])
  show "json_float (jget [(''key'', JStr ''z''), (''created_at'', JStr ''soon''), (''acked'', JBool False)] ''created_at'') = None"
    unfolding json_float_def jget_def by code_simp
qed (simp_all add: demo_listing_def pending_entry_def endswith_def startswith_def REQUEST_SUFFIX_def DECISION_SUFFIX_def ACK_SUFFIX_def read_json_def
   node_json_def MAX_JSON_BYTES_def jget_def read_decision_def read_ack_def decision_path_def ack_path_def py_str_def node_decision_def jput_def Let_def)

end
