(* ===== verification/GF_Router.thy ===== *)
theory GF_Router
  imports GF_Markers GF_Permit_Props
begin

text \<open>
  The permission router of an ACP worker's client (\<open>scripts/goalflight_acp_client.py\<close>): the scope policy, the
  guard a worker's own question puts on later requests, the held inline permission, and the liveness activity the
  heartbeat reads. Tool calls and options are the dicts of their fields. The file system is present through
  \<open>resolve\<close>, which gives the components of the resolved path or \<open>None\<close> for the caught errors; the clocks, the random
  suffix and what each poll finds in the permission directory are arguments.
\<close>

section \<open>Tool calls\<close>

text \<open>\<open>_tc_get\<close>: the first field that is present and not null.\<close>

fun tc_get :: "dict \<Rightarrow> string list \<Rightarrow> json" where
  "tc_get obj [] = JNull"
| "tc_get obj (n # ns) = (if jget obj n = JNull then tc_get obj ns else jget obj n)"

definition fields_of :: "json \<Rightarrow> dict" where
  "fields_of v = (case v of JObj d \<Rightarrow> d | _ \<Rightarrow> [])"

definition items_of :: "json \<Rightarrow> json list" where
  "items_of v = (case v of JList xs \<Rightarrow> xs | _ \<Rightarrow> [])"

definition tool_call_locations :: "dict \<Rightarrow> string list" where
  "tool_call_locations tool_call =
     map py_str (filter truthy (map (\<lambda>loc. tc_get (fields_of loc) [''path'']) (items_of (tc_get tool_call [''locations'']))))"

definition option_id :: "dict \<Rightarrow> json" where
  "option_id o' = tc_get o' [''option_id'', ''optionId'']"

definition tool_kind :: "dict \<Rightarrow> string" where
  "tool_kind tool_call = (let k = tc_get tool_call [''kind''] in if truthy k then py_str k else [])"

section \<open>Scope\<close>

type_synonym resolver = "string \<Rightarrow> string list option"

definition root_text :: "string list \<Rightarrow> string" where
  "root_text base = concat (map (\<lambda>c. CHR ''/'' # c) base)"

definition path_outside_cwd :: "resolver \<Rightarrow> string list \<Rightarrow> string \<Rightarrow> bool" where
  "path_outside_cwd resolve base raw =
     (let p = (if startswith raw ''/'' then raw else root_text base @ ''/'' @ raw)
      in case resolve p of None \<Rightarrow> True | Some parts \<Rightarrow> take (length base) parts \<noteq> base)"

definition targets_outside_cwd :: "resolver \<Rightarrow> dict \<Rightarrow> string option \<Rightarrow> string list" where
  "targets_outside_cwd resolve tool_call cwd =
     (let locs = tool_call_locations tool_call in
      if locs = [] then []
      else case cwd of
          None \<Rightarrow> locs
        | Some d \<Rightarrow> if d = [] then locs
            else (case resolve d of None \<Rightarrow> locs | Some base \<Rightarrow> filter (path_outside_cwd resolve base) locs))"

section \<open>Policies\<close>

datatype verdict = Allow | Deny | Escalate

definition WRITE_KINDS :: "string list" where "WRITE_KINDS = [''edit'', ''delete'', ''move'']"
definition READ_SAFE_KINDS :: "string list" where "READ_SAFE_KINDS = ['''', ''read'', ''search'', ''think'']"
definition USER_CONFIRM_READ_SAFE_KINDS :: "string list" where "USER_CONFIRM_READ_SAFE_KINDS = [''read'', ''search'', ''think'']"

text \<open>A policy; \<open>None\<close> is an exception it raised.\<close>

type_synonym policy = "dict \<Rightarrow> dict list \<Rightarrow> string option \<Rightarrow> verdict option"

definition default_permission_policy :: "resolver \<Rightarrow> policy" where
  "default_permission_policy resolve tool_call options cwd = Some (
     if targets_outside_cwd resolve tool_call cwd \<noteq> [] then Escalate
     else let kind = tool_kind tool_call in
       if kind \<in> {''fetch'', ''execute''} then Escalate
       else if kind \<in> set WRITE_KINDS then (if tool_call_locations tool_call = [] then Escalate else Allow)
       else if kind \<in> set READ_SAFE_KINDS then Allow else Escalate)"

text \<open>\<open>canonical_os_sandbox\<close> (\<open>scripts/goalflight_os_sandbox.py\<close>); \<open>None\<close> is the raised error.\<close>

definition SANDBOX_ALIASES :: "(string \<times> string) list" where
  "SANDBOX_ALIASES = [('''', ''off''), (''false'', ''off''), (''no'', ''off''), (''off'', ''off''), (''none'', ''off''), (''host-default'', ''off''),
     (''readonly'', ''read-only''), (''read-only'', ''read-only''), (''workspace'', ''workspace-write''), (''workspace-write'', ''workspace-write'')]"

definition canonical_os_sandbox :: "string option \<Rightarrow> string option" where
  "canonical_os_sandbox v = map_of SANDBOX_ALIASES
     (map (\<lambda>c. if c = CHR ''_'' then CHR ''-'' else c) (casefold (strip (case v of None \<Rightarrow> ''off'' | Some s \<Rightarrow> if s = [] then ''off'' else s))))"

definition permission_policy_for_dispatch :: "resolver \<Rightarrow> string option \<Rightarrow> policy option \<Rightarrow> policy option" where
  "permission_policy_for_dispatch resolve os_sandbox own =
     (case canonical_os_sandbox os_sandbox of
        None \<Rightarrow> None
      | Some profile \<Rightarrow> Some (\<lambda>tool_call options cwd.
          let base_policy = (case own of None \<Rightarrow> default_permission_policy resolve | Some b \<Rightarrow> b) in
          if profile = ''off'' then base_policy tool_call options cwd
          else if targets_outside_cwd resolve tool_call cwd \<noteq> [] then Some Escalate
          else if tool_kind tool_call \<in> {''fetch'', ''execute''} then Some Allow
          else base_policy tool_call options cwd))"

section \<open>Options\<close>

definition allow_kind :: "dict \<Rightarrow> bool" where
  "allow_kind o' \<longleftrightarrow> tc_get o' [''kind''] \<noteq> JNull \<and> startswith (py_str (tc_get o' [''kind''])) ''allow_''"

definition select_allow_option :: "dict list \<Rightarrow> json option" where
  "select_allow_option options =
     (let of_kind = (\<lambda>k. find (\<lambda>o'. tc_get o' [''kind''] = JStr k \<and> truthy (option_id o')) options)
      in case of_kind ''allow_once'' of
           Some o' \<Rightarrow> Some (option_id o')
         | None \<Rightarrow> (case of_kind ''allow_always'' of
             Some o' \<Rightarrow> Some (option_id o')
           | None \<Rightarrow> map_option option_id (find (\<lambda>o'. truthy (option_id o') \<and> allow_kind o') options)))"

datatype answer = Allowed json | Cancelled

definition outcome_from_decision :: "dict \<Rightarrow> dict list \<Rightarrow> answer" where
  "outcome_from_decision decision options =
     (if jget decision ''decision'' \<noteq> JStr ''allow'' then Cancelled
      else let offered = map option_id (filter (\<lambda>o'. is_str (tc_get o' [''kind'']) \<and> startswith (py_str (tc_get o' [''kind''])) ''allow_'' \<and> truthy (option_id o')) options);
               chosen = jget decision ''option_id''
           in if truthy chosen \<and> chosen \<in> set offered then Allowed chosen
              else if truthy chosen then Cancelled
              else (case select_allow_option options of None \<Rightarrow> Cancelled | Some c \<Rightarrow> if truthy c then Allowed c else Cancelled))"

section \<open>Liveness activity\<close>

type_synonym clocks = "(string \<times> real) list"

record activity =
  ac_permission_timeout :: real
  ac_last_event :: real
  ac_tools :: clocks
  ac_pending :: clocks
  ac_held :: clocks
  ac_turn_started :: "real option"
  ac_turn_completed :: "real option"
  ac_stop_reason :: "string option"
  ac_turns :: nat

definition start_clock :: "string \<Rightarrow> real \<Rightarrow> clocks \<Rightarrow> clocks" where
  "start_clock k t cs = (if map_of cs k = None then cs @ [(k, t)] else cs)"

definition begin_turn :: "real \<Rightarrow> activity \<Rightarrow> activity" where
  "begin_turn now a = a\<lparr>ac_turn_started := Some now, ac_turn_completed := None, ac_stop_reason := None\<rparr>"

definition finish_turn :: "string option \<Rightarrow> real \<Rightarrow> activity \<Rightarrow> activity" where
  "finish_turn stop_reason now a = a\<lparr>ac_turn_completed := Some now,
     ac_stop_reason := Some (case stop_reason of None \<Rightarrow> ''unknown'' | Some s \<Rightarrow> if s = [] then ''unknown'' else s), ac_turns := Suc (ac_turns a)\<rparr>"

definition turn_in_flight :: "activity \<Rightarrow> bool" where
  "turn_in_flight a \<longleftrightarrow> ac_turn_started a \<noteq> None \<and> ac_stop_reason a = None"

definition turn_silent_for :: "real \<Rightarrow> activity \<Rightarrow> real" where
  "turn_silent_for now a = (case ac_turn_started a of None \<Rightarrow> 0 | Some t \<Rightarrow> max 0 (now - max t (ac_last_event a)))"

text \<open>\<open>classify_message\<close>, \<open>_tool_id\<close>, \<open>_tool_status\<close> and \<open>note_message\<close>.\<close>

definition update_of :: "dict \<Rightarrow> dict" where
  "update_of message = fields_of (jget (fields_of (jget message ''params'')) ''update'')"

definition first_truthy :: "json list \<Rightarrow> json" where
  "first_truthy vs = (case find truthy vs of None \<Rightarrow> (if vs = [] then JNull else last vs) | Some v \<Rightarrow> v)"

definition classify_message :: "dict \<Rightarrow> string" where
  "classify_message message =
     (let m = jget message ''method'' in
      if m = JStr ''session/update'' then
        py_str (first_truthy [jget (update_of message) ''sessionUpdate'', jget (update_of message) ''session_update'', m])
      else if m = JStr ''session/request_permission'' then ''request_permission''
      else if truthy m then py_str m
      else if has_key message ''error'' then ''response_error''
      else if has_key message ''result'' then ''response'' else ''event'')"

definition tool_id_of :: "dict \<Rightarrow> string option" where
  "tool_id_of payload = (let v = first_truthy [jget payload ''toolCallId'', jget payload ''tool_call_id'', jget payload ''id'', jget payload ''title'']
     in if truthy v then Some (py_str v) else None)"

definition tool_done :: "dict \<Rightarrow> bool" where
  "tool_done payload \<longleftrightarrow> jget payload ''status'' \<noteq> JNull \<and> casefold (py_str (jget payload ''status'')) \<in> {''completed'', ''failed'', ''cancelled''}"

definition apply_tool_activity :: "dict \<Rightarrow> string \<Rightarrow> real \<Rightarrow> activity \<Rightarrow> activity" where
  "apply_tool_activity message kind now a =
     (if kind \<in> {''tool_call'', ''tool_call_update''} then
        (case tool_id_of (update_of message) of
           None \<Rightarrow> a
         | Some t \<Rightarrow> if t = [] then a
             else if tool_done (update_of message) then a\<lparr>ac_tools := AList.delete t (ac_tools a)\<rparr>
             else a\<lparr>ac_tools := start_clock t now (ac_tools a)\<rparr>)
      else if kind = ''request_permission'' then
        (let params = fields_of (jget message ''params'');
             tool_call = fields_of (py_or (jget params ''toolCall'') (jget params ''tool_call''));
             t = (case tool_id_of tool_call of Some t \<Rightarrow> t | None \<Rightarrow> (case tool_id_of params of Some t \<Rightarrow> t
                 | None \<Rightarrow> if truthy (jget message ''id'') then py_str (jget message ''id'') else []))
         in if t = [] then a else a\<lparr>ac_pending := start_clock t now (ac_pending a)\<rparr>)
      else a)"

definition note_message :: "dict \<Rightarrow> real \<Rightarrow> activity \<Rightarrow> activity" where
  "note_message message now a = apply_tool_activity message (classify_message message) now (a\<lparr>ac_last_event := now\<rparr>)"

definition resolve_permission :: "string option \<Rightarrow> activity \<Rightarrow> activity" where
  "resolve_permission tool_id a = a\<lparr>ac_pending := (case tool_id of Some (c # cs) \<Rightarrow> AList.delete (c # cs) (ac_pending a) | _ \<Rightarrow> [])\<rparr>"

definition hold_inline_permission :: "string \<Rightarrow> real \<Rightarrow> activity \<Rightarrow> activity" where
  "hold_inline_permission tool_id deadline a = (if tool_id = [] then a else a\<lparr>ac_held := start_clock tool_id deadline (ac_held a)\<rparr>)"

definition extend_inline_hold :: "string \<Rightarrow> real \<Rightarrow> activity \<Rightarrow> activity" where
  "extend_inline_hold tool_id deadline a =
     (if tool_id \<noteq> [] \<and> map_of (ac_held a) tool_id \<noteq> None then a\<lparr>ac_held := AList.update tool_id deadline (ac_held a)\<rparr> else a)"

definition release_inline_permission :: "string \<Rightarrow> activity \<Rightarrow> activity" where
  "release_inline_permission tool_id a = a\<lparr>ac_held := (if tool_id = [] then [] else AList.delete tool_id (ac_held a))\<rparr>"

definition outstanding_count :: "activity \<Rightarrow> nat" where
  "outstanding_count a = length (ac_tools a) + length (ac_pending a) + length (ac_held a)"

definition INLINE_HOLD_GRACE_S :: real where "INLINE_HOLD_GRACE_S = 30"

definition expired_permissions :: "real \<Rightarrow> activity \<Rightarrow> clocks" where
  "expired_permissions now a = (if ac_permission_timeout a \<le> 0 then []
     else filter (\<lambda>(k, t). ac_permission_timeout a \<le> now - t) (ac_pending a))"

text \<open>\<open>timed_out\<close>: the tool or permission that is overdue, with its age, and the activity left.\<close>

definition timed_out :: "real \<Rightarrow> real \<Rightarrow> activity \<Rightarrow> (string \<times> real) option \<times> activity" where
  "timed_out now max_tool_s a = (case expired_permissions now a of
      (k, t) # es \<Rightarrow> (Some (k, now - t), a\<lparr>ac_pending := filter (\<lambda>(x, u). x \<notin> fst ` set ((k, t) # es)) (ac_pending a)\<rparr>)
    | [] \<Rightarrow>
        let a = (if ac_permission_timeout a \<le> 0 then a\<lparr>ac_pending := []\<rparr> else a) in
        (case find (\<lambda>(k, deadline). deadline + INLINE_HOLD_GRACE_S \<le> now) (ac_held a) of
           Some (k, deadline) \<Rightarrow> (Some (k, now - deadline), a\<lparr>ac_held := AList.delete k (ac_held a)\<rparr>)
         | None \<Rightarrow>
             if max_tool_s \<le> 0 then (None, a)
             else (case find (\<lambda>(k, t). max_tool_s \<le> now - t) (ac_tools a) of
                 Some (k, t) \<Rightarrow> (Some (k, now - t), a)
               | None \<Rightarrow> (case find (\<lambda>(k, t). max_tool_s \<le> now - t) (ac_pending a) of
                     Some (k, t) \<Rightarrow> (Some (k, now - t), a\<lparr>ac_pending := AList.delete k (ac_pending a)\<rparr>)
                   | None \<Rightarrow> (None, a)))))"

section \<open>Holding a permission open\<close>

text \<open>
  What one turn of the polling loop meets: the directory at its three reads, the clock at the acknowledgement and at
  the deadline test, and whether the handler is cancelled while it sleeps.
\<close>

record poll =
  po_first :: pdir
  po_ack :: pdir
  po_last :: pdir
  po_acked_at :: real
  po_checked_at :: real
  po_cancelled :: bool

record hold =
  ho_key :: string
  ho_inline_timeout :: real
  ho_user_timeout :: real
  ho_polls :: "nat \<Rightarrow> poll"

datatype hold_end = Decided dict | Timed_Out bool | Torn_Down

text \<open>The loop from the poll number \<open>k\<close>; \<open>None\<close> when the fuel is spent.\<close>

fun hold_loop :: "hold \<Rightarrow> nat \<Rightarrow> nat \<Rightarrow> bool \<Rightarrow> real \<Rightarrow> hold_end option" where
  "hold_loop h 0 k acked deadline = None"
| "hold_loop h (Suc fuel) k acked deadline =
     (let p = ho_polls h k; key = JStr (ho_key h) in
      case read_decision (po_first p) key of
        Some got \<Rightarrow> Some (Decided got)
      | None \<Rightarrow>
          (let acks = (\<not> acked \<and> read_ack (po_ack p) key);
               acked' = (acked \<or> acks);
               deadline' = (if acks then po_acked_at p + ho_user_timeout h else deadline)
           in if deadline' \<le> po_checked_at p then
                (case read_decision (po_last p) key of Some got \<Rightarrow> Some (Decided got) | None \<Rightarrow> Some (Timed_Out acked'))
              else if po_cancelled p then Some Torn_Down
              else hold_loop h fuel (Suc k) acked' deadline'))"

section \<open>The client\<close>

datatype guard = Guard_None | Guard_Pending | Guard_Denied

record client =
  cl_auto_allow :: bool
  cl_cwd :: "string option"
  cl_policy :: policy
  cl_inline :: bool
  cl_inline_timeout :: real
  cl_user_timeout :: real
  cl_guard :: guard
  cl_text :: string
  cl_activity :: activity
  cl_router_log :: "dict list"
  cl_escalations :: "dict list"
  cl_auto_declined :: "dict list"

definition set_user_confirm_guard :: "string \<Rightarrow> client \<Rightarrow> client" where
  "set_user_confirm_guard state cl =
     (let next_state = (if state = ''none'' then Guard_None else if state = ''denied'' then Guard_Denied else Guard_Pending)
      in if cl_guard cl = Guard_Denied then cl
         else if cl_guard cl = Guard_Pending \<and> next_state = Guard_None then cl
         else cl\<lparr>cl_guard := next_state\<rparr>)"

text \<open>A new turn forgets the text of the last one; output of the worker is appended to it.\<close>

definition set_turn_queue :: "client \<Rightarrow> client" where
  "set_turn_queue cl = cl\<lparr>cl_text := []\<rparr>"

definition observe_text :: "string \<Rightarrow> client \<Rightarrow> client" where
  "observe_text t cl = cl\<lparr>cl_text := cl_text cl @ t\<rparr>"

section \<open>The router's log\<close>

definition MAX_PERMISSION_ROUTER_DECISIONS :: nat where "MAX_PERMISSION_ROUTER_DECISIONS = 50"

definition compact_router_str :: "nat \<Rightarrow> json \<Rightarrow> string option" where
  "compact_router_str limit v = (if v = JNull then None
     else Some (let t = py_str v in if length t \<le> limit then t else take (limit - 3) t @ ''...''))"

definition compact_router_list :: "json \<Rightarrow> json" where
  "compact_router_list v = JList (map JStr (filter (\<lambda>t. t \<noteq> []) (List.map_filter (compact_router_str 240) (take 10 (items_of v)))))"

definition compact_field :: "string \<Rightarrow> nat \<Rightarrow> json \<Rightarrow> dict" where
  "compact_field k limit v = (case compact_router_str limit v of None \<Rightarrow> [] | Some t \<Rightarrow> [(k, JStr t)])"

definition compact_router_options :: "json \<Rightarrow> json" where
  "compact_router_options v = JList (map JObj (filter (\<lambda>row. row \<noteq> [])
     (map (\<lambda>item. compact_field ''kind'' 80 (tc_get (fields_of item) [''kind'']) @ compact_field ''option_id'' 160 (option_id (fields_of item)))
       (take 8 (items_of v)))))"

definition ROUTER_FIELDS :: "(string \<times> nat) list" where
  "ROUTER_FIELDS = [(''key'', 160), (''tool_call_id'', 160), (''session_id'', 160), (''kind'', 80), (''cwd'', 240), (''decision'', 80),
     (''option_id'', 160), (''reason'', 160), (''title'', 160)]"

definition compact_router_record :: "dict \<Rightarrow> dict" where
  "compact_router_record rc = concat (map (\<lambda>(k, limit). compact_field k limit (jget rc k)) ROUTER_FIELDS)
     @ [(''locations'', compact_router_list (jget rc ''locations'')), (''targets_outside_cwd'', compact_router_list (jget rc ''targets_outside_cwd'')),
        (''options'', compact_router_options (jget rc ''options''))]"

definition append_router_decision :: "dict \<Rightarrow> client \<Rightarrow> client" where
  "append_router_decision rc cl = (let l = cl_router_log cl @ [compact_router_record rc] in
     cl\<lparr>cl_router_log := drop (length l - MAX_PERMISSION_ROUTER_DECISIONS) l\<rparr>)"

section \<open>One request\<close>

record request =
  rq_options :: "dict list"
  rq_session :: string
  rq_tool_call :: dict
  rq_uuid :: string
  rq_resolve :: resolver
  rq_now :: real
  rq_write_fails :: bool
  rq_polls :: "nat \<Rightarrow> poll"

definition rq_tool_id :: "request \<Rightarrow> string option" where
  "rq_tool_id rq = (let t = tc_get (rq_tool_call rq) [''tool_call_id'', ''toolCallId'', ''id''] in if truthy t then Some (py_str t) else None)"

definition rq_key :: "request \<Rightarrow> string" where
  "rq_key rq = make_key (Some (rq_session rq)) (rq_tool_id rq) (rq_uuid rq)"

definition opt_json :: "string option \<Rightarrow> json" where
  "opt_json v = (case v of None \<Rightarrow> JNull | Some s \<Rightarrow> JStr s)"

definition base_record :: "request \<Rightarrow> client \<Rightarrow> dict" where
  "base_record rq cl =
     [(''key'', JStr (rq_key rq)), (''tool_call_id'', opt_json (rq_tool_id rq)), (''session_id'', JStr (rq_session rq)),
      (''title'', py_or (tc_get (rq_tool_call rq) [''title'']) (JStr ''?'')), (''kind'', tc_get (rq_tool_call rq) [''kind'']),
      (''cwd'', opt_json (cl_cwd cl)), (''locations'', JList (map JStr (tool_call_locations (rq_tool_call rq)))),
      (''targets_outside_cwd'', JList (map JStr (targets_outside_cwd (rq_resolve rq) (rq_tool_call rq) (cl_cwd cl)))),
      (''options'', JList (map (\<lambda>o'. JObj [(''kind'', tc_get o' [''kind'']), (''option_id'', option_id o')]) (rq_options rq)))]"

definition declined_record :: "dict \<Rightarrow> string \<Rightarrow> real \<Rightarrow> dict" where
  "declined_record rc reason timeout = [(''key'', jget rc ''key''), (''tool_call_id'', jget rc ''tool_call_id''), (''title'', jget rc ''title''),
     (''kind'', jget rc ''kind''), (''reason'', JStr reason), (''timeout_s'', JFloat timeout)]"

definition hold_of :: "request \<Rightarrow> client \<Rightarrow> hold" where
  "hold_of rq cl = \<lparr>ho_key = rq_key rq, ho_inline_timeout = cl_inline_timeout cl, ho_user_timeout = cl_user_timeout cl, ho_polls = rq_polls rq\<rparr>"

text \<open>\<open>_await_inline_decision\<close>.\<close>

definition decline :: "dict \<Rightarrow> string \<Rightarrow> real \<Rightarrow> client \<Rightarrow> client" where
  "decline rc reason timeout cl = cl\<lparr>cl_auto_declined := cl_auto_declined cl @ [declined_record rc reason timeout]\<rparr>"

definition await_inline_decision :: "nat \<Rightarrow> request \<Rightarrow> dict \<Rightarrow> client \<Rightarrow> (answer \<times> client) option" where
  "await_inline_decision fuel rq rc cl =
     (let hold_id = (case rq_tool_id rq of None \<Rightarrow> rq_key rq | Some t \<Rightarrow> t);
          deadline = rq_now rq + cl_inline_timeout cl;
          held = cl\<lparr>cl_activity := hold_inline_permission hold_id deadline (cl_activity cl)\<rparr>;
          release = (\<lambda>c. c\<lparr>cl_activity := release_inline_permission hold_id (cl_activity c)\<rparr>)
      in if rq_write_fails rq then Some (Cancelled, release (decline rc ''ipc_error'' (cl_inline_timeout cl) held))
         else map_option (\<lambda>e. case e of
             Decided got \<Rightarrow> (outcome_from_decision got (rq_options rq), release held)
           | Timed_Out acked \<Rightarrow> (Cancelled, release (if acked then decline rc ''user_timeout'' (cl_user_timeout cl) held
                                               else decline rc ''controller_timeout'' (cl_inline_timeout cl) held))
           | Torn_Down \<Rightarrow> (Cancelled, release held))
           (hold_loop (hold_of rq cl) fuel 0 False deadline))"

definition guarded :: "client \<Rightarrow> client" where
  "guarded cl = (if cl_guard cl = Guard_None \<and> has_actionable_user_confirm_marker (cl_text cl) then cl\<lparr>cl_guard := Guard_Pending\<rparr> else cl)"

text \<open>\<open>request_permission\<close>; \<open>None\<close> only when the fuel of a held request is spent.\<close>

definition request_permission :: "nat \<Rightarrow> request \<Rightarrow> client \<Rightarrow> (answer \<times> client) option" where
  "request_permission fuel rq cl0 =
     (let c1 = guarded cl0;
          cl = c1\<lparr>cl_activity := resolve_permission (rq_tool_id rq) (cl_activity c1)\<rparr>;
          rc = base_record rq cl;
          log = (\<lambda>extra. append_router_decision (rc @ extra) cl)
      in if \<not> cl_auto_allow cl then Some (Cancelled, cl)
         else if cl_guard cl \<noteq> Guard_None \<and> tool_kind (rq_tool_call rq) \<notin> set USER_CONFIRM_READ_SAFE_KINDS then
           Some (Cancelled, log [(''decision'', JStr ''deny''),
              (''reason'', JStr (if cl_guard cl = Guard_Denied then ''user_confirm_denied'' else ''user_confirm_pending''))])
         else (case (case cl_policy cl (rq_tool_call rq) (rq_options rq) (cl_cwd cl) of None \<Rightarrow> Escalate | Some v \<Rightarrow> v) of
             Allow \<Rightarrow> (case select_allow_option (rq_options rq) of
                 Some chosen \<Rightarrow> if truthy chosen then Some (Allowed chosen, log [(''decision'', JStr ''allow''), (''option_id'', chosen)])
                   else Some (Cancelled, log [(''decision'', JStr ''deny''), (''reason'', JStr ''no_allow_option'')])
               | None \<Rightarrow> Some (Cancelled, log [(''decision'', JStr ''deny''), (''reason'', JStr ''no_allow_option'')]))
           | Escalate \<Rightarrow>
               (let rc' = rc @ [(''decision'', JStr ''escalate'')]; logged = log [(''decision'', JStr ''escalate'')]
                in if cl_inline logged then await_inline_decision fuel rq rc' logged
                   else Some (Cancelled, logged\<lparr>cl_escalations := cl_escalations logged @ [rc']\<rparr>))
           | Deny \<Rightarrow> Some (Cancelled, log [(''decision'', JStr ''deny'')])))"

end
