(* ===== verification/GF_Router_Props.thy ===== *)
theory GF_Router_Props
  imports GF_Router
begin

text \<open>
  What the permission router guarantees: answers name offered options only, the scope policy grants nothing outside
  the working directory, a question of the worker closes the door for good, and a held permission is answered in
  bounded time.
\<close>

section \<open>Answers name offered options\<close>

definition offers :: "dict list \<Rightarrow> json \<Rightarrow> bool" where
  "offers options x \<longleftrightarrow> truthy x \<and> (\<exists>o'\<in>set options. option_id o' = x \<and> allow_kind o')"

lemma offersI: "o' \<in> set options \<Longrightarrow> allow_kind o' \<Longrightarrow> truthy (option_id o') \<Longrightarrow> offers options (option_id o')"
  by (auto simp: offers_def)

lemma named_allow_kinds: "tc_get o' [''kind''] = JStr ''allow_once'' \<or> tc_get o' [''kind''] = JStr ''allow_always'' \<Longrightarrow> allow_kind o'"
  by (auto simp: allow_kind_def py_str_def startswith_def)

lemma find_someD: "find P xs = Some x \<Longrightarrow> x \<in> set xs \<and> P x"
  by (auto simp: find_Some_iff)

lemma select_allow_offered: "select_allow_option options = Some x \<Longrightarrow> offers options x"
  by (auto simp: select_allow_option_def Let_def intro!: offersI named_allow_kinds dest!: find_someD split: option.splits)

lemma decision_offered:
  assumes "outcome_from_decision d options = Allowed x"
  shows "offers options x \<and> jget d ''decision'' = JStr ''allow''"
proof -
  have "offers options c" if "o' \<in> set options" "is_str (tc_get o' [''kind''])" "startswith (py_str (tc_get o' [''kind''])) ''allow_''"
      "truthy (option_id o')" "option_id o' = c" for o' c
    using that by (auto intro!: offersI simp: allow_kind_def is_str_def)
  then show ?thesis using assms select_allow_offered
    by (auto simp: outcome_from_decision_def Let_def split: if_splits option.splits)
qed

lemma hold_loop_decided:
  "hold_loop h fuel k acked deadline = Some (Decided got) \<Longrightarrow>
     \<exists>j d. k \<le> j \<and> d \<in> {po_first (ho_polls h j), po_last (ho_polls h j)} \<and> read_decision d (JStr (ho_key h)) = Some got"
proof (induction fuel arbitrary: k acked deadline)
  case (Suc fuel)
  let ?p = "ho_polls h k"
  let ?acks = "\<not> acked \<and> read_ack (po_ack ?p) (JStr (ho_key h))"
  show ?case
  proof (cases "read_decision (po_first ?p) (JStr (ho_key h))")
    case None
    show ?thesis
    proof (cases "(if ?acks then po_acked_at ?p + ho_user_timeout h else deadline) \<le> po_checked_at ?p")
      case True
      then have "read_decision (po_last ?p) (JStr (ho_key h)) = Some got"
        using Suc.prems None by (auto simp: Let_def split: option.splits if_splits)
      then show ?thesis by blast
    next
      case False
      then have "\<not> po_cancelled ?p"
        "hold_loop h fuel (Suc k) (acked \<or> ?acks) (if ?acks then po_acked_at ?p + ho_user_timeout h else deadline) = Some (Decided got)"
        using Suc.prems None by (auto simp: Let_def split: if_splits)
      then obtain j d where "Suc k \<le> j" "d \<in> {po_first (ho_polls h j), po_last (ho_polls h j)}" "read_decision d (JStr (ho_key h)) = Some got"
        using Suc.IH by blast
      then show ?thesis by (meson Suc_leD)
    qed
  qed (use Suc.prems in auto)
qed simp

lemma await_allowed:
  assumes "await_inline_decision fuel rq rc cl = Some (Allowed x, cl')"
  shows "offers (rq_options rq) x \<and> (\<exists>got deadline. hold_loop (hold_of rq cl) fuel 0 False deadline = Some (Decided got)
     \<and> jget got ''decision'' = JStr ''allow'')"
proof -
  obtain e where e: "hold_loop (hold_of rq cl) fuel 0 False (rq_now rq + cl_inline_timeout cl) = Some e"
    using assms by (cases "hold_loop (hold_of rq cl) fuel 0 False (rq_now rq + cl_inline_timeout cl)")
      (auto simp: await_inline_decision_def Let_def split: if_splits)
  show ?thesis
  proof (cases e)
    case (Decided got)
    then have "outcome_from_decision got (rq_options rq) = Allowed x"
      using assms e by (simp add: await_inline_decision_def Let_def split: if_splits)
    then show ?thesis using decision_offered e Decided by blast
  qed (use assms e in \<open>auto simp: await_inline_decision_def Let_def split: if_splits\<close>)
qed

lemma guarded_simps [simp]:
  "cl_policy (guarded cl) = cl_policy cl" "cl_cwd (guarded cl) = cl_cwd cl" "cl_inline (guarded cl) = cl_inline cl"
  "cl_auto_allow (guarded cl) = cl_auto_allow cl" "cl_inline_timeout (guarded cl) = cl_inline_timeout cl" "cl_user_timeout (guarded cl) = cl_user_timeout cl"
  by (simp_all add: guarded_def)

lemma append_router_simps [simp]:
  "cl_policy (append_router_decision rc cl) = cl_policy cl" "cl_inline (append_router_decision rc cl) = cl_inline cl"
  "cl_guard (append_router_decision rc cl) = cl_guard cl" "cl_cwd (append_router_decision rc cl) = cl_cwd cl"
  "cl_auto_allow (append_router_decision rc cl) = cl_auto_allow cl"
  "cl_inline_timeout (append_router_decision rc cl) = cl_inline_timeout cl" "cl_user_timeout (append_router_decision rc cl) = cl_user_timeout cl"
  by (simp_all add: append_router_decision_def Let_def)

text \<open>The verdict of the policy; an exception escalates.\<close>

definition policy_verdict :: "request \<Rightarrow> client \<Rightarrow> verdict" where
  "policy_verdict rq cl = (case cl_policy cl (rq_tool_call rq) (rq_options rq) (cl_cwd cl) of None \<Rightarrow> Escalate | Some v \<Rightarrow> v)"

definition guard_passes :: "request \<Rightarrow> client \<Rightarrow> bool" where
  "guard_passes rq cl \<longleftrightarrow> cl_guard (guarded cl) = Guard_None \<or> tool_kind (rq_tool_call rq) \<in> set USER_CONFIRM_READ_SAFE_KINDS"

lemma request_allowed:
  assumes "request_permission fuel rq cl = Some (Allowed x, cl')"
  obtains (auto) "guard_passes rq cl" "policy_verdict rq cl = Allow" "select_allow_option (rq_options rq) = Some x"
  | (inline) rc c where "guard_passes rq cl" "policy_verdict rq cl = Escalate" "cl_inline cl"
      "await_inline_decision fuel rq rc c = Some (Allowed x, cl')" "hold_of rq c = hold_of rq cl"
proof (cases "policy_verdict rq cl")
  case Allow
  then show ?thesis using assms auto
    by (auto simp: request_permission_def Let_def policy_verdict_def guard_passes_def split: if_splits option.splits)
next
  case Deny
  then show ?thesis using assms by (auto simp: request_permission_def Let_def policy_verdict_def split: if_splits)
next
  case Escalate
  then show ?thesis using assms inline
    by (auto simp: request_permission_def Let_def policy_verdict_def guard_passes_def hold_of_def split: if_splits)
qed

text \<open>
  C15. Whatever the policy, the guard, the mode and the files a controller leaves behind, the router never selects
  anything but an option the worker offered, of an explicit allow kind.
\<close>

theorem answers_are_offered:
  assumes "request_permission fuel rq cl = Some (Allowed x, cl')"
  shows "\<exists>o'\<in>set (rq_options rq). option_id o' = x \<and> allow_kind o'"
  using assms
proof (cases rule: request_allowed)
  case auto
  then show ?thesis using select_allow_offered by (auto simp: offers_def)
next
  case inline
  then show ?thesis using await_allowed by (fastforce simp: offers_def)
qed

section \<open>Scope\<close>

definition in_scope :: "resolver \<Rightarrow> string option \<Rightarrow> string \<Rightarrow> bool" where
  "in_scope resolve cwd loc \<longleftrightarrow> (\<exists>d base parts. cwd = Some d \<and> resolve d = Some base
     \<and> resolve (if startswith loc ''/'' then loc else root_text base @ ''/'' @ loc) = Some parts \<and> take (length base) parts = base)"

lemma no_targets_outside:
  assumes "targets_outside_cwd resolve tool_call cwd = []" "loc \<in> set (tool_call_locations tool_call)"
  shows "in_scope resolve cwd loc"
proof -
  obtain d where d: "cwd = Some d" "d \<noteq> []" using assms by (auto simp: targets_outside_cwd_def Let_def split: option.splits if_splits)
  then obtain base where base: "resolve d = Some base"
    using assms by (cases "resolve d") (auto simp: targets_outside_cwd_def Let_def split: if_splits)
  then have "\<not> path_outside_cwd resolve base loc"
    using assms d by (auto simp: targets_outside_cwd_def Let_def filter_empty_conv split: if_splits)
  then show ?thesis using d base by (auto simp: in_scope_def path_outside_cwd_def Let_def split: option.splits)
qed


section \<open>The worker's own question\<close>

datatype client_event = Request nat request | Set_Guard string | New_Turn | Text string

fun client_run :: "client_event list \<Rightarrow> client \<Rightarrow> client option" where
  "client_run [] cl = Some cl"
| "client_run (Request fuel rq # es) cl = (case request_permission fuel rq cl of None \<Rightarrow> None | Some (a, cl') \<Rightarrow> client_run es cl')"
| "client_run (Set_Guard g # es) cl = client_run es (set_user_confirm_guard g cl)"
| "client_run (New_Turn # es) cl = client_run es (set_turn_queue cl)"
| "client_run (Text t # es) cl = client_run es (observe_text t cl)"

lemma await_guard: "await_inline_decision fuel rq rc cl = Some (a, cl') \<Longrightarrow> cl_guard cl' = cl_guard cl"
proof -
  assume r: "await_inline_decision fuel rq rc cl = Some (a, cl')"
  show ?thesis
  proof (cases "rq_write_fails rq")
    case False
    then obtain e where "hold_loop (hold_of rq cl) fuel 0 False (rq_now rq + cl_inline_timeout cl) = Some e"
      using r by (cases "hold_loop (hold_of rq cl) fuel 0 False (rq_now rq + cl_inline_timeout cl)") (auto simp: await_inline_decision_def Let_def)
    then show ?thesis using r False by (cases e) (auto simp: await_inline_decision_def Let_def decline_def split: if_splits)
  qed (use r in \<open>auto simp: await_inline_decision_def Let_def decline_def\<close>)
qed

lemma request_guard:
  assumes "request_permission fuel rq cl = Some (a, cl')"
  shows "cl_guard cl' = cl_guard (guarded cl)"
proof (cases "policy_verdict rq cl")
  case Allow
  then show ?thesis using assms by (auto simp: request_permission_def Let_def policy_verdict_def split: if_splits option.splits)
next
  case Deny
  then show ?thesis using assms by (auto simp: request_permission_def Let_def policy_verdict_def split: if_splits)
next
  case Escalate
  then show ?thesis using assms await_guard
    by (auto simp: request_permission_def Let_def policy_verdict_def split: if_splits)
qed

definition guard_kept :: "client \<Rightarrow> client \<Rightarrow> bool" where
  "guard_kept cl cl' \<longleftrightarrow> (cl_guard cl \<noteq> Guard_None \<longrightarrow> cl_guard cl' \<noteq> Guard_None) \<and> (cl_guard cl = Guard_Denied \<longrightarrow> cl_guard cl' = Guard_Denied)"

lemma guard_kept_step:
  "guard_kept cl (guarded cl)" "guard_kept cl (set_user_confirm_guard g cl)" "guard_kept cl (set_turn_queue cl)" "guard_kept cl (observe_text t cl)"
  by (cases "cl_guard cl"; simp add: guard_kept_def guarded_def set_user_confirm_guard_def set_turn_queue_def observe_text_def Let_def)+

lemma guard_kept_trans: "guard_kept a b \<Longrightarrow> guard_kept b c \<Longrightarrow> guard_kept a c"
  by (simp add: guard_kept_def)

lemma client_run_guard: "client_run es cl = Some cl' \<Longrightarrow> guard_kept cl cl'"
proof (induction es cl arbitrary: cl' rule: client_run.induct)
  case (2 fuel rq es cl)
  then obtain a c where c: "request_permission fuel rq cl = Some (a, c)" "client_run es c = Some cl'"
    by (auto split: option.splits)
  have "guard_kept cl c" using guard_kept_step(1) [of cl] request_guard [OF c(1)] by (simp add: guard_kept_def)
  then show ?case using "2.IH" [OF c(1) refl c(2)] by (rule guard_kept_trans)
next
  case (3 g es cl)
  then show ?case using guard_kept_trans [OF guard_kept_step(2) [of cl g]] by simp
next
  case (4 es cl)
  then show ?case using guard_kept_trans [OF guard_kept_step(3) [of cl]] by simp
next
  case (5 t es cl)
  then show ?case using guard_kept_trans [OF guard_kept_step(4) [of cl t]] by simp
qed (simp add: guard_kept_def)


section \<open>A held permission is answered\<close>

lemma acked_hold_returns:
  assumes "\<And>k. po_checked_at (ho_polls h k) + gap \<le> po_checked_at (ho_polls h (Suc k))" "0 < gap"
    and "deadline \<le> po_checked_at (ho_polls h k) + real n * gap" "n < fuel"
  shows "hold_loop h fuel k True deadline \<noteq> None"
  using assms(3,4)
proof (induction n arbitrary: fuel k)
  case 0
  then obtain m where "fuel = Suc m" by (cases fuel) auto
  with 0 show ?case by (simp add: Let_def split: option.split)
next
  case (Suc n)
  then obtain m where m: "fuel = Suc m" "n < m" by (cases fuel) auto
  have "deadline \<le> po_checked_at (ho_polls h (Suc k)) + real n * gap"
    using Suc.prems(1) assms(1) [of k] by (simp add: algebra_simps)
  from Suc.IH [OF this m(2)] show ?case by (simp add: m(1) Let_def split: option.split)
qed

lemma hold_returns_from:
  assumes gap: "\<And>k. po_checked_at (ho_polls h k) + gap \<le> po_checked_at (ho_polls h (Suc k))" "0 < gap"
    and ack: "\<And>k. po_acked_at (ho_polls h k) \<le> po_checked_at (ho_polls h k)" "ho_user_timeout h \<le> real u * gap"
    and "deadline \<le> po_checked_at (ho_polls h k) + real n * gap" "n + u + 1 < fuel"
  shows "hold_loop h fuel k False deadline \<noteq> None"
  using assms(5,6)
proof (induction n arbitrary: fuel k)
  case 0
  then obtain m where m: "fuel = Suc m" "u < m" by (cases fuel) auto
  have "po_acked_at (ho_polls h k) + ho_user_timeout h \<le> po_checked_at (ho_polls h (Suc k)) + real u * gap"
    using ack(1) [of k] ack(2) gap(1) [of k] gap(2) by simp
  from acked_hold_returns [OF gap this m(2)] show ?case using 0 by (simp add: m(1) Let_def split: option.split)
next
  case (Suc n)
  then obtain m where m: "fuel = Suc m" "n + u + 1 < m" by (cases fuel) auto
  have "po_acked_at (ho_polls h k) + ho_user_timeout h \<le> po_checked_at (ho_polls h (Suc k)) + real u * gap"
    using ack(1) [of k] ack(2) gap(1) [of k] gap(2) by simp
  moreover have "u < m" using m(2) by simp
  ultimately have acked: "hold_loop h m (Suc k) True (po_acked_at (ho_polls h k) + ho_user_timeout h) \<noteq> None"
    by (rule acked_hold_returns [OF gap])
  have "deadline \<le> po_checked_at (ho_polls h (Suc k)) + real n * gap"
    using Suc.prems(1) gap(1) [of k] by (simp add: algebra_simps)
  from Suc.IH [OF this m(2)] acked show ?case by (simp add: m(1) Let_def split: option.split)
qed

text \<open>
  C18. The permission channel cannot wedge: whatever the controllers do to the files, if the clock moves on by at
  least some gap between polls, a request is answered after at most the polls that fit into the two windows, the
  controller's and the user's, and two more.
\<close>

theorem held_permission_answered:
  assumes "\<And>k. po_checked_at (rq_polls rq k) + gap \<le> po_checked_at (rq_polls rq (Suc k))" "0 < gap"
    and "\<And>k. po_acked_at (rq_polls rq k) \<le> po_checked_at (rq_polls rq k)" "rq_now rq \<le> po_checked_at (rq_polls rq 0)"
    and "nat \<lceil>cl_inline_timeout cl / gap\<rceil> + nat \<lceil>cl_user_timeout cl / gap\<rceil> + 2 \<le> fuel"
  shows "request_permission fuel rq cl \<noteq> None"
proof -
  have within: "t \<le> real (nat \<lceil>t / gap\<rceil>) * gap" for t
  proof -
    have "t / gap \<le> real (nat \<lceil>t / gap\<rceil>)" by (rule real_nat_ceiling_ge)
    then show ?thesis using assms(2) by (simp add: field_simps)
  qed
  have loop: "hold_loop (hold_of rq c) fuel 0 False (rq_now rq + cl_inline_timeout c) \<noteq> None"
    if "cl_inline_timeout c = cl_inline_timeout cl" "cl_user_timeout c = cl_user_timeout cl" for c
    by (rule hold_returns_from [where gap = gap and u = "nat \<lceil>cl_user_timeout cl / gap\<rceil>" and n = "nat \<lceil>cl_inline_timeout cl / gap\<rceil>"])
      (use assms within [of "cl_inline_timeout cl"] within [of "cl_user_timeout cl"] that in \<open>auto simp: hold_of_def\<close>)
  have "await_inline_decision fuel rq rc c \<noteq> None"
    if "cl_inline_timeout c = cl_inline_timeout cl" "cl_user_timeout c = cl_user_timeout cl" for rc c
    using loop [OF that] by (auto simp: await_inline_decision_def Let_def)
  then show ?thesis by (auto simp: request_permission_def Let_def split: option.split verdict.split)
qed

section \<open>The heartbeat and a held permission\<close>

text \<open>
  The heartbeat leaves a held permission alone: as long as its deadline plus grace has not passed, the activity
  reports its id as overdue only if the same id is also an outstanding tool call or a permission still unanswered.
\<close>

lemma hold_not_reported:
  assumes "distinct (map fst (ac_held a))" "map_of (ac_held a) t = Some deadline" "now < deadline + INLINE_HOLD_GRACE_S"
    and "timed_out now max_tool_s a = (Some (t, age), a')"
  shows "t \<in> fst ` set (ac_tools a) \<union> fst ` set (ac_pending a)"
proof (cases "expired_permissions now a")
  case (Cons e es)
  have "set (expired_permissions now a) \<subseteq> set (ac_pending a)" by (auto simp: expired_permissions_def)
  moreover have "t = fst e" using assms(4) Cons by (cases e) (simp add: timed_out_def)
  ultimately show ?thesis using Cons by auto
next
  case Nil
  let ?b = "if ac_permission_timeout a \<le> 0 then a\<lparr>ac_pending := []\<rparr> else a"
  have b: "ac_held ?b = ac_held a" "ac_tools ?b = ac_tools a" "set (ac_pending ?b) \<subseteq> set (ac_pending a)" by simp_all
  note run = assms(4) [unfolded timed_out_def Nil list.case Let_def b]
  show ?thesis
  proof (cases "find (\<lambda>(k, deadline). deadline + INLINE_HOLD_GRACE_S \<le> now) (ac_held a)")
    case (Some h)
    then have "h \<in> set (ac_held a)" "snd h + INLINE_HOLD_GRACE_S \<le> now" by (auto dest!: find_someD)
    moreover have "t = fst h" using run Some by (cases h) simp
    ultimately have "map_of (ac_held a) t = Some (snd h)" using assms(1) by (metis map_of_is_SomeI prod.collapse)
    then show ?thesis using assms(2,3) \<open>snd h + INLINE_HOLD_GRACE_S \<le> now\<close> by simp
  next
    case None
    show ?thesis
    proof (cases "find (\<lambda>(k, t). max_tool_s \<le> now - t) (ac_tools a)")
      case (Some h)
      then have "h \<in> set (ac_tools a)" by (auto dest!: find_someD)
      moreover have "t = fst h" using run None Some by (cases h) (simp split: if_splits)
      ultimately show ?thesis by simp
    next
      case no_tool: None
      obtain h where h: "find (\<lambda>(k, t). max_tool_s \<le> now - t) (ac_pending ?b) = Some h" "t = fst h"
        using run None no_tool by (cases "find (\<lambda>(k, t). max_tool_s \<le> now - t) (ac_pending ?b)") (auto split: if_splits)
      then have "h \<in> set (ac_pending a)" using b(3) by (auto dest!: find_someD)
      then show ?thesis using h(2) by simp
    qed
  qed
qed

definition fresh_activity :: activity where
  "fresh_activity = \<lparr>ac_permission_timeout = 30, ac_last_event = 0, ac_tools = [], ac_pending = [], ac_held = [], ac_turn_started = Some 0,
     ac_turn_completed = None, ac_stop_reason = None, ac_turns = 0\<rparr>"

text \<open>The messages by which a worker announces the tool call \<open>T\<close> and asks permission for it.\<close>

definition announce :: dict where
  "announce = [(''method'', JStr ''session/update''), (''params'', JObj [(''update'', JObj [(''sessionUpdate'', JStr ''tool_call''), (''toolCallId'', JStr ''T'')])])]"

definition ask :: dict where
  "ask = [(''method'', JStr ''session/request_permission''), (''params'', JObj [(''toolCall'', JObj [(''toolCallId'', JStr ''T'')])])]"

text \<open>Asked after three seconds, acknowledged after ten: the user has ten hours.\<close>

definition held_call :: "activity \<Rightarrow> activity" where
  "held_call a = extend_inline_hold ''T'' 36010 (hold_inline_permission ''T'' 183 (resolve_permission (Some ''T'') (note_message ask 3 a)))"

lemma held_announced:
  "held_call (note_message announce 1 fresh_activity) = fresh_activity\<lparr>ac_last_event := 3, ac_tools := [(''T'', 1)], ac_held := [(''T'', 36010)]\<rparr>"
  "held_call fresh_activity = fresh_activity\<lparr>ac_last_event := 3, ac_held := [(''T'', 36010)]\<rparr>"
proof -
  have announce: "classify_message announce = ''tool_call''" "tool_id_of (update_of announce) = Some ''T''" "\<not> tool_done (update_of announce)"
    by code_simp+
  have ask: "classify_message ask = ''request_permission''" by code_simp
  have "tool_id_of (fields_of (py_or (jget (fields_of (jget ask ''params'')) ''toolCall'') (jget (fields_of (jget ask ''params'')) ''tool_call''))) = Some ''T''"
    by code_simp
  then have asked: "note_message ask 3 a = a\<lparr>ac_last_event := 3, ac_pending := start_clock ''T'' 3 (ac_pending a)\<rparr>" for a
    by (simp add: note_message_def ask apply_tool_activity_def Let_def)
  have announced: "note_message announce 1 fresh_activity = fresh_activity\<lparr>ac_last_event := 1, ac_tools := [(''T'', 1)]\<rparr>"
    by (simp add: note_message_def announce apply_tool_activity_def start_clock_def fresh_activity_def)
  show "held_call (note_message announce 1 fresh_activity) = fresh_activity\<lparr>ac_last_event := 3, ac_tools := [(''T'', 1)], ac_held := [(''T'', 36010)]\<rparr>"
    "held_call fresh_activity = fresh_activity\<lparr>ac_last_event := 3, ac_held := [(''T'', 36010)]\<rparr>"
    unfolding announced held_call_def asked
    by (simp_all add: start_clock_def resolve_permission_def hold_inline_permission_def extend_inline_hold_def fresh_activity_def)
qed

lemma held_reported:
  "timed_out 3601 3600 (held_call (note_message announce 1 fresh_activity)) = (Some (''T'', 3600), held_call (note_message announce 1 fresh_activity))"
  "fst (timed_out 3601 3600 (held_call fresh_activity)) = None"
  unfolding held_announced by (simp_all add: timed_out_def expired_permissions_def fresh_activity_def INLINE_HOLD_GRACE_S_def Let_def)


section \<open>Sample requests\<close>

text \<open>A file system with the directory \<open>/w\<close>, and an edit of a file in it.\<close>

definition demo_resolve :: resolver where
  "demo_resolve p = (if p = ''/w'' then Some [''w''] else if startswith p ''/w/'' then Some [''w'', drop 3 p] else Some [p])"

definition demo_polls :: "nat \<Rightarrow> poll" where
  "demo_polls k = \<lparr>po_first = [], po_ack = [], po_last = [], po_acked_at = real k, po_checked_at = real k, po_cancelled = False\<rparr>"

definition demo_call :: "string \<Rightarrow> string \<Rightarrow> request" where
  "demo_call kind path = \<lparr>rq_options = [[(''kind'', JStr ''reject_once''), (''optionId'', JStr ''no'')], [(''kind'', JStr ''allow_once''), (''optionId'', JStr ''ok'')]],
     rq_session = ''s'', rq_tool_call = [(''toolCallId'', JStr ''T''), (''kind'', JStr kind), (''locations'', JList [JObj [(''path'', JStr path)]])],
     rq_uuid = ''00000000'', rq_resolve = demo_resolve, rq_now = 0, rq_write_fails = False, rq_polls = demo_polls\<rparr>"

definition demo_client :: "bool \<Rightarrow> guard \<Rightarrow> client" where
  "demo_client inline g = \<lparr>cl_auto_allow = True, cl_cwd = Some ''/w'', cl_policy = default_permission_policy demo_resolve, cl_inline = inline,
     cl_inline_timeout = 2, cl_user_timeout = 3, cl_guard = g, cl_text = [], cl_activity = fresh_activity, cl_router_log = [],
     cl_escalations = [], cl_auto_declined = []\<rparr>"

lemma demo_granted: "\<exists>cl'. request_permission 1 (demo_call ''edit'' ''a.py'') (demo_client False Guard_None) = Some (Allowed (JStr ''ok''), cl')"
proof -
  have quiet: "\<not> has_actionable_user_confirm_marker []" by (simp add: has_actionable_user_confirm_marker_def)
  have policy: "default_permission_policy demo_resolve (rq_tool_call (demo_call ''edit'' ''a.py'')) opts (Some ''/w'') = Some Allow" for opts
    unfolding default_permission_policy_def by code_simp
  have option: "select_allow_option (rq_options (demo_call ''edit'' ''a.py'')) = Some (JStr ''ok'')" by code_simp
  show ?thesis
    by (simp add: request_permission_def Let_def guarded_def demo_client_def quiet policy option)
qed

lemma demo_cancelled:
  "tool_kind (rq_tool_call (demo_call ''edit'' ''a.py'')) = ''edit'' \<and>
   request_permission 1 (demo_call ''edit'' ''a.py'') (demo_client True Guard_Denied) \<noteq> None"
proof -
  have kind: "tool_kind (rq_tool_call (demo_call ''edit'' ''a.py'')) = ''edit''" by code_simp
  then show ?thesis by (simp add: request_permission_def Let_def guarded_def demo_client_def USER_CONFIRM_READ_SAFE_KINDS_def)
qed

theorem answers_are_offered_witness:
  "\<exists>o'\<in>set (rq_options (demo_call ''edit'' ''a.py'')). option_id o' = JStr ''ok'' \<and> allow_kind o'"
  using demo_granted answers_are_offered by blast



theorem held_permission_answered_witness:
  "request_permission 7 (demo_call ''execute'' ''a.py'') (demo_client True Guard_None) \<noteq> None"
  by (rule held_permission_answered [where gap = 1]) (simp_all add: demo_call_def demo_polls_def demo_client_def)

lemma hold_not_reported_witness:
  "fst (timed_out 3601 3600 (held_call (note_message announce 1 fresh_activity))) = Some (''T'', 3600)
   \<and> ''T'' \<in> fst ` set (ac_tools (held_call (note_message announce 1 fresh_activity)))"
proof -
  have "distinct (map fst (ac_held (held_call (note_message announce 1 fresh_activity))))"
    "map_of (ac_held (held_call (note_message announce 1 fresh_activity))) ''T'' = Some 36010"
    "(3601 :: real) < 36010 + INLINE_HOLD_GRACE_S" "ac_pending (held_call (note_message announce 1 fresh_activity)) = []"
    unfolding held_announced by (simp_all add: INLINE_HOLD_GRACE_S_def fresh_activity_def)
  then show ?thesis using hold_not_reported [OF _ _ _ held_reported(1)] held_reported(1) by simp
qed

end
