(* ===== verification/GF_Regex.thy ===== *)
theory GF_Regex
  imports GF_Text
begin

text \<open>
  Python's \<open>re\<close> on the constructs the scripts use: characters by class, sequence, ordered alternative, greedy optional
  and greedy bounded repetition of a character class, the word boundary, and named groups. A pattern maps a
  position to the positions it can end in, in the order a backtracking matcher tries them; a search takes the first
  one at the leftmost start. Compiled with \<open>re.IGNORECASE\<close>, a literal is the class of its two cases.
\<close>

section \<open>Patterns\<close>

datatype pattern =
    Empty
  | Char "char \<Rightarrow> bool"
  | Repeat "char \<Rightarrow> bool" nat "nat option"
  | Boundary
  | Seq pattern pattern
  | Alt pattern pattern
  | Opt pattern
  | Group string pattern

text \<open>The character before the position, the text after it, and the groups closed so far.\<close>

type_synonym position = "char option \<times> string \<times> (string \<times> string) list"

abbreviation ahead :: "position \<Rightarrow> string" where "ahead p \<equiv> fst (snd p)"
abbreviation groups :: "position \<Rightarrow> (string \<times> string) list" where "groups p \<equiv> snd (snd p)"

text \<open>\<open>\w\<close> on the first 256 code points.\<close>

definition word_char :: "char \<Rightarrow> bool" where
  "word_char c \<longleftrightarrow> ascii_letter c \<or> ascii_digit c \<or> c = CHR ''_''
     \<or> (let n = of_char c :: nat in n \<in> {170, 178, 179, 181, 185, 186, 188, 189, 190} \<or> (192 \<le> n \<and> n \<noteq> 215 \<and> n \<noteq> 247))"

definition at_boundary :: "position \<Rightarrow> bool" where
  "at_boundary p \<longleftrightarrow> (case fst p of None \<Rightarrow> False | Some c \<Rightarrow> word_char c)
     \<noteq> (case ahead p of [] \<Rightarrow> False | c # _ \<Rightarrow> word_char c)"

fun step :: "(char \<Rightarrow> bool) \<Rightarrow> position \<Rightarrow> position list" where
  "step P (prev, [], g) = []"
| "step P (prev, c # cs, g) = (if P c then [(Some c, cs, g)] else [])"

text \<open>At most \<open>n\<close> more characters, as many as possible first; exactly \<open>n\<close> characters.\<close>

fun up_to :: "(char \<Rightarrow> bool) \<Rightarrow> nat \<Rightarrow> position \<Rightarrow> position list" where
  "up_to P 0 p = [p]"
| "up_to P (Suc n) p = concat (map (up_to P n) (step P p)) @ [p]"

fun exactly :: "(char \<Rightarrow> bool) \<Rightarrow> nat \<Rightarrow> position \<Rightarrow> position list" where
  "exactly P 0 p = [p]"
| "exactly P (Suc n) p = concat (map (exactly P n) (step P p))"

definition close_group :: "string \<Rightarrow> position \<Rightarrow> position \<Rightarrow> position" where
  "close_group n p q = (fst q, ahead q, AList.update n (take (length (ahead p) - length (ahead q)) (ahead p)) (groups q))"

primrec ends :: "pattern \<Rightarrow> position \<Rightarrow> position list" where
  "ends Empty p = [p]"
| "ends (Char P) p = step P p"
| "ends (Repeat P lo hi) p = concat (map (\<lambda>q. up_to P (case hi of None \<Rightarrow> length (ahead q) | Some h \<Rightarrow> h - lo) q) (exactly P lo p))"
| "ends Boundary p = (if at_boundary p then [p] else [])"
| "ends (Seq a b) p = concat (map (ends b) (ends a p))"
| "ends (Alt a b) p = ends a p @ ends b p"
| "ends (Opt a) p = ends a p @ [p]"
| "ends (Group n a) p = map (close_group n p) (ends a p)"

text \<open>\<open>pattern.search(text)\<close>: the groups of the first match, or \<open>None\<close>.\<close>

fun search_from :: "pattern \<Rightarrow> char option \<Rightarrow> string \<Rightarrow> (string \<times> string) list option" where
  "search_from r prev text =
     (case ends r (prev, text, []) of
        p # _ \<Rightarrow> Some (groups p)
      | [] \<Rightarrow> (case text of [] \<Rightarrow> None | c # cs \<Rightarrow> search_from r (Some c) cs))"

declare search_from.simps [simp del]

definition search :: "pattern \<Rightarrow> string \<Rightarrow> (string \<times> string) list option" where
  "search r text = search_from r None text"

section \<open>Building blocks\<close>

definition same_letter :: "char \<Rightarrow> char \<Rightarrow> bool" where
  "same_letter c x \<longleftrightarrow> ascii_lower x = ascii_lower c"

primrec seqs :: "pattern list \<Rightarrow> pattern" where
  "seqs [] = Empty"
| "seqs (r # rs) = Seq r (seqs rs)"

primrec alts :: "pattern \<Rightarrow> pattern list \<Rightarrow> pattern" where
  "alts r [] = r"
| "alts r (r' # rs) = Alt r (alts r' rs)"

definition Lit :: "string \<Rightarrow> pattern" where
  "Lit s = seqs (map (\<lambda>c. Char (same_letter c)) s)"

definition Spaces :: pattern where "Spaces = Repeat wide_space 0 None"
definition Spaces1 :: pattern where "Spaces1 = Repeat wide_space 1 None"
definition Digits1 :: pattern where "Digits1 = Repeat ascii_digit 1 None"
definition Digits :: "nat \<Rightarrow> nat \<Rightarrow> pattern" where "Digits lo hi = Repeat ascii_digit lo (Some hi)"
definition OneOf :: "string \<Rightarrow> pattern" where "OneOf s = Char (\<lambda>c. \<exists>x\<in>set s. same_letter x c)"

section \<open>Matching consumes a prefix\<close>

definition reads :: "position \<Rightarrow> position \<Rightarrow> bool" where
  "reads p q \<longleftrightarrow> (\<exists>w. ahead p = w @ ahead q)"

lemma reads_refl [simp, intro]: "reads p p"
  by (simp add: reads_def)

lemma reads_trans [trans]: "reads p q \<Longrightarrow> reads q r \<Longrightarrow> reads p r"
  by (auto simp: reads_def)

lemma step_reads: "q \<in> set (step P p) \<Longrightarrow> reads p q"
  by (cases "(P, p)" rule: step.cases) (auto simp: reads_def split: if_splits)

lemma up_to_reads: "q \<in> set (up_to P n p) \<Longrightarrow> reads p q"
  by (induction P n p rule: up_to.induct) (auto intro: reads_trans step_reads)

lemma exactly_reads: "q \<in> set (exactly P n p) \<Longrightarrow> reads p q"
  by (induction P n p rule: exactly.induct) (auto intro: reads_trans step_reads)

lemma reads_close [simp]: "reads p (close_group n p' q) \<longleftrightarrow> reads p q"
  by (simp add: reads_def close_group_def)

lemma ends_reads: "q \<in> set (ends r p) \<Longrightarrow> reads p q"
proof (induction r arbitrary: p q)
  case (Seq a b)
  then obtain m where "m \<in> set (ends a p)" "q \<in> set (ends b m)" by auto
  then show ?case using Seq.IH by (meson reads_trans)
next
  case (Group n a)
  then obtain m where "m \<in> set (ends a p)" "q = close_group n p m" by auto
  then show ?case using Group.IH by simp
next
  case (Repeat P lo hi)
  then obtain m n where "m \<in> set (exactly P lo p)" "q \<in> set (up_to P n m)" by auto
  then show ?case by (meson reads_trans exactly_reads up_to_reads)
qed (auto intro: step_reads split: if_splits simp del: split_paired_All split_paired_Ex)

text \<open>What a repeated class reads.\<close>

lemma up_to_all: "q \<in> set (up_to P n p) \<Longrightarrow> \<exists>w. ahead p = w @ ahead q \<and> list_all P w \<and> length w \<le> n \<and> groups q = groups p"
proof (induction P n p rule: up_to.induct)
  case (2 P n p)
  show ?case
  proof (cases "q = p")
    case False
    then obtain m where m: "m \<in> set (step P p)" "q \<in> set (up_to P n m)" using 2(2) by auto
    obtain w where w: "ahead m = w @ ahead q" "list_all P w" "length w \<le> n" "groups q = groups m" using 2(1) [OF m] by blast
    obtain c where "ahead p = c # ahead m" "P c" "groups m = groups p"
      using m(1) by (cases "(P, p)" rule: step.cases) (auto split: if_splits)
    then show ?thesis using w by (intro exI [of _ "c # w"]) auto
  qed simp
qed simp

lemma exactly_all: "q \<in> set (exactly P n p) \<Longrightarrow> \<exists>w. ahead p = w @ ahead q \<and> list_all P w \<and> length w = n \<and> groups q = groups p"
proof (induction P n p rule: exactly.induct)
  case (2 P n p)
  then obtain m where m: "m \<in> set (step P p)" "q \<in> set (exactly P n m)" by auto
  obtain w where w: "ahead m = w @ ahead q" "list_all P w" "length w = n" "groups q = groups m" using 2(1) [OF m] by blast
  obtain c where "ahead p = c # ahead m" "P c" "groups m = groups p"
    using m(1) by (cases "(P, p)" rule: step.cases) (auto split: if_splits)
  then show ?case using w by (intro exI [of _ "c # w"]) auto
qed simp

lemma repeat_all:
  assumes "q \<in> set (ends (Repeat P lo hi) p)"
  shows "\<exists>w. ahead p = w @ ahead q \<and> list_all P w \<and> lo \<le> length w \<and> groups q = groups p"
proof -
  obtain m n where m: "m \<in> set (exactly P lo p)" "q \<in> set (up_to P n m)" using assms by auto
  obtain w where "ahead p = w @ ahead m" "list_all P w" "length w = lo" "groups m = groups p" using exactly_all [OF m(1)] by blast
  moreover obtain w' where "ahead m = w' @ ahead q" "list_all P w'" "groups q = groups m" using up_to_all [OF m(2)] by blast
  ultimately show ?thesis by (intro exI [of _ "w @ w'"]) simp
qed

text \<open>A match found by a search is a match at some place of the text.\<close>

lemma search_from_someD:
  "search_from r prev t = Some g \<Longrightarrow>
   \<exists>pre suf prev' q. t = pre @ suf \<and> q \<in> set (ends r (prev', suf, [])) \<and> g = groups q"
proof (induction r prev t rule: search_from.induct)
  case (1 r prev t)
  show ?case
  proof (cases "ends r (prev, t, [])")
    case (Cons p ps)
    then show ?thesis
      using 1(2) by (intro exI [of _ "[]"] exI [of _ t] exI [of _ prev] exI [of _ p]) (simp add: search_from.simps)
  next
    case Nil
    then obtain c cs where tc: "t = c # cs" "search_from r (Some c) cs = Some g"
      using 1(2) by (cases t) (simp_all add: search_from.simps [of r prev])
    obtain pre suf prev' q where "cs = pre @ suf" "q \<in> set (ends r (prev', suf, []))" "g = groups q"
      using 1(1) [OF Nil tc(1) tc(2)] by blast
    then show ?thesis using tc(1) by (intro exI [of _ "c # pre"] exI [of _ suf] exI [of _ prev'] exI [of _ q]) simp
  qed
qed

lemma search_someD:
  "search r t = Some g \<Longrightarrow> \<exists>pre suf prev q. t = pre @ suf \<and> q \<in> set (ends r (prev, suf, [])) \<and> g = groups q"
  unfolding search_def by (rule search_from_someD)

end
