(* ===== verification/GF_Rate_Signatures.thy ===== *)
theory GF_Rate_Signatures
  imports GF_Regex GF_Capacity GF_Markers GF_Task_Text
begin

text \<open>
  What a text says about a provider limit (\<open>scripts/goalflight_rate_pressure.py\<close>): the signature table, the retry and
  reset times, and the outcomes \<open>scripts/goalflight_terminal.py\<close> derives from the tail of a dead worker. The offset
  of the host's local zone, by wall-clock microseconds, is a parameter.
\<close>

section \<open>Values as text\<close>

text \<open>\<open>repr\<close> and \<open>str\<close> of a decoded value; floats are left out.\<close>

definition hex2 :: "char \<Rightarrow> string" where
  "hex2 c = (let n = of_char c :: nat in [hex_digit (n div 16), hex_digit (n mod 16)])"

definition unprintable :: "char \<Rightarrow> bool" where
  "unprintable c \<longleftrightarrow> (let n = of_char c :: nat in n < 32 \<or> (127 \<le> n \<and> n \<le> 160) \<or> n = 173)"

definition repr_char :: "char \<Rightarrow> char \<Rightarrow> string" where
  "repr_char q c =
     (if c = q \<or> c = BACKSLASH then [BACKSLASH, c]
      else if c = CHR 0x0A then [BACKSLASH, CHR ''n'']
      else if c = CHR 0x0D then [BACKSLASH, CHR ''r'']
      else if c = CHR 0x09 then [BACKSLASH, CHR ''t'']
      else if unprintable c then [BACKSLASH, CHR ''x''] @ hex2 c
      else [c])"

definition repr_str :: "string \<Rightarrow> string" where
  "repr_str s = (let q = (if CHR 0x27 \<in> set s \<and> QUOTE \<notin> set s then QUOTE else CHR 0x27)
     in [q] @ concat (map (repr_char q) s) @ [q])"

primrec py_repr :: "json \<Rightarrow> string" where
  "py_repr JNull = ''None''"
| "py_repr (JBool b) = (if b then ''True'' else ''False'')"
| "py_repr (JInt i) = show_int i"
| "py_repr (JFloat r) = []"
| "py_repr (JStr s) = repr_str s"
| "py_repr (JList xs) = ''['' @ join_on '', '' (map py_repr xs) @ '']''"
| "py_repr (JObj d) = ''{'' @ join_on '', '' (map (\<lambda>(k, t). repr_str k @ '': '' @ t) (map (map_prod id py_repr) d)) @ ''}''"

definition py_text :: "json \<Rightarrow> string" where
  "py_text v = (case v of JStr s \<Rightarrow> s | _ \<Rightarrow> py_repr v)"

text \<open>\<open>str(v or "")\<close>.\<close>

definition text_or_empty :: "json \<Rightarrow> string" where
  "text_or_empty v = (if truthy v then py_text v else [])"

text \<open>\<open>json.dumps(v)\<close> with its default separators and ASCII escapes, and with \<open>sort_keys\<close>.\<close>

definition ascii_escape :: "char \<Rightarrow> string" where
  "ascii_escape c = (if (of_char c :: nat) < 127 then escape_char c else [BACKSLASH, CHR ''u'', CHR ''0'', CHR ''0''] @ hex2 c)"

definition ascii_quote :: "string \<Rightarrow> string" where
  "ascii_quote s = [QUOTE] @ concat (map ascii_escape s) @ [QUOTE]"

primrec json_dumps :: "bool \<Rightarrow> json \<Rightarrow> string" where
  "json_dumps by_key JNull = ''null''"
| "json_dumps by_key (JBool b) = (if b then ''true'' else ''false'')"
| "json_dumps by_key (JInt i) = show_int i"
| "json_dumps by_key (JFloat r) = []"
| "json_dumps by_key (JStr s) = ascii_quote s"
| "json_dumps by_key (JList xs) = ''['' @ join_on '', '' (map (json_dumps by_key) xs) @ '']''"
| "json_dumps by_key (JObj d) = (let ms = map (map_prod id (json_dumps by_key)) d
     in ''{'' @ join_on '', '' (map (\<lambda>(k, t). ascii_quote k @ '': '' @ t) (if by_key then sort_key fst ms else ms)) @ ''}'')"

section \<open>The signature table\<close>

definition ACCOUNT_RATE_LIMIT_SCOPE :: string where "ACCOUNT_RATE_LIMIT_SCOPE = ''account_rate_limit''"
definition MODEL_CAPACITY_SCOPE :: string where "MODEL_CAPACITY_SCOPE = ''model_capacity''"

definition EXHAUSTED :: string where "EXHAUSTED = ''exhausted''"
definition TRANSIENT :: string where "TRANSIENT = ''transient''"
definition UNKNOWN_KIND :: string where "UNKNOWN_KIND = ''unknown''"

record limit_pattern =
  lp_marker :: string
  lp_kind :: string
  lp_signature :: string
  lp_scope :: string
  lp_regex :: "pattern option"

definition LimitPattern :: "string \<Rightarrow> string \<Rightarrow> limit_pattern" where
  "LimitPattern marker kind = \<lparr>lp_marker = marker, lp_kind = kind, lp_signature = marker,
     lp_scope = ACCOUNT_RATE_LIMIT_SCOPE, lp_regex = None\<rparr>"

definition coded :: "string \<Rightarrow> string \<Rightarrow> string list \<Rightarrow> limit_pattern list" where
  "coded kind signature anchors = map (\<lambda>a. LimitPattern a kind\<lparr>lp_signature := signature\<rparr>) anchors"

text \<open>\<open>"code": n\<close> with the quotes the literals carry.\<close>

definition quoted_key :: "string \<Rightarrow> string \<Rightarrow> string" where
  "quoted_key k rest = [QUOTE] @ k @ [QUOTE] @ rest"

text \<open>\<open>\breached\b[^\r\n]{0,200}\bmax rpm\b\<close>.\<close>

definition MAX_RPM_RE :: pattern where
  "MAX_RPM_RE = seqs [Boundary, Lit ''reached'', Boundary,
     Repeat (\<lambda>c. c \<noteq> CHR 0x0D \<and> c \<noteq> CHR 0x0A) 0 (Some 200), Boundary, Lit ''max rpm'', Boundary]"

definition RATE_LIMIT_PATTERNS :: "limit_pattern list" where
  "RATE_LIMIT_PATTERNS =
     map (\<lambda>m. LimitPattern m EXHAUSTED) [''usage balance exhausted'', ''prepaid credits are depleted'',
       ''insufficient_quota'', ''quota exceeded'', ''weekly limit'', ''usage limit'', ''blocked_session_limit'',
       ''session_limit'', ''session limit'', ''payment_required'', ''payment required'']
     @ coded EXHAUSTED ''402'' [''http 402'', ''status 402'', ''status: 402'', ''402 payment required'', ''got 402'',
       ''error 402'', ''(status 402'', quoted_key ''http_status'' '': 402'', quoted_key ''http_status'' '':402'',
       quoted_key ''code'' '': 402'', quoted_key ''code'' '':402'']
     @ map (\<lambda>m. LimitPattern m TRANSIENT) [''too many requests'', ''overloaded_error'',
       ''the engine is currently overloaded'', ''exceeded retry limit'']
     @ coded TRANSIENT ''429'' [''http 429'', ''status 429'', ''status: 429'', ''429 too many'', ''got 429'', ''error 429'',
       quoted_key ''code'' '': 429'', quoted_key ''code'' '':429'', ''status code: 429'']
     @ coded TRANSIENT ''529'' [''http 529'', ''status 529'', ''status: 529'', ''529 overloaded'', ''got 529'', ''error 529'',
       ''(529)'', quoted_key ''code'' '': 529'', quoted_key ''code'' '':529'']
     @ [LimitPattern ''reached ... max rpm'' TRANSIENT\<lparr>lp_regex := Some MAX_RPM_RE\<rparr>]
     @ map (\<lambda>m. LimitPattern m TRANSIENT\<lparr>lp_scope := MODEL_CAPACITY_SCOPE\<rparr>)
         [''selected model is at capacity'', ''model is at capacity'']
     @ map (\<lambda>m. LimitPattern m UNKNOWN_KIND) [''rate_limit'', ''rate-limit'', ''rate limit'', ''you'' @ [CHR 0x27] @ ''ve hit your limit'',
       ''try again at'', ''anthropic.ratelimiterror'', ''openai.ratelimiterror'', ''rate_limit_error'', ''resource_exhausted'',
       ''check your settings to continue'', ''apiproviderratelimiterror'']"

section \<open>Times in a text\<close>

text \<open>\<open>(?:s|sec(?:ond)?s?)\<close>.\<close>

definition SECONDS_UNIT :: pattern where
  "SECONDS_UNIT = Alt (Lit ''s'') (seqs [Lit ''sec'', Opt (Lit ''ond''), Opt (Lit ''s'')])"

definition SECONDS_GROUP :: pattern where
  "SECONDS_GROUP = Group ''seconds'' (seqs [Digits1, Opt (Seq (Lit ''.'') Digits1)])"

definition RETRY_AFTER_RE :: pattern where
  "RETRY_AFTER_RE = seqs [Boundary, Lit ''retry'', Alt (Lit ''-'') Spaces, Lit ''after'', Spaces, Opt (OneOf '':=''), Spaces,
     SECONDS_GROUP, Spaces, Opt SECONDS_UNIT, Boundary]"

definition RETRY_IN_RE :: pattern where
  "RETRY_IN_RE = seqs [Boundary, Lit ''retry'', Spaces1, Lit ''in'', Spaces1, SECONDS_GROUP, Spaces, SECONDS_UNIT, Boundary]"

definition group_of :: "(string \<times> string) list \<Rightarrow> string \<Rightarrow> string" where
  "group_of g n = (case map_of g n of None \<Rightarrow> [] | Some s \<Rightarrow> s)"

definition retry_after_in_text :: "string \<Rightarrow> real option" where
  "retry_after_in_text t = (case (case search RETRY_AFTER_RE t of None \<Rightarrow> search RETRY_IN_RE t | Some g \<Rightarrow> Some g) of
      None \<Rightarrow> None
    | Some g \<Rightarrow> py_float (group_of g ''seconds''))"

definition CODEX_RESET_RE :: pattern where
  "CODEX_RESET_RE = seqs [Boundary, alts (seqs [Lit ''try'', Spaces1, Lit ''again'']) [Seq (Lit ''reset'') (Opt (Lit ''s''))],
     Spaces1, Alt (Lit ''at'') (Lit ''on''), Spaces1,
     Group ''month'' (Seq (Char ascii_letter) (Repeat ascii_letter 2 (Some 8))), Spaces1,
     Group ''day'' (Digits 1 2), Opt (alts (Lit ''st'') [Lit ''nd'', Lit ''rd'', Lit ''th'']), Spaces, Opt (Lit '',''), Spaces1,
     Group ''year'' (Digits 4 4), Spaces1,
     Group ''clock'' (seqs [Digits 1 2, Lit '':'', Digits 2 2, Spaces, OneOf ''AP'', Lit ''M'']), Boundary]"

definition ISO_RESET_RE :: pattern where
  "ISO_RESET_RE = seqs [Boundary, Alt (seqs [Lit ''try'', Spaces1, Lit ''again'']) (seqs [Lit ''reset'', Opt (Lit ''s''), Opt (Lit ''_at'')]),
     Spaces, alts (Lit ''at'') [Lit ''on'', OneOf '':=''], Spaces,
     Group ''iso'' (seqs [Digits 4 4, Lit ''-'', Digits 2 2, Lit ''-'', Digits 2 2, Lit ''T'', Digits 2 2, Lit '':'', Digits 2 2,
       Opt (seqs [Lit '':'', Digits 2 2, Opt (Seq (Lit ''.'') Digits1)]),
       Alt (Lit ''Z'') (seqs [OneOf ''+-'', Digits 2 2, Opt (Lit '':''), Digits 2 2])])]"

text \<open>\<open>datetime.isoformat()\<close> of an aware value.\<close>

definition iso_offset :: "int \<Rightarrow> string" where
  "iso_offset z = (let a = \<bar>z\<bar>; s = a div us_per_s
     in (if z < 0 then ''-'' else ''+'') @ pad_digits 2 (nat (s div 3600)) @ '':'' @ pad_digits 2 (nat (s div 60 mod 60))
        @ (if a mod (60 * us_per_s) = 0 then [] else '':'' @ pad_digits 2 (nat (s mod 60))
           @ (if a mod us_per_s = 0 then [] else ''.'' @ pad_digits 6 (nat (a mod us_per_s)))))"

definition isoformat :: "datetime \<Rightarrow> string" where
  "isoformat d = (let us = dt_local d
     in iso_date (us div us_per_day) @ ''T'' @ iso_clock (us mod us_per_day div us_per_s)
        @ (if us mod us_per_s = 0 then [] else ''.'' @ pad_digits 6 (nat (us mod us_per_s)))
        @ (case dt_offset d of None \<Rightarrow> [] | Some z \<Rightarrow> iso_offset z))"

text \<open>
  \<open>strptime(value, "%b %d, %Y %I:%M %p")\<close> on the four groups, joined as the code joins them: \<open>%b\<close> knows only the
  three-letter names, and the white space before \<open>%p\<close> is required.
\<close>

definition MONTH_ABBR :: "string list" where
  "MONTH_ABBR = [''jan'', ''feb'', ''mar'', ''apr'', ''may'', ''jun'', ''jul'', ''aug'', ''sep'', ''oct'', ''nov'', ''dec'']"

definition month_number :: "string \<Rightarrow> nat option" where
  "month_number m = map_of (zip MONTH_ABBR [1..<13]) (casefold m)"

definition number_of :: "string \<Rightarrow> int" where
  "number_of s = (case digits_value s 0 of None \<Rightarrow> 0 | Some n \<Rightarrow> n)"

definition clock_minutes :: "string \<Rightarrow> int option" where
  "clock_minutes s = (let h = takeWhile ascii_digit s; r = tl (dropWhile ascii_digit s);
        m = takeWhile ascii_digit r; t = dropWhile ascii_digit r; ampm = casefold (dropWhile wide_space t)
     in if 1 \<le> number_of h \<and> number_of h \<le> 12 \<and> number_of m < 60 \<and> t \<noteq> [] \<and> wide_space (hd t)
        then Some ((number_of h mod 12 + (if ampm = ''pm'' then 12 else 0)) * 60 + number_of m) else None)"

definition codex_local_time :: "(string \<times> string) list \<Rightarrow> int option" where
  "codex_local_time g =
     (let y = number_of (group_of g ''year''); d = number_of (group_of g ''day'')
      in case (month_number (group_of g ''month''), clock_minutes (group_of g ''clock'')) of
           (Some m, Some minutes) \<Rightarrow>
             if valid_date y m d then Some (ymd2ord y m d * us_per_day + minutes * 60 * us_per_s) else None
         | _ \<Rightarrow> None)"

definition reset_at_in_text :: "(int \<Rightarrow> int) \<Rightarrow> string \<Rightarrow> string option" where
  "reset_at_in_text zone t = (case search ISO_RESET_RE t of
      Some g \<Rightarrow> (let iso = group_of g ''iso'';
                      v = (if iso \<noteq> [] \<and> last iso \<in> {CHR ''Z'', CHR ''z''} then butlast iso @ ''+00:00'' else iso)
                 in map_option isoformat (fromisoformat v))
    | None \<Rightarrow> (case search CODEX_RESET_RE t of
        None \<Rightarrow> None
      | Some g \<Rightarrow> map_option (\<lambda>us. isoformat \<lparr>dt_local = us, dt_offset = Some (zone us)\<rparr>) (codex_local_time g)))"

section \<open>Evidence\<close>

record limit_evidence =
  le_signature :: string
  le_kind :: string
  le_scope :: string
  le_state :: string
  le_reset_at :: "string option"
  le_retry_after :: "real option"

definition opt_float :: "real option \<Rightarrow> json" where
  "opt_float v = (case v of None \<Rightarrow> JNull | Some r \<Rightarrow> JFloat r)"

text \<open>\<open>LimitEvidence.get\<close>.\<close>

definition evidence_get :: "limit_evidence \<Rightarrow> string \<Rightarrow> json" where
  "evidence_get e key = jget
     [(''signature'', JStr (le_signature e)), (''limit_signature'', JStr (le_signature e)),
      (''kind'', JStr (le_kind e)), (''limit_kind'', JStr (le_kind e)), (''scope'', JStr (le_scope e)),
      (''state'', JStr (le_state e)), (''reset_at'', json_text (le_reset_at e)), (''retry_after'', opt_float (le_retry_after e))] key"

definition pattern_found :: "limit_pattern \<Rightarrow> string \<Rightarrow> bool" where
  "pattern_found p t \<longleftrightarrow> (case lp_regex p of Some r \<Rightarrow> search r t \<noteq> None | None \<Rightarrow> contains (casefold t) (lp_marker p))"

definition rate_limit_signature_in_text :: "(int \<Rightarrow> int) \<Rightarrow> string \<Rightarrow> limit_evidence option" where
  "rate_limit_signature_in_text zone t =
     (let retry_after = retry_after_in_text t
      in case find (\<lambda>p. pattern_found p t) RATE_LIMIT_PATTERNS of
          None \<Rightarrow> None
        | Some p \<Rightarrow> (let kind = (if retry_after \<noteq> None \<and> lp_kind p = UNKNOWN_KIND then TRANSIENT else lp_kind p)
            in Some \<lparr>le_signature = lp_signature p, le_kind = kind, le_scope = lp_scope p,
                     le_state = limit_state_for_kind (JStr kind), le_reset_at = reset_at_in_text zone t,
                     le_retry_after = retry_after\<rparr>))"

end
