(* ===== verification/GF_Rate_Pressure.thy ===== *)
theory GF_Rate_Pressure
  imports GF_Rate_Signatures GF_Admission
begin

text \<open>
  Rate pressure (\<open>scripts/goalflight_rate_pressure.py\<close>): providers and budget keys, the pools of the billing document,
  the failures that count, their number per budget key inside a time window, and the recommended walk-back. The
  decoded JSON of the billing document and of the files of the ledger are parameters; times are microseconds since
  the start of year 1.
\<close>

datatype rate_error = Input_Error string | Attribute_Error | Type_Error

section \<open>Providers\<close>

definition AGENT_TO_PROVIDER :: "(string \<times> string) list" where
  "AGENT_TO_PROVIDER =
     [(''claude'', ''anthropic-session''), (''claude-bash-tail'', ''anthropic-api''),
      (''claude-code-cli-acp'', ''anthropic-cli-acp''), (''codex'', ''openai''), (''codex-acp'', ''openai''),
      (''codex-bash-tail'', ''openai''), (''grok'', ''xai''), (''grok-acp'', ''xai''), (''grok-code'', ''xai''),
      (''grok-research'', ''xai''), (''grok-bash-tail'', ''xai''), (''moonshot'', ''moonshot''), (''kimi'', ''moonshot''),
      (''cursor'', ''cursor''), (''cursor-agent'', ''cursor''), (''opencode'', ''openai''), (''opencode-acp'', ''openai''),
      (''opencode-bash-tail'', ''openai'')]"

definition PROVIDER_FALLBACK :: "(string \<times> string list) list" where
  "PROVIDER_FALLBACK =
     [(''anthropic-session'', [''codex'', ''cursor'', ''grok'']), (''anthropic-cli-acp'', [''codex'', ''cursor'', ''grok'']),
      (''anthropic-api'', [''codex'', ''cursor'', ''grok'']), (''openai'', [''cursor'', ''grok'']), (''xai'', [''codex'', ''cursor'']),
      (''moonshot'', [''codex'', ''grok'']), (''cursor'', [''codex'', ''grok''])]"

definition ACCOUNT_PLACEHOLDERS :: "string set" where "ACCOUNT_PLACEHOLDERS = {''default''}"

definition ACCOUNT_NAMESPACE_PROVIDERS :: "(string \<times> string list) list" where
  "ACCOUNT_NAMESPACE_PROVIDERS =
     [(''anthropic'', [''anthropic-session'', ''anthropic-cli-acp'', ''anthropic-api'']), (''cursor'', [''cursor'']),
      (''grok'', [''xai'']), (''moonshot'', [''moonshot'']), (''openai'', [''openai'']), (''xai'', [''xai''])]"

definition provider_for :: "string \<Rightarrow> string option" where
  "provider_for agent_label = map_of AGENT_TO_PROVIDER agent_label"

section \<open>Budget keys\<close>

text \<open>The billing document as label and account pools; an ambiguous entry is \<open>None\<close>.\<close>

record pool_map =
  pm_labels :: "(string \<times> string option) list"
  pm_account_pools :: "(string \<times> string option) list"
  pm_declared :: "(string \<times> string) list"
  pm_provider_accounts :: "(string \<times> string list) list"
  pm_billing :: bool

text \<open>\<open>s.partition(c)\<close> without the separator; the flag says whether it was there.\<close>

definition cut_at :: "char \<Rightarrow> string \<Rightarrow> string \<times> bool \<times> string" where
  "cut_at c s = (takeWhile (\<lambda>x. x \<noteq> c) s, c \<in> set s, tl (dropWhile (\<lambda>x. x \<noteq> c) s))"

definition account_budget_key :: "string \<Rightarrow> string \<Rightarrow> string" where
  "account_budget_key provider account =
     (let local = strip account; (namespace, found, suffix) = cut_at CHR ''/'' local
      in ''account:'' @ provider @ '':''
         @ (if found \<and> provider \<in> set (table_get ACCOUNT_NAMESPACE_PROVIDERS namespace []) then suffix else local))"

definition account_budget_key_for_agent :: "string \<Rightarrow> string \<Rightarrow> string option" where
  "account_budget_key_for_agent agent_label account =
     (case provider_for agent_label of
        None \<Rightarrow> None
      | Some provider \<Rightarrow> if strip account = [] then None else Some (account_budget_key provider (strip account)))"

text \<open>First claim wins, a second different claim makes the entry ambiguous.\<close>

definition claim_pool :: "string \<Rightarrow> string option \<Rightarrow> (string \<times> string option) list \<Rightarrow> (string \<times> string option) list" where
  "claim_pool k pool d = (case map_of d k of
      None \<Rightarrow> AList.update k pool d
    | Some old \<Rightarrow> if old \<noteq> pool then AList.update k None d else d)"

definition claim_account :: "string \<Rightarrow> string option \<Rightarrow> string \<Rightarrow> pool_map \<Rightarrow> pool_map" where
  "claim_account account_key pool provider pm =
     (let key = account_budget_key provider account_key; declared = table_get (pm_provider_accounts pm) provider []
      in pm\<lparr>pm_account_pools := claim_pool key pool (pm_account_pools pm),
            pm_declared := AList.update key account_key (pm_declared pm),
            pm_provider_accounts := AList.update provider
              (if account_key \<in> set declared then declared else declared @ [account_key]) (pm_provider_accounts pm)\<rparr>)"

text \<open>\<open>[str(label) for label in account.get("agent_labels") or []]\<close>.\<close>

definition labels_of :: "json \<Rightarrow> rate_error + string list" where
  "labels_of v = (if \<not> truthy v then Inr [] else case v of
      JList xs \<Rightarrow> Inr (map py_text xs)
    | JObj d \<Rightarrow> Inr (map fst d)
    | JStr s \<Rightarrow> Inr (map (\<lambda>c. [c]) s)
    | _ \<Rightarrow> Inl Type_Error)"

definition account_providers :: "string list \<Rightarrow> string \<Rightarrow> string list" where
  "account_providers labels account_key =
     (let named = remdups (List.map_filter provider_for labels)
      in sort (if named = [] then table_get ACCOUNT_NAMESPACE_PROVIDERS (fst (cut_at CHR ''/'' account_key)) [] else named))"

definition add_account :: "json \<Rightarrow> pool_map \<Rightarrow> rate_error + pool_map" where
  "add_account account pm = (case account of
      JObj a \<Rightarrow> (case labels_of (jget a ''agent_labels'') of
          Inl e \<Rightarrow> Inl e
        | Inr labels \<Rightarrow>
            let pool = (if truthy (jget a ''limit_pool_id'') then Some (py_text (jget a ''limit_pool_id'')) else None);
                key = py_text (jget a ''account_key'');
                pm1 = (if truthy (jget a ''account_key'')
                  then fold (claim_account key pool) (account_providers labels key) pm else pm)
            in Inr (if pool = None then pm1
                    else pm1\<lparr>pm_labels := fold (\<lambda>l. claim_pool l pool) labels (pm_labels pm1)\<rparr>))
    | _ \<Rightarrow> Inl Attribute_Error)"

fun add_accounts :: "json list \<Rightarrow> pool_map \<Rightarrow> rate_error + pool_map" where
  "add_accounts [] pm = Inr pm"
| "add_accounts (a # rest) pm = (case add_account a pm of Inl e \<Rightarrow> Inl e | Inr pm' \<Rightarrow> add_accounts rest pm')"

definition empty_pool_map :: pool_map where
  "empty_pool_map = \<lparr>pm_labels = [], pm_account_pools = [], pm_declared = [], pm_provider_accounts = [], pm_billing = False\<rparr>"

definition agent_limit_pool_map :: "json \<Rightarrow> rate_error + pool_map" where
  "agent_limit_pool_map billing =
     (if \<not> truthy billing then Inr empty_pool_map
      else case billing of
          JObj d \<Rightarrow> (let accounts = jget d ''accounts'' in if \<not> truthy accounts then Inr empty_pool_map
            else case accounts of
                JList xs \<Rightarrow> add_accounts xs (empty_pool_map\<lparr>pm_billing := True\<rparr>)
              | JObj _ \<Rightarrow> Inl Attribute_Error
              | JStr _ \<Rightarrow> Inl Attribute_Error
              | _ \<Rightarrow> Inl Type_Error)
        | _ \<Rightarrow> Inl Attribute_Error)"

definition budget_key_for_agent :: "string \<Rightarrow> pool_map option \<Rightarrow> string option" where
  "budget_key_for_agent agent_label pm =
     (case (case pm of None \<Rightarrow> None | Some m \<Rightarrow> map_of (pm_labels m) agent_label) of
        Some pool \<Rightarrow> (case pool of
            Some p \<Rightarrow> if p \<noteq> [] then Some (''pool:'' @ p)
              else map_option (\<lambda>v. ''provider-ambiguous:'' @ v) (provider_for agent_label)
          | None \<Rightarrow> map_option (\<lambda>v. ''provider-ambiguous:'' @ v) (provider_for agent_label))
      | None \<Rightarrow> map_option (\<lambda>v. ''provider:'' @ v) (provider_for agent_label))"

definition account_field :: "dict \<Rightarrow> string \<Rightarrow> string" where
  "account_field r field = (let a = strip (text_or_empty (jget r field)) in if a \<in> ACCOUNT_PLACEHOLDERS then [] else a)"

definition record_account :: "dict \<Rightarrow> string" where
  "record_account r = (let e = account_field r ''effective_account'' in if e \<noteq> [] then e else account_field r ''account'')"

definition budget_key_for_record :: "dict \<Rightarrow> string \<Rightarrow> pool_map option \<Rightarrow> string option" where
  "budget_key_for_record r agent_label pm =
     (if record_account r \<noteq> [] \<and> (case pm of None \<Rightarrow> False | Some m \<Rightarrow> pm_billing m)
      then account_budget_key_for_agent agent_label (record_account r)
      else budget_key_for_agent agent_label pm)"

section \<open>Which failures count\<close>

text \<open>The decoded status file, or \<open>JNull\<close> when none is named or readable; \<open>files\<close> gives the JSON at a path.\<close>

definition read_status :: "(string \<Rightarrow> json option) \<Rightarrow> dict \<Rightarrow> json" where
  "read_status files r = (if \<not> truthy (jget r ''status_path'') then JNull
     else case files (py_text (jget r ''status_path'')) of None \<Rightarrow> JNull | Some v \<Rightarrow> v)"

definition pressure_state :: "dict \<Rightarrow> json \<Rightarrow> rate_error + string" where
  "pressure_state r status =
     (let record_lower = casefold (text_or_empty (jget r ''state''))
      in if is_terminal_state (jget r ''state'') \<or> \<not> truthy status then Inr record_lower
         else case status of
             JObj s \<Rightarrow> Inr (let st = jget s ''state''
               in if \<not> is_terminal_state st then record_lower
                  else (case normalize_dispatch_state st of
                      None \<Rightarrow> casefold (text_or_empty st)
                    | Some n \<Rightarrow> if n = ''complete'' then record_lower
                        else casefold (if n \<noteq> [] then n else text_or_empty st)))
           | _ \<Rightarrow> Inl Attribute_Error)"

definition dumped :: "json \<Rightarrow> string" where
  "dumped v = (case v of JObj _ \<Rightarrow> json_dumps False v | _ \<Rightarrow> py_text v)"

definition status_haystack :: "json \<Rightarrow> rate_error + string" where
  "status_haystack status =
     (if \<not> truthy status then Inr []
      else case status of
          JObj s \<Rightarrow> Inr (casefold (join_on '' ''
             (map (\<lambda>f. (if f \<in> {''error'', ''reason''} then dumped else py_text) (jget s f))
               (filter (\<lambda>f. truthy (jget s f)) [''error'', ''text_excerpt'', ''result_text'', ''reason'']))))
        | _ \<Rightarrow> Inl Attribute_Error)"

definition scanned_states :: "string set" where
  "scanned_states = {''failed'', ''inconclusive_timeout'', ''blocked'', ''inconclusive_no_final'', ''worker_dead''}"

definition full_haystack :: "dict \<Rightarrow> string \<Rightarrow> string" where
  "full_haystack r haystack = (if truthy (jget r ''error'')
     then strip (haystack @ '' '' @ casefold (py_text (jget r ''error''))) else haystack)"

definition detect_pressure_scope :: "(int \<Rightarrow> int) \<Rightarrow> dict \<Rightarrow> json \<Rightarrow> rate_error + string option" where
  "detect_pressure_scope zone r status =
     (case pressure_state r status of
        Inl e \<Rightarrow> Inl e
      | Inr state \<Rightarrow>
          if state = ''blocked_session_limit'' then Inr (Some ACCOUNT_RATE_LIMIT_SCOPE)
          else if \<not> is_limit_state (JStr state) \<and> state \<notin> scanned_states then Inr None
          else (case status_haystack status of
              Inl e \<Rightarrow> Inl e
            | Inr h \<Rightarrow> Inr (let haystack = full_haystack r h
                in if haystack = [] then None
                   else map_option le_scope (rate_limit_signature_in_text zone haystack))))"

definition detect_rate_limit_signature :: "(int \<Rightarrow> int) \<Rightarrow> dict \<Rightarrow> json \<Rightarrow> rate_error + bool" where
  "detect_rate_limit_signature zone r status = map_sum id (\<lambda>s. s \<noteq> None) (detect_pressure_scope zone r status)"

section \<open>Counting\<close>

definition bump :: "string \<Rightarrow> (string \<times> int) list \<Rightarrow> (string \<times> int) list" where
  "bump key counts = AList.update key (table_get counts key 0 + 1) counts"

text \<open>\<open>strftime("%Y-%m-%dT%H:%M:%S", gmtime(now - window))\<close>.\<close>

definition cutoff_iso :: "int \<Rightarrow> int \<Rightarrow> string" where
  "cutoff_iso now window = (let t = now - window * us_per_s
     in iso_date (t div us_per_day) @ ''T'' @ iso_clock (t mod us_per_day div us_per_s))"

definition recent_text :: "string \<Rightarrow> dict \<Rightarrow> rate_error + bool" where
  "recent_text cutoff r = (let updated = py_or (py_or (jget r ''updated_at'') (jget r ''started_at'')) (JStr [])
     in if \<not> truthy updated then Inr False
        else case updated of JStr s \<Rightarrow> Inr (\<not> s < cutoff) | _ \<Rightarrow> Inl Type_Error)"

definition pressure_key :: "string \<Rightarrow> dict \<Rightarrow> pool_map option \<Rightarrow> string option" where
  "pressure_key scope r pm = (let agent = py_text (jget r ''agent'')
     in if scope = MODEL_CAPACITY_SCOPE then Some (''agent:'' @ casefold (strip agent))
        else budget_key_for_record r agent pm)"

text \<open>The key one record counts for, or \<open>None\<close>.\<close>

definition counted_key :: "(int \<Rightarrow> int) \<Rightarrow> (string \<Rightarrow> json option) \<Rightarrow> string \<Rightarrow> pool_map option \<Rightarrow> dict \<Rightarrow> rate_error + string option" where
  "counted_key zone files cutoff pm r =
     (if \<not> truthy (jget r ''agent'') then Inr None
      else case recent_text cutoff r of
          Inl e \<Rightarrow> Inl e
        | Inr False \<Rightarrow> Inr None
        | Inr True \<Rightarrow> (case detect_pressure_scope zone r (read_status files r) of
            Inl e \<Rightarrow> Inl e
          | Inr None \<Rightarrow> Inr None
          | Inr (Some scope) \<Rightarrow> Inr (case pressure_key scope r pm of None \<Rightarrow> None | Some k \<Rightarrow> if k = [] then None else Some k)))"

fun count_keys :: "(dict \<Rightarrow> rate_error + string option) \<Rightarrow> dict list \<Rightarrow> (string \<times> int) list \<Rightarrow> rate_error + (string \<times> int) list" where
  "count_keys key_of [] counts = Inr counts"
| "count_keys key_of (r # rs) counts = (case key_of r of
      Inl e \<Rightarrow> Inl e
    | Inr None \<Rightarrow> count_keys key_of rs counts
    | Inr (Some k) \<Rightarrow> count_keys key_of rs (bump k counts))"

definition pressure_per_provider ::
  "(int \<Rightarrow> int) \<Rightarrow> (string \<Rightarrow> json option) \<Rightarrow> dict list \<Rightarrow> int \<Rightarrow> int \<Rightarrow> pool_map option \<Rightarrow> rate_error + (string \<times> int) list" where
  "pressure_per_provider zone files records window now pm =
     count_keys (counted_key zone files (cutoff_iso now window) pm) records []"

section \<open>The recommendation\<close>

record rate_entry =
  re_scope :: string
  re_provider :: "string option"
  re_pool :: "string option"
  re_key :: string
  re_count :: int
  re_labels :: "string list"
  re_current :: "(string \<times> int option) list"
  re_recommended :: "(string \<times> int) list"
  re_fallback :: "string list"
  re_account :: "string option"
  re_resolution :: "dict option"

text \<open>\<open>_labels_for_account_key\<close>: labels, pool, provider, account and the explanation.\<close>

definition split_key :: "string \<Rightarrow> (string \<times> string \<times> string) option" where
  "split_key key = (case cut_at CHR '':'' key of (a, found, rest) \<Rightarrow>
     (case cut_at CHR '':'' rest of (b, found', c) \<Rightarrow> if found \<and> found' then Some (a, b, c) else None))"

definition resolution :: "string \<Rightarrow> dict \<Rightarrow> dict" where
  "resolution status facts = (''status'', JStr status) # facts"

definition labels_for_account_key ::
  "string \<Rightarrow> pool_map option \<Rightarrow> string list \<times> string option \<times> string option \<times> string option \<times> dict" where
  "labels_for_account_key key pm = (case split_key key of
      None \<Rightarrow> ([], None, None, None, resolution ''unresolved'' [(''reason'', JStr ''account_budget_key_not_provider_qualified'')])
    | Some (kind, provider, account) \<Rightarrow>
        if kind \<noteq> ''account'' \<or> provider = [] \<or> account = []
        then ([], None, None, None, resolution ''unresolved'' [(''reason'', JStr ''account_budget_key_not_provider_qualified'')])
        else let labels = filter (\<lambda>l. provider_for l = Some provider) (map fst AGENT_TO_PROVIDER)
          in if labels = [] then ([], None, Some provider, Some account,
                resolution ''unresolved'' [(''reason'', JStr ''no_dispatch_labels_for_account_provider''), (''provider'', JStr provider)])
             else (case pm of
                 None \<Rightarrow> (labels, None, Some provider, Some account, resolution ''resolved_with_warning''
                   [(''source'', JStr ''budget_key_provider''), (''reason'', JStr ''billing_account_map_unavailable''), (''provider'', JStr provider)])
               | Some m \<Rightarrow> (case map_of (pm_account_pools m) key of
                   None \<Rightarrow> (labels, None, Some provider, Some account, resolution ''resolved_with_warning''
                     [(''source'', JStr ''budget_key_provider''), (''reason'', JStr ''ledger_account_not_declared_in_billing''),
                      (''provider'', JStr provider), (''ledger_account_key'', JStr account),
                      (''declared_account_keys'', JList (map JStr (table_get (pm_provider_accounts m) provider [])))])
                 | Some pool \<Rightarrow> if pool = None \<or> pool = Some []
                     then (labels, None, Some provider, Some account, resolution ''resolved_with_warning''
                       [(''source'', JStr ''billing_account_provider''), (''reason'', JStr ''account_limit_pool_unresolved''), (''provider'', JStr provider)])
                     else (labels, pool, Some provider, Some account, resolution ''resolved''
                       [(''source'', JStr ''billing_account_provider''), (''provider'', JStr provider),
                        (''declared_account_key'', json_text (map_of (pm_declared m) key))]))))"

definition label_group :: "pool_map option \<Rightarrow> string \<Rightarrow> string list" where
  "label_group pm key = concat (map (\<lambda>l. (if budget_key_for_agent l pm = Some key then [l] else [])
     @ (if key = ''agent:'' @ l then [l] else [])) (map fst AGENT_TO_PROVIDER))"

definition after_prefix :: "string \<Rightarrow> string \<Rightarrow> string option" where
  "after_prefix p key = (if startswith key p then Some (drop (length p) key) else None)"

definition pool_labels :: "pool_map option \<Rightarrow> string \<Rightarrow> string list \<Rightarrow> string list" where
  "pool_labels pm pool labels = (case pm of None \<Rightarrow> labels
     | Some m \<Rightarrow> fold (\<lambda>(l, p) ls. if p = Some pool \<and> l \<notin> set ls then ls @ [l] else ls) (pm_labels m) labels)"

definition halved :: "(string \<times> int) list \<Rightarrow> string \<Rightarrow> int" where
  "halved caps label = max 1 (table_get caps label 5 div 2)"

text \<open>Labels, pool, provider, account and resolution of a budget key, before caps are attached.\<close>

definition resolve_key ::
  "pool_map option \<Rightarrow> string \<Rightarrow> string list \<times> string option \<times> string option \<times> string option \<times> dict option" where
  "resolve_key pm key =
     (let (labels, pool, provider, account, why) = (if startswith key ''account:''
            then (case labels_for_account_key key pm of (l, p, v, a, w) \<Rightarrow> (l, p, v, a, Some w))
            else (label_group pm key, after_prefix ''pool:'' key, None, None, None));
          labels1 = (case after_prefix ''agent:'' key of Some l \<Rightarrow> if labels = [] then [l] else labels | None \<Rightarrow> labels);
          provider1 = (case after_prefix ''provider-ambiguous:'' key of Some v \<Rightarrow> Some v
            | None \<Rightarrow> (case after_prefix ''provider:'' key of Some v \<Rightarrow> Some v | None \<Rightarrow> provider))
      in case pool of
          Some p \<Rightarrow> if p \<noteq> [] \<and> (case pm of None \<Rightarrow> False | Some m \<Rightarrow> pm_labels m \<noteq> []) \<and> (account = None \<or> account = Some [])
            then (let labels2 = pool_labels pm p labels1
              in (labels2, pool, if labels2 = [] then None
                    else if provider1 = None \<or> provider1 = Some [] then provider_for (hd labels2) else provider1, account, why))
            else (labels1, pool, provider1, account, why)
        | None \<Rightarrow> (labels1, pool, provider1, account, why))"

definition entry_scope :: "string \<Rightarrow> string" where
  "entry_scope key = (if startswith key ''agent:'' then ''agent'' else if startswith key ''account:'' then ''account'' else ''provider'')"

definition recommend_entry :: "(string \<times> int) list \<Rightarrow> pool_map option \<Rightarrow> string \<times> int \<Rightarrow> rate_entry" where
  "recommend_entry caps pm kc = (case kc of (key, count) \<Rightarrow> (case resolve_key pm key of (labels, pool, provider, account, why) \<Rightarrow>
     (let scope = entry_scope key;
          provider' = (if scope = ''agent'' then (if labels = [] then provider else provider_for (hd labels)) else provider)
      in \<lparr>re_scope = scope, re_provider = provider', re_pool = pool, re_key = key, re_count = count, re_labels = labels,
          re_current = map (\<lambda>l. (l, map_of caps l)) labels,
          re_recommended = (if scope = ''account'' then [] else map (\<lambda>l. (l, halved caps l)) labels),
          re_fallback = table_get PROVIDER_FALLBACK (case provider' of None \<Rightarrow> [] | Some v \<Rightarrow> v) [],
          re_account = account, re_resolution = why\<rparr>)))"

text \<open>The entries under pressure, most loaded key first.\<close>

definition recommend :: "(string \<times> int) list \<Rightarrow> (string \<times> int) list \<Rightarrow> int \<Rightarrow> pool_map option \<Rightarrow> rate_entry list" where
  "recommend pressure caps threshold pm =
     map (recommend_entry caps pm) (filter (\<lambda>(_, c). \<not> c < threshold) (sort_key (\<lambda>(_, c). - c) pressure))"

text \<open>
  \<open>collect_records\<close>: the directory is missing, unreadable, not a directory, or lists its JSON files in order of
  name; a file is what it decodes to, or the text of the error.
\<close>

datatype runs_dir = Runs_Missing | Runs_Error string | Runs_Not_Directory | Runs "(string \<times> (string + json)) list"

definition read_record :: "string \<Rightarrow> string + json \<Rightarrow> rate_error + dict" where
  "read_record path content = (case content of
      Inl detail \<Rightarrow> Inl (Input_Error (path @ '': '' @ detail))
    | Inr (JObj d) \<Rightarrow> Inr d
    | Inr _ \<Rightarrow> Inl (Input_Error (path @ '': expected JSON object'')))"

fun read_records :: "(string \<times> (string + json)) list \<Rightarrow> rate_error + dict list" where
  "read_records [] = Inr []"
| "read_records ((p, c) # rest) = (case read_record p c of
      Inl e \<Rightarrow> Inl e
    | Inr d \<Rightarrow> (case read_records rest of Inl e \<Rightarrow> Inl e | Inr ds \<Rightarrow> Inr (d # ds)))"

definition json_suffix :: "string \<Rightarrow> bool" where
  "json_suffix name \<longleftrightarrow> 5 < length name \<and> drop (length name - 5) name = ''.json''"

definition collect_records :: "string \<Rightarrow> runs_dir \<Rightarrow> rate_error + dict list" where
  "collect_records runs d = (case d of
      Runs_Missing \<Rightarrow> Inr []
    | Runs_Error detail \<Rightarrow> Inl (Input_Error (runs @ '': '' @ detail))
    | Runs_Not_Directory \<Rightarrow> Inl (Input_Error (runs @ '': expected directory''))
    | Runs files \<Rightarrow> read_records (map (\<lambda>(n, c). (runs @ ''/'' @ n, c)) (sort_key fst (filter (\<lambda>(n, _). json_suffix n) files))))"

end
