(* ===== verification/GF_Quota.thy ===== *)
theory GF_Quota
  imports GF_Rate_Pressure
begin

text \<open>
  Workers stuck on a provider's quota (\<open>scripts/goalflight_quota_stuck.py\<close>), the report the capacity gate reads
  (\<open>current_rate_pressure\<close> of \<open>scripts/goalflight_capacity.py\<close>), and the limit outcomes of a dead worker's tail
  (\<open>scripts/goalflight_terminal.py\<close>). The excerpt and modification time of a tail file, by path, are parameters;
  an unreadable tail is the empty excerpt.
\<close>

record quota_env =
  qv_zone :: "int \<Rightarrow> int"
  qv_files :: "string \<Rightarrow> json option"
  qv_tails :: "string \<Rightarrow> string \<times> real option"
  qv_now :: int

section \<open>Error context of a tail\<close>

definition status_code :: pattern where
  "status_code = Seq (OneOf ''45'') (Digits 2 2)"

text \<open>\<open>_ERROR_CONTEXT_PREFIX_RE\<close>, anchored at the start of the line, and \<open>_STRUCTURED_ERROR_FIELD_RE\<close>.\<close>

definition ERROR_CONTEXT_PREFIX_RE :: pattern where
  "ERROR_CONTEXT_PREFIX_RE = Seq Spaces (alts
     (seqs [Opt (alts (Lit ''api'') [Lit ''provider'', Lit ''upstream'']), Spaces, Lit ''error'', Boundary])
     [Seq (Lit ''exception'') Boundary, Seq (Lit ''fatal'') Boundary, Seq (Lit ''failed'') Boundary,
      Seq (Lit ''failure'') Boundary, Seq (Lit ''traceback'') Boundary,
      seqs [Lit ''status'', Opt (Seq Spaces1 (Lit ''code'')), Spaces, Opt (OneOf '':=''), Spaces, status_code, Boundary],
      seqs [Lit ''http'', Spaces, status_code, Boundary]])"

definition QUOTES :: string where "QUOTES = [CHR 0x27, QUOTE]"

definition STRUCTURED_ERROR_FIELD_RE :: pattern where
  "STRUCTURED_ERROR_FIELD_RE = seqs [OneOf QUOTES,
     alts (Lit ''error'') [Lit ''errors'', Lit ''code'', Lit ''type'', Lit ''message'', Lit ''status'', Lit ''status_code''],
     OneOf QUOTES, Spaces, Lit '':'']"

definition matches_at_start :: "pattern \<Rightarrow> string \<Rightarrow> bool" where
  "matches_at_start r t \<longleftrightarrow> ends r (None, t, []) \<noteq> []"

definition error_line :: "string \<Rightarrow> bool" where
  "error_line raw \<longleftrightarrow> matches_at_start ERROR_CONTEXT_PREFIX_RE raw \<or> search STRUCTURED_ERROR_FIELD_RE raw \<noteq> None"

definition quoted_line :: "string \<Rightarrow> bool" where
  "quoted_line stripped \<longleftrightarrow> hd stripped \<in> {CHR ''>'', CHR ''|'', CHR 0x60, QUOTE, CHR 0x27}"

fun context_lines :: "bool \<Rightarrow> string list \<Rightarrow> string list" where
  "context_lines in_fence [] = []"
| "context_lines in_fence (raw # rest) =
     (let stripped = trim wide_space raw
      in if startswith stripped [CHR 0x60, CHR 0x60, CHR 0x60] \<or> startswith stripped ''~~~'' then context_lines (\<not> in_fence) rest
         else if in_fence \<or> stripped = [] then context_lines in_fence rest
         else if quoted_line stripped then context_lines in_fence rest
         else if error_line raw then raw # context_lines in_fence rest
         else context_lines in_fence rest)"

definition quota_error_context :: "string \<Rightarrow> string" where
  "quota_error_context t = join_on [CHR 0x0A] (context_lines False (splitlines t))"

definition quota_signature_in_text :: "(int \<Rightarrow> int) \<Rightarrow> string \<Rightarrow> limit_evidence option" where
  "quota_signature_in_text zone t =
     (let c = quota_error_context t
      in if c = [] then None
         else case rate_limit_signature_in_text zone c of
             None \<Rightarrow> None
           | Some e \<Rightarrow> if le_scope e \<noteq> ACCOUNT_RATE_LIMIT_SCOPE then None else Some e)"

section \<open>Evidence of a record\<close>

record quota_info =
  qi_signature :: string
  qi_kind :: string
  qi_state :: string
  qi_reset_at :: "string option"
  qi_retry_after :: "real option"
  qi_tail_path :: "string option"
  qi_tail_mtime :: "real option"
  qi_excerpt :: string

definition info_of :: "limit_evidence \<Rightarrow> string option \<Rightarrow> real option \<Rightarrow> string \<Rightarrow> quota_info" where
  "info_of e path mtime excerpt = \<lparr>qi_signature = le_signature e, qi_kind = le_kind e, qi_state = le_state e,
     qi_reset_at = le_reset_at e, qi_retry_after = le_retry_after e, qi_tail_path = path, qi_tail_mtime = mtime,
     qi_excerpt = excerpt\<rparr>"

definition tail_quota_signature :: "quota_env \<Rightarrow> string option \<Rightarrow> quota_info option" where
  "tail_quota_signature env path = (case path of
      None \<Rightarrow> None
    | Some p \<Rightarrow> if p = [] then None
        else let (excerpt, mtime) = qv_tails env p
          in map_option (\<lambda>e. info_of e (Some p) mtime (trim wide_space excerpt)) (quota_signature_in_text (qv_zone env) excerpt))"

definition read_json_dict :: "quota_env \<Rightarrow> json \<Rightarrow> dict option" where
  "read_json_dict env path = (if \<not> truthy path then None
     else case qv_files env (py_text path) of Some (JObj d) \<Rightarrow> Some d | _ \<Rightarrow> None)"

definition tail_path_from_record :: "quota_env \<Rightarrow> dict \<Rightarrow> string option" where
  "tail_path_from_record env r =
     (case filter truthy [jget r ''stdout_path'', jget r ''tail_path''] of
        v # _ \<Rightarrow> Some (py_text v)
      | [] \<Rightarrow> (case read_json_dict env (jget r ''status_path'') of
          None \<Rightarrow> None
        | Some s \<Rightarrow> (let tail = py_or (jget s ''tail_path'') (jget s ''stdout_path'')
            in if truthy tail then Some (py_text tail) else None)))"

definition dumped_sorted :: "json \<Rightarrow> string" where
  "dumped_sorted v = (case v of JObj _ \<Rightarrow> json_dumps True v | JList _ \<Rightarrow> json_dumps True v | _ \<Rightarrow> py_text v)"

definition truthy_fields :: "dict \<Rightarrow> string list \<Rightarrow> string list" where
  "truthy_fields d fs = map (\<lambda>f. dumped_sorted (jget d f)) (filter (\<lambda>f. truthy (jget d f)) fs)"

definition record_haystack :: "quota_env \<Rightarrow> dict \<Rightarrow> string" where
  "record_haystack env r = join_on '' '' (truthy_fields r [''reason'', ''error'']
     @ (case read_json_dict env (jget r ''status_path'') of None \<Rightarrow> []
        | Some s \<Rightarrow> truthy_fields s [''reason'', ''error'', ''text_excerpt'', ''result_text'']))"

text \<open>A legacy record does not say which kind of limit it met.\<close>

definition legacy_limited :: "dict \<Rightarrow> bool" where
  "legacy_limited r \<longleftrightarrow> (\<exists>k\<in>{''state'', ''terminal_state'', ''classification''}. jget r k = JStr LEGACY_RATE_LIMITED_STATE)"

definition forget_kind :: "quota_info \<Rightarrow> quota_info" where
  "forget_kind i = i\<lparr>qi_kind := UNKNOWN_KIND, qi_state := LIMIT_UNKNOWN_STATE, qi_reset_at := None, qi_retry_after := None\<rparr>"

definition record_quota_signature :: "quota_env \<Rightarrow> dict \<Rightarrow> bool \<Rightarrow> quota_info option" where
  "record_quota_signature env r require_tail =
     (let weaken = (if legacy_limited r then forget_kind else id)
      in case tail_quota_signature env (tail_path_from_record env r) of
          Some i \<Rightarrow> Some (weaken i)
        | None \<Rightarrow> if require_tail then None
            else map_option (\<lambda>e. weaken (info_of e None None [])) (quota_signature_in_text (qv_zone env) (record_haystack env r)))"

section \<open>Limit outcomes on a status payload\<close>

text \<open>\<open>seat_reset_at\<close> on the decoded file of the seat probe.\<close>

definition seat_reset_at :: "json \<Rightarrow> json \<Rightarrow> json" where
  "seat_reset_at seat_file account = (case account of
      JStr a \<Rightarrow> if a = [] then JNull
        else (case seat_file of
            JObj p \<Rightarrow> (case jget p ''seats'' of
                JObj seats \<Rightarrow> (case jget seats a of
                    JObj seat \<Rightarrow> (case filter (\<lambda>v. is_str v \<and> truthy v) [jget seat ''reset_at'', jget seat ''cooldown_until''] of
                        v # _ \<Rightarrow> v | [] \<Rightarrow> JNull)
                  | _ \<Rightarrow> JNull)
              | _ \<Rightarrow> JNull)
          | _ \<Rightarrow> JNull)
    | _ \<Rightarrow> JNull)"

definition agent_text :: "json \<Rightarrow> string" where
  "agent_text agent = strip (text_or_empty agent)"

definition already_limited :: "json \<Rightarrow> json \<Rightarrow> bool" where
  "already_limited state reason \<longleftrightarrow> is_limit_state state
     \<and> (case reason of JObj d \<Rightarrow> truthy (jget d ''rate_limit_signature'') \<or> truthy (jget d ''limit_signature'') \<or> truthy (jget d ''limit_state'')
        | _ \<Rightarrow> False)"

definition limit_reason :: "string option \<Rightarrow> quota_info \<Rightarrow> json \<Rightarrow> json \<Rightarrow> json \<Rightarrow> dict" where
  "limit_reason provider info reset_at previous_state previous_reason =
     [(''message'', JStr ''dispatch_worker_limit_reached''), (''provider'', json_text provider),
      (''rate_limit_signature'', JStr (qi_signature info)), (''limit_signature'', JStr (qi_signature info)),
      (''limit_kind'', JStr (qi_kind info)), (''limit_state'', JStr (qi_state info)), (''reset_at'', reset_at),
      (''retry_after'', opt_float (qi_retry_after info)), (''tail_path'', json_text (qi_tail_path info)),
      (''previous_state'', previous_state), (''previous_reason'', previous_reason), (''tail_excerpt'', JStr (qi_excerpt info))]"

definition quota_limited_reason ::
  "quota_env \<Rightarrow> json \<Rightarrow> json \<Rightarrow> string option \<Rightarrow> json \<Rightarrow> json \<Rightarrow> json \<Rightarrow> dict option" where
  "quota_limited_reason env seat_file agent tail previous_state previous_reason effective_account =
     (if already_limited previous_state previous_reason then (case previous_reason of JObj d \<Rightarrow> Some d | _ \<Rightarrow> None)
      else case tail_quota_signature env tail of
          None \<Rightarrow> None
        | Some info \<Rightarrow>
            let found = json_text (qi_reset_at info);
                reset_at = (if \<not> truthy found \<and> qi_kind info \<in> {EXHAUSTED, UNKNOWN_KIND}
                  then seat_reset_at seat_file effective_account else found)
            in Some (limit_reason (provider_for (agent_text agent)) info reset_at previous_state previous_reason))"

definition apply_rate_limited_status ::
  "quota_env \<Rightarrow> json \<Rightarrow> dict \<Rightarrow> json \<Rightarrow> string option \<Rightarrow> json \<Rightarrow> json \<Rightarrow> json \<Rightarrow> bool \<times> dict" where
  "apply_rate_limited_status env seat_file payload agent tail previous_state previous_reason effective_account =
     (case quota_limited_reason env seat_file agent tail previous_state previous_reason effective_account of
        None \<Rightarrow> (False, payload)
      | Some reason \<Rightarrow> if reason = [] then (False, payload)
          else let limit_state = JStr (py_text (py_or (jget reason ''limit_state'') (JStr LIMIT_UNKNOWN_STATE)))
            in (True, fold (\<lambda>(k, v). jput k v)
              [(''state'', limit_state), (''terminal_state'', limit_state), (''reason'', JObj reason),
               (''rate_limit_provider'', jget reason ''provider''), (''rate_limit_signature'', jget reason ''rate_limit_signature''),
               (''limit_kind'', jget reason ''limit_kind''), (''limit_signature'', jget reason ''limit_signature''),
               (''reset_at'', jget reason ''reset_at''), (''retry_after'', jget reason ''retry_after'')] payload))"

section \<open>Stuck workers\<close>

text \<open>\<open>parse_utc\<close> of the ledger and \<open>_parse_record_time\<close>, in microseconds since the start of year 1.\<close>

definition ledger_parse_utc :: "json \<Rightarrow> int option" where
  "ledger_parse_utc v = (case v of
      JStr s \<Rightarrow> if s = [] then None else map_option utc_instant (fromisoformat (replace_Z s))
    | _ \<Rightarrow> None)"

definition instant_of_seconds :: "real \<Rightarrow> real" where
  "instant_of_seconds r = of_int unix_epoch_us + r * 1000000"

definition time_value :: "json \<Rightarrow> real option" where
  "time_value v = (case v of
      JInt i \<Rightarrow> Some (instant_of_seconds (of_int i))
    | JFloat r \<Rightarrow> Some (instant_of_seconds r)
    | JBool b \<Rightarrow> Some (instant_of_seconds (if b then 1 else 0))
    | _ \<Rightarrow> map_option of_int (ledger_parse_utc v))"

fun first_record_time :: "dict \<Rightarrow> string list \<Rightarrow> real option" where
  "first_record_time r [] = None"
| "first_record_time r (k # ks) = (case time_value (jget r k) of Some t \<Rightarrow> Some t | None \<Rightarrow> first_record_time r ks)"

definition parse_record_time :: "dict \<Rightarrow> real option" where
  "parse_record_time r = first_record_time r [''updated_at'', ''ended_at'', ''started_at'']"

definition record_recent_or_live :: "quota_env \<Rightarrow> dict \<Rightarrow> quota_info \<Rightarrow> int \<Rightarrow> bool" where
  "record_recent_or_live env r info window \<longleftrightarrow>
     (let since = of_int (qv_now env - window * us_per_s) :: real
      in jget r ''worker_alive'' = JBool True \<or> jget r ''worker_still_alive'' = JBool True
         \<or> jget r ''classification'' = JStr ''expected_live''
         \<or> (case qi_tail_mtime info of None \<Rightarrow> False | Some m \<Rightarrow> since \<le> instant_of_seconds m)
         \<or> (case parse_record_time r of None \<Rightarrow> False | Some t \<Rightarrow> since \<le> t))"

text \<open>The set tests hash their operand, so a list or an object raises.\<close>

definition record_non_complete :: "dict \<Rightarrow> rate_error + bool" where
  "record_non_complete r =
     (let state = jget r ''state''; classification = jget r ''classification''
      in if \<not> hashable state then Inl Type_Error
         else if str_in state {''complete'', ''released''} then Inr False
         else if \<not> hashable classification then Inl Type_Error
         else Inr (\<not> str_in classification {''complete'', ''released''} \<and> jget r ''terminal_state'' \<noteq> JStr ''complete''))"

definition entry_matches_record :: "rate_entry \<Rightarrow> dict \<Rightarrow> pool_map option \<Rightarrow> bool" where
  "entry_matches_record e r pm \<longleftrightarrow>
     (let agent = agent_text (jget r ''agent'')
      in if startswith (re_key e) ''account:'' then budget_key_for_record r agent pm = Some (re_key e)
         else if startswith (re_key e) ''agent:'' then re_key e = ''agent:'' @ casefold agent
         else agent \<in> set (filter (\<lambda>l. l \<noteq> []) (map strip (re_labels e)))
           \<or> (re_key e \<noteq> [] \<and> budget_key_for_agent agent pm = Some (re_key e)))"

text \<open>A record that is not complete, with a limit in its tail, recent or alive.\<close>

definition stuck_info :: "quota_env \<Rightarrow> int \<Rightarrow> dict \<Rightarrow> quota_info option" where
  "stuck_info env window r = (case record_quota_signature env r True of
      None \<Rightarrow> None
    | Some info \<Rightarrow> if record_recent_or_live env r info window then Some info else None)"

definition quota_key :: "quota_env \<Rightarrow> int \<Rightarrow> pool_map option \<Rightarrow> dict \<Rightarrow> rate_error + string option" where
  "quota_key env window pm r =
     (if \<not> truthy (jget r ''agent'') then Inr None
      else case record_non_complete r of
          Inl e \<Rightarrow> Inl e
        | Inr False \<Rightarrow> Inr None
        | Inr True \<Rightarrow> Inr (case stuck_info env window r of
            None \<Rightarrow> None
          | Some _ \<Rightarrow> (case budget_key_for_record r (py_text (jget r ''agent'')) pm of
              None \<Rightarrow> None | Some k \<Rightarrow> if k = [] then None else Some k)))"

definition quota_pressure_per_provider :: "quota_env \<Rightarrow> dict list \<Rightarrow> int \<Rightarrow> pool_map option \<Rightarrow> rate_error + (string \<times> int) list" where
  "quota_pressure_per_provider env records window pm = count_keys (quota_key env window pm) records []"

record stuck_worker =
  sw_record :: dict
  sw_provider :: "string option"
  sw_info :: quota_info

fun stuck_workers_for_entry :: "quota_env \<Rightarrow> rate_entry \<Rightarrow> dict list \<Rightarrow> int \<Rightarrow> pool_map option \<Rightarrow> rate_error + stuck_worker list" where
  "stuck_workers_for_entry env e [] window pm = Inr []"
| "stuck_workers_for_entry env e (r # rs) window pm =
     (case record_non_complete r of
        Inl x \<Rightarrow> Inl x
      | Inr alive \<Rightarrow> (case stuck_workers_for_entry env e rs window pm of
          Inl x \<Rightarrow> Inl x
        | Inr rest \<Rightarrow> if \<not> alive \<or> \<not> entry_matches_record e r pm then Inr rest
            else (case stuck_info env window r of
                None \<Rightarrow> Inr rest
              | Some info \<Rightarrow> Inr (\<lparr>sw_record = r, sw_provider = provider_for (agent_text (jget r ''agent'')), sw_info = info\<rparr> # rest))))"

end
