(* ===== verification/GF_Pressure_Report.thy ===== *)
theory GF_Pressure_Report
  imports GF_Quota
begin

text \<open>
  The report of rate pressure with stuck workers attached (\<open>decorate_pressure_payload\<close> and the advisories of
  \<open>scripts/goalflight_quota_stuck.py\<close>, \<open>current_rate_pressure\<close> of \<open>scripts/goalflight_capacity.py\<close>), as admission
  reads it, and the limit outcomes of a tail (\<open>scripts/goalflight_terminal.py\<close>).
\<close>

section \<open>Stuck workers on the entries\<close>

record account_advisory =
  ad_account :: "string option"
  ad_kinds :: "string list"
  ad_resets :: "string list"
  ad_count :: nat

record quota_entry =
  qe_entry :: rate_entry
  qe_stuck :: "stuck_worker list"
  qe_hard_stop :: bool
  qe_effective :: "(string \<times> int) list"
  qe_advisory :: "account_advisory option"

definition hard_kinds :: "stuck_worker list \<Rightarrow> bool" where
  "hard_kinds stuck \<longleftrightarrow> (\<exists>w\<in>set stuck. qi_kind (sw_info w) \<in> {EXHAUSTED, UNKNOWN_KIND})"

definition distinct_sorted :: "string list \<Rightarrow> string list" where
  "distinct_sorted xs = sort (remdups xs)"

definition stuck_account :: "stuck_worker \<Rightarrow> string" where
  "stuck_account w = (let r = sw_record w
     in strip (text_or_empty (py_or (jget r ''effective_account'') (jget r ''account''))))"

definition advisory_account :: "rate_entry \<Rightarrow> stuck_worker list \<Rightarrow> string option" where
  "advisory_account e stuck = (case re_account e of
      Some (c # cs) \<Rightarrow> Some (c # cs)
    | _ \<Rightarrow> (let from_key = (if startswith (re_key e) ''account:'' then (case split_key (re_key e) of Some (_, _, a) \<Rightarrow> a | None \<Rightarrow> []) else []);
               accounts = remdups (filter (\<lambda>a. a \<noteq> []) (map stuck_account stuck))
           in if from_key \<noteq> [] then Some from_key
              else case accounts of [a] \<Rightarrow> Some a | _ \<Rightarrow> re_account e))"

definition stuck_resets :: "stuck_worker list \<Rightarrow> string list" where
  "stuck_resets stuck = filter (\<lambda>s. s \<noteq> []) (List.map_filter (\<lambda>w. qi_reset_at (sw_info w)) stuck)"

definition account_quota_advisory :: "rate_entry \<Rightarrow> stuck_worker list \<Rightarrow> account_advisory" where
  "account_quota_advisory e stuck = \<lparr>ad_account = advisory_account e stuck,
     ad_kinds = distinct_sorted (map (\<lambda>w. qi_kind (sw_info w)) stuck),
     ad_resets = distinct_sorted (stuck_resets stuck), ad_count = length stuck\<rparr>"

definition decorate_entry :: "rate_entry \<Rightarrow> stuck_worker list \<Rightarrow> quota_entry" where
  "decorate_entry e stuck =
     (let hard = hard_kinds stuck
      in if re_scope e = ''account'' \<and> hard
         then \<lparr>qe_entry = e, qe_stuck = stuck, qe_hard_stop = False, qe_effective = [],
               qe_advisory = Some (account_quota_advisory e stuck)\<rparr>
         else if re_scope e \<noteq> ''agent'' \<and> hard
         then \<lparr>qe_entry = e, qe_stuck = stuck, qe_hard_stop = True, qe_effective = map (\<lambda>l. (l, 0)) (re_labels e), qe_advisory = None\<rparr>
         else \<lparr>qe_entry = e, qe_stuck = stuck, qe_hard_stop = False, qe_effective = [], qe_advisory = None\<rparr>)"

fun decorate_pressure_payload :: "quota_env \<Rightarrow> dict list \<Rightarrow> int \<Rightarrow> pool_map option \<Rightarrow> rate_entry list \<Rightarrow> rate_error + quota_entry list" where
  "decorate_pressure_payload env records window pm [] = Inr []"
| "decorate_pressure_payload env records window pm (e # es) =
     (case stuck_workers_for_entry env e records window pm of
        Inl x \<Rightarrow> Inl x
      | Inr stuck \<Rightarrow> (case decorate_pressure_payload env records window pm es of
          Inl x \<Rightarrow> Inl x
        | Inr rest \<Rightarrow> Inr (decorate_entry e stuck # rest)))"

section \<open>The report of the capacity gate\<close>

definition DEFAULT_RATE_PRESSURE_WINDOW_SECONDS :: int where "DEFAULT_RATE_PRESSURE_WINDOW_SECONDS = 600"
definition DEFAULT_RATE_PRESSURE_THRESHOLD :: int where "DEFAULT_RATE_PRESSURE_THRESHOLD = 3"

text \<open>\<open>_positive_int\<close> and \<open>_rate_pressure_policy\<close>: requested overrides are refused, with a warning.\<close>

definition positive_int_default :: "json \<Rightarrow> int \<Rightarrow> int" where
  "positive_int_default v d = (if v = JNull \<or> v = JStr [] then positive_or d d
     else case py_int v of None \<Rightarrow> d | Some n \<Rightarrow> positive_or n d)"

record pressure_policy =
  pp_window :: int
  pp_threshold :: int
  pp_warnings :: "string list"

definition override_warning :: "string \<Rightarrow> json \<Rightarrow> int \<Rightarrow> string \<Rightarrow> string list" where
  "override_warning what requested d unit = (if requested \<noteq> JNull \<and> requested \<noteq> JStr [] \<and> positive_int_default requested d \<noteq> d
     then [''ignored per-session rate-pressure '' @ what @ '' override '' @ py_repr requested @ ''; shared pool uses '' @ show_int d @ unit]
     else [])"

definition rate_pressure_policy :: "json \<Rightarrow> json \<Rightarrow> pressure_policy" where
  "rate_pressure_policy window threshold = \<lparr>pp_window = DEFAULT_RATE_PRESSURE_WINDOW_SECONDS,
     pp_threshold = DEFAULT_RATE_PRESSURE_THRESHOLD,
     pp_warnings = override_warning ''window'' window DEFAULT_RATE_PRESSURE_WINDOW_SECONDS ''s''
       @ override_warning ''threshold'' threshold DEFAULT_RATE_PRESSURE_THRESHOLD []\<rparr>"

definition merge_pressure :: "(string \<times> int) list \<Rightarrow> (string \<times> int) list \<Rightarrow> (string \<times> int) list" where
  "merge_pressure quota pressure = fold (\<lambda>(k, c) p. AList.update k (max (table_get p k 0) c) p) quota pressure"

definition pressure_report ::
  "quota_env \<Rightarrow> (string \<times> int) list \<Rightarrow> json \<Rightarrow> string \<Rightarrow> runs_dir \<Rightarrow> pressure_policy \<Rightarrow> rate_error + quota_entry list" where
  "pressure_report env caps billing runs dir policy =
     (case agent_limit_pool_map billing of Inl e \<Rightarrow> Inl e | Inr pm \<Rightarrow>
      (case collect_records runs dir of Inl e \<Rightarrow> Inl e | Inr records \<Rightarrow>
       (case pressure_per_provider (qv_zone env) (qv_files env) records (pp_window policy) (qv_now env) (Some pm) of Inl e \<Rightarrow> Inl e | Inr pressure \<Rightarrow>
        (case quota_pressure_per_provider env records (pp_window policy) (Some pm) of Inl e \<Rightarrow> Inl e | Inr quota \<Rightarrow>
         decorate_pressure_payload env records (pp_window policy) (Some pm)
           (recommend (merge_pressure quota pressure) caps (pp_threshold policy) (Some pm))))))"

text \<open>Any exception leaves the report without entries.\<close>

definition current_rate_pressure :: "quota_env \<Rightarrow> (string \<times> int) list \<Rightarrow> json \<Rightarrow> string \<Rightarrow> runs_dir \<Rightarrow> pressure_policy \<Rightarrow> quota_entry list" where
  "current_rate_pressure env caps billing runs dir policy =
     (case pressure_report env caps billing runs dir policy of Inl e \<Rightarrow> [] | Inr entries \<Rightarrow> entries)"

text \<open>The entry as \<open>adaptive_agent_cap\<close> reads it.\<close>

definition gate_entry :: "quota_entry \<Rightarrow> pressure_entry" where
  "gate_entry q = \<lparr>pe_scope = Some (re_scope (qe_entry q)), pe_labels = re_labels (qe_entry q), pe_effective = qe_effective q,
     pe_recommended = re_recommended (qe_entry q), pe_hard_stop = qe_hard_stop q\<rparr>"

section \<open>Advisories\<close>

definition dispatch_ids :: "stuck_worker list \<Rightarrow> string list" where
  "dispatch_ids stuck = map (\<lambda>w. py_text (jget (sw_record w) ''dispatch_id''))
     (filter (\<lambda>w. truthy (jget (sw_record w) ''dispatch_id'')) stuck)"

definition key_or_provider :: "rate_entry \<Rightarrow> string" where
  "key_or_provider e = (if re_key e \<noteq> [] then re_key e else case re_provider e of None \<Rightarrow> ''None'' | Some p \<Rightarrow> p)"

definition advisory_key :: "quota_entry \<Rightarrow> string" where
  "advisory_key q = key_or_provider (qe_entry q) @ '':'' @ show_nat (length (qe_stuck q)) @ '':''
     @ join_on '','' (sort (dispatch_ids (qe_stuck q)))"

definition UNKNOWN_RESET :: string where
  "UNKNOWN_RESET = ''reset time UNKNOWN -- a metering window closed, NOT the account: this ''
     @ ''may be the short rolling window (hours) or the longer token cap (days). ''
     @ ''Re-probe before routing work off this provider''"

definition reset_horizon_clause :: "quota_entry \<Rightarrow> string" where
  "reset_horizon_clause q = (let resets = distinct_sorted (filter (\<lambda>s. s \<noteq> []) (map strip (stuck_resets (qe_stuck q))))
     in case resets of
         [] \<Rightarrow> UNKNOWN_RESET
       | [r] \<Rightarrow> ''window reopens '' @ r
       | r # _ \<Rightarrow> ''earliest window reopens '' @ r @ '' ('' @ show_nat (length resets) @ '' distinct reset times across the stuck workers)'')"

definition quota_condition :: "stuck_worker list \<Rightarrow> string" where
  "quota_condition stuck = (if set (map (\<lambda>w. qi_kind (sw_info w)) stuck) = {EXHAUSTED} then ''quota exhausted'' else ''provider limit unresolved'')"

definition advisory_text :: "quota_entry \<Rightarrow> string" where
  "advisory_text q = (let e = qe_entry q
     in (case re_provider e of Some (c # cs) \<Rightarrow> c # cs | _ \<Rightarrow> if re_key e \<noteq> [] then re_key e else ''unknown'')
        @ '' '' @ quota_condition (qe_stuck q) @ '': '' @ show_nat (length (qe_stuck q)) @ '' agent(s) stuck; '' @ reset_horizon_clause q
        @ '' - re-dispatch their tasks; ''
        @ (if re_scope e = ''account'' then ''advisory only, no automated consumer (capacity does not hold this lane)''
           else ''holding new provider dispatch''))"

definition advisory_lines :: "quota_entry list \<Rightarrow> nat \<Rightarrow> string list" where
  "advisory_lines entries limit = map (\<lambda>q. ''quota: '' @ advisory_text q)
     (filter (\<lambda>q. (re_scope (qe_entry q) = ''account'' \<and> qe_advisory q \<noteq> None) \<or> qe_hard_stop q) (take limit entries))"

section \<open>Outcomes of a tail\<close>

definition RATE_LIMIT_TAIL_BYTES :: nat where "RATE_LIMIT_TAIL_BYTES = 2048"

definition last_chars :: "nat \<Rightarrow> string \<Rightarrow> string" where
  "last_chars n s = drop (length s - n) s"

definition outcome_payload :: "limit_evidence \<Rightarrow> string \<Rightarrow> string \<Rightarrow> json \<Rightarrow> dict" where
  "outcome_payload e limit_state excerpt reason =
     [(''message'', JStr ''dispatch_worker_limit_reached''), (''rate_limit_signature'', evidence_get e ''limit_signature''),
      (''limit_signature'', evidence_get e ''limit_signature''), (''limit_kind'', evidence_get e ''limit_kind''),
      (''limit_state'', JStr limit_state), (''reset_at'', evidence_get e ''reset_at''), (''retry_after'', evidence_get e ''retry_after''),
      (''tail_excerpt'', JStr (last_chars RATE_LIMIT_TAIL_BYTES excerpt)), (''reason'', reason)]"

type_synonym tail_outcome = "json \<times> json \<times> bool"

definition rate_limit_outcome_from_text :: "(int \<Rightarrow> int) \<Rightarrow> json \<Rightarrow> json \<Rightarrow> string \<Rightarrow> dict \<Rightarrow> tail_outcome" where
  "rate_limit_outcome_from_text zone state reason t extra =
     (let excerpt = trim wide_space t; probe = [(''state'', JStr ''worker_dead''), (''error'', JStr excerpt)]
      in if excerpt = [] then (state, reason, False)
         else case rate_limit_signature_in_text zone excerpt of
             None \<Rightarrow> (state, reason, False)
           | Some e \<Rightarrow> if detect_rate_limit_signature zone probe JNull \<noteq> Inr True then (state, reason, False)
               else let limit_state = (if le_state e \<noteq> [] then le_state e else LIMIT_UNKNOWN_STATE)
                 in (JStr limit_state, JObj (fold (\<lambda>(k, v). jput k v) extra (outcome_payload e limit_state excerpt reason)),
                     state \<noteq> JStr limit_state))"

text \<open>\<open>terminal_rate_limit_outcome\<close> on the excerpt of the tail.\<close>

definition message_of :: "json \<Rightarrow> json" where
  "message_of reason = (case reason of JObj d \<Rightarrow> jget d ''message'' | _ \<Rightarrow> JNull)"

definition terminal_rate_limit_outcome :: "(int \<Rightarrow> int) \<Rightarrow> json \<Rightarrow> json \<Rightarrow> string \<Rightarrow> bool \<Rightarrow> bool \<Rightarrow> tail_outcome" where
  "terminal_rate_limit_outcome zone state reason tail success_marker terminal_marker =
     (if message_of reason = JStr ''dispatch_worker_limit_reached'' then
        (let v = (case reason of JObj d \<Rightarrow> jget d ''limit_state'' | _ \<Rightarrow> JNull);
             limit_state = JStr (if truthy v then py_text v else LIMIT_UNKNOWN_STATE)
         in (limit_state, reason, state \<noteq> limit_state))
      else if message_of reason = JStr ''dispatch_worker_rate_limited'' then
        (JStr LEGACY_RATE_LIMITED_STATE, reason, state \<noteq> JStr LEGACY_RATE_LIMITED_STATE)
      else if terminal_marker \<or> success_marker then (state, reason, False)
      else rate_limit_outcome_from_text zone state reason (trim wide_space tail) [])"

text \<open>A success marker is overruled only by a limit printed after it and before the footer of a dead run.\<close>

definition marker_line :: "json \<Rightarrow> int" where
  "marker_line marker = (case marker of
      JObj d \<Rightarrow> (case py_int (py_or (jget d ''line'') (JInt 0)) of None \<Rightarrow> 0 | Some n \<Rightarrow> n)
    | _ \<Rightarrow> 0)"

definition final_reconciliation_error_veto_outcome :: "(int \<Rightarrow> int) \<Rightarrow> json \<Rightarrow> json \<Rightarrow> string \<Rightarrow> json \<Rightarrow> tail_outcome" where
  "final_reconciliation_error_veto_outcome zone state reason tail marker =
     (let lines = splitlines tail; line = marker_line marker; after_marker = drop (nat line) lines;
          filled = filter (\<lambda>l. l \<noteq> []) (map (trim wide_space) after_marker)
      in if \<not> terminal_success_marker_present marker \<or> \<not> contains (py_text reason) ''final_reconciliation''
           \<or> line \<le> 0 \<or> int (length lines) \<le> line \<or> \<not> tokens_used_death_footer filled
         then (state, reason, False)
         else rate_limit_outcome_from_text zone state reason (join_on [CHR 0x0A] after_marker) [(''vetoed_terminal_marker'', marker)])"

end
