(* ===== verification/GF_Rate_Props.thy ===== *)
theory GF_Rate_Props
  imports GF_Pressure_Report
begin

text \<open>
  What the rate-pressure report guarantees to the admission that reads it, and where it fails.
\<close>

section \<open>From the report back to its counts\<close>

lemma decorated_origin:
  "decorate_pressure_payload env records w pm es = Inr qs \<Longrightarrow> q \<in> set qs \<Longrightarrow>
   \<exists>e\<in>set es. \<exists>stuck. stuck_workers_for_entry env e records w pm = Inr stuck \<and> q = decorate_entry e stuck"
  by (induction es arbitrary: qs) (auto split: sum.splits)

text \<open>One entry of the report: its key and count, the ledger it was counted from, its stuck workers.\<close>

lemma report_entry:
  assumes "q \<in> set (current_rate_pressure env caps billing runs dir policy)"
  obtains pm records pressure quota key count stuck where
    "agent_limit_pool_map billing = Inr pm" "collect_records runs dir = Inr records"
    "pressure_per_provider (qv_zone env) (qv_files env) records (pp_window policy) (qv_now env) (Some pm) = Inr pressure"
    "quota_pressure_per_provider env records (pp_window policy) (Some pm) = Inr quota"
    "(key, count) \<in> set (merge_pressure quota pressure)" "pp_threshold policy \<le> count"
    "q = decorate_entry (recommend_entry caps (Some pm) (key, count)) stuck"
proof -
  obtain qs where qs: "pressure_report env caps billing runs dir policy = Inr qs" "q \<in> set qs"
    using assms unfolding current_rate_pressure_def by (cases "pressure_report env caps billing runs dir policy") auto
  then obtain pm records pressure quota where *:
    "agent_limit_pool_map billing = Inr pm" "collect_records runs dir = Inr records"
    "pressure_per_provider (qv_zone env) (qv_files env) records (pp_window policy) (qv_now env) (Some pm) = Inr pressure"
    "quota_pressure_per_provider env records (pp_window policy) (Some pm) = Inr quota"
    "decorate_pressure_payload env records (pp_window policy) (Some pm)
       (recommend (merge_pressure quota pressure) caps (pp_threshold policy) (Some pm)) = Inr qs"
    by (auto simp: pressure_report_def split: sum.splits)
  from decorated_origin [OF *(5) qs(2)] obtain e stuck where
    e: "e \<in> set (recommend (merge_pressure quota pressure) caps (pp_threshold policy) (Some pm))" "q = decorate_entry e stuck" by blast
  then obtain key count where "(key, count) \<in> set (merge_pressure quota pressure)" "pp_threshold policy \<le> count"
    "e = recommend_entry caps (Some pm) (key, count)"
    by (auto simp: recommend_def)
  then show thesis using that * e by blast
qed

lemma report_shape:
  assumes "q \<in> set (current_rate_pressure env caps billing runs dir policy)"
  obtains pm key count stuck where "agent_limit_pool_map billing = Inr pm"
    "q = decorate_entry (recommend_entry caps (Some pm) (key, count)) stuck"
  by (rule report_entry [OF assms], rule that, assumption+)

lemma decorate_fields [simp]:
  "qe_entry (decorate_entry e stuck) = e" "qe_stuck (decorate_entry e stuck) = stuck"
  "qe_hard_stop (decorate_entry e stuck) \<longleftrightarrow> re_scope e = ''provider'' \<and> hard_kinds stuck \<or>
     re_scope e \<notin> {''account'', ''agent'', ''provider''} \<and> hard_kinds stuck"
  by (auto simp: decorate_entry_def Let_def)

lemma decorate_effective: "\<not> qe_hard_stop (decorate_entry e stuck) \<Longrightarrow> qe_effective (decorate_entry e stuck) = []"
  by (auto simp: decorate_entry_def Let_def split: if_splits)

lemma recommend_entry_fields [simp]:
  "re_scope (recommend_entry caps pm (key, count)) = entry_scope key"
  "re_key (recommend_entry caps pm (key, count)) = key"
  "re_count (recommend_entry caps pm (key, count)) = count"
  "re_labels (recommend_entry caps pm (key, count)) = fst (resolve_key pm key)"
  "re_recommended (recommend_entry caps pm (key, count)) =
     (if entry_scope key = ''account'' then [] else map (\<lambda>l. (l, halved caps l)) (fst (resolve_key pm key)))"
  by (simp_all add: recommend_entry_def Let_def split: prod.splits)

section \<open>The cap a request meets\<close>

text \<open>\<open>adaptive_agent_cap\<close> keeps the configured cap, stops at a hard stop, or takes the first smaller recommendation.\<close>

definition stops :: "pressure_entry \<Rightarrow> bool" where
  "stops e \<longleftrightarrow> pe_hard_stop e \<and> pe_scope e \<noteq> Some ''agent''"

definition entry_caps :: "pressure_entry \<Rightarrow> (string \<times> int) list" where
  "entry_caps e = (if pe_effective e \<noteq> [] then pe_effective e else pe_recommended e)"

definition lowers :: "string \<Rightarrow> string \<Rightarrow> int \<Rightarrow> int \<Rightarrow> pressure_entry \<Rightarrow> bool" where
  "lowers agent pool base c e \<longleftrightarrow> pe_scope e \<noteq> Some ''account'' \<and> c < base \<and>
     (if stops e then c = 0
      else \<exists>l\<in>{agent, pool}. \<exists>n. map_of (entry_caps e) l = Some n \<and> c = max 1 (min base (positive_or n base)))"

lemma adaptive_step:
  assumes "adaptive_cap agent pool base (e # es) = (c, why)"
  shows "adaptive_cap agent pool base es = (c, why) \<or> why = Some e \<and> lowers agent pool base c e"
proof (cases "or_else (map_of (entry_caps e) agent) (map_of (entry_caps e) pool)")
  case None
  then show ?thesis using assms by (simp add: Let_def entry_caps_def split: if_splits)
next
  case (Some n)
  then have "\<exists>l\<in>{agent, pool}. map_of (entry_caps e) l = Some n" by (auto simp: or_else_def split: option.splits)
  moreover have "adaptive_cap agent pool base es = (c, why) \<or> why = Some e \<and> pe_scope e \<noteq> Some ''account'' \<and> c < base
    \<and> c = (if stops e then 0 else max 1 (min base (positive_or n base)))"
    using assms Some unfolding entry_caps_def stops_def
    by (simp only: adaptive_cap.simps Let_def option.case split: if_splits) auto
  ultimately show ?thesis unfolding lowers_def by auto
qed

lemma adaptive_cap_cases:
  "adaptive_cap agent pool base es = (c, why) \<Longrightarrow> c = base \<and> why = None \<or> (\<exists>e\<in>set es. why = Some e \<and> lowers agent pool base c e)"
proof (induction es)
  case (Cons e es)
  from adaptive_step [OF Cons.prems] show ?case using Cons.IH by auto
qed simp

lemma map_of_labels: "map_of (map (\<lambda>l. (l, f l)) ls) k = Some v \<Longrightarrow> v = f k"
  by (auto dest: map_of_SomeD)

lemma entry_scope_cases: "entry_scope key \<in> {''agent'', ''account'', ''provider''}"
  by (simp add: entry_scope_def)

lemma report_gate:
  assumes "q \<in> set (current_rate_pressure env caps billing runs dir policy)"
  shows "stops (gate_entry q) \<longleftrightarrow> re_scope (qe_entry q) = ''provider'' \<and> hard_kinds (qe_stuck q)"
    and "\<not> stops (gate_entry q) \<Longrightarrow> map_of (entry_caps (gate_entry q)) l = Some n \<Longrightarrow> n = halved caps l"
proof -
  obtain pm key count stuck where q: "q = decorate_entry (recommend_entry caps (Some pm) (key, count)) stuck"
    by (rule report_shape [OF assms])
  have scope: "entry_scope key \<in> {''agent'', ''account'', ''provider''}" by (rule entry_scope_cases)
  then show hard: "stops (gate_entry q) \<longleftrightarrow> re_scope (qe_entry q) = ''provider'' \<and> hard_kinds (qe_stuck q)"
    by (auto simp: stops_def gate_entry_def q)
  show "n = halved caps l" if "\<not> stops (gate_entry q)" "map_of (entry_caps (gate_entry q)) l = Some n"
  proof -
    have "\<not> qe_hard_stop q" using that(1) scope unfolding hard by (auto simp: q)
    then have "qe_effective q = []" unfolding q by (rule decorate_effective)
    then show ?thesis using that(2) by (auto simp: entry_caps_def gate_entry_def q dest: map_of_labels split: if_splits)
  qed
qed

text \<open>
  What admission relies on in a report: an entry that does not stop an agent recommends half its configured cap.
\<close>

locale cap_report =
  fixes es :: "pressure_entry list" and caps :: "(string \<times> int) list"
  assumes halves: "e \<in> set es \<Longrightarrow> \<not> stops e \<Longrightarrow> map_of (entry_caps e) l = Some n \<Longrightarrow> n = halved caps l"
begin

lemma cap_values:
  assumes "adaptive_agent_cap agent base es = (cap, why)"
  shows "cap = base \<or> (\<exists>e\<in>set es. why = Some e \<and> pe_scope e \<noteq> Some ''account'' \<and> cap < base \<and>
     (if stops e then cap = 0 else \<exists>l\<in>{normalize_agent agent, cap_pool (normalize_agent agent)}. cap = halved caps l \<and> 1 \<le> cap))"
proof -
  have "cap = base \<or> (\<exists>e\<in>set es. why = Some e \<and> lowers (normalize_agent agent) (cap_pool (normalize_agent agent)) base cap e)"
    using adaptive_cap_cases [of "normalize_agent agent" _ base es cap why] assms by (auto simp: adaptive_agent_cap_def Let_def)
  then consider "cap = base"
    | e where "e \<in> set es" "why = Some e" "lowers (normalize_agent agent) (cap_pool (normalize_agent agent)) base cap e" by blast
  then show ?thesis
  proof cases
    case 2
    show ?thesis
    proof (cases "stops e")
      case True
      then show ?thesis using 2 by (auto simp: lowers_def)
    next
      case False
      then obtain l n where l: "l \<in> {normalize_agent agent, cap_pool (normalize_agent agent)}"
        "map_of (entry_caps e) l = Some n" "cap = max 1 (min base (positive_or n base))" "cap < base" "pe_scope e \<noteq> Some ''account''"
        using 2(3) unfolding lowers_def by (metis (no_types, lifting))
      moreover have "n = halved caps l" by (rule halves [OF 2(1) False l(2)])
      moreover have "1 \<le> halved caps l" by (simp add: halved_def)
      ultimately have "cap = halved caps l \<and> 1 \<le> cap" by (auto simp: positive_or_def)
      then show ?thesis using 2(1,2) l(1,4,5) False by auto
    qed
  qed simp
qed

end

interpretation report: cap_report "map gate_entry (current_rate_pressure env caps billing runs dir policy)" caps
  for env caps billing runs dir policy
  by unfold_locales (auto dest: report_gate(2))

text \<open>
  C19. What the rate-pressure report can do to a cap. For every ledger, billing document, tail and clock, the cap
  admission computes for an agent is the configured one, or half the configured cap of the agent or its pool (at
  least 1), or 0, and 0 only when some worker spending the same budget is stuck on an exhausted or unknown limit.
\<close>

theorem throttle_values:
  "case adaptive_agent_cap agent base (map gate_entry (current_rate_pressure env caps billing runs dir policy)) of (cap, why) \<Rightarrow>
     cap = base
     \<or> cap < base \<and> (\<exists>l\<in>{normalize_agent agent, cap_pool (normalize_agent agent)}. cap = halved caps l \<and> 1 \<le> cap)
     \<or> cap = 0 \<and> cap < base \<and> (\<exists>q\<in>set (current_rate_pressure env caps billing runs dir policy).
          re_scope (qe_entry q) = ''provider'' \<and> hard_kinds (qe_stuck q))"
proof -
  let ?qs = "current_rate_pressure env caps billing runs dir policy"
  obtain cap why where r: "adaptive_agent_cap agent base (map gate_entry ?qs) = (cap, why)" by force
  from report.cap_values [OF r] show ?thesis unfolding r by (auto simp: report_gate(1) split: if_splits)
qed

section \<open>Budgets and labels\<close>

lemma startswith_Nil [simp]: "startswith [] (c # p) \<longleftrightarrow> False"
  by (simp add: startswith_def)

lemma startswith_Cons [simp]: "startswith (x # s) (c # p) \<longleftrightarrow> x = c \<and> startswith s p"
  by (simp add: startswith_def)

lemma startswith_empty [simp]: "startswith s []"
  by (simp add: startswith_def)

text \<open>Pool tables are built by updates, so a label occurs once.\<close>

lemma distinct_claim: "distinct (map fst d) \<Longrightarrow> distinct (map fst (claim_pool k pool d))"
  by (auto simp: claim_pool_def distinct_update split: option.splits)

lemma distinct_claims: "distinct (map fst d) \<Longrightarrow> distinct (map fst (fold (\<lambda>l. claim_pool l pool) ls d))"
  by (induction ls arbitrary: d) (auto intro: distinct_claim)

lemma claim_account_labels [simp]: "pm_labels (fold (claim_account key pool) vs pm) = pm_labels pm"
  by (induction vs arbitrary: pm) (auto simp: claim_account_def Let_def)

lemma add_account_distinct:
  "add_account a pm = Inr pm' \<Longrightarrow> distinct (map fst (pm_labels pm)) \<Longrightarrow> distinct (map fst (pm_labels pm'))"
  by (auto simp: add_account_def Let_def intro!: distinct_claims split: json.splits sum.splits if_splits)

lemma add_accounts_distinct:
  "add_accounts xs pm = Inr pm' \<Longrightarrow> distinct (map fst (pm_labels pm)) \<Longrightarrow> distinct (map fst (pm_labels pm'))"
  by (induction xs arbitrary: pm) (auto dest: add_account_distinct split: sum.splits)

lemma pool_map_distinct: "agent_limit_pool_map billing = Inr pm \<Longrightarrow> distinct (map fst (pm_labels pm))"
  by (auto simp: agent_limit_pool_map_def empty_pool_map_def Let_def dest: add_accounts_distinct split: if_splits json.splits)

lemma set_pool_labels:
  "set (pool_labels (Some pm) pool ls) = set ls \<union> {l. (l, Some pool) \<in> set (pm_labels pm)}"
proof -
  have "set (fold (\<lambda>(l, p) ls. if p = Some pool \<and> l \<notin> set ls then ls @ [l] else ls) d ls) = set ls \<union> {l. (l, Some pool) \<in> set d}"
    for d :: "(string \<times> string option) list"
    by (induction d arbitrary: ls) (auto split: if_splits)
  then show ?thesis by (simp add: pool_labels_def)
qed

lemma provider_for_label: "provider_for l = Some v \<Longrightarrow> l \<in> fst ` set AGENT_TO_PROVIDER"
  by (auto simp: provider_for_def dest: map_of_SomeD intro: rev_image_eqI)

lemma budget_key_forms:
  "budget_key_for_agent l (Some pm) = Some key \<longleftrightarrow>
     (\<exists>p. map_of (pm_labels pm) l = Some (Some p) \<and> p \<noteq> [] \<and> key = ''pool:'' @ p)
     \<or> (\<exists>v. provider_for l = Some v \<and> (map_of (pm_labels pm) l = Some None \<or> map_of (pm_labels pm) l = Some (Some []))
          \<and> key = ''provider-ambiguous:'' @ v)
     \<or> (\<exists>v. provider_for l = Some v \<and> map_of (pm_labels pm) l = None \<and> key = ''provider:'' @ v)"
  unfolding budget_key_for_agent_def by (auto split: option.splits)

lemma set_label_group:
  "\<not> startswith key ''agent:'' \<Longrightarrow> set (label_group pm key) = {l \<in> fst ` set AGENT_TO_PROVIDER. budget_key_for_agent l pm = Some key}"
  by (auto simp: label_group_def)

lemma provider_scope_labels:
  assumes "entry_scope key = ''provider''" "distinct (map fst (pm_labels pm))"
  shows "set (fst (resolve_key (Some pm) key)) = {l. budget_key_for_agent l (Some pm) = Some key}"
proof -
  have key: "\<not> startswith key ''account:''" "\<not> startswith key ''agent:''"
    using assms(1) by (auto simp: entry_scope_def split: if_splits)
  note group = set_label_group [OF key(2), of "Some pm"]
  show ?thesis
  proof (cases "after_prefix ''pool:'' key")
    case None
    then have "l \<in> fst ` set AGENT_TO_PROVIDER" if "budget_key_for_agent l (Some pm) = Some key" for l
      using that provider_for_label by (auto simp: budget_key_forms after_prefix_def)
    then have "set (label_group (Some pm) key) = {l. budget_key_for_agent l (Some pm) = Some key}" unfolding group by auto
    then show ?thesis using key None by (simp add: resolve_key_def after_prefix_def Let_def)
  next
    case (Some p)
    then have "take (length ''pool:'') key = ''pool:''" "p = drop (length ''pool:'') key"
      by (simp_all only: after_prefix_def startswith_def split: if_splits) simp_all
    then have p: "key = ''pool:'' @ p" using append_take_drop_id [of "length ''pool:''" key] by simp
    have forms: "budget_key_for_agent l (Some pm) = Some key \<longleftrightarrow> p \<noteq> [] \<and> map_of (pm_labels pm) l = Some (Some p)" for l
      by (auto simp: budget_key_forms p)
    have "map_of (pm_labels pm) l = Some (Some p) \<longleftrightarrow> (l, Some p) \<in> set (pm_labels pm)" for l
      using assms(2) by simp
    then show ?thesis using key Some unfolding resolve_key_def
      by (auto simp: after_prefix_def Let_def forms group set_pool_labels)
  qed
qed

text \<open>
  C20. One walk-back per budget, on exactly the labels that spend it. Whatever the billing document says, an entry of
  the report with provider scope names precisely the agent labels whose own budget key is the key of the entry: a
  label that several pools claim shares its fate only with other such labels, and a label no account lists is
  never drawn in.
\<close>

theorem walkback_hits_exactly_the_budget:
  assumes "q \<in> set (current_rate_pressure env caps billing runs dir policy)" "re_scope (qe_entry q) = ''provider''"
  shows "\<exists>pm. agent_limit_pool_map billing = Inr pm
     \<and> set (re_labels (qe_entry q)) = {l. budget_key_for_agent l (Some pm) = Some (re_key (qe_entry q))}"
proof -
  obtain pm key count stuck where pm: "agent_limit_pool_map billing = Inr pm"
    and q: "q = decorate_entry (recommend_entry caps (Some pm) (key, count)) stuck"
    by (rule report_shape [OF assms(1)])
  then show ?thesis using provider_scope_labels [OF _ pool_map_distinct [OF pm]] assms(2) by (intro exI [of _ pm]) simp
qed

end
