(* ===== verification/GF_Rate_Counts.thy ===== *)
theory GF_Rate_Counts
  imports GF_Rate_Props
begin

text \<open>
  Where the counts of the report come from, when they fade, and the situations in which the report is wrong.
\<close>

section \<open>Counts are records\<close>

lemma table_get_bump: "table_get (bump k d) k' 0 = table_get d k' 0 + (if k' = k then 1 else 0)"
  by (simp add: table_get_def bump_def update_conv')

lemma distinct_bump: "distinct (map fst d) \<Longrightarrow> distinct (map fst (bump k d))"
  by (simp add: bump_def distinct_update)

lemma count_keys_counts:
  assumes "count_keys key_of rs counts = Inr out" "distinct (map fst counts)"
  shows "table_get out k 0 = table_get counts k 0 + int (length (filter (\<lambda>r. key_of r = Inr (Some k)) rs)) \<and> distinct (map fst out)"
  using assms
proof (induction key_of rs counts rule: count_keys.induct)
  case (2 key_of r rs counts)
  show ?case
  proof (cases "key_of r")
    case (Inr ko)
    then show ?thesis using 2 by (cases ko) (auto simp: table_get_bump distinct_bump)
  qed (use 2 in simp)
qed simp

lemma table_get_mem: "distinct (map fst d) \<Longrightarrow> (k, c) \<in> set d \<Longrightarrow> table_get d k z = c"
  by (simp add: table_get_def)

lemma merge_pressure_counts:
  assumes "distinct (map fst quota)" "distinct (map fst p)"
  shows "distinct (map fst (merge_pressure quota p)) \<and>
     table_get (merge_pressure quota p) k 0 = (case map_of quota k of None \<Rightarrow> table_get p k 0 | Some c \<Rightarrow> max (table_get p k 0) c)"
  using assms
proof (induction quota arbitrary: p)
  case (Cons e quota)
  obtain k0 c0 where e: "e = (k0, c0)" by force
  let ?p = "AList.update k0 (max (table_get p k0 0) c0) p"
  have get: "table_get ?p k 0 = (if k = k0 then max (table_get p k0 0) c0 else table_get p k 0)"
    by (simp add: table_get_def update_conv')
  have "map_of quota k0 = None" using Cons.prems(1) by (simp add: e map_of_eq_None_iff)
  then show ?case using Cons.IH [of ?p] Cons.prems get
    by (auto simp: e merge_pressure_def distinct_update split: option.splits)
qed (simp add: merge_pressure_def)

text \<open>The records a key is counted for, by the text of failures and by stuck tails.\<close>

definition failures_of :: "quota_env \<Rightarrow> int \<Rightarrow> pool_map \<Rightarrow> dict list \<Rightarrow> string \<Rightarrow> nat" where
  "failures_of env window pm records key =
     length (filter (\<lambda>r. counted_key (qv_zone env) (qv_files env) (cutoff_iso (qv_now env) window) (Some pm) r = Inr (Some key)) records)"

definition stuck_of :: "quota_env \<Rightarrow> int \<Rightarrow> pool_map \<Rightarrow> dict list \<Rightarrow> string \<Rightarrow> nat" where
  "stuck_of env window pm records key = length (filter (\<lambda>r. quota_key env window (Some pm) r = Inr (Some key)) records)"

lemma merged_count:
  assumes "pressure_per_provider (qv_zone env) (qv_files env) records w (qv_now env) (Some pm) = Inr pressure"
    "quota_pressure_per_provider env records w (Some pm) = Inr quota" "(key, count) \<in> set (merge_pressure quota pressure)"
  shows "count = int (max (failures_of env w pm records key) (stuck_of env w pm records key))"
proof -
  have p: "table_get pressure key 0 = int (failures_of env w pm records key)" "distinct (map fst pressure)"
    using count_keys_counts [OF assms(1) [unfolded pressure_per_provider_def], of key] by (auto simp: failures_of_def table_get_def)
  have q: "table_get quota key 0 = int (stuck_of env w pm records key)" "distinct (map fst quota)"
    using count_keys_counts [OF assms(2) [unfolded quota_pressure_per_provider_def], of key] by (auto simp: stuck_of_def table_get_def)
  from merge_pressure_counts [OF q(2) p(2), of key] table_get_mem assms(3)
  have "count = (case map_of quota key of None \<Rightarrow> table_get pressure key 0 | Some c \<Rightarrow> max (table_get pressure key 0) c)"
    by fastforce
  then show ?thesis using p(1) q(1) by (auto simp: table_get_def split: option.splits)
qed

text \<open>
  C23. No walk-back without three failures. Whatever window or threshold a session asks for, an entry of the report
  stands on at least three dispatch records of the ledger: its count is the larger of the number of records of the last
  600 seconds that failed on a limit of this budget and the number of unfinished records whose tail shows the
  limit.
\<close>

theorem walkback_needs_three_failures:
  assumes "q \<in> set (current_rate_pressure env caps billing runs dir (rate_pressure_policy w t))"
  shows "\<exists>pm records. agent_limit_pool_map billing = Inr pm \<and> collect_records runs dir = Inr records
     \<and> re_count (qe_entry q) = int (max (failures_of env 600 pm records (re_key (qe_entry q))) (stuck_of env 600 pm records (re_key (qe_entry q))))
     \<and> 3 \<le> re_count (qe_entry q) \<and> 3 \<le> length records"
proof (rule report_entry [OF assms])
  fix pm records pressure quota key count stuck
  have policy: "pp_window (rate_pressure_policy w t) = 600" "pp_threshold (rate_pressure_policy w t) = 3"
    by (simp_all add: rate_pressure_policy_def DEFAULT_RATE_PRESSURE_WINDOW_SECONDS_def DEFAULT_RATE_PRESSURE_THRESHOLD_def)
  assume a: "agent_limit_pool_map billing = Inr pm" "collect_records runs dir = Inr records"
    "pressure_per_provider (qv_zone env) (qv_files env) records (pp_window (rate_pressure_policy w t)) (qv_now env) (Some pm) = Inr pressure"
    "quota_pressure_per_provider env records (pp_window (rate_pressure_policy w t)) (Some pm) = Inr quota"
    "(key, count) \<in> set (merge_pressure quota pressure)" "pp_threshold (rate_pressure_policy w t) \<le> count"
    "q = decorate_entry (recommend_entry caps (Some pm) (key, count)) stuck"
  have count: "count = int (max (failures_of env 600 pm records key) (stuck_of env 600 pm records key))"
    using merged_count [OF a(3,4,5)] unfolding policy .
  have "failures_of env 600 pm records key \<le> length records" "stuck_of env 600 pm records key \<le> length records"
    by (simp_all add: failures_of_def stuck_of_def)
  then show ?thesis using a(1,2,6,7) count unfolding policy by (intro exI [of _ pm] exI [of _ records]) (auto simp: max_def split: if_splits)
qed

text \<open>Three sessions of one provider, blocked on their session limit at the same minute.\<close>

definition demo_failure :: json where
  "demo_failure = JObj [(''agent'', JStr ''codex''), (''state'', JStr ''blocked_session_limit''), (''updated_at'', JStr ''2026-11-19T07:00:00+00:00'')]"

definition demo_runs :: runs_dir where
  "demo_runs = Runs [(''a.json'', Inr demo_failure), (''b.json'', Inr demo_failure), (''c.json'', Inr demo_failure)]"

definition demo_quota_env :: quota_env where
  "demo_quota_env = \<lparr>qv_zone = \<lambda>_. 0, qv_files = \<lambda>_. None, qv_tails = \<lambda>_. ([], None), qv_now = 63930754860000000\<rparr>"

lemma demo_report:
  "map (\<lambda>q. (re_key (qe_entry q), re_count (qe_entry q), re_labels (qe_entry q)))
     (current_rate_pressure demo_quota_env [] JNull ''runs.d'' demo_runs (rate_pressure_policy JNull JNull))
   = [(''provider:openai'', 3, [''codex'', ''codex-acp'', ''codex-bash-tail'', ''opencode'', ''opencode-acp'', ''opencode-bash-tail''])]"
  by code_simp

lemma walkback_needs_three_failures_witness:
  "\<exists>q. q \<in> set (current_rate_pressure demo_quota_env [] JNull ''runs.d'' demo_runs (rate_pressure_policy JNull JNull))
     \<and> 3 \<le> re_count (qe_entry q)"
proof -
  define qs where "qs = current_rate_pressure demo_quota_env [] JNull ''runs.d'' demo_runs (rate_pressure_policy JNull JNull)"
  have "map (\<lambda>q. (re_key (qe_entry q), re_count (qe_entry q), re_labels (qe_entry q))) qs \<noteq> []" unfolding qs_def demo_report by simp
  then obtain q where "q \<in> set qs" using hd_in_set by blast
  moreover from walkback_needs_three_failures [OF this [unfolded qs_def]] have "3 \<le> re_count (qe_entry q)" by blast
  ultimately show ?thesis unfolding qs_def by blast
qed

text \<open>The same failures when two accounts with different pools claim the label.\<close>

definition demo_ambiguous :: json where
  "demo_ambiguous = JObj [(''accounts'', JList
     [JObj [(''account_key'', JStr ''openai/work''), (''agent_labels'', JList [JStr ''codex'']), (''limit_pool_id'', JStr ''p1'')],
      JObj [(''account_key'', JStr ''openai/home''), (''agent_labels'', JList [JStr ''codex'']), (''limit_pool_id'', JStr ''p2'')]])]"

lemma walkback_hits_exactly_the_budget_witness:
  "\<exists>pm. agent_limit_pool_map demo_ambiguous = Inr pm
     \<and> {l. budget_key_for_agent l (Some pm) = Some ''provider-ambiguous:openai''} = {''codex''}"
proof -
  define qs where "qs = current_rate_pressure demo_quota_env [] demo_ambiguous ''runs.d'' demo_runs (rate_pressure_policy JNull JNull)"
  have "map (\<lambda>q. (re_key (qe_entry q), re_scope (qe_entry q), re_labels (qe_entry q))) qs
    = [(''provider-ambiguous:openai'', ''provider'', [''codex''])]"
    unfolding qs_def by code_simp
  then obtain q where q: "q \<in> set qs" "re_scope (qe_entry q) = ''provider''" "re_key (qe_entry q) = ''provider-ambiguous:openai''"
    "re_labels (qe_entry q) = [''codex'']"
    by (cases qs) auto
  from walkback_hits_exactly_the_budget [OF q(1) [unfolded qs_def] q(2)] show ?thesis unfolding q(3,4) by auto
qed

section \<open>Accounts are advised, not held\<close>

lemma count_keys_origin:
  assumes "count_keys key_of rs [] = Inr out" "(k, c) \<in> set out"
  shows "c = 0 \<or> (\<exists>r\<in>set rs. key_of r = Inr (Some k))"
proof -
  have "c = int (length (filter (\<lambda>r. key_of r = Inr (Some k)) rs))"
    using count_keys_counts [OF assms(1), of k] table_get_mem [OF _ assms(2)] by (simp add: table_get_def)
  then show ?thesis by (cases "filter (\<lambda>r. key_of r = Inr (Some k)) rs") (auto dest: filter_eq_ConsD)
qed

lemma startswith_account: "account_budget_key_for_agent agent a = Some k \<Longrightarrow> startswith k ''account:''"
  by (auto simp: account_budget_key_for_agent_def account_budget_key_def Let_def split: option.splits prod.splits if_splits)

lemma named_key:
  assumes "pm_billing pm" "record_account r \<noteq> []" "budget_key_for_record r agent (Some pm) = Some k"
  shows "startswith k ''account:''"
  using assms startswith_account by (auto simp: budget_key_for_record_def)

lemma agent_scope: "entry_scope (''agent:'' @ s) = ''agent''"
  by (simp add: entry_scope_def)

lemma account_scope: "startswith k ''account:'' \<Longrightarrow> entry_scope k = ''account''"
  by (cases k; cases "tl k") (auto simp: entry_scope_def)

lemma counted_scope:
  assumes "pm_billing pm" "record_account r \<noteq> []"
  shows "counted_key zone files cutoff (Some pm) r = Inr (Some k) \<Longrightarrow> entry_scope k \<in> {''agent'', ''account''}"
    and "quota_key env w (Some pm) r = Inr (Some k) \<Longrightarrow> entry_scope k \<in> {''agent'', ''account''}"
  using named_key [OF assms] account_scope agent_scope
  by (auto simp: counted_key_def quota_key_def pressure_key_def Let_def split: if_splits sum.splits option.splits bool.splits)

text \<open>
  C22. A quota that belongs to named accounts never closes the gate. Once billing lists accounts and every dispatch
  record names its account, the only thing that can lower a cap is a model at capacity: an exhausted account, however
  many workers are stuck on it, is an advisory and takes no slot from the other accounts of the provider.
\<close>

theorem account_limits_lower_no_cap:
  assumes "agent_limit_pool_map billing = Inr pm" "pm_billing pm"
    and "collect_records runs dir = Inr records" "\<forall>r\<in>set records. record_account r \<noteq> []" "0 < pp_threshold policy"
    and "adaptive_agent_cap agent base (map gate_entry (current_rate_pressure env caps billing runs dir policy)) = (cap, why)"
  shows "cap = base \<or> (\<exists>q\<in>set (current_rate_pressure env caps billing runs dir policy).
     why = Some (gate_entry q) \<and> re_scope (qe_entry q) = ''agent'' \<and> 1 \<le> cap)"
proof -
  let ?qs = "current_rate_pressure env caps billing runs dir policy"
  have scope: "re_scope (qe_entry q) \<in> {''agent'', ''account''}" if "q \<in> set ?qs" for q
  proof (rule report_entry [OF that])
    fix pm' records' pressure quota key count stuck
    assume a: "agent_limit_pool_map billing = Inr pm'" "collect_records runs dir = Inr records'"
      "pressure_per_provider (qv_zone env) (qv_files env) records' (pp_window policy) (qv_now env) (Some pm') = Inr pressure"
      "quota_pressure_per_provider env records' (pp_window policy) (Some pm') = Inr quota"
      "(key, count) \<in> set (merge_pressure quota pressure)" "pp_threshold policy \<le> count"
      "q = decorate_entry (recommend_entry caps (Some pm') (key, count)) stuck"
    have same: "pm' = pm" "records' = records" using a(1,2) assms(1,3) by simp_all
    have "0 < max (failures_of env (pp_window policy) pm records key) (stuck_of env (pp_window policy) pm records key)"
      using merged_count [OF a(3,4,5)] a(6) assms(5) unfolding same by linarith
    then obtain r where "r \<in> set records"
      "counted_key (qv_zone env) (qv_files env) (cutoff_iso (qv_now env) (pp_window policy)) (Some pm) r = Inr (Some key)
       \<or> quota_key env (pp_window policy) (Some pm) r = Inr (Some key)"
      by (auto simp: failures_of_def stuck_of_def length_greater_0_conv filter_empty_conv less_max_iff_disj)
    then have "entry_scope key \<in> {''agent'', ''account''}" using counted_scope [OF assms(2)] assms(4) by blast
    then show ?thesis by (simp add: a(7))
  qed
  have calm: "\<not> stops (gate_entry q)" if "q \<in> set ?qs" for q using scope [OF that] report_gate(1) [OF that] by auto
  from report.cap_values [OF assms(6)] consider "cap = base"
    | q where "q \<in> set ?qs" "why = Some (gate_entry q)" "pe_scope (gate_entry q) \<noteq> Some ''account''" "1 \<le> cap"
    using calm by auto
  then show ?thesis
  proof cases
    case 2
    then have "re_scope (qe_entry q) = ''agent''" using scope [OF 2(1)] by (auto simp: gate_entry_def)
    then show ?thesis using 2 by blast
  qed simp
qed

text \<open>Three failures of one account.\<close>

definition demo_billing :: json where
  "demo_billing = JObj [(''accounts'', JList [JObj [(''account_key'', JStr ''openai/work''), (''agent_labels'', JList [JStr ''codex'']),
     (''limit_pool_id'', JStr ''p1'')]])]"

definition demo_seat_failure :: dict where
  "demo_seat_failure = [(''agent'', JStr ''codex''), (''account'', JStr ''work''), (''state'', JStr ''blocked_session_limit''),
     (''updated_at'', JStr ''2026-11-19T07:00:00+00:00'')]"

definition demo_seat_runs :: runs_dir where
  "demo_seat_runs = Runs [(''a.json'', Inr (JObj demo_seat_failure)), (''b.json'', Inr (JObj demo_seat_failure)), (''c.json'', Inr (JObj demo_seat_failure))]"

lemma account_limits_lower_no_cap_witness:
  "fst (adaptive_agent_cap ''codex'' 18 (map gate_entry
     (current_rate_pressure demo_quota_env COMMITTED_AGENT_CAPS demo_billing ''runs.d'' demo_seat_runs (rate_pressure_policy JNull JNull)))) = 18
   \<and> map (\<lambda>q. re_key (qe_entry q)) (current_rate_pressure demo_quota_env COMMITTED_AGENT_CAPS demo_billing ''runs.d'' demo_seat_runs
        (rate_pressure_policy JNull JNull)) = [''account:openai:work'']"
proof -
  define qs where "qs = current_rate_pressure demo_quota_env COMMITTED_AGENT_CAPS demo_billing ''runs.d'' demo_seat_runs (rate_pressure_policy JNull JNull)"
  have "case agent_limit_pool_map demo_billing of Inr pm \<Rightarrow> pm_billing pm | Inl _ \<Rightarrow> False" by code_simp
  then obtain pm where billing: "agent_limit_pool_map demo_billing = Inr pm" "pm_billing pm" by (auto split: sum.splits)
  have records: "collect_records ''runs.d'' demo_seat_runs = Inr [demo_seat_failure, demo_seat_failure, demo_seat_failure]" by code_simp
  have account: "record_account demo_seat_failure \<noteq> []" by code_simp
  have entries: "map (\<lambda>q. (re_key (qe_entry q), re_scope (qe_entry q))) qs = [(''account:openai:work'', ''account'')]"
    unfolding qs_def by code_simp
  obtain cap why where r: "adaptive_agent_cap ''codex'' 18 (map gate_entry qs) = (cap, why)" by force
  have "cap = 18 \<or> (\<exists>q\<in>set qs. why = Some (gate_entry q) \<and> re_scope (qe_entry q) = ''agent'' \<and> 1 \<le> cap)" unfolding qs_def
    by (rule account_limits_lower_no_cap [OF billing records _ _ r [unfolded qs_def]])
       (use account in \<open>simp_all add: rate_pressure_policy_def DEFAULT_RATE_PRESSURE_THRESHOLD_def\<close>)
  moreover have "re_scope (qe_entry q) = ''account''" if "q \<in> set qs" for q
    using entries that by (cases qs) auto
  ultimately have "cap = 18" by fastforce
  then show ?thesis using entries r unfolding qs_def [symmetric] by (cases qs) auto
qed

text \<open>The evidence in the shortest text of a limit.\<close>

definition plain_evidence :: limit_evidence where
  "plain_evidence = \<lparr>le_signature = ''rate limit'', le_kind = UNKNOWN_KIND, le_scope = ACCOUNT_RATE_LIMIT_SCOPE,
     le_state = LIMIT_UNKNOWN_STATE, le_reset_at = None, le_retry_after = None\<rparr>"

lemma plain_limit: "rate_limit_signature_in_text (\<lambda>_. 0) ''rate limit'' = Some plain_evidence"
proof -
  have none: "search RETRY_AFTER_RE ''rate limit'' = None" "search RETRY_IN_RE ''rate limit'' = None"
    "search CODEX_RESET_RE ''rate limit'' = None" "search ISO_RESET_RE ''rate limit'' = None" by code_simp+
  have hit: "find (\<lambda>p. pattern_found p ''rate limit'') RATE_LIMIT_PATTERNS = Some (LimitPattern ''rate limit'' UNKNOWN_KIND)" by code_simp
  have "limit_state_for_kind (JStr UNKNOWN_KIND) = LIMIT_UNKNOWN_STATE" by code_simp
  then show ?thesis
    by (simp add: rate_limit_signature_in_text_def hit retry_after_in_text_def reset_at_in_text_def none LimitPattern_def plain_evidence_def)
qed

end
