(* ===== verification/GF_Rate_Faults.thy ===== *)
theory GF_Rate_Faults
  imports GF_Rate_Counts
begin

text \<open>
  Where the report says less or more than its documentation, and the verdicts the limit signatures lead to.
\<close>

section \<open>A record that cannot be read\<close>

lemma read_records_corrupt: "(p, Inl detail) \<in> set files \<Longrightarrow> \<exists>e. read_records files = Inl e"
proof (induction files)
  case (Cons f files)
  obtain p' c where f: "f = (p', c)" by force
  show ?case
  proof (cases "f = (p, Inl detail)")
    case False
    then obtain e where "read_records files = Inl e" using Cons by auto
    then show ?thesis by (auto simp: f split: sum.splits)
  qed (simp add: read_record_def)
qed simp

text \<open>
  One unreadable record lifts every walk-back. If any JSON file of the ledger cannot be read, the report is empty
  and admission uses the configured caps, however many workers are failing on a limit: the scan refuses to vouch for what
  it read, and its caller takes the refusal for no pressure.
\<close>

lemma unreadable_record_lifts_walkback:
  assumes "(name, Inl detail) \<in> set files" "json_suffix name"
  shows "adaptive_agent_cap agent base (map gate_entry (current_rate_pressure env caps billing runs (Runs files) policy)) = (base, None)"
proof -
  have "(runs @ ''/'' @ name, Inl detail) \<in> set (map (\<lambda>(n, c). (runs @ ''/'' @ n, c)) (sort_key fst (filter (\<lambda>(n, _). json_suffix n) files)))"
    using assms by force
  from read_records_corrupt [OF this] obtain e where "collect_records runs (Runs files) = Inl e" by (auto simp: collect_records_def)
  then have "current_rate_pressure env caps billing runs (Runs files) policy = []"
    by (auto simp: current_rate_pressure_def pressure_report_def split: sum.splits)
  then show ?thesis by (simp add: adaptive_agent_cap_def)
qed

definition demo_files :: "(string \<times> (string + json)) list" where
  "demo_files = [(''a.json'', Inr demo_failure), (''b.json'', Inr demo_failure), (''c.json'', Inr demo_failure)]"

lemma unreadable_record_lifts_walkback_witness:
  "fst (adaptive_agent_cap ''codex'' 18 (map gate_entry
      (current_rate_pressure demo_quota_env COMMITTED_AGENT_CAPS JNull ''runs.d'' (Runs demo_files) (rate_pressure_policy JNull JNull)))) = 9
   \<and> fst (adaptive_agent_cap ''codex'' 18 (map gate_entry
      (current_rate_pressure demo_quota_env COMMITTED_AGENT_CAPS JNull ''runs.d'' (Runs ((''d.json'', Inl ''truncated'') # demo_files))
        (rate_pressure_policy JNull JNull)))) = 18"
proof
  show "fst (adaptive_agent_cap ''codex'' 18 (map gate_entry
      (current_rate_pressure demo_quota_env COMMITTED_AGENT_CAPS JNull ''runs.d'' (Runs demo_files) (rate_pressure_policy JNull JNull)))) = 9"
    by code_simp
  have "(''d.json'', Inl ''truncated'') \<in> set ((''d.json'', Inl ''truncated'') # demo_files)" by simp
  from unreadable_record_lifts_walkback [OF this] show "fst (adaptive_agent_cap ''codex'' 18 (map gate_entry
      (current_rate_pressure demo_quota_env COMMITTED_AGENT_CAPS JNull ''runs.d'' (Runs ((''d.json'', Inl ''truncated'') # demo_files))
        (rate_pressure_policy JNull JNull)))) = 18"
    by (simp add: json_suffix_def)
qed

section \<open>Two entries on one label\<close>

lemma codex_labels [simp]: "normalize_agent ''codex'' = ''codex''" "cap_pool ''codex'' = ''codex''"
  by code_simp+

lemma agent_entry_labels: "fst (resolve_key (Some pm) (''agent:codex'')) = [''codex'']"
proof -
  have "budget_key_for_agent l (Some pm) \<noteq> Some ''agent:codex''" for l by (auto simp: budget_key_forms)
  then have "label_group (Some pm) (''agent:codex'') = concat (map (\<lambda>l. if ''codex'' = l then [l] else []) (map fst AGENT_TO_PROVIDER))"
    by (simp add: label_group_def)
  also have "\<dots> = [''codex'']" by code_simp
  finally show ?thesis by (simp add: resolve_key_def after_prefix_def)
qed

text \<open>
  C24. Pressure on a model masks an exhausted quota. When a model at capacity is reported more often than the
  provider's limit, the entry of the model comes first, and the cap it halves hides the hard stop behind it:
  admission keeps starting workers on a provider it would have closed had the model not been busy as well.
\<close>

theorem model_capacity_masks_hard_stop:
  assumes "3 \<le> c" "c < c'" "hard_kinds stuck" "halved caps ''codex'' < base"
    and "distinct (map fst (pm_labels pm))" "map_of (pm_labels pm) ''codex'' = None"
  shows "let es = recommend [(''provider:openai'', c), (''agent:codex'', c')] caps 3 (Some pm);
             gate = (\<lambda>e. gate_entry (decorate_entry e stuck))
         in fst (adaptive_agent_cap ''codex'' base (map gate es)) = halved caps ''codex''
            \<and> fst (adaptive_agent_cap ''codex'' base (map gate (filter (\<lambda>e. re_scope e \<noteq> ''agent'') es))) = 0"
proof -
  let ?a = "recommend_entry caps (Some pm) (''agent:codex'', c')" and ?p = "recommend_entry caps (Some pm) (''provider:openai'', c)"
  let ?gate = "\<lambda>e. gate_entry (decorate_entry e stuck)"
  have es: "recommend [(''provider:openai'', c), (''agent:codex'', c')] caps 3 (Some pm) = [?a, ?p]"
    using assms(1,2) by (simp add: recommend_def)
  have scopes: "entry_scope ''agent:codex'' = ''agent''" "entry_scope ''provider:openai'' = ''provider''" by (simp_all add: entry_scope_def)
  have a: "stops (?gate ?a) = False" "entry_caps (?gate ?a) = [(''codex'', halved caps ''codex'')]" "pe_labels (?gate ?a) = [''codex'']"
    "pe_scope (?gate ?a) = Some ''agent''"
    by (simp_all add: stops_def entry_caps_def gate_entry_def scopes agent_entry_labels decorate_entry_def Let_def)
  have "budget_key_for_agent ''codex'' (Some pm) = Some ''provider:openai''"
    using assms(6) by (simp add: budget_key_for_agent_def provider_for_def AGENT_TO_PROVIDER_def)
  then have mem: "''codex'' \<in> set (fst (resolve_key (Some pm) ''provider:openai''))"
    using provider_scope_labels [OF scopes(2) assms(5)] by simp
  then have ne: "fst (resolve_key (Some pm) ''provider:openai'') \<noteq> []" by auto
  have zero: "map_of (map (\<lambda>l. (l, 0)) ls) ''codex'' = Some (0::int)" if "''codex'' \<in> set ls" for ls
    using that by (induction ls) auto
  have p: "stops (?gate ?p)" "map_of (entry_caps (?gate ?p)) ''codex'' = Some 0"
    "''codex'' \<in> normalize_agent ` set (pe_labels (?gate ?p))" "pe_scope (?gate ?p) = Some ''provider''"
    using assms(3) mem ne zero [OF mem] image_eqI [of "''codex''" normalize_agent "''codex''", OF _ mem]
    by (simp_all add: stops_def entry_caps_def gate_entry_def scopes decorate_entry_def Let_def)
  have pos: "1 \<le> halved caps ''codex''" by (simp add: halved_def)
  have first: "adaptive_cap ''codex'' ''codex'' base (?gate ?a # rest) = (halved caps ''codex'', Some (?gate ?a))" for rest
    using a(1) pos assms(4) unfolding stops_def
    by (simp add: a(3,4) Let_def or_else_def a(2) [unfolded entry_caps_def] positive_or_def)
  have second: "fst (adaptive_cap ''codex'' ''codex'' base [?gate ?p]) = 0"
    using p(1,3) pos assms(4) unfolding stops_def
    by (simp add: p(4) Let_def or_else_def p(2) [unfolded entry_caps_def])
  show ?thesis unfolding es Let_def adaptive_agent_cap_def codex_labels
    using first second by (simp add: scopes)
qed

text \<open>A worker whose tail says the quota is gone.\<close>

definition demo_stuck :: stuck_worker where
  "demo_stuck = \<lparr>sw_record = [], sw_provider = Some ''openai'', sw_info = \<lparr>qi_signature = ''usage limit'', qi_kind = EXHAUSTED,
     qi_state = QUOTA_EXHAUSTED_STATE, qi_reset_at = None, qi_retry_after = None, qi_tail_path = None, qi_tail_mtime = None, qi_excerpt = []\<rparr>\<rparr>"

lemma model_capacity_masks_hard_stop_witness:
  "fst (adaptive_agent_cap ''codex'' 18 (map (\<lambda>e. gate_entry (decorate_entry e [demo_stuck]))
      (recommend [(''provider:openai'', 3), (''agent:codex'', 4)] COMMITTED_AGENT_CAPS 3 (Some empty_pool_map)))) = halved COMMITTED_AGENT_CAPS ''codex''
   \<and> halved COMMITTED_AGENT_CAPS ''codex'' = 9"
proof -
  have nine: "halved COMMITTED_AGENT_CAPS ''codex'' = 9" by code_simp
  have "hard_kinds [demo_stuck]" by (simp add: hard_kinds_def demo_stuck_def)
  from model_capacity_masks_hard_stop [OF _ _ this, of 3 4 COMMITTED_AGENT_CAPS 18 empty_pool_map] show ?thesis
    by (simp add: nine empty_pool_map_def Let_def)
qed

section \<open>Excluded failures that count\<close>

lemma blocked_status:
  assumes "startswith st ''blocked''" "jget s ''state'' = JStr st" "\<not> is_terminal_state (jget r ''state'')"
  shows "pressure_state r (JObj s) = Inr ''blocked''"
proof -
  have st: "st \<noteq> []" using assms(1) by auto
  have s: "s \<noteq> []" using assms(2) by (auto simp: jget_def)
  have n: "normalize_dispatch_state (JStr st) = Some ''blocked''" using assms(1) st by (simp add: normalize_dispatch_state_def)
  moreover have "''blocked'' \<in> TERMINAL_STATES" by code_simp
  ultimately have "is_terminal_state (JStr st)" by (simp add: is_terminal_state_def)
  moreover have "casefold ''blocked'' = ''blocked''" by code_simp
  ultimately show ?thesis using assms(2,3) n s by (simp add: pressure_state_def Let_def)
qed

text \<open>
  C25. Excluded failures count when only the status file knows them. The capacity gate's own refusals and missing
  credentials are left out of the pressure on purpose; but when the ledger record is still open and the worker's
  status file carries such a state, the state is read as plain \<open>blocked\<close>, the text is scanned, and a limit word in it
  counts against the provider. The same state on the record itself never counts.
\<close>

theorem excluded_block_counts_through_status:
  assumes "st = ''blocked_capacity'' \<or> st = ''blocked_auth''" "jget s ''state'' = JStr st" "\<not> is_terminal_state (jget r ''state'')"
    and "status_haystack (JObj s) = Inr h" "full_haystack r h \<noteq> []" "rate_limit_signature_in_text zone (full_haystack r h) = Some e"
  shows "detect_pressure_scope zone r (JObj s) = Inr (Some (le_scope e))
     \<and> detect_pressure_scope zone (jput ''state'' (JStr st) r) (JObj s) = Inr None"
proof
  have "startswith st ''blocked''" using assms(1) by auto
  from blocked_status [OF this assms(2,3)] show "detect_pressure_scope zone r (JObj s) = Inr (Some (le_scope e))"
    using assms(4-6) by (simp add: detect_pressure_scope_def scanned_states_def Let_def)
  have own: "casefold st = st" "is_terminal_state (JStr st)" "\<not> is_limit_state (JStr st)" "st \<notin> scanned_states" "st \<noteq> ''blocked_session_limit''"
    using assms(1) by (elim disjE; simp only:; code_simp)+
  have "pressure_state (jput ''state'' (JStr st) r) (JObj s) = Inr st"
    using own assms(1) by (auto simp: pressure_state_def text_or_empty_def py_text_def Let_def)
  then show "detect_pressure_scope zone (jput ''state'' (JStr st) r) (JObj s) = Inr None"
    using own by (simp add: detect_pressure_scope_def)
qed

text \<open>The other side of the same reading: a session limit known only to the status file is not seen as one.\<close>

lemma status_session_limit_missed:
  assumes "jget s ''state'' = JStr ''blocked_session_limit''" "\<not> is_terminal_state (jget r ''state'')" "\<not> truthy (jget r ''error'')"
    "status_haystack (JObj s) = Inr []"
  shows "detect_pressure_scope zone r (JObj s) = Inr None"
  using blocked_status [OF _ assms(1,2)] assms(3,4)
  by (simp add: detect_pressure_scope_def scanned_states_def full_haystack_def Let_def)

definition demo_open :: dict where
  "demo_open = [(''agent'', JStr ''codex''), (''state'', JStr ''running'')]"

definition demo_wait :: dict where
  "demo_wait = [(''state'', JStr ''blocked_capacity''), (''error'', JStr ''rate limit'')]"

lemma excluded_block_counts_through_status_witness:
  "detect_pressure_scope (\<lambda>_. 0) demo_open (JObj demo_wait) = Inr (Some ACCOUNT_RATE_LIMIT_SCOPE)"
proof -
  have h: "status_haystack (JObj demo_wait) = Inr ''rate limit''" "full_haystack demo_open ''rate limit'' = ''rate limit''" by code_simp+
  have s: "jget demo_wait ''state'' = JStr ''blocked_capacity''" "\<not> is_terminal_state (jget demo_open ''state'')" by code_simp+
  from excluded_block_counts_through_status [of "''blocked_capacity''" demo_wait demo_open "''rate limit''" "\<lambda>_. 0", OF _ s h(1), unfolded h(2), OF _ _ plain_limit]
  show ?thesis by (simp add: plain_evidence_def)
qed

end
