(* ===== verification/GF_Time_Order.thy ===== *)
theory GF_Time_Order
  imports GF_Time_Roundtrip
begin

text \<open>
  Timestamps compared as texts. Two instants written to the second by the same writer compare as strings the
  way they compare as instants, over the whole calendar.
\<close>

section \<open>Strings of equal length\<close>

lemma less_append:
  "length xs = length ys \<Longrightarrow> (xs @ s < ys @ t) = (xs < ys \<or> xs = ys \<and> s < (t :: 'a :: linorder list))"
  by (induction xs ys rule: list_induct2) auto

lemma pad_digits_less: "v < w \<Longrightarrow> w < 10 ^ n \<Longrightarrow> pad_digits n v < pad_digits n w"
proof (induction n arbitrary: v w)
  case (Suc n)
  consider "v div 10 < w div 10" | "v div 10 = w div 10" "v mod 10 < w mod 10"
    using Suc.prems(1) by (metis div_le_mono div_mult_mod_eq less_le nat_less_le add_less_cancel_left)
  then show ?case
  proof cases
    case 1
    moreover have "w div 10 < 10 ^ n" using Suc.prems(2) by (simp add: less_mult_imp_div_less mult.commute)
    ultimately show ?thesis using Suc.IH by (simp add: less_append)
  next
    case 2
    then show ?thesis by (simp add: less_append less_char_def pad_digit_code)
  qed
qed simp

section \<open>The calendar is ordered\<close>

lemma div_pred:
  assumes "0 < (k :: int)"
  shows "z div k = (z - 1) div k + (if z mod k = 0 then 1 else 0)"
proof (cases "z mod k = 0")
  case True
  then have "z - 1 = k * (z div k - 1) + (k - 1)" using mult_div_mod_eq [of k z] by (simp add: algebra_simps)
  then have "(z - 1) div k = z div k - 1" using assms by (intro int_div_pos_eq [where r = "k - 1"]) simp_all
  with True show ?thesis by simp
next
  case False
  have "z - 1 = k * (z div k) + (z mod k - 1)" using mult_div_mod_eq [of k z] by simp
  moreover have "0 \<le> z mod k - 1" "z mod k - 1 < k" using False assms pos_mod_bound [of k z] pos_mod_sign [of k z] by linarith+
  ultimately have "(z - 1) div k = z div k" by (intro int_div_pos_eq [where r = "z mod k - 1"])
  with False show ?thesis by simp
qed

lemma year_sum:
  "d4 = e4 + i4 \<Longrightarrow> d100 = e100 + i100 \<Longrightarrow> d400 = e400 + i400 \<Longrightarrow> s = 365 + i4 - i100 + i400 \<Longrightarrow>
   y * 365 + d4 - d100 + d400 = (y - 1) * 365 + e4 - e100 + e400 + (s :: int)"
  by simp

lemma leap_count:
  "(C \<Longrightarrow> B) \<Longrightarrow> (B \<Longrightarrow> A) \<Longrightarrow> (if A \<and> (\<not> B \<or> C) then 366 else 365) =
   365 + (if A then 1 else 0) - (if B then 1 else 0) + (if C then 1 else (0 :: int))"
  by (cases A; cases B; cases C) simp_all

lemma before_next_year: "days_before_year (y + 1) = days_before_year y + sum_list (month_lengths y)"
proof -
  have imp: "y mod 400 = 0 \<Longrightarrow> y mod 100 = 0" "y mod 100 = 0 \<Longrightarrow> y mod 4 = 0"
    unfolding mod_eq_0_iff_dvd by (rule dvd_trans [of 100 400], simp, assumption) (rule dvd_trans [of 4 100], simp, assumption)
  have leap: "sum_list (month_lengths y) = 365 + (if y mod 4 = 0 then 1 else 0)
     - (if y mod 100 = 0 then 1 else 0) + (if y mod 400 = 0 then 1 else 0)"
    unfolding year_length leap_year_def by (rule leap_count [OF imp])
  have "days_before_year (y + 1) = y * 365 + y div 4 - y div 100 + y div 400" by (simp add: days_before_year_def)
  also have "\<dots> = days_before_year y + sum_list (month_lengths y)" unfolding days_before_year_def
    by (rule year_sum [OF div_pred [of 4 y, OF zero_less_numeral] div_pred [of 100 y, OF zero_less_numeral]
        div_pred [of 400 y, OF zero_less_numeral] leap])
  finally show ?thesis .
qed

lemma before_year_mono:
  assumes "y \<le> y'" shows "days_before_year y \<le> days_before_year y'"
  using assms
proof (induction y' rule: int_ge_induct)
  case (step i)
  have "0 \<le> sum_list (month_lengths i)" by (simp add: year_length)
  then show ?case using step before_next_year [of i] by linarith
qed simp

lemma month_lengths_pos: "x \<in> set (month_lengths y) \<Longrightarrow> 0 \<le> x"
  by (auto simp: month_lengths_def)

lemma sum_take_mono:
  assumes "i \<le> j" "\<And>x. x \<in> set xs \<Longrightarrow> 0 \<le> (x :: int)"
  shows "sum_list (take i xs) \<le> sum_list (take j xs)"
proof -
  have "take j xs = take i xs @ take (j - i) (drop i xs)" using assms(1) by (metis le_add_diff_inverse take_add)
  moreover have "0 \<le> sum_list (take (j - i) (drop i xs))"
    using assms(2) by (intro sum_list_nonneg) (meson in_set_dropD in_set_takeD)
  ultimately show ?thesis by simp
qed

lemma month_end:
  assumes "valid_date y m d"
  shows "days_before_month y m + d \<le> sum_list (take m (month_lengths y))" "0 \<le> days_before_month y m"
proof -
  have m: "m - 1 < length (month_lengths y)" "Suc (m - 1) = m" using assms by (auto simp: valid_date_def month_lengths_def)
  have "sum_list (take m (month_lengths y)) = days_before_month y m + days_in_month y m"
    using take_Suc_conv_app_nth [OF m(1)] unfolding m(2) by (simp add: days_before_month_def days_in_month_def)
  then show "days_before_month y m + d \<le> sum_list (take m (month_lengths y))" using assms by (simp add: valid_date_def)
  show "0 \<le> days_before_month y m" unfolding days_before_month_def
    by (intro sum_list_nonneg) (meson in_set_takeD month_lengths_pos)
qed

lemma dates_ordered:
  assumes "valid_date y m d" "valid_date y' m' d'" "ymd2ord y m d < ymd2ord y' m' d'"
  shows "y < y' \<or> y = y' \<and> (m < m' \<or> m = m' \<and> d < d')"
proof (rule ccontr)
  assume neg: "\<not> ?thesis"
  have "sum_list (take m' (month_lengths y')) \<le> sum_list (take 12 (month_lengths y'))"
    using assms(2) month_lengths_pos by (intro sum_take_mono) (auto simp: valid_date_def)
  then have top: "days_before_month y' m' + d' \<le> sum_list (month_lengths y')"
    using month_end(1) [OF assms(2)] by (simp add: month_lengths_def)
  have d: "1 \<le> d" using assms(1) by (simp add: valid_date_def)
  consider "y' < y" | "y = y'" "m' < m" | "y = y'" "m = m'" "d' \<le> d" using neg by force
  then show False
  proof cases
    case 1
    then have "days_before_year (y' + 1) \<le> days_before_year y" by (intro before_year_mono) simp
    then show False using before_next_year [of y'] top d month_end(2) [OF assms(1)] assms(3) by (simp add: ymd2ord_def)
  next
    case 2
    have "sum_list (take m' (month_lengths y')) \<le> sum_list (take (m - 1) (month_lengths y'))"
      using 2 month_lengths_pos by (intro sum_take_mono) auto
    then have "days_before_month y' m' + d' \<le> days_before_month y m"
      using month_end(1) [OF assms(2)] 2(1) by (simp add: days_before_month_def)
    then show False using assms(3) 2(1) d by (simp add: ymd2ord_def)
  next
    case 3
    then show False using assms(3) by (simp add: ymd2ord_def)
  qed
qed

lemma days_bound: "valid_date y m d \<Longrightarrow> nat y < 10 ^ 4 \<and> m < 10 ^ 2 \<and> nat d < 10 ^ 2 \<and> 0 \<le> y \<and> 0 \<le> d"
proof -
  assume v: "valid_date y m d"
  have "m \<in> {1..12}" using v by (auto simp: valid_date_def)
  then have "days_in_month y m \<le> 31" unfolding days_in_month_def month_lengths_def
    by (auto simp: nth_Cons' split: if_splits)
  then show ?thesis using v by (auto simp: valid_date_def)
qed

section \<open>Stamps\<close>

definition stamp :: "int \<Rightarrow> string" where
  "stamp t = iso_date (t div us_per_day) @ ''T'' @ iso_clock (t mod us_per_day div us_per_s)"

lemma iso_date_less:
  assumes "1 \<le> a" "a < b" "b \<le> 3652059"
  shows "iso_date a < iso_date b"
proof -
  obtain y m d where o: "ord2ymd a = (y, m, d)" by (metis prod_cases3)
  obtain y' m' d' where o': "ord2ymd b = (y', m', d')" by (metis prod_cases3)
  have v: "valid_date y m d" "ymd2ord y m d = a" using ord2ymd_valid [OF _ _ o] assms by simp_all
  have v': "valid_date y' m' d'" "ymd2ord y' m' d' = b" using ord2ymd_valid [OF _ _ o'] assms by simp_all
  have cmp: "y < y' \<or> y = y' \<and> (m < m' \<or> m = m' \<and> d < d')"
    using dates_ordered [OF v(1) v'(1)] v(2) v'(2) assms(2) by simp
  note b = days_bound [OF v(1)] days_bound [OF v'(1)]
  have "y < y' \<Longrightarrow> pad_digits 4 (nat y) < pad_digits 4 (nat y')" "m < m' \<Longrightarrow> pad_digits 2 m < pad_digits 2 m'"
    "d < d' \<Longrightarrow> pad_digits 2 (nat d) < pad_digits 2 (nat d')"
    using b by (auto intro!: pad_digits_less)
  with cmp show ?thesis unfolding iso_date_def o o' prod.case by (auto simp: less_append)
qed

lemma clock_order:
  assumes "(h * 60 + m) * 60 + s < (h' * 60 + m') * 60 + (s' :: int)"
    and "0 \<le> m" "m < 60" "0 \<le> s" "s < 60" "0 \<le> m'" "m' < 60" "0 \<le> s'" "s' < 60"
  shows "h < h' \<or> h = h' \<and> (m < m' \<or> m = m' \<and> s < s')"
proof -
  consider "h < h'" | "h = h'" "m < m'" | "h = h'" "m = m'" | "h = h'" "m' < m" | "h' < h" by linarith
  then show ?thesis using assms by cases auto
qed

lemma clock_text_less:
  assumes "(h * 60 + m) * 60 + s < (h' * 60 + m') * 60 + (s' :: int)" "0 \<le> h" "h' < 24"
    and "0 \<le> m" "m < 60" "0 \<le> s" "s < 60" "0 \<le> m'" "m' < 60" "0 \<le> s'" "s' < 60"
  shows "pad_digits 2 (nat h) @ '':'' @ pad_digits 2 (nat m) @ '':'' @ pad_digits 2 (nat s)
    < pad_digits 2 (nat h') @ '':'' @ pad_digits 2 (nat m') @ '':'' @ pad_digits 2 (nat s')"
proof -
  have "x < y \<Longrightarrow> 0 \<le> x \<Longrightarrow> y < 100 \<Longrightarrow> pad_digits 2 (nat x) < pad_digits 2 (nat y)" for x y :: int
    by (rule pad_digits_less) (simp_all add: nat_less_iff)
  then show ?thesis using clock_order [OF assms(1,4-11)] assms by (auto simp: less_append)
qed

lemma iso_clock_less:
  assumes "0 \<le> a" "a < b" "b < 86400"
  shows "iso_clock a < iso_clock b"
proof -
  have ab: "a < 86400" "0 \<le> b" using assms by linarith+
  note a = clock_parts [OF assms(1) ab(1)] and b = clock_parts [OF ab(2) assms(3)]
  have lt: "(a div 3600 * 60 + a div 60 mod 60) * 60 + a mod 60 < (b div 3600 * 60 + b div 60 mod 60) * 60 + b mod 60"
    unfolding a(3,4) b(3,4) by (rule assms(2))
  have pos: "(0 :: int) < 60" by simp
  show ?thesis unfolding iso_clock_def
    by (rule clock_text_less [OF lt a(1) b(2) pos_mod_sign [OF pos] pos_mod_bound [OF pos] pos_mod_sign [OF pos] pos_mod_bound [OF pos]
        pos_mod_sign [OF pos] pos_mod_bound [OF pos] pos_mod_sign [OF pos] pos_mod_bound [OF pos]])
qed

lemma length_iso_date: "1 \<le> n \<Longrightarrow> n \<le> 3652059 \<Longrightarrow> length (iso_date n) = 10"
  using parse_iso_date by blast

lemma length_iso_clock [simp]: "length (iso_clock s) = 8"
  by (simp add: iso_clock_def)

lemma stamp_less:
  assumes "1 \<le> t div us_per_day" "t div us_per_s < u div us_per_s" "u div us_per_day \<le> 3652059"
  shows "stamp t @ rest < stamp u @ rest'"
proof -
  have day: "x div us_per_day = x div us_per_s div 86400" "x mod us_per_day div us_per_s = x div us_per_s mod 86400" for x
  proof -
    show *: "x div us_per_day = x div us_per_s div 86400" by (simp add: us_per_day_def us_per_s_def zdiv_zmult2_eq [symmetric])
    have "x mod us_per_day = us_per_s * (x div us_per_s mod 86400) + x mod us_per_s"
      using zmod_zmult2_eq [of 86400 x 1000000] by (simp add: us_per_day_def us_per_s_def)
    then show "x mod us_per_day div us_per_s = x div us_per_s mod 86400" by (simp add: us_per_s_def)
  qed
  let ?a = "t div us_per_s" and ?b = "u div us_per_s"
  have le: "?a div 86400 \<le> ?b div 86400" by (rule zdiv_mono1) (use assms(2) in simp_all)
  have len: "length (iso_date (?a div 86400)) = length (iso_date (?b div 86400))"
    using assms le by (simp add: length_iso_date day)
  consider "?a div 86400 < ?b div 86400" | "?a div 86400 = ?b div 86400" "?a mod 86400 < ?b mod 86400"
    using le assms(2) mult_div_mod_eq [of 86400 ?a] mult_div_mod_eq [of 86400 ?b] by linarith
  then show ?thesis
  proof cases
    case 1
    then have "iso_date (?a div 86400) < iso_date (?b div 86400)" using assms by (intro iso_date_less) (simp_all add: day)
    then show ?thesis by (simp add: stamp_def day less_append len)
  next
    case 2
    then have "iso_clock (?a mod 86400) < iso_clock (?b mod 86400)" by (intro iso_clock_less) simp_all
    then show ?thesis using 2(1) by (simp add: stamp_def day less_append len)
  qed
qed

end
