(* ===== verification/GF_Rate_Fade.thy ===== *)
theory GF_Rate_Fade
  imports GF_Rate_Counts GF_Time_Order
begin

text \<open>
  Rate pressure fades by itself, and the verdicts a limit leads to can be retried.
\<close>

section \<open>A quiet ledger\<close>

text \<open>
  A record written last at \<open>t\<close>, before the window opened, whose worker is not known to be alive and whose tail was
  not touched inside the window.
\<close>

definition window_start :: "quota_env \<Rightarrow> int \<Rightarrow> int" where
  "window_start env window = qv_now env - window * us_per_s"

definition quiet :: "quota_env \<Rightarrow> int \<Rightarrow> int \<Rightarrow> dict \<Rightarrow> bool" where
  "quiet env window t r \<longleftrightarrow> jget r ''updated_at'' = JStr (iso_seconds t) \<and> 1 \<le> t div us_per_day
     \<and> t div us_per_s < window_start env window div us_per_s
     \<and> jget r ''worker_alive'' \<noteq> JBool True \<and> jget r ''worker_still_alive'' \<noteq> JBool True
     \<and> jget r ''classification'' \<noteq> JStr ''expected_live''
     \<and> (case tail_path_from_record env r of None \<Rightarrow> True
        | Some p \<Rightarrow> (case snd (qv_tails env p) of None \<Rightarrow> True | Some m \<Rightarrow> instant_of_seconds m < of_int (window_start env window)))"

lemma iso_seconds_stamp: "iso_seconds t = stamp t @ ''+00:00''"
  by (simp add: iso_seconds_def stamp_def)

lemma cutoff_stamp: "cutoff_iso (qv_now env) window = stamp (window_start env window)"
  by (simp add: cutoff_iso_def stamp_def window_start_def Let_def)

lemma quiet_text_old:
  assumes "quiet env window t r" "window_start env window div us_per_day \<le> 3652059"
  shows "iso_seconds t < cutoff_iso (qv_now env) window"
  using stamp_less [of t "window_start env window" "''+00:00''" "[]"] assms
  by (simp add: quiet_def iso_seconds_stamp cutoff_stamp)

lemma earlier_second: "t div us_per_s < u div us_per_s \<Longrightarrow> t - t mod us_per_s < (u :: int)"
proof -
  assume a: "t div us_per_s < u div us_per_s"
  have "t - t mod us_per_s = t div us_per_s * us_per_s" "u = u div us_per_s * us_per_s + u mod us_per_s"
    by (simp_all add: minus_mod_eq_div_mult)
  moreover have "0 \<le> u mod us_per_s" "(t div us_per_s) * us_per_s < (u div us_per_s) * us_per_s" using a by (simp_all add: us_per_s_def)
  ultimately show ?thesis by linarith
qed

lemma quiet_time:
  assumes "quiet env window t r" "window_start env window div us_per_day \<le> 3652059"
  shows "parse_record_time r = Some (of_int (t - t mod us_per_s))" "t - t mod us_per_s < window_start env window"
proof -
  show "t - t mod us_per_s < window_start env window" using assms(1) by (intro earlier_second) (simp add: quiet_def)
  have "t div us_per_day \<le> window_start env window div us_per_day"
  proof -
    have "t \<le> window_start env window"
    proof (rule ccontr)
      assume "\<not> t \<le> window_start env window"
      then have "window_start env window div us_per_s \<le> t div us_per_s" by (intro zdiv_mono1) (simp_all add: us_per_s_def)
      then show False using assms(1) by (simp add: quiet_def)
    qed
    then show ?thesis by (intro zdiv_mono1) (simp_all add: us_per_day_def us_per_s_def)
  qed
  then have "t div us_per_day \<le> 3652059" using assms(2) by linarith
  then have "fromisoformat (replace_Z (iso_seconds t)) = Some \<lparr>dt_local = t - t mod us_per_s, dt_offset = Some 0\<rparr>"
    using iso_text_reads [of t "[]" 0] assms(1) by (simp add: parse_fraction_def iso_text_def iso_seconds_def quiet_def)
  moreover have "iso_seconds t \<noteq> []" by (simp add: iso_seconds_def)
  ultimately show "parse_record_time r = Some (of_int (t - t mod us_per_s))"
    using assms(1) by (simp add: parse_record_time_def quiet_def ledger_parse_utc_def time_value_def utc_instant_def)
qed

lemma quiet_not_counted:
  assumes "quiet env window t r" "window_start env window div us_per_day \<le> 3652059"
  shows "counted_key zone files (cutoff_iso (qv_now env) window) pm r = Inr None"
proof -
  have "recent_text (cutoff_iso (qv_now env) window) r = Inr False"
    using quiet_text_old [OF assms] assms(1) by (simp add: recent_text_def quiet_def py_or_def Let_def iso_seconds_def)
  then show ?thesis by (simp add: counted_key_def)
qed

lemma tail_mtime: "record_quota_signature env r True = Some info \<Longrightarrow>
  \<exists>p. tail_path_from_record env r = Some p \<and> qi_tail_mtime info = snd (qv_tails env p)"
  by (auto simp: record_quota_signature_def tail_quota_signature_def info_of_def forget_kind_def Let_def
      split: option.splits if_splits prod.splits)

lemma quiet_not_stuck:
  assumes "quiet env window t r" "window_start env window div us_per_day \<le> 3652059"
  shows "stuck_info env window r = None"
proof (cases "record_quota_signature env r True")
  case (Some info)
  obtain p where p: "tail_path_from_record env r = Some p" "qi_tail_mtime info = snd (qv_tails env p)"
    using tail_mtime [OF Some] by blast
  have "\<not> record_recent_or_live env r info window"
    using quiet_time [OF assms] assms(1) p unfolding record_recent_or_live_def quiet_def window_start_def [symmetric]
    by (auto simp: Let_def not_le split: option.splits)
  then show ?thesis by (simp add: stuck_info_def Some)
qed (simp add: stuck_info_def)

lemma count_keys_none: "(\<And>r. r \<in> set rs \<Longrightarrow> key_of r = Inr None) \<Longrightarrow> count_keys key_of rs counts = Inr counts"
  by (induction rs) auto

lemma count_keys_none_or_error:
  "(\<And>r k. r \<in> set rs \<Longrightarrow> key_of r \<noteq> Inr (Some k)) \<Longrightarrow> (\<exists>e. count_keys key_of rs counts = Inl e) \<or> count_keys key_of rs counts = Inr counts"
  by (induction rs) (auto split: sum.splits option.splits)

text \<open>
  C21. Rate pressure fades by itself. Once every record of the ledger was last written before the window and no worker
  of it is alive or still writing its tail, the report is empty and admission uses the configured caps again: nothing
  of a walk-back is stored. The window is compared as text, which agrees with the order of the instants over the
  whole calendar.
\<close>

theorem quiet_ledger_restores_caps:
  assumes "collect_records runs dir = Inr records" "\<forall>r\<in>set records. \<exists>t. quiet env (pp_window policy) t r"
    and "window_start env (pp_window policy) div us_per_day \<le> 3652059"
  shows "adaptive_agent_cap agent base (map gate_entry (current_rate_pressure env caps billing runs dir policy)) = (base, None)"
proof -
  let ?w = "pp_window policy"
  have none: "pressure_per_provider (qv_zone env) (qv_files env) records ?w (qv_now env) pm = Inr []" for pm
    unfolding pressure_per_provider_def using assms(2) quiet_not_counted [OF _ assms(3)] by (intro count_keys_none) blast
  have "quota_key env ?w pm r \<noteq> Inr (Some k)" if "r \<in> set records" for pm r k
    using assms(2) that quiet_not_stuck [OF _ assms(3)] by (auto simp: quota_key_def split: sum.splits bool.splits)
  then have quota: "(\<exists>e. quota_pressure_per_provider env records ?w pm = Inl e) \<or> quota_pressure_per_provider env records ?w pm = Inr []" for pm
    unfolding quota_pressure_per_provider_def by (intro count_keys_none_or_error) blast
  have "current_rate_pressure env caps billing runs dir policy = []"
  proof (cases "agent_limit_pool_map billing")
    case (Inr pm)
    from quota [of "Some pm"] show ?thesis
      by (auto simp: current_rate_pressure_def pressure_report_def Inr assms(1) none merge_pressure_def recommend_def)
  qed (simp add: current_rate_pressure_def pressure_report_def)
  then show ?thesis by (simp add: adaptive_agent_cap_def)
qed

text \<open>The three failures of the account, twenty minutes later.\<close>

definition later_env :: quota_env where
  "later_env = demo_quota_env\<lparr>qv_now := 63930756060000000\<rparr>"

lemma quiet_ledger_restores_caps_witness:
  "adaptive_agent_cap ''codex'' 18 (map gate_entry
     (current_rate_pressure later_env COMMITTED_AGENT_CAPS JNull ''runs.d'' demo_seat_runs (rate_pressure_policy JNull JNull))) = (18, None)"
proof (rule quiet_ledger_restores_caps)
  show "collect_records ''runs.d'' demo_seat_runs = Inr [demo_seat_failure, demo_seat_failure, demo_seat_failure]" by code_simp
  have w: "pp_window (rate_pressure_policy JNull JNull) = 600" by code_simp
  have "iso_seconds 63930754800000000 = ''2026-11-19T07:00:00+00:00''" by code_simp
  then have t: "jget demo_seat_failure ''updated_at'' = JStr (iso_seconds 63930754800000000)" by (simp add: demo_seat_failure_def jget_def)
  have flags: "jget demo_seat_failure ''worker_alive'' = JNull" "jget demo_seat_failure ''worker_still_alive'' = JNull"
    "jget demo_seat_failure ''classification'' = JNull" "tail_path_from_record later_env demo_seat_failure = None" by code_simp+
  have since: "window_start later_env 600 = 63930755460000000" by code_simp
  have "quiet later_env 600 63930754800000000 demo_seat_failure"
    by (simp add: quiet_def t flags since us_per_day_def us_per_s_def)
  then show "\<forall>r\<in>set [demo_seat_failure, demo_seat_failure, demo_seat_failure]. \<exists>t. quiet later_env (pp_window (rate_pressure_policy JNull JNull)) t r"
    unfolding w by auto
  show "window_start later_env (pp_window (rate_pressure_policy JNull JNull)) div us_per_day \<le> 3652059"
    unfolding w since by (simp add: us_per_day_def us_per_s_def)
qed

section \<open>Verdicts\<close>

lemma table_kinds: "p \<in> set RATE_LIMIT_PATTERNS \<Longrightarrow> lp_kind p \<in> {EXHAUSTED, TRANSIENT, UNKNOWN_KIND}"
  by (auto simp: RATE_LIMIT_PATTERNS_def LimitPattern_def coded_def)

lemma kind_states:
  "limit_state_for_kind (JStr EXHAUSTED) = QUOTA_EXHAUSTED_STATE" "limit_state_for_kind (JStr TRANSIENT) = TRANSIENT_THROTTLE_STATE"
  "limit_state_for_kind (JStr UNKNOWN_KIND) = LIMIT_UNKNOWN_STATE"
  by code_simp+

lemma limit_states: "is_limit_state (JStr QUOTA_EXHAUSTED_STATE)" "is_limit_state (JStr TRANSIENT_THROTTLE_STATE)"
  "is_limit_state (JStr LIMIT_UNKNOWN_STATE)"
  by code_simp+

lemma evidence_kind:
  assumes "rate_limit_signature_in_text zone t = Some e"
  shows "le_kind e \<in> {EXHAUSTED, TRANSIENT, UNKNOWN_KIND}" "le_state e = limit_state_for_kind (JStr (le_kind e))"
    "le_kind e = UNKNOWN_KIND \<Longrightarrow> le_retry_after e = None"
proof -
  obtain p where p: "find (\<lambda>p. pattern_found p t) RATE_LIMIT_PATTERNS = Some p"
    "le_kind e = (if retry_after_in_text t \<noteq> None \<and> lp_kind p = UNKNOWN_KIND then TRANSIENT else lp_kind p)"
    "le_retry_after e = retry_after_in_text t" "le_state e = limit_state_for_kind (JStr (le_kind e))"
    using assms by (auto simp: rate_limit_signature_in_text_def Let_def split: option.splits)
  then have "p \<in> set RATE_LIMIT_PATTERNS" unfolding find_Some_iff by (metis nth_mem)
  then have "lp_kind p \<in> {EXHAUSTED, TRANSIENT, UNKNOWN_KIND}" by (rule table_kinds)
  then show "le_kind e \<in> {EXHAUSTED, TRANSIENT, UNKNOWN_KIND}" using p(2) by auto
  show "le_state e = limit_state_for_kind (JStr (le_kind e))" by (rule p(4))
  show "le_retry_after e = None" if "le_kind e = UNKNOWN_KIND"
    using that p(2,3) by (auto simp: TRANSIENT_def UNKNOWN_KIND_def split: if_splits)
qed

lemma payload_kind:
  assumes "le_kind e \<in> {EXHAUSTED, TRANSIENT, UNKNOWN_KIND}"
  shows "limit_kind_for_record (JObj [(''state'', JStr (limit_state_for_kind (JStr (le_kind e)))), (''error'', JObj (outcome_payload e st x r))])
    = Inr (Some (le_kind e))"
proof -
  have kinds: "fst ` set LIMIT_STATE_FOR_KIND = {EXHAUSTED, TRANSIENT, UNKNOWN_KIND}" by code_simp
  have legacy: "limit_state_for_kind (JStr (le_kind e)) \<noteq> LEGACY_RATE_LIMITED_STATE"
    using assms kind_states by (elim insertE emptyE; simp only:; code_simp)
  have "jget (outcome_payload e st x r) ''limit_kind'' = JStr (le_kind e)"
    by (simp add: outcome_payload_def evidence_get_def jget_def)
  then show ?thesis using assms legacy
    unfolding limit_kind_for_record_def evidence_sources_def
    by (simp add: kinds jget_def hashable_def str_in_def Let_def)
qed



text \<open>A reset time that names its month in full is not read: \<open>%b\<close> knows three letters.\<close>

lemma full_month_unread:
  assumes "length (group_of g ''month'') \<noteq> 3"
  shows "codex_local_time g = None"
proof -
  have "set (map length MONTH_ABBR) = {3}" by code_simp
  then have "length m = 3" if "m \<in> set MONTH_ABBR" for m using that by auto
  then have "month_number (group_of g ''month'') = None"
    using assms by (fastforce simp: month_number_def map_of_eq_None_iff casefold_def dest: set_zip_leftD)
  then show ?thesis by (simp add: codex_local_time_def Let_def)
qed

end
