(* ===== verification/Spec2Isabelle.thy ===== *)
theory Spec2Isabelle
  imports GF_States GF_Projection GF_Registry_Refinement GF_Capacity_Props
    GF_Time_Roundtrip GF_Task_Guards GF_Task_Text GF_Markers GF_Router_Props
    GF_Rate_Faults GF_Rate_Fade
begin

text \<open>
  goal-flight: a control plane that lets one controller session dispatch many coding workers. This development
  models its durable core in Isabelle/HOL and proves what the rest of the program relies on.

  \<^bold>\<open>The program and its parts.\<close> Everything durable lives in a SQLite state journal
  (\<open>scripts/goalflight_journal.py\<close>), in the machine-wide capacity file (\<open>scripts/goalflight_capacity.py\<close>), in the
  task store of a project (\<open>goalflight_task.py\<close>) and in small exchange directories
  (\<open>scripts/goalflight_acp_permits.py\<close>). A dispatch is prepared as an attempt in the journal, admitted by the
  capacity file, started and watched; its outcome is committed once as a terminal transition together with an
  outbox row; the outbox is projected to the mailbox of the controller that holds the label's lease; the
  controller reads by a cursor and acknowledges by advancing it. The tasks of the project follow the outcomes
  through dispatch breadcrumbs. While a worker runs, the client in front of it answers its permission requests,
  by policy or by asking the controller through files. Failures on a provider's limit lower the caps the capacity
  file admits by, until they are ten minutes old.

  \<^bold>\<open>Theories.\<close>

  \<^item> \<open>GF_Prelude\<close>, \<open>GF_Text\<close>: Python values, dicts, string methods, row tables with SELECT, UPDATE and INSERT, lines.
    \<open>GF_Regex\<close>: backtracking regular expressions with groups. \<open>GF_Time\<close>, \<open>GF_Time_Roundtrip\<close>, \<open>GF_Time_Order\<close>: ISO
    instants in microseconds, the two parsers that read them back, and the order of timestamps as texts.
  \<^item> \<open>GF_States\<close>: the state vocabulary of \<open>goalflight_dispatch_states.py\<close>.
  \<^item> \<open>GF_Txn\<close>: the bounded write transaction (\<open>domain_write\<close>) with busy retries, interleaved writers and rollback.
    \<open>GF_Journal\<close>: the tables as records and the schema checks.
  \<^item> \<open>GF_Attempts\<close>, \<open>GF_Attempt_History\<close>: prepare, rebind, start, mark running and terminal commit of an attempt, and
    all histories of them.
  \<^item> \<open>GF_Delivery\<close>, \<open>GF_Delivery_Lemmas\<close>, \<open>GF_Delivery_Props\<close>: mailbox rows, recording, peeking, advancing, draining
    and rehoming mail.
  \<^item> \<open>GF_Leases\<close>, \<open>GF_Lease_Lemmas\<close>, \<open>GF_Lease_Props\<close>: label leases by generations and nonces, listener coverage,
    attention, expiry. \<open>GF_Registry_Refinement\<close>: the abstract roster of labels the generation tables refine.
  \<^item> \<open>GF_Outbox\<close>, \<open>GF_Outbox_Props\<close>, \<open>GF_Projection\<close>: the terminal outbox, its batches, retries and quarantine, and the
    projection pass to the mailbox with failing carriers and other writers in between.
  \<^item> \<open>GF_Limits\<close>, \<open>GF_Capacity\<close>, \<open>GF_Admission\<close>, \<open>GF_Capacity_Lemmas\<close>, \<open>GF_Capacity_Props\<close>: agent limits
    (\<open>goalflight_agent_limits.py\<close>), capacity leases with liveness and pruning, admission and its waiting loop.
  \<^item> \<open>GF_Tasks\<close>, \<open>GF_Task_Store\<close>, \<open>GF_Task_Commands\<close>: items, derived status and frontier; publishing under a marker and
    id reservation; the commands. \<open>GF_Task_Lemmas\<close>, \<open>GF_Task_Growth\<close>, \<open>GF_Task_Props\<close>, \<open>GF_Task_Publish\<close>,
    \<open>GF_Task_Status\<close>, \<open>GF_Task_Guards\<close>: their histories, crash safety, status and guards. \<open>GF_Task_Text\<close>: the bytes
    of \<open>tasks.jsonl\<close>.
  \<^item> \<open>GF_Permits\<close>, \<open>GF_Permit_Race\<close>, \<open>GF_Permit_Props\<close>: the files of inline permissions, first run whole, then one
    system call at a time for concurrent controllers.
  \<^item> \<open>GF_Markers\<close>: fences, attention lines and causes of death of \<open>goalflight_terminal.py\<close>. \<open>GF_Router\<close>,
    \<open>GF_Router_Props\<close>: the permission router and liveness activity of \<open>goalflight_acp_client.py\<close>.
  \<^item> \<open>GF_Rate_Signatures\<close>: the signatures of provider limits, retry and reset times of a text
    (\<open>goalflight_rate_pressure.py\<close>). \<open>GF_Rate_Pressure\<close>: budget keys, billing pools, which failures count, the
    recommended walk-back. \<open>GF_Quota\<close>: workers stuck on a quota (\<open>goalflight_quota_stuck.py\<close>). \<open>GF_Pressure_Report\<close>: the
    report admission reads (\<open>current_rate_pressure\<close>), advisories, and the limit outcomes of a tail
    (\<open>goalflight_terminal.py\<close>). \<open>GF_Rate_Props\<close>, \<open>GF_Rate_Counts\<close>, \<open>GF_Rate_Faults\<close>, \<open>GF_Rate_Fade\<close>: what the report can
    do to a cap, what its counts stand on, where it errs, and that it fades.

  \<^bold>\<open>How state and operations correspond.\<close> A table is the list of its rows in rowid order and a row a record with a
  field per column; a handler that runs inside a transaction is a function from the journal to a value with the
  new journal, or to the exception it raises, and keeps the name of the Python function with the suffix
  \<open>_action\<close>. The capacity file and the task store are records passed through; every raise and early return is a
  branch. JSON objects are association lists; \<open>jget\<close> is \<open>dict.get\<close>. The map of the manifest gives the lines of
  each definition.

  \<^bold>\<open>What the lemmas show.\<close> For the journal: invariants of every reachable journal, that the first terminal outcome
  wins, that ended leases are fenced off, that mail is neither skipped nor lost, that projection is exact
  under retries, and that a transaction commits once or not at all. For capacity: the ceilings hold over all
  histories, workers not proved dead keep their slots, waiting returns. For tasks: ids are never reused, audit
  trails only grow, reviewed means reviewed, publishing survives crashes, the file is read back as written.
  For permissions: the first decision wins under every interleaving, answers name offered options, nothing out of
  scope is granted automatically, a pending question closes the gate, and every request is answered. For rate
  pressure: a cap is kept, halved or closed, by at least three failures on exactly its budget, and restored when they
  are old. This theory composes the race of the controllers with the loop of the worker. The theorems of kind error show
  where the code does not do what it means to; the findings of the manifest cite them.

  \<^bold>\<open>Interfaces.\<close> Locales state what one part relies on in another (\<open>sticky_register\<close> for the decision file,
  \<open>cap_report\<close> for the report admission reads, \<open>item_update\<close> for edits of the task store, and those of the lease and delivery theories); each is interpreted on the
  definitions of the component that provides it.

  \<^bold>\<open>Fuel and bounds.\<close> The retry loop of \<open>domain_write\<close> and the waiting loop of admission take fuel; with a clock that
  advances, the time budget divided by the least delay is enough, and the termination theorems prove it. The JSON
  decoder takes twice the length of its text, since every call consumes a character or is followed by one
  that does. The polling loop of a held permission takes the polls that fit into its two windows and two more.

  \<^bold>\<open>Parameters.\<close> What is outside \<open>src/\<close> or outside the process enters as arguments: clocks and random draws, SHA-256 and
  SHA-1 and the canonical JSON of a marker, process and boot probes, ledger records, the carrier that appends to a
  mailbox file, whether a publish completes, dies or fails, path resolution, what each poll finds on disk, the decoded
  files of the dispatch ledger, the excerpts of tails, and the offset of the local time zone.

  \<^bold>\<open>Approximations.\<close> Characters are code points below 256 and case folding is ASCII; floats are reals, without
  rounding and without the non-finite values; \<open>str()\<close> of lists and objects is modelled for the
  rate signatures only and that of floats not at all; a task command
  reads the clock once; mirroring and the legacy store of tasks are off; directories are healthy, so that
  reads fail only where a file is missing or malformed. Regular expressions of the rate signatures run on the matcher of
  \<open>GF_Regex\<close>; the others are written out as the functions that match them.

  \<^bold>\<open>Not modelled.\<close> The dispatch driver, the message board commands, the watch and wake processes, the ACP runner and
  transport, the ledger, usage accounting, the search for draft artefacts of stuck workers, journal migration and
  garbage collection, worktree pools and git guards, status, console and doctor reports, the fleet, setup, search and remote CI, and the import,
  harvest and rendering of tasks. Most of their lines drive processes, terminals, networks, git and SQLite, whose
  code is not in the repository; the decisions they rest on are the ones modelled here. They are listed
  with their reasons as components of the manifest.
\<close>

section \<open>Controllers, files and worker together\<close>

text \<open>
  The directory a worker polls while several controllers answer: every read finds at the decision path what some
  moment of the interleaving left there.
\<close>

definition polls_see :: "permit_env \<Rightarrow> request \<Rightarrow> nat list \<Rightarrow> race \<Rightarrow> bool" where
  "polls_see env rq sched r \<longleftrightarrow>
     (\<forall>k. \<forall>d\<in>{po_first (rq_polls rq k), po_last (rq_polls rq k)}.
        \<exists>n. map_of d (decision_path (rq_key rq)) = slot_node (rc_slot (run_race env (JStr (rq_key rq)) True (take n sched) r)))"

text \<open>
  C14. The worker obeys the first decision. While any number of controllers answer one held request at once, on a file
  system with hard links: if the worker goes ahead on more than its own policy, then an approval some controller
  brought stands at the decision path, it is what every reader sees to the end of the interleaving, and the
  option the worker takes is one it offered.
\<close>

theorem worker_obeys_first_decision:
  assumes "starting env (JStr (rq_key rq)) (rc_writers r)" "rc_slot r = None" "polls_see env rq sched r"
    and "request_permission fuel rq cl = Some (Allowed x, cl')" "policy_verdict rq cl \<noteq> Allow"
  shows "offers (rq_options rq) x \<and> (\<exists>obj\<in>fst ` set (rc_writers r). jget obj ''decision'' = JStr ''allow''
     \<and> visible (JStr (rq_key rq)) (run_race env (JStr (rq_key rq)) True sched r) = Some obj)"
  using assms(4)
proof (cases rule: request_allowed)
  case (inline rc c)
  let ?key = "JStr (rq_key rq)"
  obtain got deadline where got: "hold_loop (hold_of rq cl) fuel 0 False deadline = Some (Decided got)"
    "jget got ''decision'' = JStr ''allow''" "offers (rq_options rq) x"
    using await_allowed [OF inline(4)] inline(5) by auto
  obtain j d where d: "d \<in> {po_first (rq_polls rq j), po_last (rq_polls rq j)}" "read_decision d ?key = Some got"
    using hold_loop_decided [OF got(1)] by (auto simp: hold_of_def)
  then obtain n where n: "visible ?key (run_race env ?key True (take n sched) r) = Some got"
    using assms(3) unfolding polls_see_def visible_def read_decision_def py_str_def by (metis json.case(5))
  note calm = starting_calm [OF assms(1) disjI1 [OF assms(2)]]
  have "visible ?key (run_race env ?key True (take n sched @ drop n sched) r) = Some got"
    using answer_file.first_wins [OF calm] n unfolding run_race_def by blast
  moreover have "visible ?key r = None" using assms(2) by (simp add: visible_def slot_node_def)
  then have "got \<in> fst ` set (rc_writers r)" using answer_file.origin [OF calm] n unfolding run_race_def by fastforce
  ultimately show ?thesis using got by auto
qed (use assms(5) in simp)

text \<open>One controller approves while the worker polls for the second time.\<close>

definition demo_key :: string where
  "demo_key = ''s.T.00000000''"

definition demo_approval :: dict where
  "demo_approval = decision_payload demo_permit_env demo_key ''allow'' None"

definition demo_answering :: race where
  "demo_answering = \<lparr>rc_slot = None, rc_fresh = 7, rc_writers = [(demo_approval, LStat)]\<rparr>"

definition approved_dir :: pdir where
  "approved_dir = [(decision_path demo_key, payload_node demo_permit_env demo_approval)]"

definition approved_polls :: "nat \<Rightarrow> poll" where
  "approved_polls k = \<lparr>po_first = (if k = 0 then [] else approved_dir), po_ack = [], po_last = (if k = 0 then [] else approved_dir),
     po_acked_at = 0, po_checked_at = 0, po_cancelled = False\<rparr>"

definition held_request :: request where
  "held_request = (demo_call ''execute'' ''a.py'')\<lparr>rq_polls := approved_polls\<rparr>"

lemma approval_reads_back: "node_decision (JStr demo_key) (Some (payload_node demo_permit_env demo_approval)) = Some demo_approval"
  by (auto simp: node_decision_def node_json_def payload_node_def demo_permit_env_def MAX_JSON_BYTES_def valid_decision_def
      demo_approval_def decision_payload_def jget_def DECISIONS_def)

lemma held_key: "rq_key held_request = demo_key"
  unfolding held_request_def rq_key_def demo_key_def by code_simp

lemma approval_published: "rc_slot (run_race demo_permit_env (JStr demo_key) True [0, 0, 0] demo_answering) = Some (7, payload_node demo_permit_env demo_approval)"
  by (simp add: run_race_def race_step_def demo_answering_def slot_node_def slot_regular_def)

lemma approval_polled: "polls_see demo_permit_env held_request [0, 0, 0] demo_answering"
proof -
  have "\<exists>n. map_of d (decision_path demo_key) = slot_node (rc_slot (run_race demo_permit_env (JStr demo_key) True (take n [0, 0, 0]) demo_answering))"
    if "d = [] \<or> d = approved_dir" for d
    using that
  proof
    assume "d = []"
    then show ?thesis by (intro exI [of _ 0]) (simp add: run_race_def demo_answering_def slot_node_def)
  next
    assume "d = approved_dir"
    then show ?thesis using approval_published by (intro exI [of _ 3]) (simp add: approved_dir_def slot_node_def)
  qed
  then show ?thesis unfolding polls_see_def held_key by (auto simp: held_request_def approved_polls_def)
qed

lemma approval_obeyed:
  "\<exists>cl'. request_permission 2 held_request (demo_client True Guard_None) = Some (Allowed (JStr ''ok''), cl')"
  "policy_verdict held_request (demo_client True Guard_None) = Escalate"
proof -
  have quiet: "\<not> has_actionable_user_confirm_marker []" by (simp add: has_actionable_user_confirm_marker_def)
  have policy: "default_permission_policy demo_resolve (rq_tool_call (demo_call ''execute'' ''a.py'')) opts (Some ''/w'') = Some Escalate" for opts
    unfolding default_permission_policy_def by code_simp
  then show "policy_verdict held_request (demo_client True Guard_None) = Escalate"
    by (simp add: policy_verdict_def held_request_def demo_client_def)
  have read: "read_decision [] (JStr demo_key) = None" "\<not> read_ack [] (JStr demo_key)" "read_decision approved_dir (JStr demo_key) = Some demo_approval"
    using approval_reads_back by (simp_all add: read_decision_def read_ack_def read_json_def node_json_def approved_dir_def py_str_def)
  have loop: "hold_loop h 2 0 False 2 = Some (Decided demo_approval)" if "ho_key h = demo_key" "ho_polls h = approved_polls" for h
    using that read by (simp add: numeral_2_eq_2 approved_polls_def Let_def)
  have options: "select_allow_option (rq_options (demo_call ''execute'' ''a.py'')) = Some (JStr ''ok'')" by code_simp
  have "jget demo_approval ''decision'' = JStr ''allow''" "jget demo_approval ''option_id'' = JNull"
    by (simp_all add: demo_approval_def decision_payload_def jget_def)
  then have out: "outcome_from_decision demo_approval (rq_options held_request) = Allowed (JStr ''ok'')"
    using options by (simp add: outcome_from_decision_def held_request_def Let_def)
  have await: "\<exists>cl'. await_inline_decision 2 held_request rc c = Some (Allowed (JStr ''ok''), cl')"
    if "cl_inline_timeout c = 2" for rc c
    using that loop [of "hold_of held_request c"] out held_key
    by (simp add: await_inline_decision_def Let_def hold_of_def) (simp add: held_request_def demo_call_def)
  show "\<exists>cl'. request_permission 2 held_request (demo_client True Guard_None) = Some (Allowed (JStr ''ok''), cl')"
    using await policy
    by (simp add: request_permission_def Let_def guarded_def quiet) (simp add: held_request_def demo_client_def quiet)
qed

theorem worker_obeys_first_decision_witness:
  "offers (rq_options held_request) (JStr ''ok'')
   \<and> visible (JStr demo_key) (run_race demo_permit_env (JStr demo_key) True [0, 0, 0] demo_answering) = Some demo_approval"
proof -
  have start: "starting demo_permit_env (JStr (rq_key held_request)) (rc_writers demo_answering)"
    by (simp add: starting_def demo_answering_def held_key approval_reads_back)
  obtain cl' where run: "request_permission 2 held_request (demo_client True Guard_None) = Some (Allowed (JStr ''ok''), cl')"
    using approval_obeyed(1) by blast
  from worker_obeys_first_decision [OF start _ approval_polled run] approval_obeyed(2) show ?thesis
    by (simp add: demo_answering_def held_key)
qed

end
